(* ===== verification/Rocos_Prelude.thy ===== *)
theory Rocos_Prelude
  imports "HOL-Library.Word" "HOL-Library.Signed_Division"
begin

text \<open>
  Shared vocabulary of the development: names for the machine types of the C++ code, the
  little-endian byte codec that every SDO transfer of the program uses, first-error loops over
  configuration tables, the range of signed 64-bit arithmetic, and generic lemmas on words and
  lists. The components import this theory; it models no file of src/ by itself.
\<close>

named_theorems frame_simps \<open>fields an operation leaves unchanged\<close>
named_theorems step_defs \<open>unfoldings of the one-step operations of a component\<close>

section \<open>Machine types\<close>

type_synonym u8 = "8 word"
type_synonym u16 = "16 word"
type_synonym u32 = "32 word"
type_synonym u64 = "64 word"
type_synonym s32 = "32 word"

text \<open>
  Signed 64-bit quantities (nanosecond clocks) are integers; \<open>fits_int64\<close> is the range in
  which the C++ expression is defined.
\<close>

definition fits_int64 :: "int \<Rightarrow> bool" where
  "fits_int64 x \<longleftrightarrow> - (2 ^ 63) \<le> x \<and> x < 2 ^ 63"

lemma fits_int64I [intro]: "- 9223372036854775808 \<le> x \<Longrightarrow> x < 9223372036854775808 \<Longrightarrow> fits_int64 x"
  by (simp add: fits_int64_def)

section \<open>Little-endian bytes\<close>

text \<open>
  \<open>value |= std::uint32_t{data[i]} << (8 * i)\<close> over the bytes of a buffer, and
  \<open>data[i] = static_cast<std::uint8_t>(value >> (8 * i))\<close> for \<open>i < size\<close>.
\<close>

fun le_decode :: "u8 list \<Rightarrow> u32" where
  "le_decode [] = 0"
| "le_decode (b # bs) = or (ucast b) (push_bit 8 (le_decode bs))"

definition le_encode :: "nat \<Rightarrow> 'a::len word \<Rightarrow> u8 list" where
  "le_encode n v = map (\<lambda>i. ucast (drop_bit (8 * i) v)) [0..<n]"

lemma length_le_encode [simp]: "length (le_encode n v) = n"
  by (simp add: le_encode_def)

lemma le_encode_0 [simp]: "le_encode 0 v = []"
  by (simp add: le_encode_def)

lemma le_encode_Suc: "le_encode (Suc n) v = ucast v # le_encode n (drop_bit 8 v)"
proof -
  have "[0..<Suc n] = 0 # map Suc [0..<n]"
    by (simp add: upt_conv_Cons map_Suc_upt del: upt_Suc)
  then show ?thesis
    by (simp add: le_encode_def drop_bit_drop_bit comp_def add.commute del: upt_Suc)
qed

lemma le_encode_nth [simp]: "i < n \<Longrightarrow> le_encode n v ! i = ucast (drop_bit (8 * i) v)"
  by (simp add: le_encode_def)

text \<open>Decoding the first \<open>n\<close> bytes of a 32-bit value keeps its low \<open>8 n\<close> bits.\<close>

lemma bit_le_decode_encode:
  fixes v :: u32
  shows "bit (le_decode (le_encode n v)) i \<longleftrightarrow> i < 32 \<and> i < 8 * n \<and> bit v i"
proof (induction n arbitrary: v i)
  case 0
  then show ?case by simp
next
  case (Suc n)
  show ?case
    by (cases "i < 8")
       (auto simp: le_encode_Suc bit_or_iff bit_push_bit_iff bit_ucast_iff Suc.IH
          bit_drop_bit_eq dest: bit_imp_le_length)
qed

lemma le_decode_encode:
  fixes v :: u32
  shows "le_decode (le_encode n v) = take_bit (8 * n) v"
  by (rule bit_word_eqI) (auto simp: bit_le_decode_encode bit_take_bit_iff)

lemma le_decode_encode_4 [simp]: "le_decode (le_encode 4 (v :: u32)) = v"
  by (rule bit_word_eqI) (simp add: bit_le_decode_encode)

section \<open>First error of a table\<close>

text \<open>
  A validation loop of the program returns at the first row that fails. \<open>first_error f i xs\<close>
  runs \<open>f\<close> on the rows with their index, from \<open>i\<close>.
\<close>

fun first_error :: "(nat \<Rightarrow> 'a \<Rightarrow> 'e option) \<Rightarrow> nat \<Rightarrow> 'a list \<Rightarrow> 'e option" where
  "first_error f i [] = None"
| "first_error f i (x # xs) =
     (case f i x of Some e \<Rightarrow> Some e | None \<Rightarrow> first_error f (Suc i) xs)"

lemma first_error_None_iff:
  "first_error f i xs = None \<longleftrightarrow> (\<forall>k < length xs. f (i + k) (xs ! k) = None)"
proof (induction xs arbitrary: i)
  case Nil
  then show ?case by simp
next
  case (Cons x xs)
  then show ?case
    by (auto simp: less_Suc_eq_0_disj nth_Cons' split: option.splits)
qed

lemma first_error_Some:
  "first_error f i xs = Some e \<Longrightarrow>
     \<exists>k < length xs. f (i + k) (xs ! k) = Some e \<and> (\<forall>j < k. f (i + j) (xs ! j) = None)"
proof (induction xs arbitrary: i)
  case Nil
  then show ?case by simp
next
  case (Cons x xs)
  show ?case
  proof (cases "f i x")
    case None
    with Cons.prems have "first_error f (Suc i) xs = Some e" by simp
    from Cons.IH [OF this] obtain k where k: "k < length xs" "f (Suc i + k) (xs ! k) = Some e"
      "\<forall>j < k. f (Suc i + j) (xs ! j) = None" by blast
    with None show ?thesis
      by (intro exI [of _ "Suc k"]) (auto simp: less_Suc_eq_0_disj)
  next
    case (Some e')
    with Cons.prems show ?thesis by (intro exI [of _ 0]) auto
  qed
qed

text \<open>Two checks in sequence, the second run only when the first passed.\<close>

lemma option_seq_None [simp]:
  "(case x of None \<Rightarrow> y | Some e \<Rightarrow> Some e) = None \<longleftrightarrow> x = None \<and> y = None"
  by (cases x) auto

section \<open>Lists and words\<close>

lemma all_less_Suc_conv: "(\<forall>k < Suc n. P k) \<longleftrightarrow> P 0 \<and> (\<forall>k < n. P (Suc k))"
  by (auto simp: less_Suc_eq_0_disj)

lemma list_all_nth: "list_all P xs \<longleftrightarrow> (\<forall>k < length xs. P (xs ! k))"
  by (simp add: list_all_length)

lemma unat_lt_2p_32: "unat (x :: u32) < 4294967296"
  using unsigned_less [where ?'a = nat and w = x] by simp

lemma uint_lt_2p_32: "uint (x :: u32) < 4294967296"
  using unsigned_less [where ?'a = int and w = x] by simp

section \<open>Reachable states and consecutive counters\<close>

text \<open>
  A component that runs beside others is a step relation; its reachable states are the least set
  that holds the initial states and is closed under steps. The locale is the shape of every safety
  proof of the development: an invariant of the initial states that every step keeps.
\<close>

inductive reach :: "('s \<Rightarrow> bool) \<Rightarrow> ('s \<Rightarrow> 's \<Rightarrow> bool) \<Rightarrow> 's \<Rightarrow> bool" for init step where
  reach_init: "init s \<Longrightarrow> reach init step s"
| reach_step: "reach init step s \<Longrightarrow> step s t \<Longrightarrow> reach init step t"

locale safety =
  fixes init :: "'s \<Rightarrow> bool" and step :: "'s \<Rightarrow> 's \<Rightarrow> bool" and inv :: "'s \<Rightarrow> bool"
  assumes inv_init: "init s \<Longrightarrow> inv s"
    and inv_step: "inv s \<Longrightarrow> step s t \<Longrightarrow> inv t"
begin

lemma reach_inv: "reach init step s \<Longrightarrow> inv s"
  by (induction rule: reach.induct) (auto intro: inv_init inv_step)

lemma steps_inv: "step\<^sup>*\<^sup>* s t \<Longrightarrow> inv s \<Longrightarrow> inv t"
  by (induction rule: rtranclp_induct) (auto intro: inv_step)

end

text \<open>
  A counter of consecutive healthy observations, as a 64-bit word: a healthy observation adds one,
  an unhealthy one clears it. Three loops of the program gate a phase on five of them.
\<close>

fun trailing :: "bool list \<Rightarrow> nat" where
  "trailing [] = 0"
| "trailing (h # hs) = (if list_all id hs \<and> h then Suc (length hs) else trailing hs)"

lemma trailing_snoc [simp]: "trailing (hs @ [h]) = (if h then Suc (trailing hs) else 0)"
  by (induction hs) auto

lemma trailing_le: "trailing hs \<le> length hs"
  by (induction hs) auto

lemma le_trailing_iff:
  "k \<le> trailing hs \<longleftrightarrow> k \<le> length hs \<and> list_all id (drop (length hs - k) hs)"
proof (induction hs arbitrary: k rule: rev_induct)
  case Nil
  then show ?case by simp
next
  case (snoc h hs)
  show ?case
  proof (cases k)
    case 0
    then show ?thesis by simp
  next
    case (Suc n)
    have "length (hs @ [h]) - Suc n = length hs - n" by simp
    then show ?thesis using snoc.IH [of n] Suc by (auto simp: drop_append)
  qed
qed

locale consecutive_counter =
  fixes observe :: "'s \<Rightarrow> bool \<Rightarrow> 's" and cnt :: "'s \<Rightarrow> u64"
  assumes observe_cnt: "cnt (observe s h) = (if h then cnt s + 1 else 0)"
begin

lemma cnt_fold:
  assumes "cnt s = 0" "length hs < 2 ^ 64"
  shows "unat (cnt (fold (\<lambda>h s. observe s h) hs s)) = trailing hs"
  using assms(2)
proof (induction hs rule: rev_induct)
  case Nil
  then show ?case using assms(1) by simp
next
  case (snoc h hs)
  let ?c = "cnt (fold (\<lambda>h s. observe s h) hs s)"
  have "unat ?c < 2 ^ 64 - 1"
    using snoc trailing_le [of hs] by simp
  then have "unat (?c + 1) = Suc (unat ?c)" by (simp add: unat_word_ariths)
  then show ?case using snoc by (simp add: observe_cnt)
qed

end

end
