(* ===== verification/Cycle_Timing.thy ===== *)
theory Cycle_Timing
  imports Rocos_Prelude
begin

text \<open>
  The clock arithmetic and the running statistics of the real-time thread: the anonymous
  namespace of src/src/cyclic_task.cpp (nanosecond conversions, cycle statistics), the absolute
  deadline policy \<open>advanceDeadline\<close>, and the window summaries of src/src/runtime_report.hpp.

  A \<open>timespec\<close> is a pair of integers and nanosecond counts are integers;
  \<open>advance_deadline64\<close> repeats the computation with every signed 64-bit operation
  checked, and \<open>advance_deadline64_defined\<close> gives the range of clocks in which no
  operation overflows, so that the unchecked model is the code there. Durations are elements of
  an ordered field: the model computes the minimum, the maximum and the mean without the
  rounding of the C++ \<open>double\<close>.
\<close>

section \<open>Clock values\<close>

record timespec =
  tv_sec :: int
  tv_nsec :: int

definition kNsecPerSec :: int where
  "kNsecPerSec = 1000000000"

definition to_nanoseconds :: "timespec \<Rightarrow> int" where
  "to_nanoseconds ts = tv_sec ts * kNsecPerSec + tv_nsec ts"

definition from_nanoseconds :: "int \<Rightarrow> timespec" where
  "from_nanoseconds ns =
     (let sec = ns sdiv kNsecPerSec; nsec = ns smod kNsecPerSec
      in if nsec < 0 then \<lparr>tv_sec = sec - 1, tv_nsec = nsec + kNsecPerSec\<rparr>
         else \<lparr>tv_sec = sec, tv_nsec = nsec\<rparr>)"

definition to_microseconds :: "timespec \<Rightarrow> int" where
  "to_microseconds ts = to_nanoseconds ts sdiv 1000"

definition elapsed_microseconds :: "timespec \<Rightarrow> timespec \<Rightarrow> 'r::linordered_field" where
  "elapsed_microseconds from to = of_int (to_nanoseconds to - to_nanoseconds from) / 1000"

definition normalized :: "timespec \<Rightarrow> bool" where
  "normalized ts \<longleftrightarrow> 0 \<le> tv_nsec ts \<and> tv_nsec ts < kNsecPerSec"

lemma smod_nonneg_imp:
  fixes n m :: int
  assumes "0 < m"
  shows "n smod m < m" and "- m < n smod m"
  using assms smod_int_range [of m n] by (auto simp: smod_int_alt_def)

lemma from_nanoseconds_to [simp]: "to_nanoseconds (from_nanoseconds ns) = ns"
  using sdiv_mult_smod_eq [of ns kNsecPerSec]
  by (simp add: from_nanoseconds_def to_nanoseconds_def Let_def algebra_simps)

lemma normalized_from_nanoseconds: "normalized (from_nanoseconds ns)"
  using smod_nonneg_imp [of kNsecPerSec ns]
  by (auto simp: from_nanoseconds_def normalized_def Let_def kNsecPerSec_def)

lemma normalized_unique:
  assumes "normalized a" "normalized b" "to_nanoseconds a = to_nanoseconds b"
  shows "a = b"
proof -
  have "tv_nsec a = to_nanoseconds a mod kNsecPerSec" "tv_nsec b = to_nanoseconds b mod kNsecPerSec"
    using assms(1,2) by (simp_all add: to_nanoseconds_def normalized_def mod_pos_pos_trivial)
  then have "tv_nsec a = tv_nsec b" using assms(3) by simp
  moreover from this have "tv_sec a = tv_sec b"
    using assms(3) by (simp add: to_nanoseconds_def kNsecPerSec_def)
  ultimately show ?thesis by (cases a; cases b) simp
qed

text \<open>
  Clock values are ordered by seconds, then nanoseconds; on normalised values this is the order of the
  nanosecond counts that the code compares.
\<close>

instantiation timespec_ext :: (linorder) linorder
begin

definition less_eq_timespec_ext :: "'a timespec_scheme \<Rightarrow> 'a timespec_scheme \<Rightarrow> bool" where
  "less_eq_timespec_ext a b \<longleftrightarrow> tv_sec a < tv_sec b \<or> tv_sec a = tv_sec b \<and> (tv_nsec a < tv_nsec b
     \<or> tv_nsec a = tv_nsec b \<and> timespec.more a \<le> timespec.more b)"

definition less_timespec_ext :: "'a timespec_scheme \<Rightarrow> 'a timespec_scheme \<Rightarrow> bool" where
  "less_timespec_ext a b \<longleftrightarrow> a \<le> b \<and> \<not> b \<le> a"

instance
proof
  fix a b c :: "'a timespec_scheme"
  show "a < b \<longleftrightarrow> a \<le> b \<and> \<not> b \<le> a" by (simp add: less_timespec_ext_def)
  show "a \<le> a" by (simp add: less_eq_timespec_ext_def)
  show "a \<le> b \<Longrightarrow> b \<le> c \<Longrightarrow> a \<le> c" by (auto simp: less_eq_timespec_ext_def)
  show "a \<le> b \<Longrightarrow> b \<le> a \<Longrightarrow> a = b" by (cases a; cases b) (auto simp: less_eq_timespec_ext_def)
  show "a \<le> b \<or> b \<le> a" by (auto simp: less_eq_timespec_ext_def)
qed

end

lemma timespec_le_iff:
  fixes a b :: timespec
  assumes "normalized a" "normalized b"
  shows "a \<le> b \<longleftrightarrow> to_nanoseconds a \<le> to_nanoseconds b"
  using assms by (auto simp: less_eq_timespec_ext_def normalized_def to_nanoseconds_def kNsecPerSec_def)

lemma timespec_less_iff:
  fixes a b :: timespec
  assumes "normalized a" "normalized b"
  shows "a < b \<longleftrightarrow> to_nanoseconds a < to_nanoseconds b"
  using timespec_le_iff [OF assms] timespec_le_iff [OF assms(2,1)] by (auto simp: less_timespec_ext_def)

section \<open>The absolute deadline\<close>

definition advance_deadline :: "timespec \<Rightarrow> u32 \<Rightarrow> timespec \<Rightarrow> timespec \<times> u64" where
  "advance_deadline previous_deadline period_us now =
     (if period_us = 0 then (previous_deadline, 0)
      else
        let period_ns = uint period_us * 1000;
            previous_ns = to_nanoseconds previous_deadline;
            now_ns = to_nanoseconds now;
            (intervals, missed_intervals) =
              (if previous_ns + period_ns \<le> now_ns
               then let elapsed = now_ns - previous_ns;
                        intervals = elapsed sdiv period_ns + 1
                    in (intervals, word_of_int (intervals - 1))
               else (1, 0))
        in (from_nanoseconds (previous_ns + intervals * period_ns), missed_intervals))"

text \<open>
  The same computation with every signed 64-bit operation checked: \<open>None\<close> where C++ gives
  no meaning to the expression.
\<close>

definition chk64 :: "int \<Rightarrow> int option" where
  "chk64 x = (if fits_int64 x then Some x else None)"

definition to_nanoseconds64 :: "timespec \<Rightarrow> int option" where
  "to_nanoseconds64 ts =
     Option.bind (chk64 (tv_sec ts * kNsecPerSec)) (\<lambda>s. chk64 (s + tv_nsec ts))"

definition advance_deadline64 :: "timespec \<Rightarrow> u32 \<Rightarrow> timespec \<Rightarrow> (timespec \<times> u64) option" where
  "advance_deadline64 previous_deadline period_us now =
     (if period_us = 0 then Some (previous_deadline, 0)
      else
        Option.bind (chk64 (uint period_us * 1000)) (\<lambda>period_ns.
        Option.bind (to_nanoseconds64 previous_deadline) (\<lambda>previous_ns.
        Option.bind (to_nanoseconds64 now) (\<lambda>now_ns.
        Option.bind (chk64 (previous_ns + period_ns)) (\<lambda>next_ns.
        Option.bind
          (if next_ns \<le> now_ns
           then Option.bind (chk64 (now_ns - previous_ns)) (\<lambda>elapsed.
                Option.bind (chk64 (elapsed sdiv period_ns + 1)) (\<lambda>intervals.
                Some (intervals, word_of_int (intervals - 1))))
           else Some (1, 0)) (\<lambda>(intervals, missed_intervals).
        Option.bind (chk64 (intervals * period_ns)) (\<lambda>advance.
        Option.bind (chk64 (previous_ns + advance)) (\<lambda>ns.
        Some (from_nanoseconds ns, missed_intervals)))))))))"

text \<open>A clock value of a machine that has been up for less than 126 years.\<close>

definition clock_in_range :: "timespec \<Rightarrow> bool" where
  "clock_in_range ts \<longleftrightarrow> 0 \<le> tv_sec ts \<and> tv_sec ts \<le> 4000000000 \<and> normalized ts"

lemma clock_in_range_ns:
  "clock_in_range ts \<Longrightarrow> 0 \<le> to_nanoseconds ts \<and> to_nanoseconds ts < 4000000001000000000"
  by (auto simp: clock_in_range_def normalized_def to_nanoseconds_def kNsecPerSec_def)

lemma to_nanoseconds64_in_range:
  "clock_in_range ts \<Longrightarrow> to_nanoseconds64 ts = Some (to_nanoseconds ts)"
  by (auto simp: to_nanoseconds64_def chk64_def clock_in_range_def normalized_def
      to_nanoseconds_def kNsecPerSec_def fits_int64_def)

text \<open>The number of whole periods from the previous deadline to the end of the cycle.\<close>

lemma skipped_bounds:
  fixes prev now p :: int
  assumes "0 < p" "prev + p \<le> now"
  shows "(now - prev) sdiv p = (now - prev) div p"
    and "1 \<le> (now - prev) div p"
    and "((now - prev) div p) * p \<le> now - prev"
    and "now - prev < ((now - prev) div p + 1) * p"
    and "(now - prev) div p \<le> now - prev"
proof -
  have eq: "(now - prev) div p * p + (now - prev) mod p = now - prev"
    by (rule div_mult_mod_eq)
  have rem: "0 \<le> (now - prev) mod p" "(now - prev) mod p < p"
    using assms(1) by simp_all
  show "(now - prev) sdiv p = (now - prev) div p"
    using assms by (simp add: signed_divide_int_eq_divide_int)
  show one: "1 \<le> (now - prev) div p"
    using assms zdiv_mono1 [of p "now - prev" p] by simp
  show le: "((now - prev) div p) * p \<le> now - prev"
    using eq rem by linarith
  have "((now - prev) div p + 1) * p = (now - prev) div p * p + p"
    by (simp add: distrib_right)
  then show "now - prev < ((now - prev) div p + 1) * p"
    using eq rem by linarith
  have "(now - prev) div p * 1 \<le> (now - prev) div p * p"
    using one assms(1) by (intro mult_left_mono) auto
  then show "(now - prev) div p \<le> now - prev"
    using le by linarith
qed

text \<open>
  The result in nanoseconds, and the number of skipped periods, for a positive period: the two
  facts every later proof about deadlines rests on.
\<close>

definition skipped_periods :: "int \<Rightarrow> int \<Rightarrow> int \<Rightarrow> int" where
  "skipped_periods p prev now = (if prev + p \<le> now then (now - prev) div p else 0)"

lemma period_ns_bounds:
  fixes period :: u32
  assumes "period \<noteq> 0"
  shows "0 < uint period * 1000" and "uint period * 1000 < 4294967296000"
proof -
  have "uint period \<noteq> 0" using assms by (simp add: uint_0_iff)
  then show "0 < uint period * 1000" by (simp add: less_le)
  show "uint period * 1000 < 4294967296000" using uint_lt_2p_32 [of period] by linarith
qed

lemma advance_deadline_ns:
  assumes "period \<noteq> 0"
  shows "to_nanoseconds (fst (advance_deadline prev period now)) =
           to_nanoseconds prev + (skipped_periods (uint period * 1000) (to_nanoseconds prev) (to_nanoseconds now) + 1)
             * (uint period * 1000)"
    and "snd (advance_deadline prev period now) =
           word_of_int (skipped_periods (uint period * 1000) (to_nanoseconds prev) (to_nanoseconds now))"
    and "normalized (fst (advance_deadline prev period now))"
proof -
  have "0 < uint period * 1000"
    using assms by (simp add: less_le uint_0_iff)
  then show "to_nanoseconds (fst (advance_deadline prev period now)) =
           to_nanoseconds prev + (skipped_periods (uint period * 1000) (to_nanoseconds prev) (to_nanoseconds now) + 1)
             * (uint period * 1000)"
    and "snd (advance_deadline prev period now) =
           word_of_int (skipped_periods (uint period * 1000) (to_nanoseconds prev) (to_nanoseconds now))"
    and "normalized (fst (advance_deadline prev period now))"
    using assms
    by (auto simp: advance_deadline_def skipped_periods_def Let_def skipped_bounds(1)
        normalized_from_nanoseconds)
qed

lemma skipped_periods_bounds:
  assumes "0 < p"
  shows "0 \<le> skipped_periods p prev now"
    and "now < prev + (skipped_periods p prev now + 1) * p"
    and "0 < skipped_periods p prev now \<Longrightarrow> prev + skipped_periods p prev now * p \<le> now"
    and "0 \<le> prev \<Longrightarrow> 0 \<le> now \<Longrightarrow> skipped_periods p prev now \<le> now"
  using skipped_bounds [of p prev now] assms
  by (auto simp: skipped_periods_def algebra_simps not_le)

text \<open>As a clock value the next deadline is after the clock and after the previous deadline.\<close>

lemma advance_deadline_later:
  assumes "period \<noteq> 0" "normalized prev" "normalized now"
  shows "max prev now < fst (advance_deadline prev period now)"
  using advance_deadline_ns [OF assms(1), of prev now] period_ns_bounds [OF assms(1)]
    skipped_periods_bounds(1,2) [OF period_ns_bounds(1) [OF assms(1)], where prev = "to_nanoseconds prev" and now = "to_nanoseconds now"]
  by (simp add: timespec_less_iff assms zero_less_mult_iff)

text \<open>
  Claim C2. The next deadline is strictly in the future, lies on the grid of the previous deadline
  (a whole number of periods after it) and is a normalised timespec; the reported number of missed
  intervals is exactly the number of grid points after the previous deadline that have passed, so
  no historical cycle is run again and none is silently dropped.
\<close>
theorem advance_deadline_next:
  assumes "period \<noteq> 0" "clock_in_range prev" "clock_in_range now"
  defines "p \<equiv> uint period * 1000"
  defines "next \<equiv> to_nanoseconds (fst (advance_deadline prev period now))"
  defines "missed \<equiv> uint (snd (advance_deadline prev period now))"
  shows "to_nanoseconds now < next \<and> to_nanoseconds prev < next
    \<and> next = to_nanoseconds prev + (missed + 1) * p
    \<and> missed = int (card {k. 0 < k \<and> to_nanoseconds prev + int k * p \<le> to_nanoseconds now})
    \<and> normalized (fst (advance_deadline prev period now))"
proof -
  let ?a = "to_nanoseconds prev" and ?b = "to_nanoseconds now"
  let ?m = "skipped_periods p ?a ?b"
  have p: "0 < p" using period_ns_bounds [OF assms(1)] by (simp add: p_def)
  note b = skipped_periods_bounds [OF p, where prev = ?a and now = ?b]
  have range: "0 \<le> ?m" "?m < 2 ^ 64"
    using b(1) b(4) clock_in_range_ns [OF assms(2)] clock_in_range_ns [OF assms(3)] by auto
  have m: "missed = ?m"
    using range by (simp add: missed_def advance_deadline_ns(2) [OF assms(1)] p_def [symmetric]
        uint_word_of_int take_bit_int_eq_self)
  have nxt: "next = ?a + (?m + 1) * p"
    by (simp add: next_def p_def advance_deadline_ns(1) [OF assms(1)])
  have "{k. 0 < k \<and> ?a + int k * p \<le> ?b} = {0<..nat ?m}"
  proof (intro set_eqI)
    fix k
    have "?a + int k * p \<le> ?b \<longleftrightarrow> int k \<le> ?m" if "0 < k"
    proof
      assume "?a + int k * p \<le> ?b"
      then have "int k * p < (?m + 1) * p" using b(2) by linarith
      then have "int k < ?m + 1" using p by (simp add: mult_less_cancel_right)
      then show "int k \<le> ?m" by simp
    next
      assume k: "int k \<le> ?m"
      then have "int k * p \<le> ?m * p" using p by (simp add: mult_right_mono)
      moreover have "?a + ?m * p \<le> ?b" using b(3) k that by linarith
      ultimately show "?a + int k * p \<le> ?b" by linarith
    qed
    then show "k \<in> {k. 0 < k \<and> ?a + int k * p \<le> ?b} \<longleftrightarrow> k \<in> {0<..nat ?m}"
      using range(1) by auto
  qed
  then have "int (card {k. 0 < k \<and> ?a + int k * p \<le> ?b}) = ?m"
    using range(1) by simp
  moreover have "?a < next"
    using nxt p range(1) by (simp add: zero_less_mult_iff)
  ultimately show ?thesis
    using b(2) nxt m advance_deadline_ns(3) [OF assms(1)] by simp
qed

theorem advance_deadline_next_witness:
  "to_nanoseconds (fst (advance_deadline \<lparr>tv_sec = 10, tv_nsec = 0\<rparr> 1000 \<lparr>tv_sec = 10, tv_nsec = 3500000\<rparr>))
     = 10004000000
   \<and> uint (snd (advance_deadline \<lparr>tv_sec = 10, tv_nsec = 0\<rparr> 1000 \<lparr>tv_sec = 10, tv_nsec = 3500000\<rparr>)) = 3
   \<and> card {k. 0 < k \<and> (10000000000::int) + int k * 1000000 \<le> 10003500000} = 3"
proof -
  let ?p = "\<lparr>tv_sec = 10, tv_nsec = 0\<rparr>" and ?n = "\<lparr>tv_sec = 10, tv_nsec = 3500000\<rparr>"
  have h: "(1000::u32) \<noteq> 0" "clock_in_range ?p" "clock_in_range ?n"
    by (simp_all add: clock_in_range_def normalized_def kNsecPerSec_def)
  have e: "advance_deadline ?p 1000 ?n = (\<lparr>tv_sec = 10, tv_nsec = 4000000\<rparr>, 3)"
    by (simp add: advance_deadline_def to_nanoseconds_def from_nanoseconds_def kNsecPerSec_def Let_def)
  show ?thesis
    using advance_deadline_next [OF h] by (simp add: e to_nanoseconds_def kNsecPerSec_def)
qed

text \<open>
  Claim C3. For clocks of a machine that has been up for less than 126 years and any 32-bit period,
  no signed 64-bit operation of \<open>advanceDeadline\<close> overflows: the computation with every
  operation checked is defined and equals the unchecked one.
\<close>
theorem advance_deadline64_defined:
  assumes "clock_in_range prev" "clock_in_range now"
  shows "advance_deadline64 prev period now = Some (advance_deadline prev period now)"
proof (cases "period = 0")
  case True
  then show ?thesis by (simp add: advance_deadline64_def advance_deadline_def)
next
  case False
  let ?a = "to_nanoseconds prev" and ?b = "to_nanoseconds now" and ?p = "uint period * 1000"
  have a: "0 \<le> ?a" "?a < 4000000001000000000" and b: "0 \<le> ?b" "?b < 4000000001000000000"
    using clock_in_range_ns assms by auto
  have p: "0 < ?p" "?p < 4294967296000"
    using period_ns_bounds [OF False] by auto
  have f: "fits_int64 ?p" "fits_int64 (?a + ?p)"
    using a p by (intro fits_int64I; linarith)+
  show ?thesis
  proof (cases "?a + ?p \<le> ?b")
    case True
    note s = skipped_bounds [OF p(1) True]
    have g: "fits_int64 (?b - ?a)" "fits_int64 ((?b - ?a) div ?p + 1)"
      "fits_int64 (((?b - ?a) div ?p + 1) * ?p)" "fits_int64 (?a + ((?b - ?a) div ?p + 1) * ?p)"
      using a b p s unfolding distrib_right by (intro fits_int64I; linarith)+
    show ?thesis
      using False True f g
      by (simp add: advance_deadline64_def advance_deadline_def to_nanoseconds64_in_range assms Let_def
          chk64_def s(1))
  next
    case F: False
    then show ?thesis
      using False f
      by (simp add: advance_deadline64_def advance_deadline_def to_nanoseconds64_in_range assms Let_def
          chk64_def)
  qed
qed

theorem advance_deadline64_defined_witness:
  "advance_deadline64 \<lparr>tv_sec = 4000000000, tv_nsec = 999999999\<rparr> 4294967295 \<lparr>tv_sec = 0, tv_nsec = 0\<rparr>
     = Some (\<lparr>tv_sec = 4000004295, tv_nsec = 967294999\<rparr>, 0)"
proof -
  let ?p = "\<lparr>tv_sec = 4000000000, tv_nsec = 999999999\<rparr>" and ?n = "\<lparr>tv_sec = 0, tv_nsec = 0\<rparr>"
  have h: "clock_in_range ?p" "clock_in_range ?n"
    by (simp_all add: clock_in_range_def normalized_def kNsecPerSec_def)
  show ?thesis
    unfolding advance_deadline64_defined [OF h]
    by (simp add: advance_deadline_def to_nanoseconds_def from_nanoseconds_def kNsecPerSec_def Let_def)
qed

section \<open>A deadline policy, and a run of cycles under it\<close>

text \<open>
  What the cyclic thread needs of the function that moves its deadline: the laws below. The client
  lemma says what a whole run of cycles does, whatever the finish times of the cycles are.
\<close>

locale deadline_policy =
  fixes period :: int
    and nxt :: "int \<Rightarrow> int \<Rightarrow> int \<times> int"
    and clock_ok :: "int \<Rightarrow> bool"
  assumes period_pos: "clock_ok f \<Longrightarrow> 0 < period"
    and nxt_grid: "0 \<le> d \<Longrightarrow> clock_ok f \<Longrightarrow> fst (nxt d f) = d + (snd (nxt d f) + 1) * period"
    and nxt_missed: "0 \<le> d \<Longrightarrow> clock_ok f \<Longrightarrow> 0 \<le> snd (nxt d f)"
    and nxt_future: "0 \<le> d \<Longrightarrow> clock_ok f \<Longrightarrow> f < fst (nxt d f)"
    and nxt_passed: "0 \<le> d \<Longrightarrow> clock_ok f \<Longrightarrow> 0 < snd (nxt d f) \<Longrightarrow> d + snd (nxt d f) * period \<le> f"

fun deadline_run :: "(int \<Rightarrow> int \<Rightarrow> int \<times> int) \<Rightarrow> int \<Rightarrow> int list \<Rightarrow> int \<times> int" where
  "deadline_run nxt d [] = (d, 0)"
| "deadline_run nxt d (f # fs) =
     (let (d', m) = nxt d f; (e, ms) = deadline_run nxt d' fs in (e, m + ms))"

context deadline_policy begin

lemma nxt_nonneg:
  assumes "0 \<le> d" "clock_ok f"
  shows "0 \<le> fst (nxt d f)" and "d < fst (nxt d f)"
proof -
  have "0 < (snd (nxt d f) + 1) * period"
    using nxt_missed [OF assms] period_pos [OF assms(2)] by (intro mult_pos_pos) auto
  then show "d < fst (nxt d f)" using nxt_grid [OF assms] by simp
  then show "0 \<le> fst (nxt d f)" using assms(1) by simp
qed

lemma run_accounting:
  "0 \<le> d \<Longrightarrow> list_all clock_ok fs \<Longrightarrow>
     fst (deadline_run nxt d fs) = d + (int (length fs) + snd (deadline_run nxt d fs)) * period
     \<and> 0 \<le> snd (deadline_run nxt d fs)"
proof (induction fs arbitrary: d)
  case Nil
  then show ?case by simp
next
  case (Cons f fs)
  have ok: "clock_ok f" "list_all clock_ok fs" using Cons.prems(2) by auto
  obtain d' m where n: "nxt d f = (d', m)" by fastforce
  have "0 \<le> d'" using nxt_nonneg [OF Cons.prems(1) ok(1)] n by simp
  note IH = Cons.IH [OF this ok(2)]
  have "d' = d + (m + 1) * period" "0 \<le> m"
    using nxt_grid [OF Cons.prems(1) ok(1)] nxt_missed [OF Cons.prems(1) ok(1)] n by auto
  with IH show ?case
    by (auto simp: n distrib_right split: prod.splits)
qed

text \<open>The periods skipped in a run fit between its first deadline and its last finish time.\<close>

lemma run_missed_bound:
  "0 \<le> d \<Longrightarrow> list_all clock_ok fs \<Longrightarrow> \<forall>f \<in> set fs. f \<le> last_finish \<Longrightarrow>
     snd (deadline_run nxt d fs) * period \<le> max 0 (last_finish - d)"
proof (induction fs arbitrary: d)
  case Nil
  then show ?case by simp
next
  case (Cons f fs)
  have ok: "clock_ok f" "list_all clock_ok fs" using Cons.prems(2) by auto
  obtain d' m where n: "nxt d f = (d', m)" by fastforce
  have d': "0 \<le> d'" using nxt_nonneg [OF Cons.prems(1) ok(1)] n by simp
  have "snd (deadline_run nxt d' fs) * period \<le> max 0 (last_finish - d')"
    using Cons.IH [OF d' ok(2)] Cons.prems(3) by simp
  moreover have "d' = d + m * period + period" "0 \<le> m"
    using nxt_grid [OF Cons.prems(1) ok(1)] nxt_missed [OF Cons.prems(1) ok(1)] n
    by (auto simp: distrib_right)
  moreover have "m * period \<le> max 0 (last_finish - d)"
  proof (cases "0 < m")
    case True
    then show ?thesis using nxt_passed [OF Cons.prems(1) ok(1)] n Cons.prems(3) by auto
  next
    case False
    with \<open>0 \<le> m\<close> show ?thesis by simp
  qed
  ultimately show ?case
    using period_pos [OF ok(1)] by (auto simp: n distrib_right split: prod.splits)
qed

end

text \<open>The policy of the code, on nanosecond counts.\<close>

definition advance_ns :: "u32 \<Rightarrow> int \<Rightarrow> int \<Rightarrow> int \<times> int" where
  "advance_ns period d f =
     (let (ts, missed) = advance_deadline (from_nanoseconds d) period (from_nanoseconds f)
      in (to_nanoseconds ts, uint missed))"

definition clock_ns_ok :: "u32 \<Rightarrow> int \<Rightarrow> bool" where
  "clock_ns_ok period f \<longleftrightarrow> period \<noteq> 0 \<and> 0 \<le> f \<and> f < 2 ^ 63"

lemma advance_ns_eq:
  assumes "0 \<le> d" "clock_ns_ok period f"
  shows "advance_ns period d f =
    (let m = skipped_periods (uint period * 1000) d f in (d + (m + 1) * (uint period * 1000), m))"
proof -
  have nz: "period \<noteq> 0" using assms(2) by (simp add: clock_ns_ok_def)
  note p = period_ns_bounds(1) [OF nz]
  have "0 \<le> skipped_periods (uint period * 1000) d f" "skipped_periods (uint period * 1000) d f < 2 ^ 64"
    using skipped_periods_bounds [OF p, where prev = d and now = f] assms
    by (auto simp: clock_ns_ok_def)
  then show ?thesis
    using advance_deadline_ns [OF nz, of "from_nanoseconds d" "from_nanoseconds f"]
    by (simp add: advance_ns_def split_beta Let_def uint_word_of_int take_bit_int_eq_self)
qed

lemma clock_ns_ok_pos: "clock_ns_ok period f \<Longrightarrow> 0 < uint period * 1000"
  by (auto simp: clock_ns_ok_def dest: period_ns_bounds)

interpretation cyc: deadline_policy "uint period * 1000" "advance_ns period" "clock_ns_ok period"
  for period :: u32
  by unfold_locales
     (auto simp: advance_ns_eq Let_def clock_ns_ok_pos
        intro: skipped_periods_bounds [OF clock_ns_ok_pos])

text \<open>
  What the loop of \<open>CyclicTask::run\<close> does with its deadline: at the end of every cycle
  \<open>deadline = advanceDeadline(deadline, period_us_, finish_time, missed)\<close> and
  \<open>statistics_.missed_deadlines += missed\<close>.
\<close>

fun cycle_deadlines :: "u32 \<Rightarrow> timespec \<Rightarrow> u64 \<Rightarrow> timespec list \<Rightarrow> timespec \<times> u64" where
  "cycle_deadlines period deadline missed_total [] = (deadline, missed_total)"
| "cycle_deadlines period deadline missed_total (finish # fs) =
     (let (deadline', missed) = advance_deadline deadline period finish
      in cycle_deadlines period deadline' (missed_total + missed) fs)"

lemma from_nanoseconds_of:
  "normalized ts \<Longrightarrow> from_nanoseconds (to_nanoseconds ts) = ts"
  by (rule normalized_unique) (simp_all add: normalized_from_nanoseconds)

lemma cycle_deadlines_run:
  "period \<noteq> 0 \<Longrightarrow> normalized d \<Longrightarrow> 0 \<le> to_nanoseconds d \<Longrightarrow>
     \<forall>f \<in> set fs. normalized f \<and> clock_ns_ok period (to_nanoseconds f) \<Longrightarrow>
     to_nanoseconds (fst (cycle_deadlines period d m fs))
       = fst (deadline_run (advance_ns period) (to_nanoseconds d) (map to_nanoseconds fs))
     \<and> snd (cycle_deadlines period d m fs)
       = m + word_of_int (snd (deadline_run (advance_ns period) (to_nanoseconds d) (map to_nanoseconds fs)))"
proof (induction fs arbitrary: d m)
  case Nil
  then show ?case by simp
next
  case (Cons f fs)
  obtain d' k where a: "advance_deadline d period f = (d', k)" by fastforce
  have ns: "advance_ns period (to_nanoseconds d) (to_nanoseconds f) = (to_nanoseconds d', uint k)"
    using Cons.prems a by (simp add: advance_ns_def from_nanoseconds_of)
  have d': "normalized d'"
    using advance_deadline_ns(3) [OF Cons.prems(1), of d f] a by simp
  have "0 \<le> to_nanoseconds d'"
    using cyc.nxt_nonneg(1) [of "to_nanoseconds d" period "to_nanoseconds f"] Cons.prems(3,4) ns
    by simp
  with Cons.IH [OF Cons.prems(1) d' this, of "m + k"] Cons.prems(4) show ?case
    by (simp add: a ns split_beta)
qed

text \<open>
  Claim C4. Over any run of cycles, whatever their finish times, the deadline stays on the phase
  grid of the first deadline and the accumulated \<open>missed_deadlines\<close> counter accounts for every
  period: final deadline = first deadline + (cycles run + deadlines missed) periods, with the
  64-bit counter exact (it has not wrapped).
\<close>
theorem cycle_deadlines_accounting:
  assumes "period \<noteq> 0" "clock_in_range deadline" "\<forall>f \<in> set fs. clock_in_range f"
  shows "to_nanoseconds (fst (cycle_deadlines period deadline 0 fs)) =
           to_nanoseconds deadline
           + (int (length fs) + uint (snd (cycle_deadlines period deadline 0 fs))) * (uint period * 1000)"
proof -
  let ?d = "to_nanoseconds deadline" and ?fs = "map to_nanoseconds fs"
  have d: "0 \<le> ?d" using clock_in_range_ns [OF assms(2)] by simp
  have ok: "\<forall>f \<in> set fs. normalized f \<and> clock_ns_ok period (to_nanoseconds f)"
    and hi: "\<forall>f \<in> set ?fs. f \<le> 4000000001000000000"
    using assms(1,3) clock_in_range_ns by (fastforce simp: clock_in_range_def clock_ns_ok_def)+
  then have ok': "list_all (clock_ns_ok period) ?fs" by (simp add: list_all_iff)
  let ?m = "snd (deadline_run (advance_ns period) ?d ?fs)"
  note acc = cyc.run_accounting [OF d ok']
  have "?m * 1 \<le> ?m * (uint period * 1000)"
    using acc period_ns_bounds(1) [OF assms(1)] by (intro mult_left_mono) auto
  then have "?m < 2 ^ 64"
    using cyc.run_missed_bound [OF d ok' hi] d by simp
  then have "uint (word_of_int ?m :: u64) = ?m"
    using acc by (simp add: uint_word_of_int take_bit_int_eq_self)
  then show ?thesis
    using cycle_deadlines_run [OF assms(1) _ d ok, of 0] assms(2) acc
    by (simp add: clock_in_range_def)
qed

theorem cycle_deadlines_accounting_witness:
  "to_nanoseconds (fst (cycle_deadlines 1000 \<lparr>tv_sec = 5, tv_nsec = 0\<rparr> 0
      [\<lparr>tv_sec = 5, tv_nsec = 200000\<rparr>, \<lparr>tv_sec = 5, tv_nsec = 4300000\<rparr>])) = 5005000000"
proof -
  let ?d = "\<lparr>tv_sec = 5, tv_nsec = 0\<rparr>"
  let ?fs = "[\<lparr>tv_sec = 5, tv_nsec = 200000\<rparr>, \<lparr>tv_sec = 5, tv_nsec = 4300000\<rparr>]"
  have h: "(1000::u32) \<noteq> 0" "clock_in_range ?d" "\<forall>f \<in> set ?fs. clock_in_range f"
    by (simp_all add: clock_in_range_def normalized_def kNsecPerSec_def)
  have "snd (cycle_deadlines 1000 ?d 0 ?fs) = 3"
    by (simp add: advance_deadline_def to_nanoseconds_def from_nanoseconds_def kNsecPerSec_def Let_def)
  then show ?thesis
    using cycle_deadlines_accounting [OF h] by (simp add: to_nanoseconds_def kNsecPerSec_def)
qed

end
