(* ===== verification/Cycle_Statistics.thy ===== *)
theory Cycle_Statistics
  imports Complex_Main Rocos_Prelude
begin

text \<open>
  Running statistics of the real-time thread: \<open>CycleStatistics\<close> with
  \<open>resetTimingStatistics\<close> and \<open>accountCycleDuration\<close> (src/src/cyclic_task.hpp,
  src/src/cyclic_task.cpp), and \<open>TimingSummary::add\<close> of the report window
  (src/src/runtime_report.hpp). The two classes compute their averages with different update rules;
  the locales \<open>running_extremes\<close> (count, minimum, maximum) and \<open>running_summary\<close> (with the mean)
  state the common contract and both are interpreted.
  Durations are elements of an ordered field. \<open>account_cycle_duration\<close> and \<open>timing_add\<close> compute in
  exact arithmetic; \<open>account_cycle_duration_rounded\<close> and \<open>timing_add_rounded\<close> are the same code with
  an arbitrary rounding after every operation on \<open>double\<close>, for the error bounds of the averages
  (counts, minima and maxima are only copied and compared, so rounding does not change them).
  The sample counters are 64-bit words.
\<close>

section \<open>The contract of a running summary\<close>

locale running_extremes =
  fixes add :: "'s \<Rightarrow> 'r::linordered_field \<Rightarrow> 's"
    and count :: "'s \<Rightarrow> u64"
    and lo hi :: "'s \<Rightarrow> 'r"
  assumes extremes_first: "count s = 0 \<Longrightarrow>
      count (add s d) = 1 \<and> lo (add s d) = d \<and> hi (add s d) = d"
    and extremes_more: "0 < count s \<Longrightarrow> unat (count s) < 2 ^ 64 - 1 \<Longrightarrow>
      count (add s d) = count s + 1 \<and> lo (add s d) = min (lo s) d \<and> hi (add s d) = max (hi s) d"
begin

text \<open>The count and the extremes of a non-empty list of samples.\<close>

definition extremes :: "'s \<Rightarrow> 'r list \<Rightarrow> bool" where
  "extremes s ds \<longleftrightarrow> unat (count s) = length ds \<and> lo s = Min (set ds) \<and> hi s = Max (set ds)"

lemma extremes_snoc:
  assumes "extremes s ds" "ds \<noteq> []" "length ds < 2 ^ 64 - 1"
  shows "extremes (add s d) (ds @ [d])"
proof -
  have n: "unat (count s) = length ds" and pos: "0 < count s"
    using assms by (auto simp: extremes_def word_neq_0_conv [symmetric])
  then have "unat (count s + 1) = length ds + 1"
    using assms(3) by (simp add: unat_word_ariths)
  then show ?thesis
    using extremes_more [OF pos, of d] assms n
    by (simp add: extremes_def min.commute max.commute)
qed

lemma extremes_fold:
  assumes "count s = 0" "ds \<noteq> []" "length ds < 2 ^ 64"
  shows "extremes (fold (\<lambda>d s. add s d) ds s) ds"
  using assms(2,3)
proof (induction ds rule: rev_nonempty_induct)
  case (single d)
  then show ?case
    using extremes_first [OF assms(1), of d] by (simp add: extremes_def)
next
  case (snoc d ds)
  then show ?case by (simp add: extremes_snoc)
qed

lemma count_fold:
  assumes "count s = 0" "length ds < 2 ^ 64"
  shows "unat (count (fold (\<lambda>d s. add s d) ds s)) = length ds"
  using assms extremes_fold [OF assms(1) _ assms(2)] by (cases "ds = []") (auto simp: extremes_def)

end

locale running_summary = running_extremes add count lo hi
  for add :: "'s \<Rightarrow> 'r::linordered_field \<Rightarrow> 's" and count :: "'s \<Rightarrow> u64" and lo hi :: "'s \<Rightarrow> 'r" +
  fixes avg :: "'s \<Rightarrow> 'r"
  assumes avg_first: "count s = 0 \<Longrightarrow> avg s = 0 \<Longrightarrow> avg (add s d) = d"
    and avg_more: "0 < count s \<Longrightarrow> unat (count s) < 2 ^ 64 - 1 \<Longrightarrow>
      avg (add s d) = (avg s * of_nat (unat (count s)) + d) / of_nat (unat (count s) + 1)"
begin

text \<open>The state after folding a non-empty list of samples.\<close>

definition summarizes :: "'s \<Rightarrow> 'r list \<Rightarrow> bool" where
  "summarizes s ds \<longleftrightarrow> extremes s ds \<and> avg s = sum_list ds / of_nat (length ds)"

lemma summarizes_snoc:
  assumes "summarizes s ds" "ds \<noteq> []" "length ds < 2 ^ 64 - 1"
  shows "summarizes (add s d) (ds @ [d])"
proof -
  have n: "unat (count s) = length ds" and pos: "0 < count s"
    using assms by (auto simp: summarizes_def extremes_def word_neq_0_conv [symmetric])
  moreover have "avg s * of_nat (length ds) = sum_list ds"
    using assms by (simp add: summarizes_def)
  ultimately show ?thesis
    using avg_more [OF pos, of d] assms extremes_snoc [of s ds d] by (simp add: summarizes_def)
qed

lemma summarizes_fold:
  assumes "count s = 0" "avg s = 0" "ds \<noteq> []" "length ds < 2 ^ 64"
  shows "summarizes (fold (\<lambda>d s. add s d) ds s) ds"
  using assms(3,4)
proof (induction ds rule: rev_nonempty_induct)
  case (single d)
  then show ?case
    using avg_first [OF assms(1,2), of d] extremes_first [OF assms(1), of d]
    by (simp add: summarizes_def extremes_def)
next
  case (snoc d ds)
  then show ?case by (simp add: summarizes_snoc)
qed

end

section \<open>CycleStatistics\<close>

record 'r cycle_statistics =
  cycles :: u64
  missed_deadlines :: u64
  minimum_us :: 'r
  maximum_us :: 'r
  average_us :: 'r
  current_us :: 'r

text \<open>The value-initialised \<open>CycleStatistics{}\<close>.\<close>

definition cycle_statistics_init :: "'r::linordered_field cycle_statistics" where
  "cycle_statistics_init = \<lparr>cycles = 0, missed_deadlines = 0, minimum_us = 0, maximum_us = 0,
     average_us = 0, current_us = 0\<rparr>"

definition reset_timing_statistics :: "'r::linordered_field cycle_statistics \<Rightarrow> 'r cycle_statistics" where
  "reset_timing_statistics s = s\<lparr>cycles := 0, minimum_us := 0, maximum_us := 0,
     average_us := 0, current_us := 0\<rparr>"

definition account_cycle_duration ::
    "'r::linordered_field cycle_statistics \<Rightarrow> 'r \<Rightarrow> 'r cycle_statistics" where
  "account_cycle_duration s duration_us =
     (let s = s\<lparr>current_us := duration_us\<rparr> in
      if cycles s = 0
      then s\<lparr>minimum_us := duration_us, maximum_us := duration_us, average_us := duration_us, cycles := 1\<rparr>
      else
        let s = (if duration_us < minimum_us s then s\<lparr>minimum_us := duration_us\<rparr> else s);
            s = (if maximum_us s < duration_us then s\<lparr>maximum_us := duration_us\<rparr> else s);
            accumulated = average_us s * of_nat (unat (cycles s));
            next_cycle = cycles s + 1
        in s\<lparr>average_us := (accumulated + duration_us) / of_nat (unat next_cycle), cycles := next_cycle\<rparr>)"

lemma account_cycle_duration_simps [simp]:
  "current_us (account_cycle_duration s d) = d"
  "missed_deadlines (account_cycle_duration s d) = missed_deadlines s"
  by (simp_all add: account_cycle_duration_def Let_def)

lemma unat_Suc_word:
  fixes w :: u64
  assumes "unat w < 2 ^ 64 - 1"
  shows "unat (w + 1) = unat w + 1"
  using assms by (simp add: unat_word_ariths)

lemma unsigned_Suc_word:
  fixes w :: u64
  assumes "unat w < 2 ^ 64 - 1"
  shows "(unsigned (w + 1) :: 'r::linordered_field) = 1 + unsigned w"
    and "(unsigned (1 + w) :: 'r::linordered_field) = 1 + unsigned w"
  using arg_cong [OF unat_Suc_word [OF assms], of "of_nat :: nat \<Rightarrow> 'r"]
  by (simp_all add: add.commute)

interpretation acc: running_summary account_cycle_duration cycles minimum_us maximum_us average_us
  by unfold_locales
     (auto simp: account_cycle_duration_def Let_def min_def max_def unsigned_Suc_word
        word_neq_0_conv [symmetric] not_less add.commute)

text \<open>
  The same update as a machine with the rounding \<open>rnd\<close> computes it: every conversion from an integer
  and every arithmetic operation on \<open>double\<close> is followed by \<open>rnd\<close>, comparisons and copies are not
  rounded. \<open>account_cycle_duration\<close> is the instance with exact arithmetic.
\<close>

definition account_cycle_duration_rounded ::
    "('r \<Rightarrow> 'r) \<Rightarrow> 'r::linordered_field cycle_statistics \<Rightarrow> 'r \<Rightarrow> 'r cycle_statistics" where
  "account_cycle_duration_rounded rnd s duration_us =
     (let s = s\<lparr>current_us := duration_us\<rparr> in
      if cycles s = 0
      then s\<lparr>minimum_us := duration_us, maximum_us := duration_us, average_us := duration_us, cycles := 1\<rparr>
      else
        let s = (if duration_us < minimum_us s then s\<lparr>minimum_us := duration_us\<rparr> else s);
            s = (if maximum_us s < duration_us then s\<lparr>maximum_us := duration_us\<rparr> else s);
            accumulated = rnd (average_us s * rnd (of_nat (unat (cycles s))));
            next_cycle = cycles s + 1
        in s\<lparr>average_us := rnd (rnd (accumulated + duration_us) / rnd (of_nat (unat next_cycle))),
             cycles := next_cycle\<rparr>)"

lemma account_cycle_duration_exact:
  "account_cycle_duration_rounded (\<lambda>x. x) = account_cycle_duration"
  by (simp add: fun_eq_iff account_cycle_duration_rounded_def account_cycle_duration_def)

interpretation racc: running_extremes "account_cycle_duration_rounded rnd" cycles minimum_us maximum_us
  for rnd :: "'r::linordered_field \<Rightarrow> 'r"
  by unfold_locales (auto simp: account_cycle_duration_rounded_def Let_def min_def max_def)

section \<open>TimingSummary\<close>

record 'r timing_summary =
  samples :: u64
  ts_minimum_us :: 'r
  ts_average_us :: 'r
  ts_maximum_us :: 'r

definition timing_summary_init :: "'r::linordered_field timing_summary" where
  "timing_summary_init = \<lparr>samples = 0, ts_minimum_us = 0, ts_average_us = 0, ts_maximum_us = 0\<rparr>"

definition timing_add :: "'r::linordered_field timing_summary \<Rightarrow> 'r \<Rightarrow> 'r timing_summary" where
  "timing_add t us =
     (let t = (if samples t = 0 \<or> us < ts_minimum_us t then t\<lparr>ts_minimum_us := us\<rparr> else t);
          t = (if samples t = 0 \<or> ts_maximum_us t < us then t\<lparr>ts_maximum_us := us\<rparr> else t);
          t = t\<lparr>samples := samples t + 1\<rparr>
      in t\<lparr>ts_average_us := ts_average_us t + (us - ts_average_us t) / of_nat (unat (samples t))\<rparr>)"

lemma incremental_mean:
  fixes a d :: "'r::linordered_field"
  shows "a + (d - a) / of_nat (Suc n) = (a * of_nat n + d) / of_nat (Suc n)"
  by (simp add: field_simps del: of_nat_Suc) (simp add: algebra_simps)

interpretation win: running_summary timing_add samples ts_minimum_us ts_maximum_us ts_average_us
proof unfold_locales
  fix t :: "'a timing_summary" and d :: 'a
  assume "0 < samples t" "unat (samples t) < 2 ^ 64 - 1"
  then show "ts_average_us (timing_add t d)
      = (ts_average_us t * of_nat (unat (samples t)) + d) / of_nat (unat (samples t) + 1)"
    using incremental_mean [of "ts_average_us t" d "unat (samples t)"]
    by (auto simp: timing_add_def Let_def unsigned_Suc_word add.commute)
qed (auto simp: timing_add_def Let_def min_def max_def word_neq_0_conv [symmetric])

text \<open>\<open>TimingSummary::add\<close> with a rounding after each conversion and operation.\<close>

definition timing_add_rounded ::
    "('r \<Rightarrow> 'r) \<Rightarrow> 'r::linordered_field timing_summary \<Rightarrow> 'r \<Rightarrow> 'r timing_summary" where
  "timing_add_rounded rnd t us =
     (let t = (if samples t = 0 \<or> us < ts_minimum_us t then t\<lparr>ts_minimum_us := us\<rparr> else t);
          t = (if samples t = 0 \<or> ts_maximum_us t < us then t\<lparr>ts_maximum_us := us\<rparr> else t);
          t = t\<lparr>samples := samples t + 1\<rparr>
      in t\<lparr>ts_average_us := rnd (ts_average_us t
             + rnd (rnd (us - ts_average_us t) / rnd (of_nat (unat (samples t)))))\<rparr>)"

lemma timing_add_exact: "timing_add_rounded (\<lambda>x. x) = timing_add"
  by (simp add: fun_eq_iff timing_add_rounded_def timing_add_def)

interpretation rwin: running_extremes "timing_add_rounded rnd" samples ts_minimum_us ts_maximum_us
  for rnd :: "'r::linordered_field \<Rightarrow> 'r"
  by unfold_locales (auto simp: timing_add_rounded_def Let_def min_def max_def)

section \<open>Rounding errors of the averages\<close>

text \<open>
  What the averages need of \<open>double\<close>: a result of absolute value at most \<open>B\<close> is rounded with a
  relative error \<open>u\<close> and an absolute one \<open>v\<close> (for IEEE binary64 without overflow, 2^-53 and 2^-1075).
\<close>

definition rounds_within :: "('r \<Rightarrow> 'r) \<Rightarrow> 'r \<Rightarrow> 'r \<Rightarrow> 'r::linordered_field \<Rightarrow> bool" where
  "rounds_within rnd u v B \<longleftrightarrow> (\<forall>x. \<bar>x\<bar> \<le> B \<longrightarrow> \<bar>rnd x - x\<bar> \<le> u * \<bar>x\<bar> + v)"

lemma rounding_error:
  fixes M u v k N x :: "'r::linordered_field"
  assumes "rounds_within rnd u v (4 * M * N)" "0 \<le> u" "0 \<le> v" "0 \<le> M" "1 \<le> k" "k \<le> N"
    and "\<bar>x\<bar> \<le> 4 * M * k"
  shows "\<bar>rnd x - x\<bar> \<le> k * (4 * M * u + v)"
proof -
  have "4 * M * k \<le> 4 * M * N"
    using assms(4,6) by (intro mult_left_mono) auto
  then have "\<bar>rnd x - x\<bar> \<le> u * \<bar>x\<bar> + v"
    using assms(1,7) by (simp add: rounds_within_def)
  also have "\<dots> \<le> u * (4 * M * k) + k * v"
    using assms(2,3,5,7) mult_right_mono [of 1 k v] by (intro add_mono mult_left_mono) auto
  finally show ?thesis by (simp add: algebra_simps)
qed

lemma abs_mult_le:
  fixes a b k :: "'r::linordered_field"
  assumes "\<bar>a\<bar> \<le> b" "0 \<le> k"
  shows "\<bar>k * a\<bar> \<le> k * b"
  using assms by (simp add: abs_mult mult_left_mono)

lemma abs_divide_le:
  fixes a b k :: "'r::linordered_field"
  assumes "\<bar>a\<bar> \<le> k * b" "0 < k"
  shows "\<bar>a / k\<bar> \<le> b"
  using assms by (simp add: abs_divide divide_le_eq mult.commute)

text \<open>One step of either rule moves the error of the mean by a multiple of the error of an operation.\<close>

lemma incremental_step:
  fixes M e n a m d :: "'r::linordered_field"
  assumes rnd: "\<And>x. \<bar>x\<bar> \<le> 4 * M \<Longrightarrow> \<bar>rnd x - x\<bar> \<le> e"
    and n: "1 \<le> n" and a: "\<bar>a - m\<bar> \<le> E" "E \<le> M" and m: "\<bar>m\<bar> \<le> M" and d: "\<bar>d\<bar> \<le> M"
    and e: "0 \<le> e" "e \<le> M"
  defines "r \<equiv> rnd (a + rnd (rnd (d - a) / n))"
  shows "\<bar>n * r - ((n - 1) * m + d)\<bar> \<le> (n - 1) * E + (2 * n + 1) * e"
proof -
  define p where "p = rnd (d - a)"
  define q where "q = rnd (p / n)"
  have 1: "\<bar>p - (d - a)\<bar> \<le> e"
    unfolding p_def using a m d by (intro rnd) linarith
  have "\<bar>p\<bar> \<le> 4 * M"
    using 1 a m d e by linarith
  moreover have "4 * M \<le> n * (4 * M)"
    using mult_right_mono [OF n, of "4 * M"] e by simp
  ultimately have 2: "\<bar>q - p / n\<bar> \<le> e"
    unfolding q_def using n by (intro rnd abs_divide_le) auto
  have A: "\<bar>(n - 1) * (a - m)\<bar> \<le> (n - 1) * E" and M1: "\<bar>(n - 1) * m\<bar> \<le> (n - 1) * M"
    and Q: "\<bar>n * (q - p / n)\<bar> \<le> n * e"
    using n a m 2 by (auto intro!: abs_mult_le)
  have nE: "(n - 1) * E \<le> (n - 1) * M"
    using n a by (intro mult_left_mono) auto
  have eM: "n * e \<le> n * M"
    using n e by (intro mult_left_mono) auto
  have nM: "M \<le> n * M"
    using mult_right_mono [OF n, of M] e by simp
  have eq: "n * (a + q) = (n - 1) * (a - m) + (n - 1) * m + d + (p - (d - a)) + n * (q - p / n)"
    using n by (simp add: field_simps)
  have "\<bar>n * (a + q)\<bar> \<le> n * (4 * M)"
    using eq A M1 Q 1 nE eM nM d e by (simp add: left_diff_distrib)
  then have "\<bar>a + q\<bar> \<le> 4 * M"
    using abs_divide_le [of "n * (a + q)" n "4 * M"] n by simp
  then have "\<bar>r - (a + q)\<bar> \<le> e"
    unfolding r_def p_def [symmetric] q_def [symmetric] by (rule rnd)
  then have R: "\<bar>n * (r - (a + q))\<bar> \<le> n * e"
    using n by (intro abs_mult_le) auto
  have "n * r - ((n - 1) * m + d)
      = (n - 1) * (a - m) + (p - (d - a)) + n * (q - p / n) + n * (r - (a + q))"
    using eq by (simp add: right_diff_distrib)
  then show ?thesis
    using A Q R 1 by (simp add: algebra_simps)
qed

lemma accumulated_step:
  fixes M e k a m d :: "'r::linordered_field"
  assumes rnd: "\<And>x j. 1 \<le> j \<Longrightarrow> j \<le> k + 1 \<Longrightarrow> \<bar>x\<bar> \<le> 4 * M * j \<Longrightarrow> \<bar>rnd x - x\<bar> \<le> j * e"
    and k: "1 \<le> k" and a: "\<bar>a - m\<bar> \<le> E" "E \<le> M" and m: "\<bar>m\<bar> \<le> M" and d: "\<bar>d\<bar> \<le> M"
    and e: "0 \<le> e" "e \<le> M"
  defines "r \<equiv> rnd (rnd (rnd (a * k) + d) / (k + 1))"
  shows "\<bar>(k + 1) * r - (k * m + d)\<bar> \<le> k * E + (3 * k + 2) * e"
proof -
  define p where "p = rnd (a * k)"
  define q where "q = rnd (p + d)"
  have A: "\<bar>k * (a - m)\<bar> \<le> k * E" and M1: "\<bar>k * m\<bar> \<le> k * M"
    using k a m by (auto intro!: abs_mult_le)
  have kE: "k * E \<le> k * M" and ke: "k * e \<le> k * M"
    using k a e by (auto intro!: mult_left_mono)
  have eq: "a * k = k * (a - m) + k * m"
    by (simp add: algebra_simps)
  have kM: "0 \<le> k * M"
    using k e by (intro mult_nonneg_nonneg) auto
  have "\<bar>a * k\<bar> \<le> 4 * (k * M)"
    using eq A M1 kE kM by linarith
  then have "\<bar>a * k\<bar> \<le> 4 * M * k"
    by (simp add: ac_simps)
  then have 1: "\<bar>p - a * k\<bar> \<le> k * e"
    unfolding p_def using k by (intro rnd) auto
  have pd: "\<bar>p + d\<bar> \<le> 3 * (k * M) + M"
    using 1 eq A M1 kE ke d by linarith
  then have "\<bar>p + d\<bar> \<le> 4 * M * (k + 1)"
    using e kM by (simp add: algebra_simps)
  then have 2: "\<bar>q - (p + d)\<bar> \<le> (k + 1) * e"
    unfolding q_def using k by (intro rnd) auto
  moreover have "(k + 1) * e = k * e + e"
    by (simp add: algebra_simps)
  ultimately have "\<bar>q\<bar> \<le> 4 * (k * M) + 4 * M"
    using pd ke e by linarith
  then have "\<bar>q\<bar> \<le> (k + 1) * (4 * M)"
    by (simp add: algebra_simps)
  then have "\<bar>q / (k + 1)\<bar> \<le> 4 * M * 1"
    using abs_divide_le [of q "k + 1" "4 * M"] k by simp
  then have "\<bar>r - q / (k + 1)\<bar> \<le> 1 * e"
    unfolding r_def p_def [symmetric] q_def [symmetric] using k by (intro rnd) auto
  then have 3: "\<bar>(k + 1) * (r - q / (k + 1))\<bar> \<le> (k + 1) * e"
    using k by (intro abs_mult_le) auto
  have "(k + 1) * (r - q / (k + 1)) = (k + 1) * r - q"
    using k by (simp add: right_diff_distrib)
  then have "(k + 1) * r - (k * m + d)
      = k * (a - m) + (p - a * k) + (q - (p + d)) + (k + 1) * (r - q / (k + 1))"
    by (simp add: algebra_simps)
  then show ?thesis
    using A 1 2 3 by (simp add: algebra_simps)
qed

lemma mean_bound:
  fixes ds :: "'r::linordered_field list"
  assumes "\<forall>d\<in>set ds. \<bar>d\<bar> \<le> M" "0 \<le> M"
  shows "\<bar>sum_list ds / of_nat (length ds)\<bar> \<le> M"
proof -
  have "\<bar>sum_list ds\<bar> \<le> of_nat (length ds) * M"
    using assms(1)
  proof (induction ds)
    case (Cons d ds)
    then have "\<bar>sum_list ds\<bar> \<le> of_nat (length ds) * M" "\<bar>d\<bar> \<le> M" by auto
    then show ?case
      using abs_triangle_ineq [of d "sum_list ds"] by (simp add: distrib_right) 
  qed simp
  then show ?thesis
    using abs_divide_le [of "sum_list ds" "of_nat (length ds)" M] assms(2) by (cases "ds = []") simp_all
qed

lemma scaled_error:
  fixes n :: "'r::linordered_field"
  assumes "\<bar>n * r - t\<bar> \<le> n * b" "0 < n"
  shows "\<bar>r - t / n\<bar> \<le> b"
proof -
  have "\<bar>n * (r - t / n)\<bar> \<le> n * b"
    using assms by (simp add: right_diff_distrib)
  then show ?thesis
    using assms(2) by (simp add: abs_mult)
qed

lemma timing_add_rounded_average:
  "ts_average_us (timing_add_rounded rnd t d) = rnd (ts_average_us t
     + rnd (rnd (d - ts_average_us t) / rnd (of_nat (unat (samples t + 1)))))"
  by (simp add: timing_add_rounded_def Let_def)

lemma rounded_means:
  fixes M u v :: "'r::linordered_field" and ds :: "'r list"
  assumes rnd: "rounds_within rnd u v (4 * M * of_nat N)" "0 \<le> u" "0 \<le> v"
    and exact: "\<forall>n\<le>N. rnd (of_nat n) = of_nat n" and N: "N < 2 ^ 64"
    and small: "2 * (of_nat N + 1) * (4 * M * u + v) \<le> M"
    and ds: "length ds \<le> N" "\<forall>d\<in>set ds. \<bar>d\<bar> \<le> M" and M: "0 \<le> M"
  defines "e \<equiv> 4 * M * u + v" and "m \<equiv> sum_list ds / of_nat (length ds)"
  shows "\<bar>ts_average_us (fold (\<lambda>d t. timing_add_rounded rnd t d) ds timing_summary_init) - m\<bar>
      \<le> 2 * (of_nat (length ds) + 1) * e
    \<and> \<bar>average_us (fold (\<lambda>d s. account_cycle_duration_rounded rnd s d) ds cycle_statistics_init) - m\<bar>
      \<le> 2 * (of_nat (length ds) + 1) * e"
  using ds unfolding m_def
proof (induction ds rule: rev_induct)
  case Nil
  then show ?case
    using rnd M by (simp add: e_def timing_summary_init_def cycle_statistics_init_def)
next
  case (snoc d ds)
  define k :: 'r where "k = of_nat (length ds)"
  define m where "m = sum_list ds / k"
  define t where "t = fold (\<lambda>d t. timing_add_rounded rnd t d) ds timing_summary_init"
  define s where "s = fold (\<lambda>d s. account_cycle_duration_rounded rnd s d) ds cycle_statistics_init"
  have len: "length ds < N" and d: "\<bar>d\<bar> \<le> M" and all: "\<forall>d\<in>set ds. \<bar>d\<bar> \<le> M"
    using snoc.prems by auto
  have t: "\<bar>ts_average_us t - m\<bar> \<le> 2 * (k + 1) * e" and s: "\<bar>average_us s - m\<bar> \<le> 2 * (k + 1) * e"
    using snoc.IH len all by (auto simp: k_def m_def t_def s_def)
  have e: "0 \<le> e" using rnd M by (simp add: e_def)
  have kN: "k + 1 \<le> of_nat N"
    using len of_nat_mono [of "length ds + 1" N, where 'a = 'r] by (simp add: k_def add.commute)
  have k0: "0 \<le> k" by (simp add: k_def)
  have "2 * (k + 1) * e \<le> 2 * (of_nat N + 1) * e"
    using kN e by (intro mult_right_mono) auto
  with small have E: "2 * (k + 1) * e \<le> M"
    unfolding e_def by linarith
  have "2 * (k + 1) * e = 2 * (k * e) + 2 * e"
    by (simp add: algebra_simps)
  then have eM: "e \<le> M"
    using E e mult_nonneg_nonneg [OF k0 e] by linarith
  have m: "\<bar>m\<bar> \<le> M"
    unfolding m_def k_def using all M by (rule mean_bound)
  have km: "k * m = sum_list ds"
    by (cases "ds = []") (simp_all add: k_def m_def)
  have err: "\<bar>rnd x - x\<bar> \<le> j * e" if "1 \<le> j" "j \<le> k + 1" "\<bar>x\<bar> \<le> 4 * M * j" for x j
    unfolding e_def using rnd M kN that by (intro rounding_error [where N = "of_nat N"]) auto
  have err1: "\<bar>rnd x - x\<bar> \<le> e" if "\<bar>x\<bar> \<le> 4 * M" for x
    using err [of 1 x] that k0 by simp
  have n: "unat (samples t) = length ds" "unat (cycles s) = length ds"
    unfolding t_def s_def using len N
    by (auto intro!: rwin.count_fold racc.count_fold simp: timing_summary_init_def cycle_statistics_init_def)
  have ex: "rnd k = k" "rnd (k + 1) = k + 1"
    using exact [rule_format, of "length ds"] exact [rule_format, of "length ds + 1"] len
    by (simp_all add: k_def add.commute)
  have n': "of_nat (unat (samples t + 1)) = k + 1" "of_nat (unat (cycles s + 1)) = k + 1"
    using n len N by (simp_all add: unat_Suc_word k_def)
  have nk: "of_nat (unat (cycles s)) = k"
    by (simp only: n k_def)
  have T: "ts_average_us (timing_add_rounded rnd t d)
      = rnd (ts_average_us t + rnd (rnd (d - ts_average_us t) / (k + 1)))"
    unfolding timing_add_rounded_average n' ex ..
  have "\<bar>(k + 1) * ts_average_us (timing_add_rounded rnd t d) - (k * m + d)\<bar>
      \<le> k * (2 * (k + 1) * e) + (2 * (k + 1) + 1) * e"
    using incremental_step [of M rnd e "k + 1", OF err1 _ t E m d e eM] k0 by (simp add: T)
  also have "\<dots> \<le> (k + 1) * (2 * (k + 1 + 1) * e)"
    using e k0 mult_nonneg_nonneg [OF k0 e] by (simp add: algebra_simps)
  finally have t': "\<bar>ts_average_us (timing_add_rounded rnd t d) - (k * m + d) / (k + 1)\<bar>
      \<le> 2 * (k + 1 + 1) * e"
    using k0 by (intro scaled_error) auto
  have s': "\<bar>average_us (account_cycle_duration_rounded rnd s d) - (k * m + d) / (k + 1)\<bar>
      \<le> 2 * (k + 1 + 1) * e"
  proof (cases "ds = []")
    case True
    then show ?thesis
      using e by (simp add: s_def k_def cycle_statistics_init_def account_cycle_duration_rounded_def)
  next
    case False
    then have "1 \<le> k"
      by (cases ds) (simp_all add: k_def)
    moreover have "cycles s \<noteq> 0"
      using n(2) False by auto
    ultimately have k1: "1 \<le> k" and S: "average_us (account_cycle_duration_rounded rnd s d)
        = rnd (rnd (rnd (average_us s * k) + d) / (k + 1))"
      using nk n' ex by (simp_all add: account_cycle_duration_rounded_def Let_def)
    have "\<bar>(k + 1) * average_us (account_cycle_duration_rounded rnd s d) - (k * m + d)\<bar>
        \<le> k * (2 * (k + 1) * e) + (3 * k + 2) * e"
      unfolding S by (rule accumulated_step [OF err k1 s E m d e eM])
    also have "\<dots> \<le> (k + 1) * (2 * (k + 1 + 1) * e)"
      using e k0 mult_nonneg_nonneg [OF k0 e] by (simp add: algebra_simps)
    finally show ?thesis
      using k0 by (intro scaled_error) auto
  qed
  show ?case
    using t' s' unfolding km t_def s_def by (simp add: k_def add.commute add.left_commute)
qed

section \<open>Properties\<close>

text \<open>
  Claim C5. After any non-empty sequence of fewer than 2^64 cycles since the timing statistics were
  reset, the published minimum, maximum, average and current cycle time are the minimum, the
  maximum, the arithmetic mean and the last of the measured durations, the cycle count is their
  number, and the missed-deadline counter of before the reset is kept.
\<close>
theorem account_cycle_duration_summary:
  fixes ds :: "'r::linordered_field list" and s :: "'r cycle_statistics"
  assumes "ds \<noteq> []" "length ds < 2 ^ 64"
  defines "s' \<equiv> fold (\<lambda>d s. account_cycle_duration s d) ds (reset_timing_statistics s)"
  shows "unat (cycles s') = length ds \<and> minimum_us s' = Min (set ds) \<and> maximum_us s' = Max (set ds)
    \<and> average_us s' = sum_list ds / of_nat (length ds) \<and> current_us s' = last ds
    \<and> missed_deadlines s' = missed_deadlines s"
proof -
  have "acc.summarizes s' ds"
    unfolding s'_def using assms(1,2)
    by (intro acc.summarizes_fold) (simp_all add: reset_timing_statistics_def)
  moreover have "missed_deadlines (fold (\<lambda>d s. account_cycle_duration s d) ds t) = missed_deadlines t" for t
    by (induction ds arbitrary: t) auto
  moreover have "current_us s' = last ds"
    unfolding s'_def using assms(1) by (cases ds rule: rev_cases) auto
  ultimately show ?thesis
    by (simp add: acc.summarizes_def acc.extremes_def s'_def reset_timing_statistics_def)
qed

theorem account_cycle_duration_summary_witness:
  "average_us (fold (\<lambda>d s. account_cycle_duration s d) [1000, 1500, 800 :: rat]
      (reset_timing_statistics cycle_statistics_init)) = 1100"
  using account_cycle_duration_summary [of "[1000, 1500, 800 :: rat]" cycle_statistics_init] by simp

text \<open>
  Claim C6. The window summary printed by the reporter and the statistics published in shared
  memory agree. Fed with the same durations from their initial states, with every conversion and
  operation on \<open>double\<close> rounded by an arbitrary \<open>rnd\<close>, \<open>TimingSummary::add\<close> (incremental mean) and
  \<open>accountCycleDuration\<close> (accumulated mean) hold exactly the same sample count, minimum and maximum,
  which are those of the samples; the two averages may differ, but each is within
  \<open>2 (n + 1) (4 M u + v)\<close> of the arithmetic mean of the \<open>n\<close> samples of size at most \<open>M\<close>, and so the
  two are within twice that of each other. Assumed of \<open>rnd\<close>: its relative error is at most \<open>u\<close> and its
  absolute error at most \<open>v\<close> up to the magnitude \<open>4 M n\<close>, and it does not change the integers up to
  \<open>n\<close> (IEEE binary64: u = 2^-53, v = 2^-1075, n at most 2^53). With \<open>u = v = 0\<close> the averages are equal.
\<close>
theorem timing_add_agrees:
  fixes ds :: "'r::linordered_field list" and M u v :: 'r
  assumes "length ds < 2 ^ 64" "\<forall>d\<in>set ds. \<bar>d\<bar> \<le> M" "0 \<le> M"
    and "rounds_within rnd u v (4 * M * of_nat (length ds))" "0 \<le> u" "0 \<le> v"
    and "\<forall>n\<le>length ds. rnd (of_nat n) = of_nat n"
    and "2 * (of_nat (length ds) + 1) * (4 * M * u + v) \<le> M"
  defines "t \<equiv> fold (\<lambda>d t. timing_add_rounded rnd t d) ds timing_summary_init"
    and "s \<equiv> fold (\<lambda>d s. account_cycle_duration_rounded rnd s d) ds cycle_statistics_init"
    and "mean \<equiv> sum_list ds / of_nat (length ds)"
    and "err \<equiv> 2 * (of_nat (length ds) + 1) * (4 * M * u + v)"
  shows "samples t = cycles s \<and> unat (samples t) = length ds
    \<and> ts_minimum_us t = minimum_us s \<and> ts_maximum_us t = maximum_us s
    \<and> (ds = [] \<or> (minimum_us s = Min (set ds) \<and> maximum_us s = Max (set ds)))
    \<and> \<bar>ts_average_us t - mean\<bar> \<le> err \<and> \<bar>average_us s - mean\<bar> \<le> err
    \<and> \<bar>ts_average_us t - average_us s\<bar> \<le> 2 * err"
proof -
  have n: "unat (samples t) = length ds" "unat (cycles s) = length ds"
    unfolding t_def s_def using assms(1)
    by (auto intro!: rwin.count_fold racc.count_fold simp: timing_summary_init_def cycle_statistics_init_def)
  have means: "\<bar>ts_average_us t - mean\<bar> \<le> err" "\<bar>average_us s - mean\<bar> \<le> err"
    using rounded_means [OF assms(4-7) assms(1) assms(8) order_refl assms(2,3)]
    unfolding t_def s_def mean_def err_def by auto
  have ext: "racc.extremes s ds" "rwin.extremes t ds" if "ds \<noteq> []"
    unfolding t_def s_def using assms(1) that
    by (auto intro!: racc.extremes_fold rwin.extremes_fold
        simp: timing_summary_init_def cycle_statistics_init_def)
  have "ds = [] \<Longrightarrow> ts_minimum_us t = minimum_us s \<and> ts_maximum_us t = maximum_us s"
    by (simp add: t_def s_def timing_summary_init_def cycle_statistics_init_def)
  then show ?thesis
    using n means ext abs_triangle_ineq4 [of "ts_average_us t - mean" "average_us s - mean"]
    by (cases "ds = []") (auto simp: racc.extremes_def rwin.extremes_def word_unat_eq_iff)
qed

text \<open>
  A rounding that keeps eighths below 1000 and only integers above: it makes the two averages of
  400, 401, 401, 401 differ by an eighth.
\<close>
theorem timing_add_agrees_witness:
  fixes rnd :: "rat \<Rightarrow> rat"
  defines "rnd \<equiv> \<lambda>x. if \<bar>x\<bar> < 1000 then of_int \<lfloor>8 * x\<rfloor> / 8 else of_int \<lfloor>x\<rfloor>"
    and "ds \<equiv> [400, 401, 401, 401 :: rat]"
  shows "\<bar>ts_average_us (fold (\<lambda>d t. timing_add_rounded rnd t d) ds timing_summary_init)
      - average_us (fold (\<lambda>d s. account_cycle_duration_rounded rnd s d) ds cycle_statistics_init)\<bar> \<le> 20
    \<and> ts_average_us (fold (\<lambda>d t. timing_add_rounded rnd t d) ds timing_summary_init) = 400 + 5 / 8
    \<and> average_us (fold (\<lambda>d s. account_cycle_duration_rounded rnd s d) ds cycle_statistics_init) = 400 + 1 / 2"
proof -
  have "rounds_within rnd 0 1 B" for B
    unfolding rounds_within_def rnd_def by (auto simp: abs_if field_simps; linarith)
  moreover have "rnd (of_nat n) = of_nat n" if "n \<le> 4" for n
  proof -
    have "of_nat n < (1000 :: rat)"
      using that by (intro order_le_less_trans [of "of_nat n" "of_nat 4"]) auto
    then show ?thesis by (simp add: rnd_def)
  qed
  ultimately have diff: "\<bar>ts_average_us (fold (\<lambda>d t. timing_add_rounded rnd t d) ds timing_summary_init)
      - average_us (fold (\<lambda>d s. account_cycle_duration_rounded rnd s d) ds cycle_statistics_init)\<bar> \<le> 20"
    using timing_add_agrees [of ds 401 rnd 0 1] by (simp add: ds_def)
  have vals: "rnd 1 = 1" "rnd 2 = 2" "rnd 3 = 3" "rnd 4 = 4" "rnd 400 = 400" "rnd (1 / 2) = 1 / 2"
    "rnd (801 / 2) = 801 / 2" "rnd (1 / 6) = 1 / 8" "rnd (3205 / 8) = 3205 / 8" "rnd (3 / 8) = 3 / 8"
    "rnd (3 / 32) = 0" "rnd 801 = 801" "rnd 1202 = 1202" "rnd (1202 / 3) = 3205 / 8"
    "rnd (9615 / 8) = 1201" "rnd 1602 = 1602"
    by (simp_all add: rnd_def floor_eq_iff)
  show ?thesis
    using diff by (simp add: ds_def vals timing_add_rounded_def account_cycle_duration_rounded_def Let_def
        timing_summary_init_def cycle_statistics_init_def)
qed

end
