(* ===== verification/Startup_Gate.thy ===== *)
theory Startup_Gate
  imports Rocos_Prelude
begin

text \<open>
  The startup gate \<open>StartupWait\<close> of src/src/startup_wait.hpp: client data is released only
  after five consecutive healthy polls, and a poll at or after the deadline ends the startup. The
  nanosecond deadline is an integer (start plus at most 2^32 - 1 milliseconds), the counter a
  64-bit word.
\<close>

datatype startup_result = Waiting | Ready | TimedOut

record startup_wait =
  deadline_ns :: int
  stable_count :: u64

definition startup_wait_init :: "int \<Rightarrow> u32 \<Rightarrow> startup_wait" where
  "startup_wait_init start_ns timeout_ms =
     \<lparr>deadline_ns = start_ns + uint timeout_ms * 1000000, stable_count = 0\<rparr>"

definition observe :: "startup_wait \<Rightarrow> int \<Rightarrow> bool \<Rightarrow> startup_wait \<times> startup_result" where
  "observe w now_ns healthy =
     (if deadline_ns w \<le> now_ns then (w, TimedOut)
      else let w = w\<lparr>stable_count := (if healthy then stable_count w + 1 else 0)\<rparr>
           in (w, if 5 \<le> stable_count w then Ready else Waiting))"

text \<open>A run of polls; each poll is the clock reading and the health of the bus.\<close>

fun observe_all :: "startup_wait \<Rightarrow> (int \<times> bool) list \<Rightarrow> startup_wait" where
  "observe_all w [] = w"
| "observe_all w ((now_ns, healthy) # ps) = observe_all (fst (observe w now_ns healthy)) ps"

lemma observe_all_append [simp]: "observe_all w (ps @ qs) = observe_all (observe_all w ps) qs"
  by (induction w ps rule: observe_all.induct) auto

lemma deadline_ns_observe [simp, frame_simps]: "deadline_ns (fst (observe w n h)) = deadline_ns w"
  by (simp add: observe_def Let_def)

lemma deadline_ns_observe_all [simp, frame_simps]: "deadline_ns (observe_all w ps) = deadline_ns w"
  by (induction w ps rule: observe_all.induct) auto

text \<open>Before the deadline a poll is a step of a consecutive counter.\<close>

definition healthy_step :: "startup_wait \<Rightarrow> bool \<Rightarrow> startup_wait" where
  "healthy_step w h = fst (observe w (deadline_ns w - 1) h)"

interpretation gate: consecutive_counter healthy_step stable_count
  by unfold_locales (simp add: healthy_step_def observe_def Let_def)

lemma observe_in_time: "n < deadline_ns w \<Longrightarrow> fst (observe w n h) = healthy_step w h"
  by (simp add: observe_def healthy_step_def)

lemma observe_all_in_time:
  "\<forall>p \<in> set ps. fst p < deadline_ns w \<Longrightarrow>
     observe_all w ps = fold (\<lambda>h s. healthy_step s h) (map snd ps) w"
proof (induction w ps rule: observe_all.induct)
  case (1 w)
  then show ?case by simp
next
  case (2 w n h ps)
  then show ?case by (simp add: observe_in_time)
qed

lemma stable_count_run:
  assumes "\<forall>p \<in> set ps. fst p < deadline_ns (startup_wait_init t0 ms)" "length ps < 2 ^ 64"
  shows "unat (stable_count (observe_all (startup_wait_init t0 ms) ps)) = trailing (map snd ps)"
  using assms gate.cnt_fold [of "startup_wait_init t0 ms" "map snd ps"]
  by (simp add: observe_all_in_time startup_wait_init_def)

text \<open>
  Claim C7. The startup gate, at the end of any history of polls that were all before the deadline:
  the next poll times out exactly when \<open>timeout_ms\<close> have elapsed since the start, however many
  or few polls there were; otherwise it is \<open>Ready\<close> exactly when it and the four polls before
  it were all healthy.
\<close>
theorem startup_gate_correct:
  fixes ps :: "(int \<times> bool) list"
  assumes "\<forall>p \<in> set ps. fst p < start_ns + uint timeout_ms * 1000000" "length ps < 2 ^ 64 - 1"
  shows "snd (observe (observe_all (startup_wait_init start_ns timeout_ms) ps) now_ns healthy) =
     (if start_ns + uint timeout_ms * 1000000 \<le> now_ns then TimedOut
      else if healthy \<and> 4 \<le> length ps \<and> list_all snd (drop (length ps - 4) ps) then Ready
      else Waiting)"
proof (cases "start_ns + uint timeout_ms * 1000000 \<le> now_ns")
  case True
  then show ?thesis by (simp add: observe_def startup_wait_init_def)
next
  case False
  let ?w = "startup_wait_init start_ns timeout_ms"
  let ?ps = "ps @ [(now_ns, healthy)]"
  have "\<forall>p \<in> set ?ps. fst p < deadline_ns ?w"
    using assms(1) False by (auto simp: startup_wait_init_def)
  then have c: "unat (stable_count (observe_all ?w ?ps)) = trailing (map snd ?ps)"
    using assms(2) by (intro stable_count_run) auto
  have "snd (observe (observe_all ?w ps) now_ns healthy)
      = (if 5 \<le> stable_count (observe_all ?w ?ps) then Ready else Waiting)"
    using False by (simp add: observe_def startup_wait_init_def Let_def)
  also have "5 \<le> stable_count (observe_all ?w ?ps) \<longleftrightarrow> 5 \<le> trailing (map snd ?ps)"
    using c by (simp add: word_le_nat_alt del: observe_all_append)
  also have "\<dots> \<longleftrightarrow> healthy \<and> 4 \<le> trailing (map snd ps)"
    by (simp add: numeral_eq_Suc)
  also have "4 \<le> trailing (map snd ps) \<longleftrightarrow> 4 \<le> length ps \<and> list_all snd (drop (length ps - 4) ps)"
    by (simp add: le_trailing_iff drop_map list_all_iff)
  finally show ?thesis using False by simp
qed

theorem startup_gate_correct_witness:
  "snd (observe (observe_all (startup_wait_init 0 60000)
      [(1, False), (2, True), (3, True), (4, True), (5, True)]) 6 True) = Ready
   \<and> snd (observe (observe_all (startup_wait_init 0 60000) [(1, True)]) 60000000000 True) = TimedOut"
  using startup_gate_correct [of "[(1, False), (2, True), (3, True), (4, True), (5, True)]" 0 60000 6 True]
    startup_gate_correct [of "[(1, True)]" 0 60000 60000000000 True]
  by simp

end
