(* ===== verification/Report_Mailbox.thy ===== *)
theory Report_Mailbox
  imports Cycle_Statistics
begin

text \<open>
  The report mailbox of src/src/runtime_report.hpp: one slot and one atomic flag, written by the
  cyclic thread (\<open>publish\<close>) and read by the reporter thread (\<open>consume\<close>). The two
  operations are first given as the code runs them without interference; then every access to the
  flag and to the slot is a step of its own, and the steps of the two threads interleave freely.
  The release/acquire flag makes the interleavings sequentially consistent.
\<close>

section \<open>The report and the two operations\<close>

record 'r runtime_report =
  window_seconds :: 'r
  rr_responding_slaves :: u32
  rr_al_states :: u32
  input_wc :: u32
  output_wc :: u32
  rr_input_wc_state :: u32
  rr_output_wc_state :: u32
  rr_link_up :: bool
  authorized :: bool
  rr_cycle :: "'r timing_summary"
  rr_task :: "'r timing_summary"
  rr_receive :: "'r timing_summary"
  rr_pdo :: "'r timing_summary"
  rr_send :: "'r timing_summary"
  rr_missed :: u64
  wc_errors :: u64
  link_down :: u64
  total_missed :: u64
  total_wc_errors :: u64
  total_link_down :: u64

record 'm mailbox =
  slot :: 'm
  ready :: bool

definition publish :: "'m mailbox \<Rightarrow> 'm \<Rightarrow> 'm mailbox \<times> bool" where
  "publish b report =
     (if ready b then (b, False)
      else (b\<lparr>slot := report, ready := True\<rparr>, True))"

definition consume :: "'m mailbox \<Rightarrow> 'm mailbox \<times> 'm option" where
  "consume b =
     (if \<not> ready b then (b, None)
      else (b\<lparr>ready := False\<rparr>, Some (slot b)))"

section \<open>The two threads, one memory access at a time\<close>

text \<open>
  \<open>P_Copy r\<close>: \<open>publish\<close> has read \<open>ready == false\<close> and is writing the slot;
  \<open>P_Store r\<close>: the slot is written, the release store is next. \<open>C_Copy\<close>:
  \<open>consume\<close> has read \<open>ready == true\<close> and is reading the slot; \<open>C_Store r\<close>: it has
  \<open>r\<close> and will clear the flag. \<open>sent\<close> and \<open>received\<close> list the reports for which
  \<open>publish\<close>, and \<open>consume\<close>, returned true.
\<close>

datatype 'm producer_pc = P_Idle | P_Copy 'm | P_Store 'm

datatype 'm consumer_pc = C_Idle | C_Copy | C_Store 'm

record 'm mailbox_sys =
  box :: "'m mailbox"
  producer :: "'m producer_pc"
  consumer :: "'m consumer_pc"
  sent :: "'m list"
  received :: "'m list"

inductive mailbox_step :: "'m mailbox_sys \<Rightarrow> 'm mailbox_sys \<Rightarrow> bool" where
  publish_full: "producer s = P_Idle \<Longrightarrow> ready (box s) \<Longrightarrow> mailbox_step s s"
| publish_load: "producer s = P_Idle \<Longrightarrow> \<not> ready (box s) \<Longrightarrow> mailbox_step s (s\<lparr>producer := P_Copy r\<rparr>)"
| publish_copy: "producer s = P_Copy r \<Longrightarrow>
     mailbox_step s (s\<lparr>box := (box s)\<lparr>slot := r\<rparr>, producer := P_Store r\<rparr>)"
| publish_store: "producer s = P_Store r \<Longrightarrow>
     mailbox_step s (s\<lparr>box := (box s)\<lparr>ready := True\<rparr>, producer := P_Idle, sent := sent s @ [r]\<rparr>)"
| consume_empty: "consumer s = C_Idle \<Longrightarrow> \<not> ready (box s) \<Longrightarrow> mailbox_step s s"
| consume_load: "consumer s = C_Idle \<Longrightarrow> ready (box s) \<Longrightarrow> mailbox_step s (s\<lparr>consumer := C_Copy\<rparr>)"
| consume_copy: "consumer s = C_Copy \<Longrightarrow>
     mailbox_step s (s\<lparr>consumer := C_Store (slot (box s))\<rparr>)"
| consume_store: "consumer s = C_Store r \<Longrightarrow>
     mailbox_step s (s\<lparr>box := (box s)\<lparr>ready := False\<rparr>, consumer := C_Idle, received := received s @ [r]\<rparr>)"

inductive_simps mailbox_step_simps: "mailbox_step s t"
inductive_cases mailbox_stepE: "mailbox_step s t"

definition mailbox_init :: "'m mailbox_sys \<Rightarrow> bool" where
  "mailbox_init s \<longleftrightarrow> \<not> ready (box s) \<and> producer s = P_Idle \<and> consumer s = C_Idle
     \<and> sent s = [] \<and> received s = []"

text \<open>
  The slot belongs to the producer while the flag is clear and to the consumer while it is set;
  what is sent and not yet received is exactly the content of the slot.
\<close>

definition mailbox_inv :: "'m mailbox_sys \<Rightarrow> bool" where
  "mailbox_inv s \<longleftrightarrow>
     (ready (box s) \<longrightarrow> producer s = P_Idle \<and> sent s = received s @ [slot (box s)])
     \<and> (\<not> ready (box s) \<longrightarrow> consumer s = C_Idle \<and> sent s = received s)
     \<and> (\<forall>r. producer s = P_Store r \<longrightarrow> slot (box s) = r)
     \<and> (\<forall>r. consumer s = C_Store r \<longrightarrow> slot (box s) = r)"

interpretation mbox: safety mailbox_init mailbox_step mailbox_inv
proof unfold_locales
  fix s :: "'a mailbox_sys"
  assume "mailbox_init s"
  then show "mailbox_inv s" by (simp add: mailbox_init_def mailbox_inv_def)
next
  fix s t :: "'a mailbox_sys"
  assume "mailbox_inv s" "mailbox_step s t"
  then show "mailbox_inv t"
    by (auto simp: mailbox_inv_def elim!: mailbox_stepE)
qed

text \<open>
  The step relation is what the two operations do: run without interference, \<open>publish\<close> and
  \<open>consume\<close> are sequences of steps.
\<close>

lemma publish_steps:
  assumes "producer s = P_Idle" "publish (box s) r = (b, True)"
  shows "mailbox_step\<^sup>*\<^sup>* s (s\<lparr>box := b, sent := sent s @ [r]\<rparr>)"
proof -
  have "\<not> ready (box s)" and b: "b = (box s)\<lparr>slot := r, ready := True\<rparr>"
    using assms(2) by (auto simp: publish_def split: if_splits)
  then have "mailbox_step s (s\<lparr>producer := P_Copy r\<rparr>)"
    using assms(1) by (intro publish_load)
  moreover have "mailbox_step (s\<lparr>producer := P_Copy r\<rparr>)
      (s\<lparr>box := (box s)\<lparr>slot := r\<rparr>, producer := P_Store r\<rparr>)"
    using publish_copy [of "s\<lparr>producer := P_Copy r\<rparr>" r] by simp
  moreover have "mailbox_step (s\<lparr>box := (box s)\<lparr>slot := r\<rparr>, producer := P_Store r\<rparr>)
      (s\<lparr>box := b, sent := sent s @ [r]\<rparr>)"
    using publish_store [of "s\<lparr>box := (box s)\<lparr>slot := r\<rparr>, producer := P_Store r\<rparr>" r] b assms(1)
    by (cases s) simp
  ultimately show ?thesis by (meson converse_rtranclp_into_rtranclp r_into_rtranclp)
qed

lemma consume_steps:
  assumes "consumer s = C_Idle" "consume (box s) = (b, Some r)"
  shows "mailbox_step\<^sup>*\<^sup>* s (s\<lparr>box := b, received := received s @ [r]\<rparr>)"
proof -
  have rdy: "ready (box s)" and b: "b = (box s)\<lparr>ready := False\<rparr>" "r = slot (box s)"
    using assms(2) by (auto simp: consume_def split: if_splits)
  then have "mailbox_step s (s\<lparr>consumer := C_Copy\<rparr>)"
    using assms(1) by (intro consume_load)
  moreover have "mailbox_step (s\<lparr>consumer := C_Copy\<rparr>) (s\<lparr>consumer := C_Store r\<rparr>)"
    using consume_copy [of "s\<lparr>consumer := C_Copy\<rparr>"] b by simp
  moreover have "mailbox_step (s\<lparr>consumer := C_Store r\<rparr>) (s\<lparr>box := b, received := received s @ [r]\<rparr>)"
    using consume_store [of "s\<lparr>consumer := C_Store r\<rparr>" r] b assms(1) by (cases s) simp
  ultimately show ?thesis by (meson converse_rtranclp_into_rtranclp r_into_rtranclp)
qed

text \<open>
  The specification: a buffer of one place over the reports put so far and the reports got so far. The
  two histories are the abstraction of a state of the two threads.
\<close>

inductive buffer_step :: "'m list \<times> 'm list \<Rightarrow> 'm list \<times> 'm list \<Rightarrow> bool" where
  put: "buffer_step (xs, xs) (xs @ [r], xs)"
| get: "buffer_step (xs @ [r], xs) (xs @ [r], xs @ [r])"

definition histories :: "'m mailbox_sys \<Rightarrow> 'm list \<times> 'm list" where
  "histories s = (sent s, received s)"

lemma mailbox_simulates:
  assumes "mailbox_inv s" "mailbox_step s t"
  shows "histories t = histories s \<or> buffer_step (histories s) (histories t)"
  using assms(2,1) by cases (auto simp: mailbox_inv_def histories_def intro: put get)

text \<open>
  Claim C8. The two threads implement a buffer of one place: in every interleaving each step leaves the
  histories of published and of consumed reports alone or puts one report into the empty buffer or gets
  the one it holds; the threads never touch the slot at the same time; and the reports consumed are the
  reports published, in order, but for the one in the slot, which is the next one consumed: an accepted
  report is neither torn nor lost nor duplicated.
\<close>
theorem mailbox_race_free_fifo:
  assumes "reach mailbox_init mailbox_step s"
  shows "(\<forall>t. mailbox_step s t \<longrightarrow> histories t = histories s \<or> buffer_step (histories s) (histories t))
    \<and> \<not> ((\<exists>r. producer s = P_Copy r \<or> producer s = P_Store r) \<and> consumer s \<noteq> C_Idle)
    \<and> sent s = received s @ (if ready (box s) then [slot (box s)] else [])
    \<and> (\<forall>b r. consumer s = C_Idle \<longrightarrow> consume (box s) = (b, Some r) \<longrightarrow> sent s = received s @ [r])"
proof -
  have inv: "mailbox_inv s" using assms by (rule mbox.reach_inv)
  then show ?thesis
    using mailbox_simulates [OF inv]
    by (cases "ready (box s)") (auto simp: mailbox_inv_def consume_def)
qed

text \<open>A run in which one report is published and then consumed.\<close>

lemma mailbox_example:
  "reach mailbox_init mailbox_step
     \<lparr>box = \<lparr>slot = (7::nat), ready = True\<rparr>, producer = P_Idle, consumer = C_Idle, sent = [7], received = []\<rparr>"
proof -
  let ?s = "\<lparr>box = \<lparr>slot = (0::nat), ready = False\<rparr>, producer = P_Idle, consumer = C_Idle,
    sent = [], received = []\<rparr>"
  have "mailbox_step\<^sup>*\<^sup>* ?s (?s\<lparr>box := \<lparr>slot = 7, ready = True\<rparr>, sent := sent ?s @ [7]\<rparr>)"
    by (rule publish_steps) (simp_all add: publish_def)
  moreover have "reach mailbox_init mailbox_step ?s"
    by (rule reach_init) (simp add: mailbox_init_def)
  ultimately have "reach mailbox_init mailbox_step (?s\<lparr>box := \<lparr>slot = 7, ready = True\<rparr>, sent := sent ?s @ [7]\<rparr>)"
    by (induction rule: rtranclp_induct) (auto intro: reach_step)
  then show ?thesis by simp
qed

theorem mailbox_race_free_fifo_witness:
  "consume \<lparr>slot = (7::nat), ready = True\<rparr> = (\<lparr>slot = 7, ready = False\<rparr>, Some 7)
   \<and> [7::nat] = [] @ [7]"
  using mailbox_race_free_fifo [OF mailbox_example] by (simp add: consume_def)

end
