(* ===== verification/Shared_Bus.thy ===== *)
theory Shared_Bus
  imports Cycle_Statistics Cycle_Timing
begin

text \<open>
  The shared \<open>EcatBus\<close> snapshot as this repository reads and writes it, and its per-cycle
  update: \<open>summarizeBusState\<close> and \<open>updateSharedBus\<close> of src/src/cyclic_task.cpp. The
  structure itself is defined by the rocos-shm submodule, which is not in the repository: the
  record lists the fields the sources use, and the capacities are the parameter \<open>abi\<close>. The
  values of the bus states are those of src/docs/shared-memory-v2.md. Every shared scalar is
  accessed atomically, so each assignment is one field update.
\<close>

section \<open>Capacities of the ABI\<close>

record abi =
  MAX_SLAVE_NUM :: nat
  MAX_PDINPUT_NUM :: nat
  MAX_PDOUTPUT_NUM :: nat
  MAX_SLAVE_NAME_LEN :: nat
  MAX_PD_NAME_LEN :: nat
  EC_SHM_MAX_SIZE :: nat

section \<open>The shared structures\<close>

record pd_var =
  pv_name :: string
  pv_offset :: int
  pv_size :: int
  pv_index :: u16
  pv_sub_index :: u8

record shm_slave =
  sl_id :: int
  sl_name :: string
  sl_vendor_id :: u32
  sl_product_code :: u32
  sl_revision_number :: u32
  sl_serial_number :: u32
  sl_info_valid :: u32
  sl_identity_source :: u32
  sl_firmware_version :: string
  sl_online :: u32
  sl_al_state :: u32
  sl_al_status_code :: u32
  sl_runtime_valid :: u32
  input_vars :: "pd_var list"
  output_vars :: "pd_var list"
  input_var_num :: int
  output_var_num :: int

record 'r ecat_bus =
  slave_num :: int
  slaves :: "shm_slave list"
  timestamp :: int
  dt :: u32
  min_cycle_time :: 'r
  max_cycle_time :: 'r
  avg_cycle_time :: 'r
  current_cycle_time :: 'r
  current_state :: u32
  is_authorized :: bool
  connected_slave_num :: u32
  link_up :: u32
  wc_state :: u32
  status_valid :: u32
  heartbeat_mono_ns :: int

text \<open>The value-initialised structures: \<open>EcatBus{}\<close> has fixed-size arrays of cleared rows.\<close>

definition pd_var_init :: pd_var where
  "pd_var_init = \<lparr>pv_name = [], pv_offset = 0, pv_size = 0, pv_index = 0, pv_sub_index = 0\<rparr>"

definition shm_slave_init :: "abi \<Rightarrow> shm_slave" where
  "shm_slave_init A = \<lparr>sl_id = 0, sl_name = [], sl_vendor_id = 0, sl_product_code = 0,
     sl_revision_number = 0, sl_serial_number = 0, sl_info_valid = 0, sl_identity_source = 0,
     sl_firmware_version = [], sl_online = 0, sl_al_state = 0, sl_al_status_code = 0,
     sl_runtime_valid = 0, input_vars = replicate (MAX_PDINPUT_NUM A) pd_var_init,
     output_vars = replicate (MAX_PDOUTPUT_NUM A) pd_var_init, input_var_num = 0, output_var_num = 0\<rparr>"

definition ecat_bus_init :: "abi \<Rightarrow> 'r::linordered_field ecat_bus" where
  "ecat_bus_init A = \<lparr>slave_num = 0, slaves = replicate (MAX_SLAVE_NUM A) (shm_slave_init A),
     timestamp = 0, dt = 0, min_cycle_time = 0, max_cycle_time = 0, avg_cycle_time = 0,
     current_cycle_time = 0, current_state = 0, is_authorized = False, connected_slave_num = 0,
     link_up = 0, wc_state = 0, status_valid = 0, heartbeat_mono_ns = 0\<rparr>"

section \<open>One cycle's view of the master\<close>

datatype ec_wc_state = EC_WC_ZERO | EC_WC_INCOMPLETE | EC_WC_COMPLETE

record bus_state =
  bs_status_valid :: u32
  responding_slaves :: u32
  al_states :: u32
  bs_link_up :: bool
  input_working_counter :: u32
  output_working_counter :: u32
  input_wc_state :: ec_wc_state
  output_wc_state :: ec_wc_state

definition bus_state_init :: bus_state where
  "bus_state_init = \<lparr>bs_status_valid = 0, responding_slaves = 0, al_states = 0, bs_link_up = False,
     input_working_counter = 0, output_working_counter = 0,
     input_wc_state = EC_WC_ZERO, output_wc_state = EC_WC_ZERO\<rparr>"

section \<open>The published bus state\<close>

definition ECAT_STATE_INIT :: u32 where "ECAT_STATE_INIT = 1"
definition ECAT_STATE_PREOP :: u32 where "ECAT_STATE_PREOP = 2"
definition ECAT_STATE_BOOTSTRAP :: u32 where "ECAT_STATE_BOOTSTRAP = 3"
definition ECAT_STATE_SAFEOP :: u32 where "ECAT_STATE_SAFEOP = 4"
definition ECAT_STATE_OP :: u32 where "ECAT_STATE_OP = 8"

definition known_ecat_state :: "u32 \<Rightarrow> bool" where
  "known_ecat_state al \<longleftrightarrow> al \<in> {ECAT_STATE_INIT, ECAT_STATE_PREOP, ECAT_STATE_BOOTSTRAP,
     ECAT_STATE_SAFEOP, ECAT_STATE_OP}"

lemmas ecat_state_defs = ECAT_STATE_INIT_def ECAT_STATE_PREOP_def ECAT_STATE_BOOTSTRAP_def
  ECAT_STATE_SAFEOP_def ECAT_STATE_OP_def known_ecat_state_def

text \<open>The loop over the configured slaves: \<open>i\<close> is the index, \<open>common_state\<close> the state so far.\<close>

fun summarize_slaves :: "nat \<Rightarrow> u32 \<Rightarrow> shm_slave list \<Rightarrow> u32" where
  "summarize_slaves i common_state [] = common_state"
| "summarize_slaves i common_state (slave # rest) =
     (if and (sl_runtime_valid slave) 3 \<noteq> 3 \<or> sl_online slave \<noteq> 1 then 0
      else
        let al = sl_al_state slave in
        if \<not> known_ecat_state al then 0
        else if i = 0 then summarize_slaves (Suc i) al rest
        else if al \<noteq> common_state then 0
        else summarize_slaves (Suc i) common_state rest)"

definition summarize_bus_state :: "abi \<Rightarrow> bus_state \<Rightarrow> 'r ecat_bus \<Rightarrow> u32" where
  "summarize_bus_state A state bus =
     (if and (bs_status_valid state) 3 \<noteq> 3 \<or> \<not> bs_link_up state \<or> slave_num bus \<le> 0
         \<or> int (MAX_SLAVE_NUM A) < slave_num bus
         \<or> responding_slaves state \<noteq> word_of_int (slave_num bus)
      then 0
      else summarize_slaves 0 0 (take (nat (slave_num bus)) (slaves bus)))"

definition update_shared_bus ::
    "abi \<Rightarrow> bus_state \<Rightarrow> 'r::linordered_field cycle_statistics \<Rightarrow> u32 \<Rightarrow> int \<Rightarrow> 'r ecat_bus
     \<Rightarrow> 'r cycle_statistics \<times> 'r ecat_bus" where
  "update_shared_bus A state statistics period_us wall_timestamp_us bus =
     (let statistics = account_cycle_duration statistics (current_us statistics);
          bus = bus\<lparr>timestamp := wall_timestamp_us, dt := period_us,
            min_cycle_time := minimum_us statistics, max_cycle_time := maximum_us statistics,
            avg_cycle_time := average_us statistics, current_cycle_time := current_us statistics\<rparr>;
          bus = bus\<lparr>current_state := summarize_bus_state A state bus\<rparr>;
          bus = bus\<lparr>is_authorized := True, connected_slave_num := responding_slaves state,
            link_up := (if bs_link_up state then 1 else 0),
            wc_state := (if and (bs_status_valid state) 4 = 0 then 0
              else if input_wc_state state = EC_WC_COMPLETE \<and> output_wc_state state = EC_WC_COMPLETE
              then 1 else 2),
            status_valid := bs_status_valid state\<rparr>
      in (statistics, bus))"

section \<open>Properties\<close>

text \<open>A slave row that reports the state \<open>al\<close>: its runtime fields are valid and it is online.\<close>

definition slave_reports :: "u32 \<Rightarrow> shm_slave \<Rightarrow> bool" where
  "slave_reports al s \<longleftrightarrow> and (sl_runtime_valid s) 3 = 3 \<and> sl_online s = 1 \<and> sl_al_state s = al"

lemma summarize_slaves_Suc:
  assumes "known_ecat_state common"
  shows "summarize_slaves (Suc i) common ss = (if list_all (slave_reports common) ss then common else 0)"
  using assms
  by (induction ss arbitrary: i) (auto simp: slave_reports_def Let_def)

lemma known_nonzero: "known_ecat_state al \<Longrightarrow> al \<noteq> 0"
  by (auto simp: ecat_state_defs)

lemma summarize_slaves_0:
  assumes "al \<noteq> 0"
  shows "summarize_slaves 0 0 ss = al
    \<longleftrightarrow> ss \<noteq> [] \<and> known_ecat_state al \<and> list_all (slave_reports al) ss"
proof (cases ss)
  case Nil
  then show ?thesis using assms by simp
next
  case (Cons s rest)
  show ?thesis
  proof (cases "slave_reports (sl_al_state s) s \<and> known_ecat_state (sl_al_state s)")
    case True
    then have eq: "summarize_slaves 0 0 ss
        = (if list_all (slave_reports (sl_al_state s)) rest then sl_al_state s else 0)"
      by (simp add: Cons summarize_slaves_Suc Let_def) (simp add: slave_reports_def)
    have "slave_reports al s \<longleftrightarrow> al = sl_al_state s"
      using True by (auto simp: slave_reports_def)
    then show ?thesis
      unfolding eq using True assms by (auto simp: Cons)
  next
    case False
    then have "summarize_slaves 0 0 ss = 0"
      by (auto simp: Cons slave_reports_def Let_def)
    then show ?thesis using False assms by (auto simp: Cons slave_reports_def)
  qed
qed

lemma update_shared_bus_current_state:
  "current_state (snd (update_shared_bus A state st period ts bus)) = summarize_bus_state A state bus"
  by (simp add: update_shared_bus_def summarize_bus_state_def Let_def)

lemma current_state_iff:
  assumes "al \<noteq> 0" "length (slaves bus) = MAX_SLAVE_NUM A"
  shows "current_state (snd (update_shared_bus A state st period ts bus)) = al \<longleftrightarrow>
    and (bs_status_valid state) 3 = 3 \<and> bs_link_up state
    \<and> 0 < slave_num bus \<and> slave_num bus \<le> int (MAX_SLAVE_NUM A)
    \<and> responding_slaves state = word_of_int (slave_num bus)
    \<and> known_ecat_state al
    \<and> (\<forall>i < nat (slave_num bus). slave_reports al (slaves bus ! i))"
proof -
  have all: "list_all (slave_reports al) (take n (slaves bus))
      \<longleftrightarrow> (\<forall>i < n. slave_reports al (slaves bus ! i))" if "n \<le> length (slaves bus)" for n
    using that by (simp add: list_all_length)
  show ?thesis
  proof (cases "and (bs_status_valid state) 3 = 3 \<and> bs_link_up state \<and> 0 < slave_num bus
      \<and> slave_num bus \<le> int (MAX_SLAVE_NUM A) \<and> responding_slaves state = word_of_int (slave_num bus)")
    case True
    then have "take (nat (slave_num bus)) (slaves bus) \<noteq> []" "nat (slave_num bus) \<le> length (slaves bus)"
      using assms(2) by auto
    then show ?thesis
      using True summarize_slaves_0 [OF assms(1), of "take (nat (slave_num bus)) (slaves bus)"]
      by (simp add: update_shared_bus_current_state summarize_bus_state_def all)
  next
    case False
    then have "summarize_bus_state A state bus = 0"
      by (auto simp: summarize_bus_state_def)
    then show ?thesis
      using False assms(1) by (auto simp: update_shared_bus_current_state)
  qed
qed

text \<open>
  Claim C9. The published bus state is a non-zero state \<open>al\<close> exactly when the online count and
  the link are valid, the link is up, the configured count is between 1 and the capacity and equals
  the responding count, \<open>al\<close> is one of the five EtherCAT states, and every configured slave is
  online with valid runtime fields and in that same state; a mixed, offline or unknown bus
  publishes 0, never a stale OP.
\<close>
theorem published_state_iff:
  assumes "al \<noteq> 0" "length (slaves bus) = MAX_SLAVE_NUM A"
  shows "current_state (snd (update_shared_bus A state st period ts bus)) = al \<longleftrightarrow>
    and (bs_status_valid state) 3 = 3 \<and> bs_link_up state
    \<and> 0 < slave_num bus \<and> slave_num bus \<le> int (MAX_SLAVE_NUM A)
    \<and> responding_slaves state = word_of_int (slave_num bus)
    \<and> known_ecat_state al
    \<and> (\<forall>i < nat (slave_num bus). slave_reports al (slaves bus ! i))"
  by (rule current_state_iff [OF assms])

definition abi_example :: abi where
  "abi_example = \<lparr>MAX_SLAVE_NUM = 2, MAX_PDINPUT_NUM = 3, MAX_PDOUTPUT_NUM = 3,
     MAX_SLAVE_NAME_LEN = 32, MAX_PD_NAME_LEN = 32, EC_SHM_MAX_SIZE = 4096\<rparr>"

definition op_row :: shm_slave where
  "op_row = (shm_slave_init abi_example)\<lparr>sl_runtime_valid := 3, sl_online := 1, sl_al_state := 8\<rparr>"

theorem published_state_iff_witness:
  "current_state (snd (update_shared_bus abi_example
      (bus_state_init\<lparr>bs_status_valid := 7, bs_link_up := True, responding_slaves := 2\<rparr>)
      (cycle_statistics_init :: rat cycle_statistics) 1000 0
      ((ecat_bus_init abi_example)\<lparr>slave_num := 2, slaves := [op_row, op_row]\<rparr>))) = 8"
proof -
  let ?st = "bus_state_init\<lparr>bs_status_valid := 7, bs_link_up := True, responding_slaves := 2\<rparr>"
  let ?bus = "(ecat_bus_init abi_example)\<lparr>slave_num := 2, slaves := [op_row, op_row]\<rparr> :: rat ecat_bus"
  have h: "(8::u32) \<noteq> 0" "length (slaves ?bus) = MAX_SLAVE_NUM abi_example"
    by (simp_all add: abi_example_def)
  show ?thesis
    unfolding published_state_iff [OF h]
    by (simp add: abi_example_def bus_state_init_def ecat_state_defs slave_reports_def op_row_def
        numeral_2_eq_2 all_less_Suc_conv)
qed

end
