(* ===== verification/Statistics_Reset.thy ===== *)
theory Statistics_Reset
  imports Shared_Bus
begin

text \<open>
  The statistics reset handshake: \<open>StatisticsReset\<close> of src/src/statistics_reset.hpp and
  \<open>applyStatisticsReset\<close> of src/src/cyclic_task.cpp. One non-real-time command worker submits
  a ticket and polls; the cyclic thread acknowledges it at a cycle boundary, after it has cleared
  and published the statistics. The two atomics are 64-bit words, so tickets wrap. The operations
  are given as functions; then every atomic load and store of the two threads is a step of its own.
\<close>

section \<open>The operations\<close>

record reset_cells =
  requested :: u64
  acknowledged :: u64

text \<open>The result codes of the command protocol that \<open>execute\<close> returns.\<close>

datatype reset_result = STATE_MISMATCH | DEADLINE_EXCEEDED | BUSY | OUTCOME_UNKNOWN | RESULT_OK

definition pending :: "reset_cells \<Rightarrow> u64" where
  "pending c = (let ticket = requested c in if ticket \<noteq> acknowledged c then ticket else 0)"

definition acknowledge :: "reset_cells \<Rightarrow> u64 \<Rightarrow> reset_cells" where
  "acknowledge c ticket = c\<lparr>acknowledged := ticket\<rparr>"

text \<open>\<open>execute\<close> up to its wait: a result, or the ticket it stored.\<close>

definition execute_submit :: "reset_cells \<Rightarrow> bool \<Rightarrow> bool \<Rightarrow> reset_cells \<times> (reset_result + u64)" where
  "execute_submit c stopped expired =
     (if stopped then (c, Inl STATE_MISMATCH)
      else if expired then (c, Inl DEADLINE_EXCEEDED)
      else let previous = requested c in
        if acknowledged c \<noteq> previous then (c, Inl BUSY)
        else let ticket = previous + 1 in (c\<lparr>requested := ticket\<rparr>, Inr ticket))"

text \<open>One iteration of its wait: \<open>None\<close> sleeps for a millisecond and polls again.\<close>

definition execute_poll :: "reset_cells \<Rightarrow> u64 \<Rightarrow> bool \<Rightarrow> bool \<Rightarrow> reset_result option" where
  "execute_poll c ticket stopped expired =
     (if acknowledged c \<noteq> ticket
      then if stopped \<or> expired then Some OUTCOME_UNKNOWN else None
      else Some RESULT_OK)"

definition apply_statistics_reset ::
    "reset_cells \<Rightarrow> 'r::linordered_field cycle_statistics \<Rightarrow> 'r ecat_bus
     \<Rightarrow> reset_cells \<times> 'r cycle_statistics \<times> 'r ecat_bus \<times> bool" where
  "apply_statistics_reset c statistics bus =
     (let ticket = pending c in
      if ticket = 0 then (c, statistics, bus, False)
      else
        let statistics = reset_timing_statistics statistics;
            bus = bus\<lparr>min_cycle_time := 0, max_cycle_time := 0, avg_cycle_time := 0,
                      current_cycle_time := 0\<rparr>
        in (acknowledge c ticket, statistics, bus, True))"

section \<open>The two threads, one atomic access at a time\<close>

text \<open>
  The worker is outside \<open>execute\<close>, has loaded \<open>requested\<close>, has found it acknowledged and
  will store the next ticket, waits for its ticket, or returns a result. The cyclic thread is
  outside \<open>applyStatisticsReset\<close>, has loaded \<open>requested\<close>, will clear and publish the
  statistics, or will acknowledge. \<open>resets\<close> counts the resets performed, \<open>submitted_at\<close> is
  its value when the worker stored its latest ticket. The stop flag and the clock are not
  constrained: either may interrupt the worker at any poll.
\<close>

datatype worker_pc = W_Idle | W_Loaded u64 | W_Store u64 | W_Wait u64 | W_Done reset_result

datatype cyclic_pc = Y_Idle | Y_Loaded u64 | Y_Reset u64 | Y_Ack u64

record reset_sys =
  cells :: reset_cells
  worker :: worker_pc
  cyclic :: cyclic_pc
  resets :: nat
  submitted_at :: nat

inductive reset_step :: "reset_sys \<Rightarrow> reset_sys \<Rightarrow> bool" where
  w_refuse: "worker s = W_Idle \<Longrightarrow> r \<in> {STATE_MISMATCH, DEADLINE_EXCEEDED} \<Longrightarrow>
     reset_step s (s\<lparr>worker := W_Done r\<rparr>)"
| w_load: "worker s = W_Idle \<Longrightarrow> reset_step s (s\<lparr>worker := W_Loaded (requested (cells s))\<rparr>)"
| w_busy: "worker s = W_Loaded p \<Longrightarrow> acknowledged (cells s) \<noteq> p \<Longrightarrow>
     reset_step s (s\<lparr>worker := W_Done BUSY\<rparr>)"
| w_free: "worker s = W_Loaded p \<Longrightarrow> acknowledged (cells s) = p \<Longrightarrow>
     reset_step s (s\<lparr>worker := W_Store p\<rparr>)"
| w_store: "worker s = W_Store p \<Longrightarrow>
     reset_step s (s\<lparr>cells := (cells s)\<lparr>requested := p + 1\<rparr>, worker := W_Wait (p + 1),
       submitted_at := resets s\<rparr>)"
| w_poll: "worker s = W_Wait t \<Longrightarrow> execute_poll (cells s) t stopped expired = Some r \<Longrightarrow>
     reset_step s (s\<lparr>worker := W_Done r\<rparr>)"
| w_sleep: "worker s = W_Wait t \<Longrightarrow> execute_poll (cells s) t stopped expired = None \<Longrightarrow> reset_step s s"
| w_return: "worker s = W_Done r \<Longrightarrow> reset_step s (s\<lparr>worker := W_Idle\<rparr>)"
| y_load: "cyclic s = Y_Idle \<Longrightarrow> reset_step s (s\<lparr>cyclic := Y_Loaded (requested (cells s))\<rparr>)"
| y_none: "cyclic s = Y_Loaded t \<Longrightarrow> t = acknowledged (cells s) \<or> t = 0 \<Longrightarrow>
     reset_step s (s\<lparr>cyclic := Y_Idle\<rparr>)"
| y_some: "cyclic s = Y_Loaded t \<Longrightarrow> t \<noteq> acknowledged (cells s) \<Longrightarrow> t \<noteq> 0 \<Longrightarrow>
     reset_step s (s\<lparr>cyclic := Y_Reset t\<rparr>)"
| y_reset: "cyclic s = Y_Reset t \<Longrightarrow>
     reset_step s (s\<lparr>cyclic := Y_Ack t, resets := Suc (resets s)\<rparr>)"
| y_ack: "cyclic s = Y_Ack t \<Longrightarrow>
     reset_step s (s\<lparr>cells := acknowledge (cells s) t, cyclic := Y_Idle\<rparr>)"

inductive_cases reset_stepE: "reset_step s t"

definition reset_init :: "reset_sys \<Rightarrow> bool" where
  "reset_init s \<longleftrightarrow> s = \<lparr>cells = \<lparr>requested = 0, acknowledged = 0\<rparr>, worker = W_Idle,
     cyclic = Y_Idle, resets = 0, submitted_at = 0\<rparr>"

text \<open>
  At most one ticket is outstanding; only the outstanding ticket is reset and acknowledged; and the
  number of resets is the last acknowledged ticket, one more while the cyclic thread holds an
  acknowledgement.
\<close>

definition reset_inv :: "reset_sys \<Rightarrow> bool" where
  "reset_inv s \<longleftrightarrow>
     (let r = requested (cells s); a = acknowledged (cells s) in
      (r = a \<or> r = a + 1)
      \<and> (\<forall>p. worker s = W_Loaded p \<longrightarrow> p = r)
      \<and> (\<forall>p. worker s = W_Store p \<longrightarrow> p = r \<and> r = a)
      \<and> (\<forall>t. worker s = W_Wait t \<longrightarrow> t = r
            \<and> resets s = submitted_at s + (if r = a \<or> (\<exists>t. cyclic s = Y_Ack t) then 1 else 0))
      \<and> (worker s = W_Done RESULT_OK \<longrightarrow> r = a \<and> resets s = submitted_at s + 1)
      \<and> (\<forall>t. cyclic s = Y_Loaded t \<longrightarrow> t = r \<or> t = a)
      \<and> (\<forall>t. cyclic s = Y_Reset t \<or> cyclic s = Y_Ack t \<longrightarrow> t = r \<and> r = a + 1)
      \<and> of_nat (resets s) = (if \<exists>t. cyclic s = Y_Ack t then a + 1 else a))"

lemma reset_inv_step:
  assumes inv: "reset_inv s" and step: "reset_step s t"
  shows "reset_inv t"
proof -
  obtain r a w y n m where s: "s = \<lparr>cells = \<lparr>requested = r, acknowledged = a\<rparr>, worker = w,
      cyclic = y, resets = n, submitted_at = m\<rparr>"
    by (metis reset_sys.cases reset_cells.cases)
  from step show ?thesis
    using inv unfolding s
    by cases (auto simp: reset_inv_def acknowledge_def execute_poll_def split: if_splits)
qed

lemma reset_inv_init: "reset_init s \<Longrightarrow> reset_inv s"
  by (simp add: reset_inv_def reset_init_def)

interpretation handshake: safety reset_init reset_step reset_inv
  by unfold_locales (fact reset_inv_init, fact reset_inv_step)

text \<open>
  Claim C10. In every interleaving of the command worker and the cyclic thread: when the worker
  returns \<open>RESULT_OK\<close>, exactly one reset has been performed since it stored its ticket and it
  has been acknowledged; when it waits on an unacknowledged ticket that the cyclic thread has not
  reached, no reset has been performed for it; at most one ticket is ever outstanding, and every
  reset performed belongs to one ticket (the number of resets is the last ticket acknowledged, plus
  the one being acknowledged).
\<close>
theorem reset_handshake_exactly_once:
  assumes "reach reset_init reset_step s"
  shows "(worker s = W_Done RESULT_OK \<longrightarrow>
            resets s = submitted_at s + 1 \<and> pending (cells s) = 0)
    \<and> (\<forall>t. worker s = W_Wait t \<longrightarrow> acknowledged (cells s) \<noteq> t \<longrightarrow> (\<forall>t. cyclic s \<noteq> Y_Ack t) \<longrightarrow>
            resets s = submitted_at s)
    \<and> (requested (cells s) = acknowledged (cells s) \<or> requested (cells s) = acknowledged (cells s) + 1)
    \<and> of_nat (resets s) = (if \<exists>t. cyclic s = Y_Ack t then acknowledged (cells s) + 1
                            else acknowledged (cells s))"
proof -
  have "reset_inv s" using assms by (rule handshake.reach_inv)
  then show ?thesis
    unfolding reset_inv_def Let_def pending_def by (auto split: if_splits)
qed

text \<open>
  A request that times out is not cancelled: once the worker has stored its ticket, a later
  submission is refused as busy until the cyclic thread acknowledges that very ticket.
\<close>

lemma execute_submit_ticket:
  "execute_submit c stopped expired = (c', Inr ticket) \<Longrightarrow>
     requested c' = ticket \<and> acknowledged c' = acknowledged c \<and> acknowledged c = ticket - 1"
  by (auto simp: execute_submit_def Let_def split: if_splits)

text \<open>
  A statistics reset, from submission to acknowledgement: after a ticket is submitted,
  every later submission is refused with \<open>BUSY\<close> (or with the stop or deadline result), leaving
  the outstanding ticket in place, and the worker's poll never reports success, until the cyclic
  thread applies the reset; applying it clears the four published times and the timing statistics,
  keeps the missed-deadline count and everything else, acknowledges the ticket, and makes the poll
  report \<open>RESULT_OK\<close>. Without an outstanding ticket it changes nothing.
\<close>
theorem statistics_reset_transaction:
  assumes "execute_submit c stopped expired = (c1, Inr ticket)" "ticket \<noteq> 0"
  shows "(\<forall>st ex. \<exists>r \<in> {BUSY, STATE_MISMATCH, DEADLINE_EXCEEDED}. execute_submit c1 st ex = (c1, Inl r))
    \<and> (\<forall>st ex. execute_poll c1 ticket st ex \<noteq> Some RESULT_OK)
    \<and> apply_statistics_reset c1 statistics bus =
        (c1\<lparr>acknowledged := ticket\<rparr>, reset_timing_statistics statistics,
         bus\<lparr>min_cycle_time := 0, max_cycle_time := 0, avg_cycle_time := 0, current_cycle_time := 0\<rparr>, True)
    \<and> missed_deadlines (reset_timing_statistics statistics) = missed_deadlines statistics
    \<and> (\<forall>st ex. execute_poll (c1\<lparr>acknowledged := ticket\<rparr>) ticket st ex = Some RESULT_OK)
    \<and> apply_statistics_reset (c1\<lparr>acknowledged := ticket\<rparr>) statistics bus
        = (c1\<lparr>acknowledged := ticket\<rparr>, statistics, bus, False)"
proof -
  have c1: "requested c1 = ticket" "acknowledged c1 \<noteq> ticket"
    using execute_submit_ticket [OF assms(1)] by auto
  then show ?thesis
    using assms(2)
    by (auto simp: execute_submit_def execute_poll_def apply_statistics_reset_def pending_def
        acknowledge_def reset_timing_statistics_def Let_def)
qed

theorem statistics_reset_transaction_witness:
  "snd (snd (snd (apply_statistics_reset \<lparr>requested = 1, acknowledged = 0\<rparr>
      (cycle_statistics_init :: rat cycle_statistics) (ecat_bus_init abi_example)))) = True"
proof -
  have "execute_submit \<lparr>requested = 0, acknowledged = 0\<rparr> False False
      = (\<lparr>requested = 1, acknowledged = 0\<rparr>, Inr 1)"
    by (simp add: execute_submit_def)
  from statistics_reset_transaction [OF this,
      of "cycle_statistics_init :: rat cycle_statistics" "ecat_bus_init abi_example"]
  show ?thesis by simp
qed

text \<open>A complete handshake, as a run of the two threads.\<close>

lemma reset_example:
  "reach reset_init reset_step \<lparr>cells = \<lparr>requested = 1, acknowledged = 1\<rparr>, worker = W_Done RESULT_OK,
     cyclic = Y_Idle, resets = 1, submitted_at = 0\<rparr>"
proof -
  let ?s = "\<lparr>cells = \<lparr>requested = 0, acknowledged = 0\<rparr>, worker = W_Idle,
     cyclic = Y_Idle, resets = 0, submitted_at = 0\<rparr>"
  let ?R = "reach reset_init reset_step"
  have "?R ?s" by (rule reach_init) (simp add: reset_init_def)
  from reach_step [OF this w_load] have "?R (?s\<lparr>worker := W_Loaded 0\<rparr>)" by simp
  from reach_step [OF this w_free] have "?R (?s\<lparr>worker := W_Store 0\<rparr>)" by simp
  from reach_step [OF this w_store] have
    "?R (?s\<lparr>cells := \<lparr>requested = 1, acknowledged = 0\<rparr>, worker := W_Wait 1\<rparr>)" by simp
  from reach_step [OF this y_load] have
    "?R (?s\<lparr>cells := \<lparr>requested = 1, acknowledged = 0\<rparr>, worker := W_Wait 1, cyclic := Y_Loaded 1\<rparr>)" by simp
  from reach_step [OF this y_some] have
    "?R (?s\<lparr>cells := \<lparr>requested = 1, acknowledged = 0\<rparr>, worker := W_Wait 1, cyclic := Y_Reset 1\<rparr>)" by simp
  from reach_step [OF this y_reset] have
    "?R (?s\<lparr>cells := \<lparr>requested = 1, acknowledged = 0\<rparr>, worker := W_Wait 1, cyclic := Y_Ack 1, resets := 1\<rparr>)"
    by simp
  from reach_step [OF this y_ack] have
    "?R (?s\<lparr>cells := \<lparr>requested = 1, acknowledged = 1\<rparr>, worker := W_Wait 1, resets := 1\<rparr>)"
    by (simp add: acknowledge_def)
  from reach_step [OF this w_poll [where t = 1 and r = RESULT_OK and stopped = False and expired = False]]
  show ?thesis by (simp add: execute_poll_def)
qed

theorem reset_handshake_exactly_once_witness:
  "pending \<lparr>requested = 1, acknowledged = 1\<rparr> = 0"
  using reset_handshake_exactly_once [OF reset_example] by simp

end
