(* ===== verification/Pdo_Config_Types.thy ===== *)
theory Pdo_Config_Types
  imports Rocos_Prelude
begin

text \<open>
  The hardware-independent configuration of src/src/pdo_config.hpp (PDO entries, mappings, clocks,
  initialization commands, slaves, the bus) and the process options of src/src/runtime_options.hpp
  that it carries. Sizes and counts of existing objects are natural numbers.
\<close>

record runtime_options =
  master_id :: u32
  period_us :: u32
  cpu :: "u32 option"
  config_path :: string
  preop_timeout_ms :: u32
  op_timeout_ms :: u32
  pdo_config_attempts :: u32
  dc_enabled :: bool
  show_help :: bool

definition runtime_options_init :: runtime_options where
  "runtime_options_init = \<lparr>master_id = 0, period_us = 1000, cpu = None, config_path = [],
     preop_timeout_ms = 10000, op_timeout_ms = 60000, pdo_config_attempts = 5,
     dc_enabled = False, show_help = False\<rparr>"

record pdo_entry_config =
  pe_name :: string
  pe_index :: u16
  pe_sub_index :: u8
  pe_bit_length :: u8

record pdo_mapping_config =
  pm_index :: u16
  pm_entries :: "pdo_entry_config list"

record distributed_clock_config =
  assign_activate :: u16
  sync0_shift_ns :: s32
  sync1_cycle_ns :: u32
  sync1_shift_ns :: s32
  dc_reference :: bool
  dc_sync0_cycle_ns :: u32

text \<open>\<open>data\<close> is a \<open>std::array<std::uint8_t, 8>\<close>; the first \<open>size\<close> bytes are sent.\<close>

record init_command_config =
  ic_index :: u16
  ic_sub_index :: u8
  ic_size :: u8
  ic_data :: "u8 list"

record slave_pdo_config =
  sc_id :: u16
  sc_name :: string
  rx_pdos :: "pdo_mapping_config list"
  tx_pdos :: "pdo_mapping_config list"
  sc_dc :: "distributed_clock_config option"
  sc_init_commands :: "init_command_config list"
  sc_vendor_id :: u32
  sc_product_code :: u32

record pdo_bus_config =
  bc_slaves :: "slave_pdo_config list"
  bc_master :: runtime_options
  source_yaml :: string
  from_eni :: bool
  eni_path :: string

definition valid_init_size :: "u8 \<Rightarrow> bool" where
  "valid_init_size n \<longleftrightarrow> \<not> (n \<noteq> 1 \<and> n \<noteq> 2 \<and> n \<noteq> 4 \<and> n \<noteq> 8)"

end
