(* ===== verification/Slave_Config.thy ===== *)
theory Slave_Config
  imports Pdo_Config_Types Shared_Bus
begin

text \<open>
  The slave configuration of src/src/slave_config.hpp and src/src/slave_config.cpp: the IgH pointer
  tables built from the bus configuration (\<open>LoadedSlaveConfig::build\<close>), structural validation
  (\<open>validateSlaveConfig\<close>), publication into the shared snapshot (\<open>publishConfig\<close>), the
  distributed-clock plan (\<open>buildDistributedClockRuntimeConfig\<close>) and identity discovery.

  A pointer and its count are an optional list and a count: \<open>None\<close> is the null pointer, and an
  array is read at the indices below its count. The sync table ends at index 0xff. Error messages
  are constructors of an error type, one for each message, with the indices it prints.
\<close>

section \<open>The IgH tables and the static configuration\<close>

datatype ec_direction = EC_DIR_INVALID | EC_DIR_OUTPUT | EC_DIR_INPUT

datatype ec_watchdog = EC_WD_DEFAULT | EC_WD_ENABLE | EC_WD_DISABLE

record ec_pdo_entry_info =
  ei_index :: u16
  ei_subindex :: u8
  ei_bit_length :: u8

record ec_pdo_info =
  pi_index :: u16
  pi_n_entries :: nat
  pi_entries :: "ec_pdo_entry_info list option"

record ec_sync_info =
  sy_index :: u8
  sy_dir :: ec_direction
  sy_n_pdos :: nat
  sy_pdos :: "ec_pdo_info list option"
  sy_watchdog :: ec_watchdog

datatype pdo_direction = Input | Output

record pdo_entry_spec =
  es_name :: "string option"
  es_direction :: pdo_direction
  es_index :: u16
  es_sub_index :: u8
  es_bit_length :: u8
  es_offset :: u32
  es_bit_position :: u32
  es_shared_offset :: u32

record slave_spec =
  sp_alias :: u16
  sp_position :: u16
  sp_vendor_id :: u32
  sp_product_code :: u32
  sp_name :: "string option"
  sp_syncs :: "ec_sync_info list option"
  sp_entries :: "pdo_entry_spec list option"
  sp_entry_count :: nat
  sp_dc :: "distributed_clock_config option"
  sp_init_commands :: "init_command_config list option"
  sp_init_command_count :: nat

record static_slave_config =
  ssc_slaves :: "slave_spec list option"
  ssc_slave_count :: nat

text \<open>The array behind a pointer, up to its count.\<close>

definition array :: "'a list option \<Rightarrow> nat \<Rightarrow> 'a list" where
  "array p n = (case p of None \<Rightarrow> [] | Some xs \<Rightarrow> take n xs)"

lemma array_None [simp]: "array None n = []"
  by (simp add: array_def)

lemma array_Some [simp]: "array (Some xs) n = take n xs"
  by (simp add: array_def)

abbreviation spec_entries :: "slave_spec \<Rightarrow> pdo_entry_spec list" where
  "spec_entries s \<equiv> array (sp_entries s) (sp_entry_count s)"

abbreviation spec_init_commands :: "slave_spec \<Rightarrow> init_command_config list" where
  "spec_init_commands s \<equiv> array (sp_init_commands s) (sp_init_command_count s)"

abbreviation config_slaves :: "static_slave_config \<Rightarrow> slave_spec list" where
  "config_slaves c \<equiv> array (ssc_slaves c) (ssc_slave_count c)"

definition empty_c_string :: "string option \<Rightarrow> bool" where
  "empty_c_string p \<longleftrightarrow> p = None \<or> p = Some []"

section \<open>Validation\<close>

datatype config_error =
    SlavesNull
  | IdentityHalfZero nat
  | DiscoveryNeedsAlias0 nat
  | SlaveNameEmpty nat
  | SyncsNull nat
  | EntriesNull nat
  | InitCommandsNull nat
  | InitCommandSize nat nat
  | EntryNameEmpty nat nat
  | EntryBitLengthZero nat nat
  | NotByteAligned
  | InputEntriesExceed nat
  | OutputEntriesExceed nat

fun validate_entries :: "abi \<Rightarrow> nat \<Rightarrow> nat \<Rightarrow> nat \<Rightarrow> nat \<Rightarrow> pdo_entry_spec list \<Rightarrow> config_error option" where
  "validate_entries A s e input_count output_count [] = None"
| "validate_entries A s e input_count output_count (entry # rest) =
     (if empty_c_string (es_name entry) then Some (EntryNameEmpty s e)
      else if es_bit_length entry = 0 then Some (EntryBitLengthZero s e)
      else if es_bit_length entry mod 8 \<noteq> 0 \<or> es_bit_position entry \<noteq> 0 then Some NotByteAligned
      else if es_direction entry = Input
      then if MAX_PDINPUT_NUM A < Suc input_count then Some (InputEntriesExceed s)
           else validate_entries A s (Suc e) (Suc input_count) output_count rest
      else if MAX_PDOUTPUT_NUM A < Suc output_count then Some (OutputEntriesExceed s)
           else validate_entries A s (Suc e) input_count (Suc output_count) rest)"

definition validate_slave :: "abi \<Rightarrow> nat \<Rightarrow> slave_spec \<Rightarrow> config_error option" where
  "validate_slave A s slave =
     (if (sp_vendor_id slave = 0) \<noteq> (sp_product_code slave = 0) then Some (IdentityHalfZero s)
      else if sp_vendor_id slave = 0 \<and> sp_alias slave \<noteq> 0 then Some (DiscoveryNeedsAlias0 s)
      else if empty_c_string (sp_name slave) then Some (SlaveNameEmpty s)
      else if sp_syncs slave = None then Some (SyncsNull s)
      else if 0 < sp_entry_count slave \<and> sp_entries slave = None then Some (EntriesNull s)
      else if sp_init_command_count slave \<noteq> 0 \<and> sp_init_commands slave = None then Some (InitCommandsNull s)
      else case first_error (\<lambda>i c. if \<not> valid_init_size (ic_size c) then Some (InitCommandSize s i) else None)
             0 (spec_init_commands slave) of
        Some err \<Rightarrow> Some err
      | None \<Rightarrow> validate_entries A s 0 0 0 (spec_entries slave))"

definition validate_slave_config :: "abi \<Rightarrow> static_slave_config \<Rightarrow> config_error option" where
  "validate_slave_config A config =
     (if ssc_slave_count config = 0 then None
      else if ssc_slaves config = None then Some SlavesNull
      else first_error (validate_slave A) 0 (config_slaves config))"

text \<open>What validation promises: a declarative well-formedness of the tables.\<close>

definition wf_entry :: "pdo_entry_spec \<Rightarrow> bool" where
  "wf_entry e \<longleftrightarrow> \<not> empty_c_string (es_name e) \<and> es_bit_length e \<noteq> 0
     \<and> es_bit_length e mod 8 = 0 \<and> es_bit_position e = 0"

definition input_entries :: "pdo_entry_spec list \<Rightarrow> pdo_entry_spec list" where
  "input_entries es = filter (\<lambda>e. es_direction e = Input) es"

definition output_entries :: "pdo_entry_spec list \<Rightarrow> pdo_entry_spec list" where
  "output_entries es = filter (\<lambda>e. es_direction e = Output) es"

lemma direction_cases: "es_direction e \<noteq> Input \<longleftrightarrow> es_direction e = Output"
  by (cases "es_direction e") auto

lemmas entries_by_direction = input_entries_def output_entries_def direction_cases

definition wf_slave :: "abi \<Rightarrow> slave_spec \<Rightarrow> bool" where
  "wf_slave A s \<longleftrightarrow>
     (sp_vendor_id s = 0 \<longleftrightarrow> sp_product_code s = 0)
     \<and> (sp_vendor_id s = 0 \<longrightarrow> sp_alias s = 0)
     \<and> \<not> empty_c_string (sp_name s) \<and> sp_syncs s \<noteq> None
     \<and> (0 < sp_entry_count s \<longrightarrow> sp_entries s \<noteq> None)
     \<and> (0 < sp_init_command_count s \<longrightarrow> sp_init_commands s \<noteq> None)
     \<and> (\<forall>c \<in> set (spec_init_commands s). ic_size c \<in> {1, 2, 4, 8})
     \<and> (\<forall>e \<in> set (spec_entries s). wf_entry e)
     \<and> length (input_entries (spec_entries s)) \<le> MAX_PDINPUT_NUM A
     \<and> length (output_entries (spec_entries s)) \<le> MAX_PDOUTPUT_NUM A"

definition wf_config :: "abi \<Rightarrow> static_slave_config \<Rightarrow> bool" where
  "wf_config A c \<longleftrightarrow> ssc_slave_count c = 0
     \<or> ssc_slaves c \<noteq> None \<and> (\<forall>s \<in> set (config_slaves c). wf_slave A s)"

lemma validate_entries_None:
  "validate_entries A s e ic oc es = None \<longleftrightarrow>
     (\<forall>x \<in> set es. wf_entry x)
     \<and> (input_entries es \<noteq> [] \<longrightarrow> ic + length (input_entries es) \<le> MAX_PDINPUT_NUM A)
     \<and> (output_entries es \<noteq> [] \<longrightarrow> oc + length (output_entries es) \<le> MAX_PDOUTPUT_NUM A)"
proof (induction A s e ic oc es rule: validate_entries.induct)
  case (1 A s e ic oc)
  then show ?case by (simp add: input_entries_def output_entries_def)
next
  case (2 A s e ic oc x rest)
  show ?case
  proof (cases "wf_entry x")
    case False
    then show ?thesis by (auto simp: wf_entry_def)
  next
    case True
    then have w: "\<not> empty_c_string (es_name x)" "es_bit_length x \<noteq> 0"
      "\<not> (es_bit_length x mod 8 \<noteq> 0 \<or> es_bit_position x \<noteq> 0)"
      by (auto simp: wf_entry_def)
    show ?thesis
    proof (cases "es_direction x")
      case Input
      then show ?thesis using 2(1) [OF w] True w
        by (auto simp: input_entries_def output_entries_def)
    next
      case Output
      then show ?thesis using 2(2) [OF w] True w
        by (auto simp: input_entries_def output_entries_def)
    qed
  qed
qed

lemma init_sizes_None:
  "first_error (\<lambda>i c. if \<not> valid_init_size (ic_size c) then Some (InitCommandSize s i) else None) k cs = None
     \<longleftrightarrow> (\<forall>c \<in> set cs. ic_size c \<in> {1, 2, 4, 8})"
  by (auto simp: first_error_None_iff valid_init_size_def all_set_conv_all_nth)

lemma validate_slave_None: "validate_slave A i s = None \<longleftrightarrow> wf_slave A s"
  unfolding validate_slave_def wf_slave_def
  by (simp add: validate_entries_None init_sizes_None) auto

lemma validated_iff: "validate_slave_config A c = None \<longleftrightarrow> wf_config A c"
  by (auto simp: validate_slave_config_def wf_config_def first_error_None_iff validate_slave_None
      all_set_conv_all_nth split: if_splits)

text \<open>
  Claim C11. \<open>validateSlaveConfig\<close> accepts exactly the well-formed tables: every identity is
  complete or to be discovered at alias 0, every name non-empty, every table present, every
  initialization command 1, 2, 4 or 8 bytes, every PDO entry a whole positive number of bytes at bit
  position 0, and the inputs and outputs of each slave within the ABI capacities. When it rejects, it
  reports the failure of the first slave that is not well-formed, or a missing slave table.
\<close>
theorem validate_slave_config_correct:
  "(validate_slave_config A c = None \<longleftrightarrow> wf_config A c)
   \<and> (\<forall>e. validate_slave_config A c = Some e \<longrightarrow>
        e = SlavesNull \<and> ssc_slaves c = None
        \<or> (\<exists>k < length (config_slaves c). validate_slave A k (config_slaves c ! k) = Some e
             \<and> \<not> wf_slave A (config_slaves c ! k) \<and> (\<forall>j < k. wf_slave A (config_slaves c ! j))))"
proof -
  have "e = SlavesNull \<and> ssc_slaves c = None
      \<or> (\<exists>k < length (config_slaves c). validate_slave A k (config_slaves c ! k) = Some e
             \<and> \<not> wf_slave A (config_slaves c ! k) \<and> (\<forall>j < k. wf_slave A (config_slaves c ! j)))"
    if e: "validate_slave_config A c = Some e" for e
  proof (cases "ssc_slaves c")
    case None
    with e show ?thesis by (auto simp: validate_slave_config_def split: if_splits)
  next
    case (Some ss)
    with e have "first_error (validate_slave A) 0 (config_slaves c) = Some e"
      by (auto simp: validate_slave_config_def split: if_splits)
    from first_error_Some [OF this] obtain k where k: "k < length (config_slaves c)"
      "validate_slave A k (config_slaves c ! k) = Some e"
      "\<forall>j < k. wf_slave A (config_slaves c ! j)"
      by (auto simp: validate_slave_None)
    then have "\<not> wf_slave A (config_slaves c ! k)"
      by (simp flip: validate_slave_None [of A k])
    with k show ?thesis by blast
  qed
  then show ?thesis by (simp add: validated_iff)
qed

theorem validate_slave_config_correct_witness:
  "validate_slave_config abi_example \<lparr>ssc_slaves = None, ssc_slave_count = 1\<rparr> = Some SlavesNull
   \<and> \<not> wf_config abi_example \<lparr>ssc_slaves = None, ssc_slave_count = 1\<rparr>"
  using validate_slave_config_correct [of abi_example "\<lparr>ssc_slaves = None, ssc_slave_count = 1\<rparr>"]
  by (simp add: validate_slave_config_def)

section \<open>Publication into the shared snapshot\<close>

datatype publish_error =
    PublishInvalid config_error
  | SlaveCountExceeds
  | PublishNotByteAligned
  | OffsetExceedsPdVar
  | SizeExceedsPdVar
  | OffsetExceedsShm
  | OffsetSizeExceedsShm
  | PublishInputExceed
  | PublishOutputExceed

definition INT_MAX :: nat where
  "INT_MAX = 2147483647"

text \<open>\<open>strncpy(dst, src, n - 1); dst[n - 1] = 0\<close> leaves the first \<open>n - 1\<close> characters.\<close>

definition copy_name :: "nat \<Rightarrow> string option \<Rightarrow> string" where
  "copy_name n src = take (n - 1) (case src of None \<Rightarrow> [] | Some s \<Rightarrow> s)"

definition byte_size :: "pdo_entry_spec \<Rightarrow> nat" where
  "byte_size e = unat (es_bit_length e) div 8"

definition published_var :: "abi \<Rightarrow> pdo_entry_spec \<Rightarrow> pd_var" where
  "published_var A entry = \<lparr>pv_name = copy_name (MAX_PD_NAME_LEN A) (es_name entry),
     pv_offset = int (unat (es_offset entry)), pv_size = int (byte_size entry),
     pv_index = es_index entry, pv_sub_index = es_sub_index entry\<rparr>"

fun publish_entries :: "abi \<Rightarrow> shm_slave \<Rightarrow> nat \<Rightarrow> nat \<Rightarrow> pdo_entry_spec list
    \<Rightarrow> shm_slave \<times> nat \<times> nat \<times> publish_error option" where
  "publish_entries A target input_count output_count [] = (target, input_count, output_count, None)"
| "publish_entries A target input_count output_count (entry # rest) =
     (let fail = (\<lambda>err. (target, input_count, output_count, Some err)) in
      if es_bit_position entry \<noteq> 0 \<or> es_bit_length entry mod 8 \<noteq> 0 then fail PublishNotByteAligned
      else let offset = unat (es_offset entry) in
      if INT_MAX < offset then fail OffsetExceedsPdVar
      else if INT_MAX < byte_size entry then fail SizeExceedsPdVar
      else if EC_SHM_MAX_SIZE A < offset then fail OffsetExceedsShm
      else if EC_SHM_MAX_SIZE A - offset < byte_size entry then fail OffsetSizeExceedsShm
      else if es_direction entry = Input
      then if MAX_PDINPUT_NUM A \<le> input_count then fail PublishInputExceed
           else publish_entries A
             (target\<lparr>input_vars := (input_vars target)[input_count := published_var A entry]\<rparr>)
             (Suc input_count) output_count rest
      else if MAX_PDOUTPUT_NUM A \<le> output_count then fail PublishOutputExceed
           else publish_entries A
             (target\<lparr>output_vars := (output_vars target)[output_count := published_var A entry]\<rparr>)
             input_count (Suc output_count) rest)"

definition publish_slave :: "abi \<Rightarrow> nat \<Rightarrow> shm_slave \<Rightarrow> slave_spec \<Rightarrow> shm_slave \<times> publish_error option" where
  "publish_slave A slave_index target source =
     (let target = target\<lparr>sl_id := int slave_index, sl_name := copy_name (MAX_SLAVE_NAME_LEN A) (sp_name source)\<rparr>
      in case publish_entries A target 0 0 (spec_entries source) of
           (target, input_count, output_count, Some err) \<Rightarrow> (target, Some err)
         | (target, input_count, output_count, None) \<Rightarrow>
             (target\<lparr>input_var_num := int input_count, output_var_num := int output_count\<rparr>, None))"

fun publish_slaves :: "abi \<Rightarrow> nat \<Rightarrow> shm_slave list \<Rightarrow> slave_spec list
    \<Rightarrow> shm_slave list \<times> publish_error option" where
  "publish_slaves A i targets [] = (targets, None)"
| "publish_slaves A i targets (source # rest) =
     (case publish_slave A i (targets ! i) source of
        (target, Some err) \<Rightarrow> (targets[i := target], Some err)
      | (target, None) \<Rightarrow> publish_slaves A (Suc i) (targets[i := target]) rest)"

definition publish_config :: "abi \<Rightarrow> static_slave_config
    \<Rightarrow> 'r::linordered_field ecat_bus \<times> publish_error option" where
  "publish_config A config =
     (let bus = ecat_bus_init A in
      case validate_slave_config A config of
        Some err \<Rightarrow> (bus, Some (PublishInvalid err))
      | None \<Rightarrow>
          if MAX_SLAVE_NUM A < ssc_slave_count config then (bus, Some SlaveCountExceeds)
          else case publish_slaves A 0 (slaves bus) (config_slaves config) of
            (rows, result) \<Rightarrow>
              (bus\<lparr>slave_num := int (ssc_slave_count config), slaves := rows\<rparr>, result))"

text \<open>
  The state of a slave row while its entries are published: the first \<open>i\<close> input and the first
  \<open>o\<close> output descriptors are the entries read so far.
\<close>

definition row_holds :: "abi \<Rightarrow> shm_slave \<Rightarrow> pd_var list \<Rightarrow> pd_var list \<Rightarrow> bool" where
  "row_holds A t ins outs \<longleftrightarrow>
     length (input_vars t) = MAX_PDINPUT_NUM A \<and> length (output_vars t) = MAX_PDOUTPUT_NUM A
     \<and> length ins \<le> MAX_PDINPUT_NUM A \<and> length outs \<le> MAX_PDOUTPUT_NUM A
     \<and> take (length ins) (input_vars t) = ins \<and> take (length outs) (output_vars t) = outs"

lemma take_Suc_update:
  assumes "i < length xs"
  shows "take (Suc i) (xs[i := v]) = take i xs @ [v]"
  using assms by (simp add: take_Suc_conv_app_nth)

lemma row_holds_input:
  assumes "row_holds A t ins outs" "length ins < MAX_PDINPUT_NUM A"
  shows "row_holds A (t\<lparr>input_vars := (input_vars t)[length ins := v]\<rparr>) (ins @ [v]) outs"
  using assms by (auto simp: row_holds_def take_Suc_update)

lemma row_holds_output:
  assumes "row_holds A t ins outs" "length outs < MAX_PDOUTPUT_NUM A"
  shows "row_holds A (t\<lparr>output_vars := (output_vars t)[length outs := v]\<rparr>) ins (outs @ [v])"
  using assms by (auto simp: row_holds_def take_Suc_update)

text \<open>An entry that fits the shared process image.\<close>

definition fits_shm :: "abi \<Rightarrow> pdo_entry_spec \<Rightarrow> bool" where
  "fits_shm A e \<longleftrightarrow> unat (es_offset e) \<le> INT_MAX \<and> unat (es_offset e) + byte_size e \<le> EC_SHM_MAX_SIZE A"

lemma byte_size_small: "byte_size e \<le> INT_MAX"
proof -
  have "unat (es_bit_length e) < 2 ^ 8"
    using unsigned_less [where ?'a = nat and w = "es_bit_length e"] by simp
  then show ?thesis by (simp add: byte_size_def INT_MAX_def)
qed

lemma publish_entries_ok:
  "row_holds A t ins outs \<Longrightarrow> \<forall>e \<in> set es. wf_entry e \<Longrightarrow>
   length ins + length (input_entries es) \<le> MAX_PDINPUT_NUM A \<Longrightarrow>
   length outs + length (output_entries es) \<le> MAX_PDOUTPUT_NUM A \<Longrightarrow>
   \<forall>e \<in> set es. fits_shm A e \<Longrightarrow>
   \<exists>t'. publish_entries A t (length ins) (length outs) es
       = (t', length ins + length (input_entries es), length outs + length (output_entries es), None)
     \<and> row_holds A t' (ins @ map (published_var A) (input_entries es))
         (outs @ map (published_var A) (output_entries es))
     \<and> sl_id t' = sl_id t \<and> sl_name t' = sl_name t"
proof (induction es arbitrary: t ins outs)
  case Nil
  then show ?case by (simp add: input_entries_def output_entries_def)
next
  case (Cons e es)
  have pass: "\<not> (es_bit_position e \<noteq> 0 \<or> es_bit_length e mod 8 \<noteq> 0)"
      "\<not> INT_MAX < unat (es_offset e)" "\<not> INT_MAX < byte_size e"
      "\<not> EC_SHM_MAX_SIZE A < unat (es_offset e)"
      "\<not> EC_SHM_MAX_SIZE A - unat (es_offset e) < byte_size e"
    using Cons.prems(2,5) byte_size_small [of e] by (auto simp: wf_entry_def fits_shm_def)
  have rest: "\<forall>e \<in> set es. wf_entry e" "\<forall>e \<in> set es. fits_shm A e"
    using Cons.prems by auto
  let ?v = "published_var A e"
  show ?case
  proof (cases "es_direction e")
    case Input
    let ?t = "t\<lparr>input_vars := (input_vars t)[length ins := ?v]\<rparr>"
    have lt: "length ins < MAX_PDINPUT_NUM A"
      using Cons.prems(3) Input by (simp add: input_entries_def)
    have "publish_entries A t (length ins) (length outs) (e # es)
        = publish_entries A ?t (length (ins @ [?v])) (length outs) es"
      using pass lt Input by (simp add: Let_def)
    moreover have "row_holds A ?t (ins @ [?v]) outs"
      using Cons.prems(1) lt by (rule row_holds_input)
    from Cons.IH [OF this rest(1) _ _ rest(2)] Cons.prems(3,4) Input
    obtain t' where "publish_entries A ?t (length (ins @ [?v])) (length outs) es
         = (t', length (ins @ [?v]) + length (input_entries es), length outs + length (output_entries es), None)"
      "row_holds A t' ((ins @ [?v]) @ map (published_var A) (input_entries es))
         (outs @ map (published_var A) (output_entries es))"
      "sl_id t' = sl_id ?t" "sl_name t' = sl_name ?t"
      by (auto simp: input_entries_def output_entries_def)
    ultimately show ?thesis using Input by (auto simp: input_entries_def output_entries_def)
  next
    case Output
    let ?t = "t\<lparr>output_vars := (output_vars t)[length outs := ?v]\<rparr>"
    have lt: "length outs < MAX_PDOUTPUT_NUM A"
      using Cons.prems(4) Output by (simp add: output_entries_def)
    have "publish_entries A t (length ins) (length outs) (e # es)
        = publish_entries A ?t (length ins) (length (outs @ [?v])) es"
      using pass lt Output by (simp add: Let_def)
    moreover have "row_holds A ?t ins (outs @ [?v])"
      using Cons.prems(1) lt by (rule row_holds_output)
    from Cons.IH [OF this rest(1) _ _ rest(2)] Cons.prems(3,4) Output
    obtain t' where "publish_entries A ?t (length ins) (length (outs @ [?v])) es
         = (t', length ins + length (input_entries es), length (outs @ [?v]) + length (output_entries es), None)"
      "row_holds A t' (ins @ map (published_var A) (input_entries es))
         ((outs @ [?v]) @ map (published_var A) (output_entries es))"
      "sl_id t' = sl_id ?t" "sl_name t' = sl_name ?t"
      by (auto simp: input_entries_def output_entries_def)
    ultimately show ?thesis using Output by (auto simp: input_entries_def output_entries_def)
  qed
qed

lemma publish_entries_fits:
  "snd (snd (snd (publish_entries A t i oc es))) = None \<Longrightarrow> \<forall>e \<in> set es. fits_shm A e"
  by (induction A t i oc es rule: publish_entries.induct)
     (auto simp: Let_def fits_shm_def split: if_splits)

definition fresh_row :: "abi \<Rightarrow> shm_slave \<Rightarrow> bool" where
  "fresh_row A t \<longleftrightarrow> length (input_vars t) = MAX_PDINPUT_NUM A \<and> length (output_vars t) = MAX_PDOUTPUT_NUM A"

lemma fresh_row_init [simp]: "fresh_row A (shm_slave_init A)"
  by (simp add: fresh_row_def shm_slave_init_def)

text \<open>A shared row that describes the slave: what a client reads of it.\<close>

definition published_row :: "abi \<Rightarrow> nat \<Rightarrow> slave_spec \<Rightarrow> shm_slave \<Rightarrow> bool" where
  "published_row A i s t \<longleftrightarrow>
     (let ins = input_entries (spec_entries s); outs = output_entries (spec_entries s) in
      sl_id t = int i \<and> sl_name t = copy_name (MAX_SLAVE_NAME_LEN A) (sp_name s)
      \<and> input_var_num t = int (length ins) \<and> output_var_num t = int (length outs)
      \<and> take (length ins) (input_vars t) = map (published_var A) ins
      \<and> take (length outs) (output_vars t) = map (published_var A) outs)"

lemma publish_slave_ok:
  assumes "fresh_row A t" "wf_slave A s" "\<forall>e \<in> set (spec_entries s). fits_shm A e"
  shows "\<exists>t'. publish_slave A i t s = (t', None) \<and> published_row A i s t'"
proof -
  let ?t = "t\<lparr>sl_id := int i, sl_name := copy_name (MAX_SLAVE_NAME_LEN A) (sp_name s)\<rparr>"
  have "row_holds A ?t [] []"
    using assms(1) by (simp add: row_holds_def fresh_row_def)
  from publish_entries_ok [OF this _ _ _ assms(3)] assms(2)
  obtain t' where "publish_entries A ?t 0 0 (spec_entries s)
       = (t', length (input_entries (spec_entries s)), length (output_entries (spec_entries s)), None)"
    "row_holds A t' (map (published_var A) (input_entries (spec_entries s)))
       (map (published_var A) (output_entries (spec_entries s)))"
    "sl_id t' = sl_id ?t" "sl_name t' = sl_name ?t"
    by (auto simp: wf_slave_def)
  then show ?thesis
    by (simp add: publish_slave_def published_row_def row_holds_def Let_def)
qed

lemma publish_slave_fits:
  assumes "snd (publish_slave A i t s) = None"
  shows "\<forall>e \<in> set (spec_entries s). fits_shm A e"
proof -
  let ?t = "t\<lparr>sl_id := int i, sl_name := copy_name (MAX_SLAVE_NAME_LEN A) (sp_name s)\<rparr>"
  obtain t' m n r where p: "publish_entries A ?t 0 0 (spec_entries s) = (t', m, n, r)"
    by (metis prod.exhaust)
  with assms have "r = None"
    by (cases r) (simp_all add: publish_slave_def Let_def)
  with p publish_entries_fits [of A ?t 0 0 "spec_entries s"] show ?thesis by simp
qed

lemma publish_slaves_fits:
  "snd (publish_slaves A i ts ss) = None \<Longrightarrow> \<forall>s \<in> set ss. \<forall>e \<in> set (spec_entries s). fits_shm A e"
proof (induction A i ts ss rule: publish_slaves.induct)
  case (1 A i ts)
  then show ?case by simp
next
  case (2 A i ts s ss)
  obtain t r where p: "publish_slave A i (ts ! i) s = (t, r)" by fastforce
  with "2.prems" have r: "r = None" by (cases r) auto
  with p have "\<forall>e \<in> set (spec_entries s). fits_shm A e"
    using publish_slave_fits [of A i "ts ! i" s] by simp
  with "2.IH" [OF p [symmetric] r] "2.prems" p r show ?case by simp
qed

lemma publish_slaves_ok:
  "i + length ss \<le> length ts \<Longrightarrow> \<forall>k. i \<le> k \<and> k < length ts \<longrightarrow> fresh_row A (ts ! k) \<Longrightarrow>
   \<forall>s \<in> set ss. wf_slave A s \<and> (\<forall>e \<in> set (spec_entries s). fits_shm A e) \<Longrightarrow>
   \<exists>ts'. publish_slaves A i ts ss = (ts', None) \<and> length ts' = length ts
     \<and> (\<forall>k < length ss. published_row A (i + k) (ss ! k) (ts' ! (i + k)))
     \<and> (\<forall>k. k < i \<or> i + length ss \<le> k \<longrightarrow> ts' ! k = ts ! k)"
proof (induction ss arbitrary: i ts)
  case Nil
  then show ?case by simp
next
  case (Cons s ss)
  have "fresh_row A (ts ! i)" using Cons.prems(1,2) by simp
  from publish_slave_ok [OF this] Cons.prems(3)
  obtain t' where t': "publish_slave A i (ts ! i) s = (t', None)" "published_row A i s t'"
    by (meson list.set_intros(1))
  have fr: "\<forall>k. Suc i \<le> k \<and> k < length (ts[i := t']) \<longrightarrow> fresh_row A (ts[i := t'] ! k)"
    using Cons.prems(2) by auto
  have "\<exists>ts'. publish_slaves A (Suc i) (ts[i := t']) ss = (ts', None) \<and> length ts' = length (ts[i := t'])
     \<and> (\<forall>k < length ss. published_row A (Suc i + k) (ss ! k) (ts' ! (Suc i + k)))
     \<and> (\<forall>k. k < Suc i \<or> Suc i + length ss \<le> k \<longrightarrow> ts' ! k = ts[i := t'] ! k)"
    using Cons.prems(1,3) by (intro Cons.IH [OF _ fr]) auto
  then obtain ts' where ts': "publish_slaves A (Suc i) (ts[i := t']) ss = (ts', None)"
    "length ts' = length ts"
    "\<forall>k < length ss. published_row A (Suc i + k) (ss ! k) (ts' ! (Suc i + k))"
    "\<forall>k. k < Suc i \<or> Suc i + length ss \<le> k \<longrightarrow> ts' ! k = ts[i := t'] ! k" by auto
  have "ts' ! i = t'" using ts'(4) Cons.prems(1) by simp
  then have "\<forall>k < length (s # ss). published_row A (i + k) ((s # ss) ! k) (ts' ! (i + k))"
    using ts'(3) t'(2) by (auto simp: less_Suc_eq_0_disj)
  with ts' t'(1) show ?case by auto
qed

text \<open>What a published configuration shows to clients.\<close>

definition published :: "abi \<Rightarrow> static_slave_config \<Rightarrow> 'r ecat_bus \<Rightarrow> bool" where
  "published A c bus \<longleftrightarrow> slave_num bus = int (ssc_slave_count c)
     \<and> length (slaves bus) = MAX_SLAVE_NUM A
     \<and> (\<forall>i < ssc_slave_count c. published_row A i (config_slaves c ! i) (slaves bus ! i))
     \<and> (\<forall>i. ssc_slave_count c \<le> i \<and> i < MAX_SLAVE_NUM A \<longrightarrow> slaves bus ! i = shm_slave_init A)"

lemma publish_config_ok:
  fixes A :: abi and c :: static_slave_config
  assumes "length (config_slaves c) = ssc_slave_count c"
  defines "r \<equiv> publish_config A c :: 'r::linordered_field ecat_bus \<times> publish_error option"
  shows "(snd r = None \<longleftrightarrow> wf_config A c \<and> ssc_slave_count c \<le> MAX_SLAVE_NUM A
            \<and> (\<forall>s \<in> set (config_slaves c). \<forall>e \<in> set (spec_entries s). fits_shm A e))
    \<and> (snd r = None \<longrightarrow> published A c (fst r))"
proof (cases "wf_config A c \<and> ssc_slave_count c \<le> MAX_SLAVE_NUM A")
  case False
  then show ?thesis
    using validated_iff [of A c]
    by (auto simp: r_def publish_config_def Let_def split: option.splits)
next
  case True
  let ?rows = "replicate (MAX_SLAVE_NUM A) (shm_slave_init A)"
  let ?ss = "config_slaves c"
  have valid: "validate_slave_config A c = None" and rows: "slaves (ecat_bus_init A :: 'r ecat_bus) = ?rows"
    using True by (simp_all add: validated_iff ecat_bus_init_def)
  have r: "r = ((ecat_bus_init A)\<lparr>slave_num := int (ssc_slave_count c),
      slaves := fst (publish_slaves A 0 ?rows ?ss)\<rparr>, snd (publish_slaves A 0 ?rows ?ss))"
    using True by (simp add: r_def publish_config_def Let_def valid rows split_beta)
  show ?thesis
  proof (cases "\<forall>s \<in> set ?ss. \<forall>e \<in> set (spec_entries s). fits_shm A e")
    case False
    then have "snd (publish_slaves A 0 ?rows ?ss) \<noteq> None"
      using publish_slaves_fits by blast
    with False show ?thesis by (auto simp: r)
  next
    case fits: True
    have "\<forall>s \<in> set ?ss. wf_slave A s"
      using True assms(1) by (auto simp: wf_config_def)
    with fits True assms(1) publish_slaves_ok [of 0 ?ss ?rows A]
    obtain ts' where "publish_slaves A 0 ?rows ?ss = (ts', None)" "length ts' = MAX_SLAVE_NUM A"
      "\<forall>k < ssc_slave_count c. published_row A k (?ss ! k) (ts' ! k)"
      "\<forall>k. ssc_slave_count c \<le> k \<longrightarrow> ts' ! k = ?rows ! k"
      by auto
    with fits True show ?thesis by (simp add: r published_def)
  qed
qed

text \<open>
  Claim C12. \<open>publishConfig\<close> succeeds exactly on well-formed configurations within the slave
  capacity whose entries all fit the shared process image (offset plus size at most
  \<open>EC_SHM_MAX_SIZE\<close>, offset representable); then the snapshot describes the configuration:
  the slave count, every slave's id and (truncated) name, and its input and output descriptors in
  table order with their offsets, byte sizes and object addresses, every remaining row cleared.
\<close>
theorem publish_config_correct:
  fixes A :: abi and c :: static_slave_config
  assumes "length (config_slaves c) = ssc_slave_count c"
  defines "r \<equiv> publish_config A c :: 'r::linordered_field ecat_bus \<times> publish_error option"
  shows "(snd r = None \<longleftrightarrow> wf_config A c \<and> ssc_slave_count c \<le> MAX_SLAVE_NUM A
            \<and> (\<forall>s \<in> set (config_slaves c). \<forall>e \<in> set (spec_entries s). fits_shm A e))
    \<and> (snd r = None \<longrightarrow> slave_num (fst r) = int (ssc_slave_count c)
         \<and> length (slaves (fst r)) = MAX_SLAVE_NUM A
         \<and> (\<forall>i < ssc_slave_count c. published_row A i (config_slaves c ! i) (slaves (fst r) ! i))
         \<and> (\<forall>i. ssc_slave_count c \<le> i \<and> i < MAX_SLAVE_NUM A \<longrightarrow> slaves (fst r) ! i = shm_slave_init A))"
  using publish_config_ok [where 'r = 'r, OF assms(1), of A] unfolding published_def r_def .

definition example_slave :: slave_spec where
  "example_slave = \<lparr>sp_alias = 0, sp_position = 0, sp_vendor_id = 0, sp_product_code = 0,
     sp_name = Some ''drive'', sp_syncs = Some [], sp_entries = Some
       [\<lparr>es_name = Some ''control'', es_direction = Output, es_index = 0x6040, es_sub_index = 0,
          es_bit_length = 16, es_offset = 0, es_bit_position = 0, es_shared_offset = 0\<rparr>,
        \<lparr>es_name = Some ''status'', es_direction = Input, es_index = 0x6041, es_sub_index = 0,
          es_bit_length = 16, es_offset = 4090, es_bit_position = 0, es_shared_offset = 4090\<rparr>],
     sp_entry_count = 2, sp_dc = None, sp_init_commands = None, sp_init_command_count = 0\<rparr>"

definition example_config :: static_slave_config where
  "example_config = \<lparr>ssc_slaves = Some [example_slave], ssc_slave_count = 1\<rparr>"

lemma wf_example: "wf_config abi_example example_config"
  by (simp add: wf_config_def example_config_def wf_slave_def example_slave_def wf_entry_def
      empty_c_string_def input_entries_def output_entries_def abi_example_def)

theorem publish_config_correct_witness:
  "slave_num (fst (publish_config abi_example example_config :: rat ecat_bus \<times> publish_error option)) = 1"
proof -
  have len: "length (config_slaves example_config) = ssc_slave_count example_config"
    by (simp add: example_config_def)
  have "\<forall>s \<in> set (config_slaves example_config). \<forall>e \<in> set (spec_entries s). fits_shm abi_example e"
    by (simp add: example_config_def example_slave_def fits_shm_def byte_size_def INT_MAX_def abi_example_def)
  moreover have "ssc_slave_count example_config \<le> MAX_SLAVE_NUM abi_example"
    by (simp add: example_config_def abi_example_def)
  ultimately show ?thesis
    using publish_config_correct [where 'r = rat, OF len, of abi_example] wf_example
    by (simp add: example_config_def)
qed

end
