(* ===== verification/Loaded_Config.thy ===== *)
theory Loaded_Config
  imports Slave_Config
begin

text \<open>
  \<open>LoadedSlaveConfig::build\<close>, \<open>buildDistributedClockRuntimeConfig\<close> and
  \<open>applyDiscoveredIdentity\<close> of src/src/slave_config.cpp: the IgH sync tables and the entry
  descriptors built from one bus configuration, the distributed-clock plan of the process, and the
  identity a scan fills in. \<open>c_str()\<close> cuts a string at its first NUL, and \<open>data()\<close> of an
  empty vector is null. Reservations of capacity have no counterpart.
\<close>

section \<open>Building the tables\<close>

definition c_str :: "string \<Rightarrow> string option" where
  "c_str s = Some (takeWhile (\<lambda>c. c \<noteq> CHR 0x00) s)"

definition data :: "'a list \<Rightarrow> 'a list option" where
  "data xs = (if xs = [] then None else Some xs)"

lemma array_data [simp]: "array (data xs) (length xs) = xs"
  by (simp add: data_def)

lemma array_data_map [simp]: "array (data (map f xs)) (length xs) = map f xs"
  using array_data [of "map f xs"] by (simp del: array_data)

record pdo_storage =
  ps_index :: u16
  ps_entries :: "ec_pdo_entry_info list"

record slave_storage =
  st_id :: u16
  st_vendor_id :: u32
  st_product_code :: u32
  st_name :: string
  rx_storage :: "pdo_storage list"
  tx_storage :: "pdo_storage list"
  st_rx_pdos :: "ec_pdo_info list"
  st_tx_pdos :: "ec_pdo_info list"
  st_syncs :: "ec_sync_info list"
  st_entries :: "pdo_entry_spec list"
  st_dc :: "distributed_clock_config option"
  st_init_commands :: "init_command_config list"

record loaded_slave_config =
  lc_storage :: "slave_storage list"
  lc_slaves :: "slave_spec list"

definition store_pdos :: "pdo_mapping_config list \<Rightarrow> pdo_storage list" where
  "store_pdos source =
     map (\<lambda>source_pdo. \<lparr>ps_index = pm_index source_pdo,
       ps_entries = map (\<lambda>entry. \<lparr>ei_index = pe_index entry, ei_subindex = pe_sub_index entry,
         ei_bit_length = pe_bit_length entry\<rparr>) (pm_entries source_pdo)\<rparr>) source"

definition build_pdo_views :: "pdo_storage list \<Rightarrow> ec_pdo_info list" where
  "build_pdo_views storage =
     map (\<lambda>pdo. \<lparr>pi_index = ps_index pdo, pi_n_entries = length (ps_entries pdo),
       pi_entries = data (ps_entries pdo)\<rparr>) storage"

definition append_entry_views :: "pdo_mapping_config list \<Rightarrow> pdo_direction \<Rightarrow> pdo_entry_spec list" where
  "append_entry_views pdos direction =
     concat (map (\<lambda>pdo. map (\<lambda>entry. \<lparr>es_name = c_str (pe_name entry), es_direction = direction,
       es_index = pe_index entry, es_sub_index = pe_sub_index entry,
       es_bit_length = pe_bit_length entry, es_offset = 0, es_bit_position = 0,
       es_shared_offset = - 1\<rparr>) (pm_entries pdo)) pdos)"

definition sync_end :: ec_sync_info where
  "sync_end = \<lparr>sy_index = 0xff, sy_dir = EC_DIR_INVALID, sy_n_pdos = 0, sy_pdos = None,
     sy_watchdog = EC_WD_DEFAULT\<rparr>"

definition build_storage :: "slave_pdo_config \<Rightarrow> slave_storage" where
  "build_storage source =
     (let rx = store_pdos (rx_pdos source); tx = store_pdos (tx_pdos source);
          rx_views = build_pdo_views rx; tx_views = build_pdo_views tx
      in \<lparr>st_id = sc_id source, st_vendor_id = sc_vendor_id source,
          st_product_code = sc_product_code source, st_name = sc_name source,
          rx_storage = rx, tx_storage = tx, st_rx_pdos = rx_views, st_tx_pdos = tx_views,
          st_syncs = [\<lparr>sy_index = 2, sy_dir = EC_DIR_OUTPUT, sy_n_pdos = length rx_views,
                        sy_pdos = data rx_views, sy_watchdog = EC_WD_ENABLE\<rparr>,
                      \<lparr>sy_index = 3, sy_dir = EC_DIR_INPUT, sy_n_pdos = length tx_views,
                        sy_pdos = data tx_views, sy_watchdog = EC_WD_DISABLE\<rparr>,
                      sync_end],
          st_entries = append_entry_views (rx_pdos source) Output @ append_entry_views (tx_pdos source) Input,
          st_dc = sc_dc source, st_init_commands = sc_init_commands source\<rparr>)"

definition storage_spec :: "slave_storage \<Rightarrow> slave_spec" where
  "storage_spec target =
     \<lparr>sp_alias = 0, sp_position = st_id target, sp_vendor_id = st_vendor_id target,
      sp_product_code = st_product_code target, sp_name = c_str (st_name target),
      sp_syncs = data (st_syncs target), sp_entries = data (st_entries target),
      sp_entry_count = length (st_entries target), sp_dc = st_dc target,
      sp_init_commands = data (st_init_commands target),
      sp_init_command_count = length (st_init_commands target)\<rparr>"

definition view :: "loaded_slave_config \<Rightarrow> static_slave_config" where
  "view c = \<lparr>ssc_slaves = data (lc_slaves c), ssc_slave_count = length (lc_slaves c)\<rparr>"

definition build_config :: "abi \<Rightarrow> pdo_bus_config \<Rightarrow> loaded_slave_config
    \<Rightarrow> loaded_slave_config \<times> config_error option" where
  "build_config A config self =
     (let storage = map build_storage (bc_slaves config);
          built = \<lparr>lc_storage = storage, lc_slaves = map storage_spec storage\<rparr>
      in case validate_slave_config A (view built) of
           Some err \<Rightarrow> (self, Some err)
         | None \<Rightarrow> (built, None))"

text \<open>
  The content of a bus configuration that its tables have to carry: the mappings of a slave in order,
  each with its PDO index, its number of entries and its objects with their sizes, and the objects
  of all mappings in order.
\<close>

definition mapping_assignment :: "pdo_mapping_config list \<Rightarrow> (u16 \<times> nat \<times> (u16 \<times> u8 \<times> u8) list) list" where
  "mapping_assignment ms = map (\<lambda>m. (pm_index m, length (pm_entries m),
     map (\<lambda>e. (pe_index e, pe_sub_index e, pe_bit_length e)) (pm_entries m))) ms"

definition mapping_objects :: "pdo_mapping_config list \<Rightarrow> (u16 \<times> u8 \<times> u8) list" where
  "mapping_objects ms = concat (map (\<lambda>m. map (\<lambda>e. (pe_index e, pe_sub_index e, pe_bit_length e))
     (pm_entries m)) ms)"

text \<open>
  The same content as \<open>libethercat\<close> reads it from a sync manager: the PDO indices it assigns, and the
  mapping behind the entry pointer of each.
\<close>

definition sync_assignment :: "ec_sync_info \<Rightarrow> (u16 \<times> nat \<times> (u16 \<times> u8 \<times> u8) list) list" where
  "sync_assignment s = map (\<lambda>p. (pi_index p, pi_n_entries p,
     map (\<lambda>e. (ei_index e, ei_subindex e, ei_bit_length e)) (array (pi_entries p) (pi_n_entries p))))
     (array (sy_pdos s) (sy_n_pdos s))"

definition sync_objects :: "ec_sync_info \<Rightarrow> (u16 \<times> u8 \<times> u8) list" where
  "sync_objects s = concat (map (\<lambda>p. map (\<lambda>e. (ei_index e, ei_subindex e, ei_bit_length e))
     (array (pi_entries p) (pi_n_entries p))) (array (sy_pdos s) (sy_n_pdos s)))"

definition spec_objects :: "pdo_direction \<Rightarrow> slave_spec \<Rightarrow> (u16 \<times> u8 \<times> u8) list" where
  "spec_objects d s = map (\<lambda>e. (es_index e, es_sub_index e, es_bit_length e))
     (filter (\<lambda>e. es_direction e = d) (spec_entries s))"

text \<open>The descriptor rows of a list of configured entries, without the offsets still to be found.\<close>

definition entry_row :: "pdo_entry_spec \<Rightarrow> string option \<times> pdo_direction \<times> u16 \<times> u8 \<times> u8" where
  "entry_row e = (es_name e, es_direction e, es_index e, es_sub_index e, es_bit_length e)"

definition config_row :: "pdo_direction \<Rightarrow> pdo_entry_config \<Rightarrow> string option \<times> pdo_direction \<times> u16 \<times> u8 \<times> u8" where
  "config_row d e = (Some (takeWhile (\<lambda>c. c \<noteq> CHR 0x00) (pe_name e)), d, pe_index e, pe_sub_index e, pe_bit_length e)"

definition proper_name :: "string \<Rightarrow> bool" where
  "proper_name n \<longleftrightarrow> takeWhile (\<lambda>c. c \<noteq> CHR 0x00) n \<noteq> []"

definition mapping_entries :: "pdo_mapping_config list \<Rightarrow> pdo_entry_config list" where
  "mapping_entries ms = concat (map pm_entries ms)"

definition acceptable_slave :: "abi \<Rightarrow> slave_pdo_config \<Rightarrow> bool" where
  "acceptable_slave A s \<longleftrightarrow>
     (sc_vendor_id s = 0 \<longleftrightarrow> sc_product_code s = 0) \<and> proper_name (sc_name s)
     \<and> (\<forall>c \<in> set (sc_init_commands s). ic_size c \<in> {1, 2, 4, 8})
     \<and> (\<forall>e \<in> set (mapping_entries (rx_pdos s) @ mapping_entries (tx_pdos s)).
          proper_name (pe_name e) \<and> pe_bit_length e \<noteq> 0 \<and> pe_bit_length e mod 8 = 0)
     \<and> length (mapping_entries (tx_pdos s)) \<le> MAX_PDINPUT_NUM A
     \<and> length (mapping_entries (rx_pdos s)) \<le> MAX_PDOUTPUT_NUM A"

lemma append_entry_views_map:
  "append_entry_views ms d = map (\<lambda>entry. \<lparr>es_name = c_str (pe_name entry), es_direction = d,
       es_index = pe_index entry, es_sub_index = pe_sub_index entry,
       es_bit_length = pe_bit_length entry, es_offset = 0, es_bit_position = 0,
       es_shared_offset = - 1\<rparr>) (mapping_entries ms)"
  by (simp add: append_entry_views_def mapping_entries_def map_concat comp_def)

lemma empty_c_str [simp]: "empty_c_string (c_str s) \<longleftrightarrow> \<not> proper_name s"
  by (simp add: empty_c_string_def c_str_def proper_name_def)

lemma view_slaves [simp]: "config_slaves (view c) = lc_slaves c"
  by (simp add: view_def)

lemma spec_entries_storage [simp]: "spec_entries (storage_spec t) = st_entries t"
  by (simp add: storage_spec_def)

lemma filter_append_entry_views [simp]:
  "filter (\<lambda>e. es_direction e = d) (append_entry_views ms d') = (if d = d' then append_entry_views ms d' else [])"
  by (simp add: append_entry_views_map filter_map comp_def)

lemma wf_built_slave:
  "wf_slave A (storage_spec (build_storage s)) \<longleftrightarrow> acceptable_slave A s"
proof -
  let ?t = "build_storage s"
  have e: "st_entries ?t = append_entry_views (rx_pdos s) Output @ append_entry_views (tx_pdos s) Input"
    by (simp add: build_storage_def Let_def)
  have cnt: "length (input_entries (st_entries ?t)) = length (mapping_entries (tx_pdos s))"
    "length (output_entries (st_entries ?t)) = length (mapping_entries (rx_pdos s))"
    by (simp_all add: e input_entries_def output_entries_def append_entry_views_map)
  have entries: "(\<forall>x \<in> set (st_entries ?t). wf_entry x) \<longleftrightarrow>
     (\<forall>x \<in> set (mapping_entries (rx_pdos s) @ mapping_entries (tx_pdos s)).
          proper_name (pe_name x) \<and> pe_bit_length x \<noteq> 0 \<and> pe_bit_length x mod 8 = 0)"
    by (simp add: e append_entry_views_map wf_entry_def ball_Un)
  show ?thesis
    unfolding wf_slave_def spec_entries_storage cnt entries acceptable_slave_def
    by (auto simp: storage_spec_def data_def build_storage_def Let_def)
qed

lemma built_valid:
  "validate_slave_config A (view \<lparr>lc_storage = st, lc_slaves = map storage_spec (map build_storage ss)\<rparr>) = None
     \<longleftrightarrow> (\<forall>s \<in> set ss. acceptable_slave A s)"
  by (auto simp: validated_iff wf_config_def wf_built_slave) (simp_all add: view_def data_def)

lemma sync_objects_build:
  "sync_objects \<lparr>sy_index = i, sy_dir = d, sy_n_pdos = length (build_pdo_views (store_pdos ms)),
      sy_pdos = data (build_pdo_views (store_pdos ms)), sy_watchdog = w\<rparr> = mapping_objects ms"
  by (simp add: sync_objects_def mapping_objects_def build_pdo_views_def store_pdos_def comp_def)

lemma sync_assignment_build:
  "sync_assignment \<lparr>sy_index = i, sy_dir = d, sy_n_pdos = length (build_pdo_views (store_pdos ms)),
      sy_pdos = data (build_pdo_views (store_pdos ms)), sy_watchdog = w\<rparr> = mapping_assignment ms"
  by (simp add: sync_assignment_def mapping_assignment_def build_pdo_views_def store_pdos_def comp_def)

lemma entry_rows_build:
  "map entry_row (append_entry_views ms d) = map (config_row d) (mapping_entries ms)"
  by (simp add: append_entry_views_map entry_row_def config_row_def c_str_def comp_def)

lemma build_config_accepts:
  "snd (build_config A config self) = None \<longleftrightarrow> (\<forall>s \<in> set (bc_slaves config). acceptable_slave A s)"
  using built_valid [of A "map build_storage (bc_slaves config)" "bc_slaves config"]
  by (auto simp: build_config_def Let_def split: option.splits)

lemma built_objects:
  "spec_objects d (storage_spec (build_storage s))
     = mapping_objects (if d = Output then rx_pdos s else tx_pdos s)"
  by (cases d) (simp_all add: spec_objects_def build_storage_def Let_def append_entry_views_map
      mapping_objects_def mapping_entries_def map_concat comp_def)

lemma built_fields:
  "sp_alias (storage_spec (build_storage s)) = 0"
  "sp_position (storage_spec (build_storage s)) = sc_id s"
  "sp_vendor_id (storage_spec (build_storage s)) = sc_vendor_id s"
  "sp_product_code (storage_spec (build_storage s)) = sc_product_code s"
  "sp_name (storage_spec (build_storage s)) = Some (takeWhile (\<lambda>c. c \<noteq> CHR 0x00) (sc_name s))"
  "sp_dc (storage_spec (build_storage s)) = sc_dc s"
  "spec_init_commands (storage_spec (build_storage s)) = sc_init_commands s"
  by (simp_all add: storage_spec_def build_storage_def Let_def c_str_def)

lemma built_rows:
  "map entry_row (st_entries (build_storage s))
     = map (config_row Output) (mapping_entries (rx_pdos s)) @ map (config_row Input) (mapping_entries (tx_pdos s))"
  by (simp add: build_storage_def Let_def entry_rows_build)

lemma built_entries:
  "\<forall>e \<in> set (spec_entries (storage_spec (build_storage s))).
     es_offset e = 0 \<and> es_bit_position e = 0 \<and> es_shared_offset e = - 1"
  by (auto simp: build_storage_def Let_def append_entry_views_map)

lemma built_tables:
  "\<exists>out inp. sp_syncs (storage_spec (build_storage s)) = Some [out, inp, sync_end]
     \<and> (sy_index out, sy_dir out, sy_watchdog out) = (2, EC_DIR_OUTPUT, EC_WD_ENABLE)
     \<and> (sy_index inp, sy_dir inp, sy_watchdog inp) = (3, EC_DIR_INPUT, EC_WD_DISABLE)
     \<and> sy_n_pdos out = length (rx_pdos s) \<and> sync_assignment out = mapping_assignment (rx_pdos s)
     \<and> sy_n_pdos inp = length (tx_pdos s) \<and> sync_assignment inp = mapping_assignment (tx_pdos s)
     \<and> sync_objects out = spec_objects Output (storage_spec (build_storage s))
     \<and> sync_objects out = mapping_objects (rx_pdos s)
     \<and> sync_objects inp = spec_objects Input (storage_spec (build_storage s))
     \<and> sync_objects inp = mapping_objects (tx_pdos s)"
  unfolding built_objects
  by (simp add: storage_spec_def data_def [of "_ # _"] build_storage_def Let_def sync_objects_build
      sync_assignment_build) (simp add: build_pdo_views_def store_pdos_def)

text \<open>
  Claim C13. \<open>LoadedSlaveConfig::build\<close> accepts a bus configuration exactly when each of its
  slaves is acceptable, and keeps its previous tables otherwise. The tables it builds are the
  configuration: for every slave, in order, the sync table has one output manager (SM2, watchdog on),
  one input manager (SM3, watchdog off) and the end mark; each manager assigns exactly the configured
  PDOs of its direction, with their PDO indices, their numbers of entries and their objects and sizes,
  in order; the entry descriptors are exactly the configured outputs and then the configured inputs,
  with their names, directions, objects and sizes, so that they list the objects of the sync table in
  the same order; the name, the position, the identity, the clock and the initialization commands are
  copied, and all offsets are still open.
\<close>
theorem build_config_correct:
  "(snd (build_config A config self) = None \<longleftrightarrow> (\<forall>s \<in> set (bc_slaves config). acceptable_slave A s))
   \<and> (snd (build_config A config self) \<noteq> None \<longrightarrow> fst (build_config A config self) = self)
   \<and> (snd (build_config A config self) = None \<longrightarrow>
       (let specs = config_slaves (view (fst (build_config A config self))) in
        length specs = length (bc_slaves config)
        \<and> (\<forall>i < length specs. let s = bc_slaves config ! i; spec = specs ! i in
             sp_alias spec = 0 \<and> sp_position spec = sc_id s
             \<and> (sp_vendor_id spec, sp_product_code spec) = (sc_vendor_id s, sc_product_code s)
             \<and> sp_name spec = Some (takeWhile (\<lambda>c. c \<noteq> CHR 0x00) (sc_name s))
             \<and> sp_dc spec = sc_dc s \<and> spec_init_commands spec = sc_init_commands s
             \<and> (\<exists>out inp. sp_syncs spec = Some [out, inp, sync_end]
                  \<and> (sy_index out, sy_dir out, sy_watchdog out) = (2, EC_DIR_OUTPUT, EC_WD_ENABLE)
                  \<and> (sy_index inp, sy_dir inp, sy_watchdog inp) = (3, EC_DIR_INPUT, EC_WD_DISABLE)
                  \<and> sy_n_pdos out = length (rx_pdos s) \<and> sync_assignment out = mapping_assignment (rx_pdos s)
                  \<and> sy_n_pdos inp = length (tx_pdos s) \<and> sync_assignment inp = mapping_assignment (tx_pdos s)
                  \<and> sync_objects out = spec_objects Output spec \<and> sync_objects out = mapping_objects (rx_pdos s)
                  \<and> sync_objects inp = spec_objects Input spec \<and> sync_objects inp = mapping_objects (tx_pdos s))
             \<and> map entry_row (spec_entries spec) = map (config_row Output) (mapping_entries (rx_pdos s))
                  @ map (config_row Input) (mapping_entries (tx_pdos s))
             \<and> (\<forall>e \<in> set (spec_entries spec). es_offset e = 0 \<and> es_bit_position e = 0
                  \<and> es_shared_offset e = - 1))))"
proof -
  let ?built = "\<lparr>lc_storage = map build_storage (bc_slaves config),
     lc_slaves = map storage_spec (map build_storage (bc_slaves config))\<rparr>"
  show ?thesis
  proof (cases "validate_slave_config A (view ?built)")
    case None
    then have b: "build_config A config self = (?built, None)"
      by (simp add: build_config_def Let_def)
    from None built_valid have "\<forall>s \<in> set (bc_slaves config). acceptable_slave A s" by blast
    then show ?thesis
      using built_tables built_entries by (simp add: b Let_def built_fields built_rows nth_map comp_def)
  next
    case (Some err)
    then have "build_config A config self = (self, Some err)"
      by (simp add: build_config_def Let_def)
    moreover have "\<not> (\<forall>s \<in> set (bc_slaves config). acceptable_slave A s)"
      using Some built_valid [of A _ "bc_slaves config"] by fastforce
    ultimately show ?thesis by simp
  qed
qed

definition example_bus_config :: pdo_bus_config where
  "example_bus_config = \<lparr>bc_slaves = [\<lparr>sc_id = 0, sc_name = ''drive'',
     rx_pdos = [\<lparr>pm_index = 0x1600, pm_entries = [\<lparr>pe_name = ''control'', pe_index = 0x6040,
       pe_sub_index = 0, pe_bit_length = 16\<rparr>]\<rparr>], tx_pdos = [], sc_dc = None, sc_init_commands = [],
     sc_vendor_id = 0, sc_product_code = 0\<rparr>], bc_master = runtime_options_init, source_yaml = [],
     from_eni = False, eni_path = []\<rparr>"

theorem build_config_correct_witness:
  "(let specs = config_slaves (view (fst (build_config abi_example example_bus_config
        \<lparr>lc_storage = [], lc_slaves = []\<rparr>)))
    in length specs = 1
       \<and> (\<exists>out inp. sp_syncs (specs ! 0) = Some [out, inp, sync_end]
            \<and> sync_assignment out = [(0x1600, 1, [(0x6040, 0, 16)])] \<and> sync_assignment inp = []))"
proof -
  have acc: "\<forall>s \<in> set (bc_slaves example_bus_config). acceptable_slave abi_example s"
    by (simp add: example_bus_config_def acceptable_slave_def proper_name_def mapping_entries_def abi_example_def)
  have one: "length (bc_slaves example_bus_config) = 1"
    "mapping_assignment (rx_pdos (bc_slaves example_bus_config ! 0)) = [(0x1600, 1, [(0x6040, 0, 16)])]"
    "mapping_assignment (tx_pdos (bc_slaves example_bus_config ! 0)) = []"
    by (simp_all add: example_bus_config_def mapping_assignment_def)
  show ?thesis
    using build_config_correct [of abi_example example_bus_config "\<lparr>lc_storage = [], lc_slaves = []\<rparr>"] acc
    unfolding Let_def by (auto simp: one)
qed

section \<open>The distributed-clock plan\<close>

record dc_runtime_config =
  rc_enabled :: bool
  sync0_cycle_ns :: u32
  reference_slave_index :: nat

definition dc_runtime_init :: dc_runtime_config where
  "dc_runtime_init = \<lparr>rc_enabled = False, sync0_cycle_ns = 0, reference_slave_index = 0\<rparr>"

lemma dc_runtime_init_disabled [simp]: "\<not> rc_enabled dc_runtime_init"
  by (simp add: dc_runtime_init_def)

datatype dc_plan_error = Sync0Exceeds | PeriodMismatch u16 | NoDcSlave | NoReference | MultipleReferences

text \<open>
  The loop over the slaves, from \<open>slave_index\<close>: the plan so far, the DC slaves and the
  reference slaves counted.
\<close>

fun dc_scan :: "u32 \<Rightarrow> nat \<Rightarrow> slave_spec list \<Rightarrow> dc_runtime_config \<Rightarrow> nat \<Rightarrow> nat
    \<Rightarrow> dc_runtime_config \<times> (dc_plan_error + nat \<times> nat)" where
  "dc_scan period slave_index [] runtime dc_slave_count reference_count =
     (runtime, Inr (dc_slave_count, reference_count))"
| "dc_scan period slave_index (slave # rest) runtime dc_slave_count reference_count =
     (case sp_dc slave of
        None \<Rightarrow> dc_scan period (Suc slave_index) rest runtime dc_slave_count reference_count
      | Some dc \<Rightarrow>
          if dc_sync0_cycle_ns dc \<noteq> 0 \<and> dc_sync0_cycle_ns dc \<noteq> period * 1000
          then (runtime, Inl (PeriodMismatch (sp_position slave)))
          else if dc_reference dc
          then dc_scan period (Suc slave_index) rest (runtime\<lparr>reference_slave_index := slave_index\<rparr>)
                 (Suc dc_slave_count) (Suc reference_count)
          else dc_scan period (Suc slave_index) rest runtime (Suc dc_slave_count) reference_count)"

definition build_dc_runtime :: "static_slave_config \<Rightarrow> bool \<Rightarrow> u32 \<Rightarrow> dc_runtime_config \<times> dc_plan_error option" where
  "build_dc_runtime config dc_on period =
     (if \<not> dc_on then (dc_runtime_init, None)
      else if (- 1) div 1000 < period then (dc_runtime_init, Some Sync0Exceeds)
      else case dc_scan period 0 (config_slaves config) dc_runtime_init 0 0 of
        (runtime, Inl err) \<Rightarrow> (runtime, Some err)
      | (runtime, Inr (dc_slave_count, reference_count)) \<Rightarrow>
          if dc_slave_count = 0 then (runtime, Some NoDcSlave)
          else if reference_count = 0 then (runtime, Some NoReference)
          else if 1 < reference_count then (runtime, Some MultipleReferences)
          else (runtime\<lparr>rc_enabled := True, sync0_cycle_ns := period * 1000\<rparr>, None))"

definition is_reference :: "slave_spec \<Rightarrow> bool" where
  "is_reference s \<longleftrightarrow> (case sp_dc s of None \<Rightarrow> False | Some dc \<Rightarrow> dc_reference dc)"

definition period_matches :: "u32 \<Rightarrow> slave_spec \<Rightarrow> bool" where
  "period_matches period s \<longleftrightarrow> (case sp_dc s of None \<Rightarrow> True
     | Some dc \<Rightarrow> dc_sync0_cycle_ns dc = 0 \<or> dc_sync0_cycle_ns dc = period * 1000)"

text \<open>The indices of the reference slaves, counted from \<open>i\<close>.\<close>

fun references :: "nat \<Rightarrow> slave_spec list \<Rightarrow> nat list" where
  "references i [] = []"
| "references i (s # ss) = (if is_reference s then i # references (Suc i) ss else references (Suc i) ss)"

lemma references_index:
  "j \<in> set (references i ss) \<longleftrightarrow> i \<le> j \<and> j < i + length ss \<and> is_reference (ss ! (j - i))"
proof (induction ss arbitrary: i)
  case Nil
  then show ?case by simp
next
  case (Cons s ss)
  show ?case
    using Cons.IH [of "Suc i"] by (cases "j = i") (auto simp: nth_Cons' Suc_diff_Suc)
qed

lemma dc_scan_ok:
  "\<forall>s \<in> set ss. period_matches p s \<Longrightarrow>
   dc_scan p i ss rt n m = (rt\<lparr>reference_slave_index := last (reference_slave_index rt # references i ss)\<rparr>,
     Inr (n + length (filter (\<lambda>s. sp_dc s \<noteq> None) ss), m + length (references i ss)))"
  by (induction ss arbitrary: i rt n m)
     (auto simp: period_matches_def is_reference_def split: option.splits)

lemma dc_scan_bad:
  "\<not> (\<forall>s \<in> set ss. period_matches p s) \<Longrightarrow> \<exists>rt' pos. dc_scan p i ss rt n m = (rt', Inl (PeriodMismatch pos))
     \<and> rc_enabled rt' = rc_enabled rt"
proof (induction ss arbitrary: i rt n m)
  case Nil
  then show ?case by simp
next
  case (Cons s ss)
  show ?case
  proof (cases "period_matches p s")
    case False
    then show ?thesis by (auto simp: period_matches_def split: option.splits)
  next
    case True
    with Cons.prems have bad: "\<not> (\<forall>s \<in> set ss. period_matches p s)" by simp
    note next_case = Cons.IH [OF bad, of "Suc i"]
    show ?thesis
      using True next_case [of rt n m] next_case [of rt "Suc n" m]
        next_case [of "rt\<lparr>reference_slave_index := i\<rparr>" "Suc n" "Suc m"]
      by (cases "sp_dc s") (simp_all add: period_matches_def)
  qed
qed

lemma references_dc: "length (references i ss) \<le> length (filter (\<lambda>s. sp_dc s \<noteq> None) ss)"
  by (induction ss arbitrary: i) (auto simp: is_reference_def le_SucI split: option.splits)

lemma sync0_limit: "\<not> (- 1) div 1000 < (p :: u32) \<longleftrightarrow> unat p * 1000 < 2 ^ 32"
  by (simp add: word_less_nat_alt not_less) linarith

lemma sync0_no_wrap: "unat (p :: u32) * 1000 < 2 ^ 32 \<Longrightarrow> unat (p * 1000) = unat p * 1000"
  by (simp add: unat_word_ariths)

text \<open>
  Claim C14. \<open>buildDistributedClockRuntimeConfig\<close> with clocks disabled yields the disabled plan.
  Enabled, it succeeds exactly when the cycle fits 32 bits of nanoseconds, every clock's own cycle is
  open or equal to it, and exactly one slave is the reference; the plan then names that slave and the
  exact cycle, without wrap-around. A failed call never leaves an enabled plan.
\<close>
theorem build_dc_runtime_correct:
  "build_dc_runtime c False p = (dc_runtime_init, None)
   \<and> (snd (build_dc_runtime c True p) = None \<longleftrightarrow>
        unat p * 1000 < 2 ^ 32 \<and> (\<forall>s \<in> set (config_slaves c). period_matches p s)
        \<and> length (references 0 (config_slaves c)) = 1)
   \<and> (snd (build_dc_runtime c True p) = None \<longrightarrow>
        (\<exists>k. references 0 (config_slaves c) = [k] \<and> k < length (config_slaves c)
          \<and> is_reference (config_slaves c ! k)
          \<and> reference_slave_index (fst (build_dc_runtime c True p)) = k
          \<and> rc_enabled (fst (build_dc_runtime c True p))
          \<and> unat (sync0_cycle_ns (fst (build_dc_runtime c True p))) = unat p * 1000))
   \<and> (snd (build_dc_runtime c True p) \<noteq> None \<longrightarrow> \<not> rc_enabled (fst (build_dc_runtime c True p)))"
proof -
  let ?ss = "config_slaves c"
  show ?thesis
  proof (cases "unat p * 1000 < 2 ^ 32 \<and> (\<forall>s \<in> set ?ss. period_matches p s)")
    case False
    have "\<exists>err. snd (build_dc_runtime c True p) = Some err \<and> \<not> rc_enabled (fst (build_dc_runtime c True p))"
    proof (cases "unat p * 1000 < 2 ^ 32")
      case True
      with False obtain rt pos where "dc_scan p 0 ?ss dc_runtime_init 0 0 = (rt, Inl (PeriodMismatch pos))"
        "\<not> rc_enabled rt"
        using dc_scan_bad [of ?ss p 0 dc_runtime_init 0 0] by (auto simp: dc_runtime_init_def)
      then show ?thesis using True sync0_limit [of p] by (simp add: build_dc_runtime_def)
    next
      case False
      then have "(- 1) div 1000 < p" using sync0_limit [of p] by blast
      then show ?thesis by (simp add: build_dc_runtime_def dc_runtime_init_def)
    qed
    with False show ?thesis by (auto simp: build_dc_runtime_def)
  next
    case True
    note scan = dc_scan_ok [OF conjunct2 [OF True], of 0 dc_runtime_init 0 0]
    have lim: "\<not> (- 1) div 1000 < p" using True sync0_limit by blast
    show ?thesis
    proof (cases "length (references 0 ?ss) = 1")
      case one: True
      then obtain k where k: "references 0 ?ss = [k]" by (cases "references 0 ?ss") auto
      then have "k < length ?ss" "is_reference (?ss ! k)"
        using references_index [of k 0 ?ss] by auto
      moreover have "length (filter (\<lambda>s. sp_dc s \<noteq> None) ?ss) \<noteq> 0"
        using one references_dc [of 0 ?ss] by linarith
      ultimately show ?thesis using True one k lim
        by (simp add: build_dc_runtime_def scan sync0_no_wrap)
    next
      case False
      then have "references 0 ?ss = [] \<or> 1 < length (references 0 ?ss)"
        by (cases "references 0 ?ss") auto
      with False True lim show ?thesis
        by (auto simp: build_dc_runtime_def scan)
    qed
  qed
qed

definition example_clock :: distributed_clock_config where
  "example_clock = \<lparr>assign_activate = 0x300, sync0_shift_ns = 0, sync1_cycle_ns = 0, sync1_shift_ns = 0,
     dc_reference = True, dc_sync0_cycle_ns = 0\<rparr>"

theorem build_dc_runtime_correct_witness:
  "unat (sync0_cycle_ns (fst (build_dc_runtime \<lparr>ssc_slaves = Some [example_slave, example_slave\<lparr>sp_dc := Some example_clock\<rparr>],
     ssc_slave_count = 2\<rparr> True 1000))) = 1000000"
  using build_dc_runtime_correct [of "\<lparr>ssc_slaves = Some [example_slave, example_slave\<lparr>sp_dc := Some example_clock\<rparr>],
     ssc_slave_count = 2\<rparr>" 1000]
  by (simp add: period_matches_def is_reference_def example_slave_def example_clock_def)

section \<open>Identity discovery\<close>

definition apply_discovered_identity :: "slave_spec \<Rightarrow> u32 \<Rightarrow> u32 \<Rightarrow> slave_spec option" where
  "apply_discovered_identity slave vendor_id product_code =
     (if vendor_id = 0 \<or> product_code = 0 then None
      else Some (slave\<lparr>sp_vendor_id := vendor_id, sp_product_code := product_code\<rparr>))"

lemma apply_discovered_identity_wf:
  "apply_discovered_identity s v p = Some s' \<Longrightarrow> wf_slave A s \<Longrightarrow>
     wf_slave A s' \<and> sp_vendor_id s' \<noteq> 0 \<and> sp_product_code s' \<noteq> 0"
  by (auto simp: apply_discovered_identity_def wf_slave_def split: if_splits)

end
