(* ===== verification/Process_Data_Layout.thy ===== *)
theory Process_Data_Layout
  imports Loaded_Config
begin

text \<open>
  \<open>ProcessDataLayout\<close> of src/src/process_data_layout.hpp and src/src/process_data_layout.cpp: the
  check that every entry lies inside the process image of its direction, and the shared offsets it
  assigns. \<open>build\<close> writes through the caller's entry pointers, so the model returns the updated
  configuration; \<open>unpackInputs\<close> and \<open>packOutputs\<close> are empty in the code.
\<close>

record process_data_layout =
  input_size :: nat
  output_size :: nat

datatype layout_error =
    LayoutInvalid config_error
  | DomainExceedsShm
  | LayoutNotByteAligned nat nat
  | WireRangeExceedsDomain

definition layout_entry :: "nat \<Rightarrow> nat \<Rightarrow> nat \<Rightarrow> nat \<Rightarrow> pdo_entry_spec \<Rightarrow> layout_error option" where
  "layout_entry input_domain_size output_domain_size s e entry =
     (if es_bit_position entry \<noteq> 0 \<or> es_bit_length entry mod 8 \<noteq> 0 then Some (LayoutNotByteAligned s e)
      else let domain = if es_direction entry = Input then input_domain_size else output_domain_size in
        if domain < unat (es_offset entry) \<or> domain - unat (es_offset entry) < byte_size entry
        then Some WireRangeExceedsDomain else None)"

definition set_shared_offset :: "pdo_entry_spec \<Rightarrow> pdo_entry_spec" where
  "set_shared_offset e = e\<lparr>es_shared_offset := es_offset e\<rparr>"

text \<open>Writing through a pointer changes the elements below the count.\<close>

definition update_array :: "('a \<Rightarrow> 'a) \<Rightarrow> 'a list option \<Rightarrow> nat \<Rightarrow> 'a list option" where
  "update_array f p n = map_option (\<lambda>xs. map f (take n xs) @ drop n xs) p"

lemma array_update [simp]: "array (update_array f p n) n = map f (array p n)"
  by (cases p) (auto simp: update_array_def)

lemma update_array_None [simp]: "update_array f p n = None \<longleftrightarrow> p = None"
  by (simp add: update_array_def)

definition set_shared_offsets :: "slave_spec \<Rightarrow> slave_spec" where
  "set_shared_offsets s = s\<lparr>sp_entries := update_array set_shared_offset (sp_entries s) (sp_entry_count s)\<rparr>"

definition layout_build :: "abi \<Rightarrow> static_slave_config \<Rightarrow> nat \<Rightarrow> nat \<Rightarrow> process_data_layout
    \<Rightarrow> process_data_layout \<times> static_slave_config \<times> layout_error option" where
  "layout_build A config input_domain_size output_domain_size self =
     (case validate_slave_config A config of
        Some err \<Rightarrow> (self, config, Some (LayoutInvalid err))
      | None \<Rightarrow>
          if EC_SHM_MAX_SIZE A < input_domain_size \<or> EC_SHM_MAX_SIZE A < output_domain_size
          then (self, config, Some DomainExceedsShm)
          else case first_error (\<lambda>s slave. first_error (layout_entry input_domain_size output_domain_size s)
                      0 (spec_entries slave)) 0 (config_slaves config) of
            Some err \<Rightarrow> (self, config, Some err)
          | None \<Rightarrow>
              (self\<lparr>input_size := input_domain_size, output_size := output_domain_size\<rparr>,
               config\<lparr>ssc_slaves := update_array set_shared_offsets (ssc_slaves config) (ssc_slave_count config)\<rparr>,
               None))"

definition layout_reset :: "process_data_layout \<Rightarrow> process_data_layout" where
  "layout_reset self = self\<lparr>input_size := 0, output_size := 0\<rparr>"

text \<open>An entry inside the domain of its direction.\<close>

definition in_domain :: "nat \<Rightarrow> nat \<Rightarrow> pdo_entry_spec \<Rightarrow> bool" where
  "in_domain i o' e \<longleftrightarrow>
     unat (es_offset e) + byte_size e \<le> (case es_direction e of Input \<Rightarrow> i | Output \<Rightarrow> o')"

lemma layout_entry_None:
  "wf_entry e \<Longrightarrow> layout_entry i o' s k e = None \<longleftrightarrow> in_domain i o' e"
  by (cases "es_direction e") (auto simp: layout_entry_def in_domain_def wf_entry_def Let_def)

lemma set_shared_offsets_simps [simp]:
  "spec_entries (set_shared_offsets s) = map set_shared_offset (spec_entries s)"
  "spec_init_commands (set_shared_offsets s) = spec_init_commands s"
  by (simp_all add: set_shared_offsets_def)

lemma set_shared_offset_simps [simp]:
  "wf_entry (set_shared_offset e) = wf_entry e" "fits_shm A (set_shared_offset e) = fits_shm A e"
  "es_direction (set_shared_offset e) = es_direction e" "es_offset (set_shared_offset e) = es_offset e"
  "es_shared_offset (set_shared_offset e) = es_offset e"
  by (simp_all add: set_shared_offset_def wf_entry_def fits_shm_def byte_size_def)

lemma wf_set_shared_offsets [simp]: "wf_slave A (set_shared_offsets s) = wf_slave A s"
proof -
  have "length (input_entries (map set_shared_offset es)) = length (input_entries es)"
    "length (output_entries (map set_shared_offset es)) = length (output_entries es)" for es
    by (simp_all add: input_entries_def output_entries_def filter_map comp_def)
  then show ?thesis
    unfolding wf_slave_def set_shared_offsets_simps by (simp add: set_shared_offsets_def)
qed

lemma layout_ok_iff:
  assumes "length (config_slaves c) = ssc_slave_count c"
  shows "snd (snd (layout_build A c i o' self)) = None \<longleftrightarrow>
    wf_config A c \<and> i \<le> EC_SHM_MAX_SIZE A \<and> o' \<le> EC_SHM_MAX_SIZE A
    \<and> (\<forall>s \<in> set (config_slaves c). \<forall>e \<in> set (spec_entries s). in_domain i o' e)"
proof (cases "wf_config A c \<and> i \<le> EC_SHM_MAX_SIZE A \<and> o' \<le> EC_SHM_MAX_SIZE A")
  case False
  then show ?thesis
    using validated_iff [of A c] by (auto simp: layout_build_def split: option.splits)
next
  case True
  then have wf: "\<forall>s \<in> set (config_slaves c). \<forall>e \<in> set (spec_entries s). wf_entry e"
    using assms by (auto simp: wf_config_def wf_slave_def)
  have entries: "first_error (layout_entry i o' k) 0 (spec_entries s) = None
      \<longleftrightarrow> (\<forall>e \<in> set (spec_entries s). in_domain i o' e)" if "s \<in> set (config_slaves c)" for s k
  proof -
    have "\<forall>e \<in> set (spec_entries s). layout_entry i o' k j e = None \<longleftrightarrow> in_domain i o' e" for j
      using wf that layout_entry_None by blast
    then show ?thesis by (auto simp: first_error_None_iff all_set_conv_all_nth)
  qed
  have "first_error (\<lambda>s slave. first_error (layout_entry i o' s) 0 (spec_entries slave)) 0 (config_slaves c) = None
      \<longleftrightarrow> (\<forall>s \<in> set (config_slaves c). \<forall>e \<in> set (spec_entries s). in_domain i o' e)"
    by (subst first_error_None_iff) (simp add: entries all_set_conv_all_nth [of "config_slaves c"])
  moreover have "validate_slave_config A c = None" using True by (simp add: validated_iff)
  ultimately show ?thesis using True
    by (auto simp: layout_build_def split: option.splits)
qed

lemma layout_result:
  "snd (snd (layout_build A c i o' self)) = None \<Longrightarrow> layout_build A c i o' self =
     (\<lparr>input_size = i, output_size = o', \<dots> = process_data_layout.more self\<rparr>,
      c\<lparr>ssc_slaves := update_array set_shared_offsets (ssc_slaves c) (ssc_slave_count c)\<rparr>, None)"
  by (cases self) (auto simp: layout_build_def split: option.splits if_splits)

lemma layout_placed:
  assumes "layout_build A c i o' self = (L, c', None)"
  shows "\<forall>s \<in> set (config_slaves c'). \<forall>e \<in> set (spec_entries s). es_shared_offset e = es_offset e \<and> in_domain i o' e"
proof -
  have c': "config_slaves c' = map set_shared_offsets (config_slaves c)"
    using layout_result [of A c i o' self] assms by simp
  have none: "first_error (\<lambda>s slave. first_error (layout_entry i o' s) 0 (spec_entries slave)) 0 (config_slaves c) = None"
    using assms by (auto simp: layout_build_def split: option.splits if_splits)
  have "in_domain i o' e" if "s \<in> set (config_slaves c)" "e \<in> set (spec_entries s)" for s e
  proof -
    from that obtain k j where "k < length (config_slaves c)" "j < length (spec_entries s)"
      "config_slaves c ! k = s" "spec_entries s ! j = e" by (metis in_set_conv_nth)
    with none have "layout_entry i o' k j e = None" by (force simp: first_error_None_iff)
    then show ?thesis
      by (cases "es_direction e") (auto simp: layout_entry_def in_domain_def Let_def split: if_splits)
  qed
  then show ?thesis unfolding c' by (fastforce simp: in_domain_def byte_size_def set_shared_offset_def)
qed

text \<open>
  Claim C15. \<open>ProcessDataLayout::build\<close> succeeds exactly when the configuration is well formed,
  both domains fit the shared image, and every entry lies inside the domain of its direction. Then it
  records both sizes, gives every entry its domain offset as shared offset and changes nothing else
  of the configuration; a failed build changes neither the layout nor the configuration.
\<close>
theorem layout_build_correct:
  fixes A :: abi and c :: static_slave_config and i o' :: nat and self :: process_data_layout
  assumes "length (config_slaves c) = ssc_slave_count c"
  defines "r \<equiv> layout_build A c i o' self"
  shows "(snd (snd r) = None \<longleftrightarrow>
      wf_config A c \<and> i \<le> EC_SHM_MAX_SIZE A \<and> o' \<le> EC_SHM_MAX_SIZE A
      \<and> (\<forall>s \<in> set (config_slaves c). \<forall>e \<in> set (spec_entries s). in_domain i o' e))
    \<and> (snd (snd r) \<noteq> None \<longrightarrow> fst r = self \<and> fst (snd r) = c)
    \<and> (snd (snd r) = None \<longrightarrow> input_size (fst r) = i \<and> output_size (fst r) = o'
         \<and> ssc_slave_count (fst (snd r)) = ssc_slave_count c
         \<and> config_slaves (fst (snd r)) = map (\<lambda>s. s\<lparr>sp_entries := update_array
               (\<lambda>e. e\<lparr>es_shared_offset := es_offset e\<rparr>) (sp_entries s) (sp_entry_count s)\<rparr>) (config_slaves c))"
proof -
  have fail: "fst r = self \<and> fst (snd r) = c" if "snd (snd r) \<noteq> None"
    using that by (auto simp: r_def layout_build_def split: option.splits if_splits)
  have "set_shared_offset = (\<lambda>e. e\<lparr>es_shared_offset := es_offset e\<rparr>)"
    by (rule ext) (simp add: set_shared_offset_def)
  then have upd: "set_shared_offsets = (\<lambda>s. s\<lparr>sp_entries := update_array
               (\<lambda>e. e\<lparr>es_shared_offset := es_offset e\<rparr>) (sp_entries s) (sp_entry_count s)\<rparr>)"
    by (auto simp: set_shared_offsets_def)
  have ok: "input_size (fst r) = i \<and> output_size (fst r) = o' \<and> ssc_slave_count (fst (snd r)) = ssc_slave_count c
      \<and> config_slaves (fst (snd r)) = map set_shared_offsets (config_slaves c)" if "snd (snd r) = None"
    using layout_result [of A c i o' self] that by (simp add: r_def)
  show ?thesis
    unfolding upd [symmetric] using fail ok layout_ok_iff [OF assms(1), of A i o' self]
    by (auto simp: r_def)
qed

definition example_layout :: process_data_layout where
  "example_layout = \<lparr>input_size = 0, output_size = 0\<rparr>"

lemma example_in_domain:
  "\<forall>s \<in> set (config_slaves example_config). \<forall>e \<in> set (spec_entries s). in_domain 4092 2 e"
  by (simp add: example_config_def example_slave_def in_domain_def byte_size_def)

theorem layout_build_correct_witness:
  "input_size (fst (layout_build abi_example example_config 4092 2 example_layout)) = 4092"
proof -
  have len: "length (config_slaves example_config) = ssc_slave_count example_config"
    by (simp add: example_config_def)
  have "EC_SHM_MAX_SIZE abi_example = 4096" by (simp add: abi_example_def)
  then show ?thesis
    using layout_build_correct [OF len, of abi_example 4092 2 example_layout] wf_example example_in_domain
    by (simp del: One_nat_def)
qed

text \<open>
  A layout that was accepted can be published: after \<open>ProcessDataLayout::build\<close>, the
  configuration with its shared offsets is still valid, every entry fits the shared image, and
  \<open>publishConfig\<close> fails for no reason but the slave capacity.
\<close>
lemma layout_then_publish:
  fixes A :: abi and c :: static_slave_config
  assumes "length (config_slaves c) = ssc_slave_count c" and "EC_SHM_MAX_SIZE A \<le> INT_MAX"
    and "layout_build A c i o' self = (layout, c', None)"
  shows "snd (publish_config A c' :: 'r::linordered_field ecat_bus \<times> publish_error option)
    = (if MAX_SLAVE_NUM A < ssc_slave_count c then Some SlaveCountExceeds else None)"
proof -
  have ok: "snd (snd (layout_build A c i o' self)) = None" using assms(3) by simp
  note facts = layout_ok_iff [OF assms(1), THEN iffD1, OF ok]
  have c': "c' = c\<lparr>ssc_slaves := update_array set_shared_offsets (ssc_slaves c) (ssc_slave_count c)\<rparr>"
    using layout_result [OF ok] assms(3) by simp
  then have sl: "config_slaves c' = map set_shared_offsets (config_slaves c)"
    "ssc_slave_count c' = ssc_slave_count c" by simp_all
  have wf: "wf_config A c'"
    using facts by (auto simp: wf_config_def c')
  have fits: "\<forall>s \<in> set (config_slaves c'). \<forall>e \<in> set (spec_entries s). fits_shm A e"
  proof -
    have "fits_shm A e" if "in_domain i o' e" for e
      using that facts assms(2) by (cases "es_direction e") (auto simp: in_domain_def fits_shm_def)
    then show ?thesis unfolding sl(1) using facts by auto
  qed
  show ?thesis
  proof (cases "MAX_SLAVE_NUM A < ssc_slave_count c")
    case True
    moreover have "validate_slave_config A c' = None" using wf by (simp add: validated_iff)
    ultimately show ?thesis by (simp add: publish_config_def Let_def sl)
  next
    case False
    have "length (config_slaves c') = ssc_slave_count c'" using assms(1) sl by simp
    from publish_config_ok [where 'r = 'r, OF this, of A] wf fits False show ?thesis by (simp add: sl)
  qed
qed

lemma layout_then_publish_example:
  "snd (publish_config abi_example (fst (snd (layout_build abi_example example_config 4092 2 example_layout)))
     :: rat ecat_bus \<times> publish_error option) = None"
proof -
  have len: "length (config_slaves example_config) = ssc_slave_count example_config"
    by (simp add: example_config_def)
  have shm: "EC_SHM_MAX_SIZE abi_example \<le> INT_MAX" by (simp add: abi_example_def INT_MAX_def)
  have "snd (snd (layout_build abi_example example_config 4092 2 example_layout)) = None"
    using layout_ok_iff [OF len, of abi_example 4092 2 example_layout] wf_example example_in_domain
    by (simp add: abi_example_def)
  then have "layout_build abi_example example_config 4092 2 example_layout
      = (fst (layout_build abi_example example_config 4092 2 example_layout),
         fst (snd (layout_build abi_example example_config 4092 2 example_layout)), None)"
    by (simp add: prod_eq_iff)
  from layout_then_publish [where 'r = rat, OF len shm this] show ?thesis
    by (simp add: abi_example_def example_config_def)
qed

end
