(* ===== verification/Runtime_Options.thy ===== *)
theory Runtime_Options
  imports Pdo_Config_Types
begin

text \<open>
  The strict command line of src/src/runtime_options.cpp: \<open>parseUnsigned\<close> and
  \<open>parseRuntimeOptions\<close>. The arguments are the strings of \<open>argv\<close> after the program name. The
  booleans that remember which options were seen are the record \<open>seen_flags\<close>; the options are
  written as the scan proceeds, so a failed parse returns the partial options with its error. The
  branches of the loop body after a value are one function each, in the order of the code.
\<close>

section \<open>Decimal numbers\<close>

definition is_digit :: "char \<Rightarrow> bool" where
  "is_digit c \<longleftrightarrow> 48 \<le> (of_char c :: nat) \<and> (of_char c :: nat) \<le> 57"

definition digit_value :: "char \<Rightarrow> nat" where
  "digit_value c = of_char c - 48"

definition decimal :: "string \<Rightarrow> nat" where
  "decimal ds = foldl (\<lambda>v c. 10 * v + digit_value c) 0 ds"

text \<open>
  \<open>std::from_chars\<close> for an unsigned 64-bit value: the longest prefix of digits, an error when it is
  empty or its value does not fit, and the rest of the text.
\<close>

definition from_chars_u64 :: "string \<Rightarrow> (u64 \<times> string) option" where
  "from_chars_u64 text =
     (let ds = takeWhile is_digit text in
      if ds = [] \<or> 2 ^ 64 \<le> decimal ds then None
      else Some (of_nat (decimal ds), dropWhile is_digit text))"

definition parse_unsigned :: "string \<Rightarrow> u64 option" where
  "parse_unsigned text =
     (if text = [] then None
      else if hd text = CHR ''+'' \<or> hd text = CHR ''-'' then None
      else case from_chars_u64 text of
        Some (v, []) \<Rightarrow> Some v
      | _ \<Rightarrow> None)"

lemma takeWhile_eq_all: "dropWhile P xs = [] \<longleftrightarrow> list_all P xs"
  by (simp add: dropWhile_eq_Nil_conv list_all_iff)

lemma takeWhile_all: "list_all P xs \<Longrightarrow> takeWhile P xs = xs"
  by (simp add: list_all_iff)

lemma sign_not_digit: "\<not> is_digit (CHR ''+'')" "\<not> is_digit (CHR ''-'')"
  by (simp_all add: is_digit_def)

lemma parse_unsigned_iff:
  "parse_unsigned t = Some v \<longleftrightarrow>
     t \<noteq> [] \<and> list_all is_digit t \<and> decimal t < 2 ^ 64 \<and> v = of_nat (decimal t)"
proof (cases "list_all is_digit t")
  case True
  then have d: "dropWhile is_digit t = []" and w: "takeWhile is_digit t = t"
    by (simp_all only: takeWhile_eq_all takeWhile_all)
  have "parse_unsigned t = (if t = [] \<or> hd t = CHR ''+'' \<or> hd t = CHR ''-'' then None
      else if 2 ^ 64 \<le> decimal t then None else Some (of_nat (decimal t)))"
    unfolding parse_unsigned_def from_chars_u64_def Let_def d w by simp
  moreover have "t \<noteq> [] \<Longrightarrow> hd t \<noteq> CHR ''+'' \<and> hd t \<noteq> CHR ''-''"
    using True sign_not_digit by (cases t) auto
  ultimately show ?thesis using True by auto
next
  case False
  then have "dropWhile is_digit t \<noteq> []" using takeWhile_eq_all by blast
  then obtain c cs where "dropWhile is_digit t = c # cs" by (cases "dropWhile is_digit t") auto
  with False show ?thesis
    by (simp add: parse_unsigned_def from_chars_u64_def Let_def)
qed

text \<open>The decimal text of a number.\<close>

fun show_nat :: "nat \<Rightarrow> string" where
  "show_nat n = (if n < 10 then [char_of (48 + n)] else show_nat (n div 10) @ [char_of (48 + n mod 10)])"

declare show_nat.simps [simp del]

lemma digit_char: "d < 10 \<Longrightarrow> is_digit (char_of (48 + d)) \<and> digit_value (char_of (48 + d)) = d"
  by (simp add: is_digit_def digit_value_def)

lemma decimal_snoc: "decimal (ds @ [c]) = 10 * decimal ds + digit_value c"
  by (simp add: decimal_def)

lemma show_nat_digits: "show_nat n \<noteq> [] \<and> list_all is_digit (show_nat n) \<and> decimal (show_nat n) = n"
proof (induction n rule: show_nat.induct)
  case (1 n)
  show ?case
  proof (cases "n < 10")
    case True
    then show ?thesis using digit_char [of n] by (simp add: show_nat.simps [of n] decimal_def)
  next
    case False
    with 1 have "list_all is_digit (show_nat (n div 10))" "decimal (show_nat (n div 10)) = n div 10" by auto
    then show ?thesis using False digit_char [of "n mod 10"]
      by (simp add: show_nat.simps [of n] decimal_snoc)
  qed
qed

lemma parse_show_nat: "n < 2 ^ 64 \<Longrightarrow> parse_unsigned (show_nat n) = Some (of_nat n)"
  using show_nat_digits [of n] by (simp add: parse_unsigned_iff)

section \<open>The options\<close>

record seen_flags =
  config_seen :: bool
  cpu_seen :: bool
  master_id_seen :: bool
  period_us_seen :: bool
  dc_seen :: bool
  preop_timeout_seen :: bool
  op_timeout_seen :: bool
  pdo_attempts_seen :: bool

definition seen_flags_init :: seen_flags where
  "seen_flags_init = \<lparr>config_seen = False, cpu_seen = False, master_id_seen = False,
     period_us_seen = False, dc_seen = False, preop_timeout_seen = False, op_timeout_seen = False,
     pdo_attempts_seen = False\<rparr>"

datatype cli_flag = FlagConfig | FlagMasterId | FlagPeriodUs | FlagDc | FlagPreopTimeout | FlagOpTimeout
  | FlagCpu | FlagPdoAttempts

fun flag_name :: "cli_flag \<Rightarrow> string" where
  "flag_name FlagConfig = ''--config''"
| "flag_name FlagMasterId = ''--master-id''"
| "flag_name FlagPeriodUs = ''--period-us''"
| "flag_name FlagDc = ''--dc''"
| "flag_name FlagPreopTimeout = ''--preop-timeout-ms''"
| "flag_name FlagOpTimeout = ''--op-timeout-ms''"
| "flag_name FlagCpu = ''--cpu''"
| "flag_name FlagPdoAttempts = ''--pdo-config-attempts''"

definition flag_of :: "string \<Rightarrow> cli_flag option" where
  "flag_of s = find (\<lambda>f. flag_name f = s) [FlagConfig, FlagMasterId, FlagPeriodUs, FlagDc,
     FlagPreopTimeout, FlagOpTimeout, FlagCpu, FlagPdoAttempts]"

datatype option_error =
    UnknownOption string
  | MissingValue cli_flag
  | DuplicateOption cli_flag
  | InvalidValue cli_flag
  | AttemptsRange
  | CpuRange
  | TimeoutRange cli_flag
  | MasterIdRange
  | PeriodRange
  | PeriodTooSmall
  | MissingConfig
  | PeriodTooLargeForDc

type_synonym parse_state = "runtime_options \<times> seen_flags"

definition kMinPeriodUs :: u32 where
  "kMinPeriodUs = 1000"

definition U32_MAX :: u64 where
  "U32_MAX = 0xFFFFFFFF"

definition apply_config :: "string \<Rightarrow> parse_state \<Rightarrow> parse_state \<times> option_error option" where
  "apply_config value st = (case st of (options, seen) \<Rightarrow>
     if config_seen seen then (st, Some (DuplicateOption FlagConfig))
     else if value = [] \<or> take 2 value = ''--'' then (st, Some (InvalidValue FlagConfig))
     else ((options\<lparr>config_path := value\<rparr>, seen\<lparr>config_seen := True\<rparr>), None))"

definition apply_dc :: "string \<Rightarrow> parse_state \<Rightarrow> parse_state \<times> option_error option" where
  "apply_dc value st = (case st of (options, seen) \<Rightarrow>
     if dc_seen seen then (st, Some (DuplicateOption FlagDc))
     else if value = ''on'' then ((options\<lparr>dc_enabled := True\<rparr>, seen\<lparr>dc_seen := True\<rparr>), None)
     else if value = ''off'' then ((options\<lparr>dc_enabled := False\<rparr>, seen\<lparr>dc_seen := True\<rparr>), None)
     else (st, Some (InvalidValue FlagDc)))"

definition apply_number :: "cli_flag \<Rightarrow> u64 \<Rightarrow> parse_state \<Rightarrow> parse_state \<times> option_error option" where
  "apply_number flag v st = (case st of (options, seen) \<Rightarrow>
     if flag = FlagPdoAttempts then
       (if pdo_attempts_seen seen then (st, Some (DuplicateOption flag))
        else if v = 0 \<or> U32_MAX < v then (st, Some AttemptsRange)
        else ((options\<lparr>pdo_config_attempts := ucast v\<rparr>, seen\<lparr>pdo_attempts_seen := True\<rparr>), None))
     else if flag = FlagCpu then
       (if U32_MAX < v then (st, Some CpuRange) else ((options\<lparr>cpu := Some (ucast v)\<rparr>, seen), None))
     else if flag = FlagPreopTimeout then
       (if preop_timeout_seen seen then (st, Some (DuplicateOption flag))
        else if v = 0 \<or> U32_MAX < v then (st, Some (TimeoutRange flag))
        else ((options\<lparr>preop_timeout_ms := ucast v\<rparr>, seen\<lparr>preop_timeout_seen := True\<rparr>), None))
     else if flag = FlagOpTimeout then
       (if op_timeout_seen seen then (st, Some (DuplicateOption flag))
        else if v = 0 \<or> U32_MAX < v then (st, Some (TimeoutRange flag))
        else ((options\<lparr>op_timeout_ms := ucast v\<rparr>, seen\<lparr>op_timeout_seen := True\<rparr>), None))
     else if flag = FlagMasterId then
       (if master_id_seen seen then (st, Some (DuplicateOption flag))
        else if U32_MAX < v then (st, Some MasterIdRange)
        else ((options\<lparr>master_id := ucast v\<rparr>, seen\<lparr>master_id_seen := True\<rparr>), None))
     else
       (if period_us_seen seen then (st, Some (DuplicateOption FlagPeriodUs))
        else if U32_MAX < v then (st, Some PeriodRange)
        else if v < ucast kMinPeriodUs then (st, Some PeriodTooSmall)
        else ((options\<lparr>period_us := ucast v\<rparr>, seen\<lparr>period_us_seen := True\<rparr>), None)))"

text \<open>An option with its value: the body of the loop after the value was taken.\<close>

definition apply_option :: "cli_flag \<Rightarrow> string \<Rightarrow> parse_state \<Rightarrow> parse_state \<times> option_error option" where
  "apply_option flag value st =
     (if flag = FlagConfig then apply_config value st
      else if flag = FlagDc then apply_dc value st
      else if flag = FlagCpu \<and> cpu_seen (snd st) then (st, Some (DuplicateOption flag))
      else
        let st = (if flag = FlagCpu then (fst st, (snd st)\<lparr>cpu_seen := True\<rparr>) else st) in
        if flag = FlagCpu \<and> value = ''auto'' then (((fst st)\<lparr>cpu := None\<rparr>, snd st), None)
        else case parse_unsigned value of
          None \<Rightarrow> (st, Some (InvalidValue flag))
        | Some v \<Rightarrow> apply_number flag v st)"

fun parse_arguments :: "string list \<Rightarrow> parse_state \<Rightarrow> parse_state \<times> option_error option" where
  "parse_arguments [] st = (st, None)"
| "parse_arguments (arg # rest) st =
     (if arg = ''--help'' then parse_arguments rest ((fst st)\<lparr>show_help := True\<rparr>, snd st)
      else case flag_of arg of
        None \<Rightarrow> (st, Some (UnknownOption arg))
      | Some flag \<Rightarrow>
          (case rest of
             [] \<Rightarrow> (st, Some (MissingValue flag))
           | value # rest' \<Rightarrow>
               (case apply_option flag value st of
                  (st', Some err) \<Rightarrow> (st', Some err)
                | (st', None) \<Rightarrow> parse_arguments rest' st')))"

definition parse_runtime_options :: "string list \<Rightarrow> runtime_options \<Rightarrow> runtime_options \<times> option_error option" where
  "parse_runtime_options args defaults =
     (case parse_arguments args (defaults\<lparr>config_path := [], show_help := False\<rparr>, seen_flags_init) of
        ((options, seen), Some err) \<Rightarrow> (options, Some err)
      | ((options, seen), None) \<Rightarrow>
          if \<not> show_help options \<and> \<not> config_seen seen then (options, Some MissingConfig)
          else if dc_enabled options \<and> (- 1) div 1000 < period_us options
          then (options, Some PeriodTooLargeForDc)
          else (options, None))"

section \<open>Options given at most once, others keep their defaults\<close>

fun seen_of :: "cli_flag \<Rightarrow> seen_flags \<Rightarrow> bool" where
  "seen_of FlagConfig s = config_seen s"
| "seen_of FlagMasterId s = master_id_seen s"
| "seen_of FlagPeriodUs s = period_us_seen s"
| "seen_of FlagDc s = dc_seen s"
| "seen_of FlagPreopTimeout s = preop_timeout_seen s"
| "seen_of FlagOpTimeout s = op_timeout_seen s"
| "seen_of FlagCpu s = cpu_seen s"
| "seen_of FlagPdoAttempts s = pdo_attempts_seen s"

text \<open>Two option records agree on what the option \<open>f\<close> sets.\<close>

fun same_option :: "cli_flag \<Rightarrow> runtime_options \<Rightarrow> runtime_options \<Rightarrow> bool" where
  "same_option FlagConfig a b \<longleftrightarrow> config_path a = config_path b"
| "same_option FlagMasterId a b \<longleftrightarrow> master_id a = master_id b"
| "same_option FlagPeriodUs a b \<longleftrightarrow> period_us a = period_us b"
| "same_option FlagDc a b \<longleftrightarrow> dc_enabled a = dc_enabled b"
| "same_option FlagPreopTimeout a b \<longleftrightarrow> preop_timeout_ms a = preop_timeout_ms b"
| "same_option FlagOpTimeout a b \<longleftrightarrow> op_timeout_ms a = op_timeout_ms b"
| "same_option FlagCpu a b \<longleftrightarrow> cpu a = cpu b"
| "same_option FlagPdoAttempts a b \<longleftrightarrow> pdo_config_attempts a = pdo_config_attempts b"

lemma same_option_refl [simp]: "same_option f a a"
  by (cases f) auto

lemma same_option_trans: "same_option f a b \<Longrightarrow> same_option f b c \<Longrightarrow> same_option f a c"
  by (cases f) auto

lemma flag_of_name [simp]: "flag_of (flag_name f) = Some f"
  by (cases f) (simp_all add: flag_of_def)

lemma flag_of_Some: "flag_of s = Some f \<longleftrightarrow> s = flag_name f"
proof
  assume "flag_of s = Some f"
  then show "s = flag_name f" unfolding flag_of_def find_Some_iff by blast
qed simp

lemma flag_name_dashes: "take 2 (flag_name f) = ''--''" "\<not> list_all is_digit (flag_name f)"
    "flag_name f \<noteq> ''on''" "flag_name f \<noteq> ''off''" "flag_name f \<noteq> ''auto''" "flag_name f \<noteq> ''--help''"
  by (cases f; simp add: is_digit_def)+

text \<open>The range every accepted option record satisfies.\<close>

definition options_in_range :: "runtime_options \<Rightarrow> bool" where
  "options_in_range o' \<longleftrightarrow> 1000 \<le> unat (period_us o') \<and> 0 < unat (preop_timeout_ms o')
     \<and> 0 < unat (op_timeout_ms o') \<and> 0 < unat (pdo_config_attempts o')"

lemma unat_ucast_u32:
  assumes "\<not> U32_MAX < v"
  shows "unat (ucast v :: u32) = unat v"
proof -
  have "unat v < 2 ^ 32" using assms by (simp add: U32_MAX_def word_less_nat_alt)
  then show ?thesis by (simp add: unsigned_ucast_eq take_bit_nat_eq_self)
qed

text \<open>What one accepted option does to the state.\<close>

definition option_step :: "cli_flag \<Rightarrow> parse_state \<Rightarrow> parse_state \<Rightarrow> bool" where
  "option_step flag st st' \<longleftrightarrow>
     (\<forall>f. (seen_of f (snd st') \<longleftrightarrow> seen_of f (snd st) \<or> f = flag)
          \<and> (f \<noteq> flag \<longrightarrow> same_option f (fst st) (fst st')))
     \<and> show_help (fst st') = show_help (fst st)
     \<and> (options_in_range (fst st) \<longrightarrow> options_in_range (fst st'))
     \<and> (flag = FlagConfig \<longrightarrow> config_path (fst st') \<noteq> [] \<and> take 2 (config_path (fst st')) \<noteq> ''--'')"

lemma all_flags: "(\<forall>f. P f) \<longleftrightarrow> P FlagConfig \<and> P FlagMasterId \<and> P FlagPeriodUs \<and> P FlagDc
    \<and> P FlagPreopTimeout \<and> P FlagOpTimeout \<and> P FlagCpu \<and> P FlagPdoAttempts"
  by (metis cli_flag.exhaust)

lemma apply_number_step:
  assumes "apply_number flag v st = (st', None)" "flag \<noteq> FlagConfig" "flag \<noteq> FlagDc"
    "flag = FlagCpu \<longrightarrow> cpu_seen (snd st)"
  shows "option_step flag st st' \<and> (flag \<noteq> FlagCpu \<longrightarrow> \<not> seen_of flag (snd st))"
proof -
  obtain opts seen where st: "st = (opts, seen)" by fastforce
  have pos: "0 < unat v" if "v \<noteq> 0" using that by (simp add: unat_gt_0)
  show ?thesis
    using assms
    by (cases flag)
       (simp_all add: st apply_number_def option_step_def all_flags options_in_range_def unat_ucast_u32
          kMinPeriodUs_def word_less_nat_alt not_less split: if_splits,
        auto simp: unat_ucast_u32 not_less word_less_nat_alt word_le_nat_alt pos)
qed

lemma apply_option_step:
  assumes "apply_option flag v_text st = (st', None)"
  shows "option_step flag st st' \<and> \<not> seen_of flag (snd st) \<and> take 2 v_text \<noteq> ''--''"
proof -
  obtain opts seen where st: "st = (opts, seen)" by fastforce
  have number: "take 2 v_text \<noteq> ''--''" if "parse_unsigned v_text = Some v" for v
    using that by (cases v_text) (auto simp: parse_unsigned_iff is_digit_def)
  consider "flag = FlagConfig" | "flag = FlagDc" | "flag = FlagCpu" "v_text = ''auto''"
    | "flag \<noteq> FlagConfig" "flag \<noteq> FlagDc" "flag \<noteq> FlagCpu \<or> v_text \<noteq> ''auto''" by blast
  then show ?thesis
  proof cases
    case 1
    with assms show ?thesis
      by (auto simp: st apply_option_def apply_config_def option_step_def all_flags options_in_range_def
          split: if_splits)
  next
    case 2
    with assms show ?thesis
      by (auto simp: st apply_option_def apply_dc_def option_step_def all_flags options_in_range_def
          split: if_splits)
  next
    case 3
    with assms show ?thesis
      by (auto simp: st apply_option_def option_step_def all_flags options_in_range_def split: if_splits)
  next
    case 4
    let ?st = "if flag = FlagCpu then (opts, seen\<lparr>cpu_seen := True\<rparr>) else st"
    from 4 assms obtain v where v: "parse_unsigned v_text = Some v" "apply_number flag v ?st = (st', None)"
      and fresh: "flag = FlagCpu \<longrightarrow> \<not> cpu_seen seen"
      by (auto simp: st apply_option_def Let_def split: if_splits option.splits)
    have step: "option_step flag ?st st' \<and> (flag \<noteq> FlagCpu \<longrightarrow> \<not> seen_of flag (snd ?st))"
      using v(2) 4 by (intro apply_number_step) auto
    have cpu: "option_step FlagCpu (opts, seen\<lparr>cpu_seen := True\<rparr>) st' \<Longrightarrow> option_step FlagCpu (opts, seen) st'"
      by (simp add: option_step_def all_flags)
    show ?thesis
      using step number [OF v(1)] fresh cpu by (cases "flag = FlagCpu") (auto simp: st)
  qed
qed

text \<open>What an accepted argument list does: every known option at most once, and only it changes.\<close>

definition arguments_ok :: "string list \<Rightarrow> parse_state \<Rightarrow> parse_state \<Rightarrow> bool" where
  "arguments_ok args st st' \<longleftrightarrow>
     (\<forall>f. (seen_of f (snd st') \<longleftrightarrow> seen_of f (snd st) \<or> flag_name f \<in> set args)
        \<and> (seen_of f (snd st) \<longrightarrow> flag_name f \<notin> set args)
        \<and> count_list args (flag_name f) \<le> 1
        \<and> (flag_name f \<notin> set args \<longrightarrow> same_option f (fst st) (fst st')))
     \<and> (options_in_range (fst st) \<longrightarrow> options_in_range (fst st'))
     \<and> (show_help (fst st') \<longleftrightarrow> show_help (fst st) \<or> ''--help'' \<in> set args)
     \<and> (flag_name FlagConfig \<in> set args \<longrightarrow>
          config_path (fst st') \<noteq> [] \<and> take 2 (config_path (fst st')) \<noteq> ''--'')"

lemma arguments_ok_help:
  assumes "arguments_ok rest ((fst st)\<lparr>show_help := True\<rparr>, snd st) st'"
  shows "arguments_ok (''--help'' # rest) st st'"
proof -
  have keep: "same_option f ((fst st)\<lparr>show_help := True\<rparr>) o' = same_option f (fst st) o'" for f o'
    by (cases f) auto
  have range: "options_in_range ((fst st)\<lparr>show_help := True\<rparr>) = options_in_range (fst st)"
    by (simp add: options_in_range_def)
  have ne: "flag_name f \<noteq> ''--help''" "''--help'' \<noteq> flag_name f" for f
    using flag_name_dashes(6) [of f] by auto
  show ?thesis
    using assms unfolding arguments_ok_def fst_conv snd_conv keep range
    by (simp add: ne del: flag_name.simps)
qed

lemma flag_name_inj [simp]: "flag_name f = flag_name g \<longleftrightarrow> f = g"
  using flag_of_name by (metis option.inject)

lemma arguments_ok_option:
  assumes "option_step flag st st1" "\<not> seen_of flag (snd st)" "take 2 v_text \<noteq> ''--''"
    and "arguments_ok rest st1 st'"
  shows "arguments_ok (flag_name flag # v_text # rest) st st'"
proof -
  have v: "flag_name f \<noteq> v_text" "v_text \<noteq> flag_name f" "''--help'' \<noteq> v_text" for f
    using assms(3) flag_name_dashes(1) [of f] by auto
  have h: "''--help'' \<noteq> flag_name flag" using flag_name_dashes(6) by metis
  have path: "config_path (fst st') \<noteq> [] \<and> take 2 (config_path (fst st')) \<noteq> ''--''" if "flag = FlagConfig"
  proof -
    have "seen_of FlagConfig (snd st1)" using assms(1) that by (simp add: option_step_def all_flags)
    then have "same_option FlagConfig (fst st1) (fst st')"
      using assms(4) unfolding arguments_ok_def by blast
    then show ?thesis using assms(1) that by (simp add: option_step_def)
  qed
  have all: "(seen_of f (snd st') \<longleftrightarrow> seen_of f (snd st) \<or> flag_name f \<in> set (flag_name flag # v_text # rest))
        \<and> (seen_of f (snd st) \<longrightarrow> flag_name f \<notin> set (flag_name flag # v_text # rest))
        \<and> count_list (flag_name flag # v_text # rest) (flag_name f) \<le> 1
        \<and> (flag_name f \<notin> set (flag_name flag # v_text # rest) \<longrightarrow> same_option f (fst st) (fst st'))" for f
  proof -
    have one: "(seen_of f (snd st1) \<longleftrightarrow> seen_of f (snd st) \<or> f = flag)
          \<and> (f \<noteq> flag \<longrightarrow> same_option f (fst st) (fst st1))"
      using assms(1) unfolding option_step_def by blast
    have two: "(seen_of f (snd st') \<longleftrightarrow> seen_of f (snd st1) \<or> flag_name f \<in> set rest)
        \<and> (seen_of f (snd st1) \<longrightarrow> flag_name f \<notin> set rest)
        \<and> count_list rest (flag_name f) \<le> 1
        \<and> (flag_name f \<notin> set rest \<longrightarrow> same_option f (fst st1) (fst st'))"
      using assms(4) unfolding arguments_ok_def by blast
    show ?thesis
      using one two assms(2) v same_option_trans
      by (cases "f = flag") (auto simp: count_list_0_iff)
  qed
  have rest: "(options_in_range (fst st) \<longrightarrow> options_in_range (fst st'))
      \<and> (show_help (fst st') \<longleftrightarrow> show_help (fst st) \<or> ''--help'' \<in> set (flag_name flag # v_text # rest))
      \<and> (flag_name FlagConfig \<in> set (flag_name flag # v_text # rest) \<longrightarrow>
          config_path (fst st') \<noteq> [] \<and> take 2 (config_path (fst st')) \<noteq> ''--'')"
    using assms(1,4) path v h unfolding option_step_def arguments_ok_def
    by (auto simp del: flag_name.simps)
  show ?thesis unfolding arguments_ok_def using all rest by blast
qed

lemma parse_arguments_ok: "parse_arguments args st = (st', None) \<Longrightarrow> arguments_ok args st st'"
proof (induction args st rule: parse_arguments.induct)
  case (1 st)
  then show ?case by (simp add: arguments_ok_def all_flags)
next
  case (2 arg rest st)
  show ?case
  proof (cases "arg = ''--help''")
    case True
    with 2 show ?thesis by (auto intro: arguments_ok_help)
  next
    case False
    with "2.prems" obtain flag v_text rest' where a: "flag_of arg = Some flag" "rest = v_text # rest'"
      by (auto split: option.splits list.splits)
    from "2.prems" False a obtain st1 where s1: "apply_option flag v_text st = (st1, None)"
      and p: "parse_arguments rest' st1 = (st', None)"
      by (auto split: prod.splits option.splits)
    have arg: "arg = flag_name flag" using a(1) by (simp add: flag_of_Some)
    show ?thesis
      unfolding arg a(2) using apply_option_step [OF s1] "2.IH" (2) [OF False a s1 [symmetric] refl p]
      by (blast intro: arguments_ok_option)
  qed
qed

text \<open>
  The shape of an accepted line: without its \<open>--help\<close> flags, which may be repeated, it is a sequence of
  options with their values, no option twice and no value that looks like an option.
\<close>

definition render_pairs :: "(cli_flag \<times> string) list \<Rightarrow> string list" where
  "render_pairs ps = concat (map (\<lambda>(f, v). [flag_name f, v]) ps)"

definition paired :: "string list \<Rightarrow> seen_flags \<Rightarrow> bool" where
  "paired args taken \<longleftrightarrow> (\<exists>ps. filter (\<lambda>a. a \<noteq> ''--help'') args = render_pairs ps \<and> distinct (map fst ps)
     \<and> (\<forall>(f, v) \<in> set ps. \<not> seen_of f taken \<and> take 2 v \<noteq> ''--''))"

lemma paired_cons:
  assumes "option_step flag st st1" "\<not> seen_of flag (snd st)" "take 2 v_text \<noteq> ''--''" "paired rest (snd st1)"
  shows "paired (flag_name flag # v_text # rest) (snd st)"
proof -
  from assms(4) obtain ps where ps: "filter (\<lambda>a. a \<noteq> ''--help'') rest = render_pairs ps" "distinct (map fst ps)"
    "\<forall>(f, v) \<in> set ps. \<not> seen_of f (snd st1) \<and> take 2 v \<noteq> ''--''"
    by (auto simp: paired_def)
  have taken: "seen_of f (snd st1) \<longleftrightarrow> seen_of f (snd st) \<or> f = flag" for f
    using assms(1) by (simp add: option_step_def)
  have "v_text \<noteq> ''--help''" using assms(3) by auto
  moreover have "flag \<notin> fst ` set ps" using ps(3) taken by auto
  ultimately show ?thesis
    using ps taken assms(2,3) flag_name_dashes(6) [of flag] unfolding paired_def
    by (intro exI [of _ "(flag, v_text) # ps"]) (auto simp: render_pairs_def simp del: flag_name.simps)
qed

lemma parse_arguments_paired: "parse_arguments args st = (st', None) \<Longrightarrow> paired args (snd st)"
proof (induction args st rule: parse_arguments.induct)
  case (1 st)
  then show ?case by (auto simp: paired_def render_pairs_def intro!: exI [of _ "[]"])
next
  case (2 arg rest st)
  show ?case
  proof (cases "arg = ''--help''")
    case True
    with 2 show ?thesis by (auto simp: paired_def)
  next
    case False
    with "2.prems" obtain flag v_text rest' where a: "flag_of arg = Some flag" "rest = v_text # rest'"
      by (auto split: option.splits list.splits)
    from "2.prems" False a obtain st1 where s1: "apply_option flag v_text st = (st1, None)"
      and p: "parse_arguments rest' st1 = (st', None)"
      by (auto split: prod.splits option.splits)
    have arg: "arg = flag_name flag" using a(1) by (simp add: flag_of_Some)
    show ?thesis
      unfolding arg a(2) using apply_option_step [OF s1] "2.IH" (2) [OF False a s1 [symmetric] refl p]
      by (blast intro: paired_cons)
  qed
qed

text \<open>
  Claim C16. An accepted command line is strict about its eight options with a value: without the
  \<open>--help\<close> flags, which the code accepts any number of times, it consists of known options each
  followed by its value, no option twice and no value that looks like an option; so each of the eight
  occurs at most once. Help is shown exactly when \<open>--help\<close> occurs. An option that
  does not occur keeps its default, the period is at least 1000 us and the timeouts and attempts are
  positive when the defaults were, a configuration path is given (not empty, not an option) unless
  help is asked for, and with clocks enabled the cycle fits 32 bits of nanoseconds.
\<close>
theorem parse_runtime_options_strict:
  assumes "parse_runtime_options args defaults = (opts, None)"
  shows "(\<exists>ps. filter (\<lambda>a. a \<noteq> ''--help'') args = render_pairs ps \<and> distinct (map fst ps)
       \<and> (\<forall>(f, v) \<in> set ps. take 2 v \<noteq> ''--''))
    \<and> (\<forall>f. count_list args (flag_name f) \<le> 1)
    \<and> (\<forall>f. f \<noteq> FlagConfig \<and> flag_name f \<notin> set args \<longrightarrow> same_option f defaults opts)
    \<and> (options_in_range defaults \<longrightarrow> options_in_range opts)
    \<and> (show_help opts \<longleftrightarrow> ''--help'' \<in> set args)
    \<and> (\<not> show_help opts \<longrightarrow> ''--config'' \<in> set args \<and> config_path opts \<noteq> [] \<and> take 2 (config_path opts) \<noteq> ''--'')
    \<and> (dc_enabled opts \<longrightarrow> unat (period_us opts) * 1000 < 2 ^ 32)"
proof -
  let ?d = "defaults\<lparr>config_path := [], show_help := False\<rparr>"
  obtain seen where p: "parse_arguments args (?d, seen_flags_init) = ((opts, seen), None)"
    and final: "show_help opts \<or> config_seen seen" "dc_enabled opts \<longrightarrow> \<not> (- 1) div 1000 < period_us opts"
    using assms by (auto simp: parse_runtime_options_def split: prod.splits option.splits if_splits)
  note ok = parse_arguments_ok [OF p, unfolded arguments_ok_def fst_conv snd_conv]
  have keep: "f \<noteq> FlagConfig \<Longrightarrow> same_option f ?d o' = same_option f defaults o'" for f o'
    by (cases f) auto
  have range: "options_in_range ?d = options_in_range defaults" by (simp add: options_in_range_def)
  have conf: "config_seen seen \<longleftrightarrow> ''--config'' \<in> set args"
    using conjunct1 [OF ok, THEN spec, of FlagConfig] by (simp add: seen_flags_init_def)
  have "unat (period_us opts) * 1000 < 2 ^ 32" if "dc_enabled opts"
    using final(2) that by (simp add: word_less_nat_alt not_less)
  moreover have "show_help opts \<longleftrightarrow> ''--help'' \<in> set args" using ok by simp
  moreover have "\<exists>ps. filter (\<lambda>a. a \<noteq> ''--help'') args = render_pairs ps \<and> distinct (map fst ps)
      \<and> (\<forall>(f, v) \<in> set ps. take 2 v \<noteq> ''--'')"
    using parse_arguments_paired [OF p] unfolding paired_def by fast
  moreover have "\<forall>f. f \<noteq> FlagConfig \<and> flag_name f \<notin> set args \<longrightarrow> same_option f defaults opts"
    using ok keep by blast
  moreover have "\<forall>f. count_list args (flag_name f) \<le> 1" using ok by blast
  moreover have "options_in_range defaults \<longrightarrow> options_in_range opts" using ok range by blast
  moreover have "config_path opts \<noteq> [] \<and> take 2 (config_path opts) \<noteq> ''--''" if "config_seen seen"
    using ok conf that by simp
  ultimately show ?thesis using final(1) conf by blast
qed

theorem parse_runtime_options_strict_witness:
  "period_us (fst (parse_runtime_options [''--help'', ''--config'', ''igh.yaml'', ''--help'', ''--cpu'', ''auto'']
      runtime_options_init)) = 1000
   \<and> show_help (fst (parse_runtime_options [''--help'', ''--config'', ''igh.yaml'', ''--help'', ''--cpu'', ''auto'']
      runtime_options_init))"
proof -
  let ?args = "[''--help'', ''--config'', ''igh.yaml'', ''--help'', ''--cpu'', ''auto'']"
  have "snd (parse_runtime_options ?args runtime_options_init) = None"
    by (simp add: parse_runtime_options_def apply_option_def apply_config_def flag_of_def seen_flags_init_def
        runtime_options_init_def)
  then have "parse_runtime_options ?args runtime_options_init
      = (fst (parse_runtime_options ?args runtime_options_init), None)" by (simp add: prod_eq_iff)
  from parse_runtime_options_strict [OF this] have
    asked: "show_help (fst (parse_runtime_options ?args runtime_options_init)) \<longleftrightarrow> ''--help'' \<in> set ?args" and
    keep: "\<forall>f. f \<noteq> FlagConfig \<and> flag_name f \<notin> set ?args
       \<longrightarrow> same_option f runtime_options_init (fst (parse_runtime_options ?args runtime_options_init))" by blast+
  from spec [OF keep, of FlagPeriodUs]
  have "same_option FlagPeriodUs runtime_options_init (fst (parse_runtime_options ?args runtime_options_init))"
    by simp
  then show ?thesis using asked by (simp add: runtime_options_init_def)
qed

section \<open>Every valid option record can be written as a command line\<close>

definition option_pairs :: "runtime_options \<Rightarrow> (cli_flag \<times> string) list" where
  "option_pairs o' =
     [(FlagConfig, config_path o'), (FlagMasterId, show_nat (unat (master_id o'))),
      (FlagPeriodUs, show_nat (unat (period_us o'))), (FlagDc, if dc_enabled o' then ''on'' else ''off''),
      (FlagPreopTimeout, show_nat (unat (preop_timeout_ms o'))),
      (FlagOpTimeout, show_nat (unat (op_timeout_ms o'))),
      (FlagCpu, case cpu o' of None \<Rightarrow> ''auto'' | Some n \<Rightarrow> show_nat (unat n)),
      (FlagPdoAttempts, show_nat (unat (pdo_config_attempts o')))]"

definition render_options :: "runtime_options \<Rightarrow> string list" where
  "render_options o' = render_pairs (option_pairs o') @ (if show_help o' then [''--help''] else [])"

lemma parse_show_u32: "parse_unsigned (show_nat (unat (x :: u32))) = Some (ucast x)"
proof -
  have "unat x < 2 ^ 64" using unat_lt_2p_32 [of x] by simp
  from parse_show_nat [OF this] show ?thesis by simp
qed

lemma u32_fits [simp]: "\<not> U32_MAX < ucast (x :: u32)" "(ucast (ucast x :: u64) :: u32) = x"
proof -
  show "\<not> U32_MAX < ucast x"
    using unat_lt_2p_32 [of x] by (simp add: U32_MAX_def word_less_nat_alt unsigned_ucast_eq take_bit_nat_eq_self)
  show "(ucast (ucast x :: u64) :: u32) = x" by (rule bit_word_eqI) (auto simp: bit_unsigned_iff)
qed

lemma ucast_zero_iff [simp]: "(ucast (x :: u32) :: u64) = 0 \<longleftrightarrow> x = 0"
  by (metis u32_fits(2) unsigned_0)

lemma show_nat_not_auto: "show_nat n \<noteq> ''auto''"
proof
  assume "show_nat n = ''auto''"
  with show_nat_digits [of n] have "list_all is_digit ''auto''" by simp
  then show False by (simp add: is_digit_def)
qed

lemma parse_arguments_pair:
  assumes "snd (apply_option f v st) = None"
  shows "parse_arguments (render_pairs ((f, v) # ps) @ rest) st
    = parse_arguments (render_pairs ps @ rest) (fst (apply_option f v st))"
  using assms flag_name_dashes(6) [of f] by (cases "apply_option f v st") (simp add: render_pairs_def)

lemma apply_option_number:
  assumes "f \<notin> {FlagConfig, FlagDc, FlagCpu}"
  shows "apply_option f (show_nat (unat (x :: u32))) st = apply_number f (ucast x) st"
  using assms by (simp add: apply_option_def parse_show_u32)

lemma apply_option_config:
  "\<not> config_seen s \<Longrightarrow> v \<noteq> [] \<Longrightarrow> take 2 v \<noteq> ''--'' \<Longrightarrow>
     apply_option FlagConfig v (o1, s) = ((o1\<lparr>config_path := v\<rparr>, s\<lparr>config_seen := True\<rparr>), None)"
  by (simp add: apply_option_def apply_config_def)

lemma apply_option_dc:
  "\<not> dc_seen s \<Longrightarrow> apply_option FlagDc (if b then ''on'' else ''off'') (o1, s)
      = ((o1\<lparr>dc_enabled := b\<rparr>, s\<lparr>dc_seen := True\<rparr>), None)"
  by (simp add: apply_option_def apply_dc_def)

lemma apply_option_cpu:
  "\<not> cpu_seen s \<Longrightarrow> apply_option FlagCpu (case c of None \<Rightarrow> ''auto'' | Some n \<Rightarrow> show_nat (unat n)) (o1, s)
      = ((o1\<lparr>cpu := c\<rparr>, s\<lparr>cpu_seen := True\<rparr>), None)"
  by (cases c) (simp_all add: apply_option_def show_nat_not_auto parse_show_u32 apply_number_def)

text \<open>
  Claim C17. The command line loses nothing: every option record in range (with a configuration path,
  and a cycle that fits when clocks are enabled) has a command line that parses back to exactly that
  record, whatever the defaults are.
\<close>
theorem parse_render_options:
  assumes "options_in_range opts" "config_path opts \<noteq> []" "take 2 (config_path opts) \<noteq> ''--''"
    and "dc_enabled opts \<longrightarrow> unat (period_us opts) * 1000 < 2 ^ 32"
  shows "parse_runtime_options (render_options opts) defaults = (opts, None)"
proof -
  obtain m p c path pre op n d h where o': "opts = \<lparr>master_id = m, period_us = p, cpu = c, config_path = path,
     preop_timeout_ms = pre, op_timeout_ms = op, pdo_config_attempts = n, dc_enabled = d, show_help = h\<rparr>"
    by (cases opts)
  have pos: "pre \<noteq> 0" "op \<noteq> 0" "n \<noteq> 0" and p: "\<not> (ucast p :: u64) < ucast kMinPeriodUs"
    using assms(1) by (auto simp: o' options_in_range_def kMinPeriodUs_def word_less_nat_alt
        unsigned_ucast_eq take_bit_nat_eq_self unat_lt_2p_32 less_trans [OF unat_lt_2p_32])
  have dc: "d \<Longrightarrow> \<not> (- 1) div 1000 < p"
    using assms(4) by (simp add: o' word_less_nat_alt not_less)
  have path: "path \<noteq> []" "take 2 path \<noteq> ''--''" using assms(2,3) by (simp_all add: o')
  let ?d = "defaults\<lparr>config_path := [], show_help := False\<rparr>" and ?h = "if h then [''--help''] else []"
  have "parse_arguments (render_options opts) (?d, seen_flags_init)
      = parse_arguments ?h (opts\<lparr>show_help := False\<rparr>, \<lparr>config_seen = True, cpu_seen = True, master_id_seen = True,
          period_us_seen = True, dc_seen = True, preop_timeout_seen = True, op_timeout_seen = True, pdo_attempts_seen = True\<rparr>)"
    unfolding render_options_def option_pairs_def o'
    using pos p path
    by (simp add: parse_arguments_pair apply_option_config apply_option_dc apply_option_number apply_option_cpu
        apply_number_def seen_flags_init_def) (simp add: render_pairs_def)
  then show ?thesis
    using dc by (cases h) (auto simp: parse_runtime_options_def o')
qed

theorem parse_render_options_witness:
  "parse_runtime_options (render_options (runtime_options_init\<lparr>config_path := ''igh.yaml'', cpu := Some 3\<rparr>))
     (runtime_options_init\<lparr>period_us := 2000\<rparr>)
   = (runtime_options_init\<lparr>config_path := ''igh.yaml'', cpu := Some 3\<rparr>, None)"
  by (rule parse_render_options) (simp_all add: options_in_range_def runtime_options_init_def)

end
