(* ===== verification/Pdo_Verification.thy ===== *)
theory Pdo_Verification
  imports Loaded_Config
begin

text \<open>
  \<open>PdoVerification\<close> of src/src/pdo_verification.hpp and src/src/pdo_verification.cpp: the check list
  built from the sync tables (\<open>prepare\<close>), the failure record (\<open>fail\<close>, \<open>abort\<close>) and the
  asynchronous verification run from the cyclic loop (\<open>step\<close>, \<open>compare\<close>). The request functions
  of the EtherCAT library (\<open>ecrt_slave_config_create_sdo_request\<close>, \<open>ecrt_sdo_request_*\<close>) are the
  fields of the parameter \<open>request_api\<close>, functions of the world they act on; a request handle and a
  slave configuration handle are values of the parameter types.
\<close>

section \<open>State\<close>

datatype verify_result = Pending | Complete | Failed

datatype verify_failure =
    NoFailure | NotPrepared | SetIndex | StartRead | Read | Size | Value
  | RequestTimeout | StartupTimeout | BusUnhealthy | Write | PreopState | PreopTimeout | Clock

datatype check_field = AssignmentCount | Assignment | MappingCount | MappingEntry | InitCommand

record check =
  ck_slave_position :: u16
  ck_sync_index :: u8
  ck_index :: u16
  ck_subindex :: u8
  ck_size :: u8
  ck_expected :: u32
  ck_field :: check_field
  ck_slave_index :: nat

record verify_error =
  ve_failure :: verify_failure
  ve_check :: check
  ve_actual :: u32
  ve_actual_size :: nat
  ve_api_error :: int
  ve_abort_code :: u32

record init_write =
  iw_position :: u16
  iw_command :: init_command_config

record 'q pdo_verification =
  init_writes :: "init_write list"
  checks :: "check list"
  requests :: "'q list"
  cursor :: nat
  request_deadline_ns :: int
  started :: bool
  prepared :: bool
  busy :: bool
  vresult :: verify_result
  verror :: verify_error

definition kRequestTimeoutMs :: u32 where
  "kRequestTimeoutMs = 1000"

text \<open>\<open>Check{}\<close>: the first field constant is zero.\<close>

definition check_init :: check where
  "check_init = \<lparr>ck_slave_position = 0, ck_sync_index = 0, ck_index = 0, ck_subindex = 0, ck_size = 0,
     ck_expected = 0, ck_field = AssignmentCount, ck_slave_index = 0\<rparr>"

definition error_init :: verify_error where
  "error_init = \<lparr>ve_failure = NoFailure, ve_check = check_init, ve_actual = 0, ve_actual_size = 0,
     ve_api_error = 0, ve_abort_code = 0\<rparr>"

definition verification_init :: "'q pdo_verification" where
  "verification_init = \<lparr>init_writes = [], checks = [], requests = [], cursor = 0, request_deadline_ns = 0,
     started = False, prepared = False, busy = False, vresult = Pending, verror = error_init\<rparr>"

definition verification_reset :: "'q pdo_verification \<Rightarrow> 'q pdo_verification" where
  "verification_reset s = s\<lparr>init_writes := [], checks := [], requests := [], cursor := 0,
     request_deadline_ns := 0, started := False, prepared := False, busy := False,
     vresult := Pending, verror := error_init\<rparr>"

lemma verification_reset_init [simp]: "verification_reset s = verification_init"
  by (cases s) (simp add: verification_reset_def verification_init_def)

section \<open>Failures\<close>

definition fail :: "verify_failure \<Rightarrow> int \<Rightarrow> u32 \<Rightarrow> nat \<Rightarrow> 'q pdo_verification \<Rightarrow> 'q pdo_verification" where
  "fail failure api_error actual actual_size s =
     (if vresult s = Failed then s
      else s\<lparr>verror := error_init\<lparr>ve_failure := failure,
               ve_check := (if checks s \<noteq> []
                 then checks s ! (if cursor s < length (checks s) then cursor s else length (checks s) - 1)
                 else check_init),
               ve_actual := actual, ve_actual_size := actual_size, ve_api_error := api_error\<rparr>,
             vresult := Failed\<rparr>)"

definition verification_abort :: "verify_failure \<Rightarrow> 'q pdo_verification \<Rightarrow> 'q pdo_verification" where
  "verification_abort failure s = fail failure 0 0 0 s"

lemma fail_simps [simp]:
  "init_writes (fail f a v n s) = init_writes s" "checks (fail f a v n s) = checks s"
  "requests (fail f a v n s) = requests s" "cursor (fail f a v n s) = cursor s"
  "started (fail f a v n s) = started s" "prepared (fail f a v n s) = prepared s"
  "busy (fail f a v n s) = busy s" "vresult (fail f a v n s) = Failed"
  "request_deadline_ns (fail f a v n s) = request_deadline_ns s"
  by (simp_all add: fail_def)

lemma fail_keeps_first: "vresult s = Failed \<Longrightarrow> fail f a v n s = s"
  by (simp add: fail_def)

section \<open>The request interface\<close>

datatype ec_request_state = EC_REQUEST_UNUSED | EC_REQUEST_BUSY | EC_REQUEST_SUCCESS | EC_REQUEST_ERROR

record ('c, 'q, 'w) request_api =
  create_sdo_request :: "'c \<Rightarrow> u16 \<Rightarrow> u8 \<Rightarrow> nat \<Rightarrow> 'w \<Rightarrow> 'q option \<times> 'w"
  sdo_request_timeout :: "'q \<Rightarrow> u32 \<Rightarrow> 'w \<Rightarrow> int \<times> 'w"
  sdo_request_index :: "'q \<Rightarrow> u16 \<Rightarrow> u8 \<Rightarrow> 'w \<Rightarrow> int \<times> 'w"
  sdo_request_read :: "'q \<Rightarrow> 'w \<Rightarrow> int \<times> 'w"
  sdo_request_state :: "'q \<Rightarrow> 'w \<Rightarrow> ec_request_state \<times> 'w"
  sdo_request_data_size :: "'q \<Rightarrow> 'w \<Rightarrow> nat \<times> 'w"
  sdo_request_data :: "'q \<Rightarrow> 'w \<Rightarrow> u8 list option \<times> 'w"

section \<open>Preparing the checks\<close>

datatype prepare_error =
    RequiresAllSlaves
  | MissingSlaveConfiguration u16
  | MissingInitCommands u16
  | InvalidInitSize u16
  | InvalidSyncManager u16
  | AssignmentExceedsSubindex u16
  | InvalidMappingEntries u16
  | RequiresSm2AndSm3 u16
  | FailedToPrepareRequest u16
  | NoChecks

definition mk_check :: "nat \<Rightarrow> slave_spec \<Rightarrow> u8 \<Rightarrow> u16 \<Rightarrow> u8 \<Rightarrow> u8 \<Rightarrow> u32 \<Rightarrow> check_field \<Rightarrow> check" where
  "mk_check s slave sm index sub size' val field =
     \<lparr>ck_slave_position = sp_position slave, ck_sync_index = sm, ck_index = index, ck_subindex = sub,
      ck_size = size', ck_expected = val, ck_field = field, ck_slave_index = s\<rparr>"

definition mapping_value :: "ec_pdo_entry_info \<Rightarrow> u32" where
  "mapping_value entry =
     or (or (push_bit 16 (ucast (ei_index entry))) (push_bit 8 (ucast (ei_subindex entry)))) (ucast (ei_bit_length entry))"

text \<open>The entries of one PDO from index \<open>e\<close>.\<close>

fun prepare_entries :: "nat \<Rightarrow> slave_spec \<Rightarrow> ec_sync_info \<Rightarrow> ec_pdo_info \<Rightarrow> nat \<Rightarrow> ec_pdo_entry_info list
    \<Rightarrow> check list \<Rightarrow> check list" where
  "prepare_entries s slave sm pdo e [] cs = cs"
| "prepare_entries s slave sm pdo e (entry # rest) cs =
     prepare_entries s slave sm pdo (Suc e) rest
       (cs @ [mk_check s slave (sy_index sm) (pi_index pdo) (of_nat (Suc e)) 4 (mapping_value entry) MappingEntry])"

text \<open>The PDOs of one sync manager from index \<open>p\<close>; the flag is false when the loop returned.\<close>

fun prepare_pdos :: "nat \<Rightarrow> slave_spec \<Rightarrow> ec_sync_info \<Rightarrow> nat \<Rightarrow> ec_pdo_info list
    \<Rightarrow> check list \<Rightarrow> check list \<times> prepare_error option" where
  "prepare_pdos s slave sm p [] cs = (cs, None)"
| "prepare_pdos s slave sm p (pdo # rest) cs =
     (let assignment = 0x1c10 + ucast (sy_index sm);
          cs = cs @ [mk_check s slave (sy_index sm) assignment (of_nat (Suc p)) 2 (ucast (pi_index pdo)) Assignment]
      in if 255 < pi_n_entries pdo \<or> (pi_n_entries pdo \<noteq> 0 \<and> pi_entries pdo = None)
         then (cs, Some (InvalidMappingEntries (sp_position slave)))
         else
           let cs = cs @ [mk_check s slave (sy_index sm) (pi_index pdo) 0 1 (of_nat (pi_n_entries pdo)) MappingCount];
               cs = prepare_entries s slave sm pdo 0 (array (pi_entries pdo) (pi_n_entries pdo)) cs
           in prepare_pdos s slave sm (Suc p) rest cs)"

fun prepare_syncs :: "nat \<Rightarrow> slave_spec \<Rightarrow> ec_sync_info list \<Rightarrow> u32 \<Rightarrow> check list
    \<Rightarrow> check list \<times> (prepare_error + u32)" where
  "prepare_syncs s slave [] sync_mask cs = (cs, Inr sync_mask)"
| "prepare_syncs s slave (sm # rest) sync_mask cs =
     (if sy_index sm = 0xff then (cs, Inr sync_mask)
      else if sy_index sm \<noteq> 2 \<and> sy_index sm \<noteq> 3 then prepare_syncs s slave rest sync_mask cs
      else if and sync_mask (push_bit (unat (sy_index sm)) 1) \<noteq> 0 \<or> (sy_n_pdos sm \<noteq> 0 \<and> sy_pdos sm = None)
      then (cs, Inl (InvalidSyncManager (sp_position slave)))
      else
        let sync_mask = or sync_mask (push_bit (unat (sy_index sm)) 1) in
        if 255 < sy_n_pdos sm then (cs, Inl (AssignmentExceedsSubindex (sp_position slave)))
        else
          let assignment = 0x1c10 + ucast (sy_index sm);
              cs = cs @ [mk_check s slave (sy_index sm) assignment 0 1 (of_nat (sy_n_pdos sm)) AssignmentCount]
          in case prepare_pdos s slave sm 0 (array (sy_pdos sm) (sy_n_pdos sm)) cs of
               (cs, Some err) \<Rightarrow> (cs, Inl err)
             | (cs, None) \<Rightarrow> prepare_syncs s slave rest sync_mask cs)"

fun prepare_init_writes :: "u16 \<Rightarrow> init_command_config list \<Rightarrow> init_write list
    \<Rightarrow> init_write list \<times> prepare_error option" where
  "prepare_init_writes position [] ws = (ws, None)"
| "prepare_init_writes position (command # rest) ws =
     (if \<not> valid_init_size (ic_size command) then (ws, Some (InvalidInitSize position))
      else prepare_init_writes position rest (ws @ [\<lparr>iw_position = position, iw_command = command\<rparr>]))"

text \<open>One iteration of the loop over the slaves.\<close>

definition prepare_slave :: "('c, 'q, 'w) request_api \<Rightarrow> nat \<Rightarrow> slave_spec \<Rightarrow> 'c option
    \<Rightarrow> 'q pdo_verification \<Rightarrow> 'w \<Rightarrow> 'q pdo_verification \<times> 'w \<times> prepare_error option" where
  "prepare_slave I s slave handle st w =
     (case (sp_syncs slave, handle) of
        (Some syncs, Some sc) \<Rightarrow>
          if sp_init_command_count slave \<noteq> 0 \<and> sp_init_commands slave = None
          then (st, w, Some (MissingInitCommands (sp_position slave)))
          else (case prepare_init_writes (sp_position slave) (spec_init_commands slave) (init_writes st) of
            (ws, Some err) \<Rightarrow> (st\<lparr>init_writes := ws\<rparr>, w, Some err)
          | (ws, None) \<Rightarrow>
              let st = st\<lparr>init_writes := ws\<rparr> in
              (case prepare_syncs s slave syncs 0 (checks st) of
                 (cs, Inl err) \<Rightarrow> (st\<lparr>checks := cs\<rparr>, w, Some err)
               | (cs, Inr sync_mask) \<Rightarrow>
                   let st = st\<lparr>checks := cs\<rparr> in
                   if sync_mask \<noteq> or (push_bit 2 1) (push_bit 3 1)
                   then (st, w, Some (RequiresSm2AndSm3 (sp_position slave)))
                   else case create_sdo_request I sc 0x1c12 0 4 w of
                     (None, w) \<Rightarrow> (st, w, Some (FailedToPrepareRequest (sp_position slave)))
                   | (Some request, w) \<Rightarrow>
                       (case sdo_request_timeout I request kRequestTimeoutMs w of
                          (rc, w) \<Rightarrow>
                            if rc \<noteq> 0 then (st, w, Some (FailedToPrepareRequest (sp_position slave)))
                            else (st\<lparr>requests := requests st @ [request]\<rparr>, w, None))))
      | _ \<Rightarrow> (st, w, Some (MissingSlaveConfiguration (sp_position slave))))"

fun prepare_slaves :: "('c, 'q, 'w) request_api \<Rightarrow> nat \<Rightarrow> (slave_spec \<times> 'c option) list
    \<Rightarrow> 'q pdo_verification \<Rightarrow> 'w \<Rightarrow> 'q pdo_verification \<times> 'w \<times> prepare_error option" where
  "prepare_slaves I s [] st w = (st, w, None)"
| "prepare_slaves I s ((slave, handle) # rest) st w =
     (case prepare_slave I s slave handle st w of
        (st, w, Some err) \<Rightarrow> (st, w, Some err)
      | (st, w, None) \<Rightarrow> prepare_slaves I (Suc s) rest st w)"

definition prepare :: "('c, 'q, 'w) request_api \<Rightarrow> static_slave_config \<Rightarrow> 'c option list
    \<Rightarrow> 'q pdo_verification \<Rightarrow> 'w \<Rightarrow> 'q pdo_verification \<times> 'w \<times> prepare_error option" where
  "prepare I config handles st w =
     (let st = verification_reset st in
      if ssc_slaves config = None \<or> ssc_slave_count config = 0 \<or> length handles \<noteq> ssc_slave_count config
      then (st, w, Some RequiresAllSlaves)
      else case prepare_slaves I 0 (zip (config_slaves config) handles) st w of
        (st, w, Some err) \<Rightarrow> (st, w, Some err)
      | (st, w, None) \<Rightarrow>
          if checks st = [] then (st, w, Some NoChecks)
          else (st\<lparr>prepared := True\<rparr>, w, None))"

text \<open>
  The check list as a function of the tables: per sync manager 2 or 3 the number of assigned PDOs,
  then per PDO its assignment, its number of entries and every entry.
\<close>

definition pdo_checks :: "nat \<Rightarrow> slave_spec \<Rightarrow> ec_sync_info \<Rightarrow> nat \<Rightarrow> ec_pdo_info \<Rightarrow> check list" where
  "pdo_checks s slave sm p pdo =
     mk_check s slave (sy_index sm) (0x1c10 + ucast (sy_index sm)) (of_nat (Suc p)) 2 (ucast (pi_index pdo)) Assignment
     # mk_check s slave (sy_index sm) (pi_index pdo) 0 1 (of_nat (pi_n_entries pdo)) MappingCount
     # map (\<lambda>(e, entry). mk_check s slave (sy_index sm) (pi_index pdo) (of_nat (Suc e)) 4 (mapping_value entry) MappingEntry)
         (enumerate 0 (array (pi_entries pdo) (pi_n_entries pdo)))"

definition sync_checks :: "nat \<Rightarrow> slave_spec \<Rightarrow> ec_sync_info \<Rightarrow> check list" where
  "sync_checks s slave sm =
     mk_check s slave (sy_index sm) (0x1c10 + ucast (sy_index sm)) 0 1 (of_nat (sy_n_pdos sm)) AssignmentCount
     # concat (map (\<lambda>(p, pdo). pdo_checks s slave sm p pdo) (enumerate 0 (array (sy_pdos sm) (sy_n_pdos sm))))"

definition process_syncs :: "slave_spec \<Rightarrow> ec_sync_info list" where
  "process_syncs slave = filter (\<lambda>sm. sy_index sm = 2 \<or> sy_index sm = 3)
     (takeWhile (\<lambda>sm. sy_index sm \<noteq> 0xff) (case sp_syncs slave of None \<Rightarrow> [] | Some syncs \<Rightarrow> syncs))"

definition slave_checks :: "nat \<Rightarrow> slave_spec \<Rightarrow> check list" where
  "slave_checks s slave = concat (map (sync_checks s slave) (process_syncs slave))"

lemma prepare_entries_eq:
  "prepare_entries s slave sm pdo e es cs = cs
     @ map (\<lambda>(e, entry). mk_check s slave (sy_index sm) (pi_index pdo) (of_nat (Suc e)) 4 (mapping_value entry) MappingEntry)
         (enumerate e es)"
  by (induction es arbitrary: e cs) auto

definition pdo_fits :: "ec_pdo_info \<Rightarrow> bool" where
  "pdo_fits pdo \<longleftrightarrow> pi_n_entries pdo \<le> 255 \<and> (pi_n_entries pdo \<noteq> 0 \<longrightarrow> pi_entries pdo \<noteq> None)"

lemma prepare_pdos_ok:
  "snd (prepare_pdos s slave sm p pdos cs) = None \<longleftrightarrow> (\<forall>pdo \<in> set pdos. pdo_fits pdo)"
  "(\<forall>pdo \<in> set pdos. pdo_fits pdo) \<Longrightarrow> prepare_pdos s slave sm p pdos cs
     = (cs @ concat (map (\<lambda>(p, pdo). pdo_checks s slave sm p pdo) (enumerate p pdos)), None)"
  by (induction pdos arbitrary: p cs)
     (auto simp: Let_def prepare_entries_eq pdo_checks_def pdo_fits_def)

definition sync_fits :: "ec_sync_info \<Rightarrow> bool" where
  "sync_fits sm \<longleftrightarrow> sy_n_pdos sm \<le> 255 \<and> (sy_n_pdos sm \<noteq> 0 \<longrightarrow> sy_pdos sm \<noteq> None)
     \<and> (\<forall>pdo \<in> set (array (sy_pdos sm) (sy_n_pdos sm)). pdo_fits pdo)"

definition process_only :: "ec_sync_info list \<Rightarrow> ec_sync_info list" where
  "process_only syncs = filter (\<lambda>sm. sy_index sm = 2 \<or> sy_index sm = 3) (takeWhile (\<lambda>sm. sy_index sm \<noteq> 0xff) syncs)"

lemma mask_bit: "and (m :: u32) (push_bit n 1) \<noteq> 0 \<longleftrightarrow> bit m n"
  by (simp add: and_exp_eq_0_iff_not_bit push_bit_of_1)

lemma mask_or_bit: "n < 32 \<Longrightarrow> bit (or (m :: u32) (push_bit n 1)) k \<longleftrightarrow> bit m k \<or> k = n"
  by (auto simp: bit_or_iff push_bit_of_1 bit_exp_iff)

text \<open>What the loop over the sync table establishes, with \<open>m\<close> the sync managers seen before it.\<close>

definition syncs_prepared :: "nat \<Rightarrow> slave_spec \<Rightarrow> ec_sync_info list \<Rightarrow> u32 \<Rightarrow> check list \<Rightarrow> check list \<Rightarrow> u32 \<Rightarrow> bool" where
  "syncs_prepared s slave ps m cs cs' m' \<longleftrightarrow>
     cs' = cs @ concat (map (sync_checks s slave) ps)
     \<and> (\<forall>sm \<in> set ps. sync_fits sm)
     \<and> distinct (map (\<lambda>sm. unat (sy_index sm)) ps)
     \<and> (\<forall>sm \<in> set ps. \<not> bit m (unat (sy_index sm)))
     \<and> (\<forall>k. bit m' k \<longleftrightarrow> bit m k \<or> k \<in> (\<lambda>sm. unat (sy_index sm)) ` set ps)"

lemma syncs_prepared_Cons:
  assumes "syncs_prepared s slave ps (or m (push_bit (unat (sy_index sm)) 1)) (cs @ sync_checks s slave sm) cs' m'"
    and "sync_fits sm" "\<not> bit m (unat (sy_index sm))" "unat (sy_index sm) < 32"
  shows "syncs_prepared s slave (sm # ps) m cs cs' m'"
proof -
  define idx where "idx sm = unat (sy_index sm)" for sm :: ec_sync_info
  note hyps = assms [folded idx_def]
  have bits: "bit (or m (push_bit (idx sm) 1)) k \<longleftrightarrow> bit m k \<or> k = idx sm" for k
    using hyps(4) by (rule mask_or_bit)
  have *: "cs' = (cs @ sync_checks s slave sm) @ concat (map (sync_checks s slave) ps)" "\<forall>sm \<in> set ps. sync_fits sm"
    "distinct (map idx ps)" "\<forall>x \<in> set ps. \<not> (bit m (idx x) \<or> idx x = idx sm)"
    "\<forall>k. bit m' k \<longleftrightarrow> (bit m k \<or> k = idx sm) \<or> k \<in> idx ` set ps"
    using hyps(1) unfolding syncs_prepared_def idx_def [symmetric] bits by blast+
  have "idx sm \<notin> idx ` set ps" using *(4) by auto
  then have "distinct (map idx (sm # ps))" using *(3) by simp
  moreover have "\<forall>x \<in> set (sm # ps). \<not> bit m (idx x)" using *(4) hyps(3) by auto
  moreover have "\<forall>k. bit m' k \<longleftrightarrow> bit m k \<or> k \<in> idx ` set (sm # ps)" using *(5) by auto
  ultimately show ?thesis
    unfolding syncs_prepared_def idx_def [symmetric] using *(1,2) hyps(2) by simp
qed

lemma prepare_syncs_step:
  assumes "sy_index sm = 2 \<or> sy_index sm = 3"
    and "prepare_syncs s slave (sm # rest) m cs = (cs', Inr m')"
  shows "sync_fits sm" "\<not> bit m (unat (sy_index sm))"
    and "prepare_syncs s slave rest (or m (push_bit (unat (sy_index sm)) 1)) (cs @ sync_checks s slave sm) = (cs', Inr m')"
proof -
  let ?pdos = "array (sy_pdos sm) (sy_n_pdos sm)" and ?m = "or m (push_bit (unat (sy_index sm)) 1)"
  let ?cs = "cs @ [mk_check s slave (sy_index sm) (0x1c10 + ucast (sy_index sm)) 0 1 (of_nat (sy_n_pdos sm)) AssignmentCount]"
  have idx: "sy_index sm \<noteq> 0xff" "\<not> (sy_index sm \<noteq> 2 \<and> sy_index sm \<noteq> 3)" using assms(1) by auto
  define blocked where "blocked \<longleftrightarrow> and m (push_bit (unat (sy_index sm)) 1) \<noteq> 0 \<or> (sy_n_pdos sm \<noteq> 0 \<and> sy_pdos sm = None)"
  have eq: "prepare_syncs s slave (sm # rest) m cs =
     (if blocked then (cs, Inl (InvalidSyncManager (sp_position slave)))
      else if 255 < sy_n_pdos sm then (cs, Inl (AssignmentExceedsSubindex (sp_position slave)))
      else case prepare_pdos s slave sm 0 ?pdos ?cs of
               (cs, Some err) \<Rightarrow> (cs, Inl err)
             | (cs, None) \<Rightarrow> prepare_syncs s slave rest ?m cs)"
    unfolding prepare_syncs.simps(2) if_not_P [OF idx(1)] if_not_P [OF idx(2)] Let_def blocked_def by (rule refl)
  obtain cs2 r where pd: "prepare_pdos s slave sm 0 ?pdos ?cs = (cs2, r)" by fastforce
  from assms(2) have nb: "\<not> blocked" "\<not> 255 < sy_n_pdos sm" "r = None"
    unfolding eq pd by (auto split: if_splits option.splits)
  have fits: "\<forall>pdo \<in> set ?pdos. pdo_fits pdo"
    using prepare_pdos_ok(1) [of s slave sm 0 ?pdos ?cs] nb(3) pd by simp
  have cs2: "cs2 = cs @ sync_checks s slave sm"
    using prepare_pdos_ok(2) [OF fits, of s slave sm 0 ?cs] pd by (simp add: sync_checks_def)
  show "sync_fits sm" using nb fits by (auto simp: sync_fits_def blocked_def)
  show "\<not> bit m (unat (sy_index sm))" using nb(1) mask_bit [of m "unat (sy_index sm)"] by (auto simp: blocked_def)
  show "prepare_syncs s slave rest ?m (cs @ sync_checks s slave sm) = (cs', Inr m')"
    using assms(2) nb unfolding eq pd cs2 by simp
qed

lemma prepare_syncs_ok:
  "prepare_syncs s slave syncs m cs = (cs', Inr m') \<Longrightarrow> syncs_prepared s slave (process_only syncs) m cs cs' m'"
proof (induction syncs arbitrary: m cs)
  case Nil
  then show ?case by (simp add: process_only_def syncs_prepared_def)
next
  case (Cons sm rest)
  consider "sy_index sm = 0xff" | "sy_index sm \<noteq> 0xff" "\<not> (sy_index sm = 2 \<or> sy_index sm = 3)"
    | "sy_index sm = 2 \<or> sy_index sm = 3" by blast
  then show ?case
  proof cases
    case 1
    with Cons.prems show ?thesis by (simp add: process_only_def syncs_prepared_def)
  next
    case 2
    with Cons show ?thesis by (simp add: process_only_def)
  next
    case 3
    then have "process_only (sm # rest) = sm # process_only rest" "unat (sy_index sm) < 32"
      by (auto simp: process_only_def)
    then show ?thesis
      using prepare_syncs_step [OF 3 Cons.prems] Cons.IH syncs_prepared_Cons by metis
  qed
qed

lemma prepare_init_writes_ok:
  "prepare_init_writes pos cmds ws = (ws', None) \<Longrightarrow>
     ws' = ws @ map (\<lambda>c. \<lparr>iw_position = pos, iw_command = c\<rparr>) cmds \<and> (\<forall>c \<in> set cmds. valid_init_size (ic_size c))"
proof (induction cmds arbitrary: ws)
  case Nil
  then show ?case by simp
next
  case (Cons c cmds)
  from Cons.prems have "valid_init_size (ic_size c)"
    "prepare_init_writes pos cmds (ws @ [\<lparr>iw_position = pos, iw_command = c\<rparr>]) = (ws', None)"
    by (simp_all split: if_splits)
  with Cons.IH show ?case by fastforce
qed

definition slave_init_writes :: "slave_spec \<Rightarrow> init_write list" where
  "slave_init_writes slave = map (\<lambda>c. \<lparr>iw_position = sp_position slave, iw_command = c\<rparr>) (spec_init_commands slave)"

text \<open>A slave whose tables can be checked: one SM2, one SM3, at most 255 PDOs and entries each.\<close>

definition checkable :: "slave_spec \<Rightarrow> bool" where
  "checkable slave \<longleftrightarrow> sp_syncs slave \<noteq> None \<and> (\<forall>sm \<in> set (process_syncs slave). sync_fits sm)
     \<and> distinct (map sy_index (process_syncs slave)) \<and> sy_index ` set (process_syncs slave) = {2, 3}"

lemma prepare_slave_ok:
  assumes "prepare_slave I s slave handle st w = (st', w', None)"
  shows "\<exists>request. checkable slave \<and> (\<forall>c \<in> set (spec_init_commands slave). valid_init_size (ic_size c))
    \<and> st' = st\<lparr>init_writes := init_writes st @ slave_init_writes slave,
        checks := checks st @ slave_checks s slave, requests := requests st @ [request]\<rparr>"
proof -
  from assms obtain syncs sc where tables: "sp_syncs slave = Some syncs" "handle = Some sc"
    by (auto simp: prepare_slave_def split: option.splits)
  obtain ws r where iw: "prepare_init_writes (sp_position slave) (spec_init_commands slave) (init_writes st) = (ws, r)"
    by fastforce
  obtain cs r2 where sy: "prepare_syncs s slave syncs 0 (checks st) = (cs, r2)" by fastforce
  from assms tables iw have r: "r = None" by (auto simp: prepare_slave_def split: if_splits option.splits)
  from assms tables iw r sy obtain m where r2: "r2 = Inr m"
    by (cases r2) (auto simp: prepare_slave_def Let_def split: if_splits)
  from assms tables iw r sy r2 obtain request where
    m: "m = or (push_bit 2 1) (push_bit 3 1)"
    and st': "st' = st\<lparr>init_writes := ws, checks := cs, requests := requests st @ [request]\<rparr>"
    by (auto simp: prepare_slave_def Let_def split: if_splits option.splits prod.splits)
  have ps: "process_only syncs = process_syncs slave" by (simp add: process_only_def process_syncs_def tables)
  from prepare_syncs_ok [OF sy [unfolded r2], unfolded syncs_prepared_def ps]
  have cs: "cs = checks st @ slave_checks s slave" "\<forall>sm \<in> set (process_syncs slave). sync_fits sm"
      "distinct (map (\<lambda>sm. unat (sy_index sm)) (process_syncs slave))"
      "\<forall>k. bit m k \<longleftrightarrow> k \<in> (\<lambda>sm. unat (sy_index sm)) ` set (process_syncs slave)"
    by (simp_all add: slave_checks_def)
  have "bit m k \<longleftrightarrow> k = 2 \<or> k = 3" for k
    using mask_or_bit [of 3 "push_bit 2 1" k] mask_or_bit [of 2 0 k] m by simp
  with cs(4) have idx: "(\<lambda>sm. unat (sy_index sm)) ` set (process_syncs slave) = {2, 3}" by auto
  have two_three: "sy_index sm = 2 \<or> sy_index sm = 3" if "sm \<in> set (process_syncs slave)" for sm
    using that by (auto simp: process_syncs_def)
  have "2 \<in> (\<lambda>sm. unat (sy_index sm)) ` set (process_syncs slave)"
      "3 \<in> (\<lambda>sm. unat (sy_index sm)) ` set (process_syncs slave)" using idx by auto
  then have "2 \<in> sy_index ` set (process_syncs slave)" "3 \<in> sy_index ` set (process_syncs slave)"
    using two_three by (force simp: image_iff)+
  then have "sy_index ` set (process_syncs slave) = {2, 3}" using two_three by auto
  moreover have "distinct (map sy_index (process_syncs slave))"
    using cs(3) by (auto simp: distinct_map inj_on_def)
  ultimately have "checkable slave" using cs(2) tables by (simp add: checkable_def)
  with prepare_init_writes_ok [OF iw [unfolded r]] cs(1) st' show ?thesis
    by (auto simp: slave_init_writes_def)
qed

definition all_checks :: "slave_spec list \<Rightarrow> check list" where
  "all_checks ss = concat (map (\<lambda>(s, slave). slave_checks s slave) (enumerate 0 ss))"

lemma prepare_slaves_ok:
  "prepare_slaves I s sh st w = (st', w', None) \<Longrightarrow>
     \<exists>qs. length qs = length sh
       \<and> (\<forall>slave \<in> fst ` set sh. checkable slave \<and> (\<forall>c \<in> set (spec_init_commands slave). valid_init_size (ic_size c)))
       \<and> st' = st\<lparr>init_writes := init_writes st @ concat (map slave_init_writes (map fst sh)),
           checks := checks st @ concat (map (\<lambda>(s, slave). slave_checks s slave) (enumerate s (map fst sh))),
           requests := requests st @ qs\<rparr>"
proof (induction I s sh st w rule: prepare_slaves.induct)
  case (1 I s st w)
  then show ?case by simp
next
  case (2 I s slave handle rest st w)
  from "2.prems" obtain st1 w1 where one: "prepare_slave I s slave handle st w = (st1, w1, None)"
    and two: "prepare_slaves I (Suc s) rest st1 w1 = (st', w', None)"
    by (auto split: prod.splits option.splits)
  from prepare_slave_ok [OF one] obtain q where q: "checkable slave"
    "\<forall>c \<in> set (spec_init_commands slave). valid_init_size (ic_size c)"
    "st1 = st\<lparr>init_writes := init_writes st @ slave_init_writes slave,
        checks := checks st @ slave_checks s slave, requests := requests st @ [q]\<rparr>" by auto
  from "2.IH" [OF one [symmetric] refl refl two] obtain qs where qs: "length qs = length rest"
    "\<forall>slave \<in> fst ` set rest. checkable slave \<and> (\<forall>c \<in> set (spec_init_commands slave). valid_init_size (ic_size c))"
    "st' = st1\<lparr>init_writes := init_writes st1 @ concat (map slave_init_writes (map fst rest)),
           checks := checks st1 @ concat (map (\<lambda>(s, slave). slave_checks s slave) (enumerate (Suc s) (map fst rest))),
           requests := requests st1 @ qs\<rparr>" by auto
  show ?case
    by (rule exI [of _ "q # qs"]) (use q qs in simp)
qed

text \<open>What a successful preparation hands to the configuration and to the cyclic loop.\<close>

definition verification_ready :: "slave_spec list \<Rightarrow> 'q pdo_verification \<Rightarrow> bool" where
  "verification_ready ss st \<longleftrightarrow> prepared st \<and> vresult st = Pending \<and> cursor st = 0 \<and> \<not> started st
     \<and> \<not> busy st \<and> verror st = error_init \<and> ss \<noteq> []
     \<and> checks st = all_checks ss \<and> init_writes st = concat (map slave_init_writes ss)
     \<and> length (requests st) = length ss \<and> (\<forall>slave \<in> set ss. checkable slave)"

lemma prepare_ready:
  assumes "prepare I config handles st w = (st', w', None)" "length (config_slaves config) = ssc_slave_count config"
  shows "verification_ready (config_slaves config) st'"
proof -
  let ?sh = "zip (config_slaves config) handles"
  from assms(1) obtain st1 where p: "prepare_slaves I 0 ?sh verification_init w = (st1, w', None)"
    and st': "st' = st1\<lparr>prepared := True\<rparr>" and len: "length handles = ssc_slave_count config"
      "ssc_slave_count config \<noteq> 0"
    by (auto simp: prepare_def Let_def split: if_splits prod.splits option.splits)
  have fst: "map fst ?sh = config_slaves config" using len assms(2) by simp
  then have set: "fst ` set ?sh = set (config_slaves config)" by (metis list.set_map)
  have "config_slaves config \<noteq> []" using len(2) assms(2) by fastforce
  with prepare_slaves_ok [OF p] show ?thesis
    unfolding st' fst set using assms(2) len
    by (auto simp: verification_ready_def verification_init_def all_checks_def)
qed

text \<open>
  Claim C18. A successful \<open>prepare\<close> leaves the verification ready: pending, not started, at the
  first check, one request per slave; every slave has exactly one SM2 and one SM3 whose PDOs and
  entries fit SDO subindices; and the checks are, slave by slave, the complete assignment and mapping
  of both managers (counts, order and every entry), the initialization writes all commands in order.
\<close>
theorem prepare_correct:
  assumes "prepare I config handles st w = (st', w', None)" "length (config_slaves config) = ssc_slave_count config"
  shows "prepared st' \<and> vresult st' = Pending \<and> cursor st' = 0 \<and> \<not> started st' \<and> \<not> busy st'
    \<and> checks st' = concat (map (\<lambda>(s, slave). concat (map (sync_checks s slave) (process_syncs slave)))
          (enumerate 0 (config_slaves config)))
    \<and> init_writes st' = concat (map slave_init_writes (config_slaves config))
    \<and> length (requests st') = length (config_slaves config)
    \<and> (\<forall>slave \<in> set (config_slaves config). sp_syncs slave \<noteq> None \<and> (\<forall>sm \<in> set (process_syncs slave). sync_fits sm)
         \<and> distinct (map sy_index (process_syncs slave)) \<and> sy_index ` set (process_syncs slave) = {2, 3})"
proof -
  have "slave_checks = (\<lambda>s slave. concat (map (sync_checks s slave) (process_syncs slave)))"
    by (intro ext) (simp add: slave_checks_def)
  with prepare_ready [OF assms] show ?thesis
    by (simp add: verification_ready_def all_checks_def checkable_def)
qed

section \<open>Comparison and the cyclic step\<close>

definition compare :: "u8 list option \<Rightarrow> nat \<Rightarrow> 'q pdo_verification \<Rightarrow> bool \<times> 'q pdo_verification" where
  "compare dat size' s =
     (let c = checks s ! cursor s in
      if size' \<noteq> unat (ck_size c) then (False, fail Size 0 0 size' s)
      else case dat of
        None \<Rightarrow> (False, fail Read 0 0 0 s)
      | Some bytes \<Rightarrow>
          let val = le_decode (take size' bytes) in
          if val \<noteq> ck_expected c then (False, fail Value 0 val size' s) else (True, s))"

definition request_window_ns :: int where
  "request_window_ns = uint kRequestTimeoutMs * 1000000"

definition verify_step :: "('c, 'q, 'w) request_api \<Rightarrow> int \<Rightarrow> 'q pdo_verification \<Rightarrow> 'w
    \<Rightarrow> verify_result \<times> 'q pdo_verification \<times> 'w" where
  "verify_step I now_ns s w =
     (if vresult s \<noteq> Pending then (vresult s, s, w)
      else if \<not> prepared s then (let s = fail NotPrepared 0 0 0 s in (vresult s, s, w))
      else
        let s = s\<lparr>started := True\<rparr>; c = checks s ! cursor s; request = requests s ! ck_slave_index c in
        if \<not> busy s then
          (case sdo_request_index I request (ck_index c) (ck_subindex c) w of
             (index_rc, w) \<Rightarrow>
               if index_rc \<noteq> 0 then (let s = fail SetIndex index_rc 0 0 s in (vresult s, s, w))
               else (case sdo_request_read I request w of
                 (read_rc, w) \<Rightarrow>
                   if read_rc \<noteq> 0 then (let s = fail StartRead read_rc 0 0 s in (vresult s, s, w))
                   else (let s = s\<lparr>request_deadline_ns := now_ns + request_window_ns, busy := True\<rparr>
                         in (vresult s, s, w))))
        else if request_deadline_ns s \<le> now_ns then (let s = fail RequestTimeout 0 0 0 s in (vresult s, s, w))
        else (case sdo_request_state I request w of
          (state, w) \<Rightarrow>
            if state = EC_REQUEST_BUSY then (vresult s, s, w)
            else if state \<noteq> EC_REQUEST_SUCCESS then (let s = fail Read 0 0 0 s in (vresult s, s, w))
            else (case sdo_request_data_size I request w of
              (size', w) \<Rightarrow>
                let (dat, w) = (if size' = unat (ck_size c) then sdo_request_data I request w else (None, w));
                    (same, s) = compare dat size' s in
                if \<not> same then (vresult s, s, w)
                else
                  let s = s\<lparr>busy := False, cursor := Suc (cursor s)\<rparr>;
                      s = (if cursor s = length (checks s) then s\<lparr>vresult := Complete\<rparr> else s)
                  in (vresult s, s, w))))"

text \<open>The calls the cyclic loop makes: a step at a time, or an abort.\<close>

datatype verify_call = Step int | Abort verify_failure

fun verify_calls :: "('c, 'q, 'w) request_api \<Rightarrow> verify_call list \<Rightarrow> 'q pdo_verification \<Rightarrow> 'w
    \<Rightarrow> 'q pdo_verification \<times> 'w" where
  "verify_calls I [] s w = (s, w)"
| "verify_calls I (Step t # cs) s w =
     (case verify_step I t s w of (r, s', w') \<Rightarrow> verify_calls I cs s' w')"
| "verify_calls I (Abort f # cs) s w = verify_calls I cs (verification_abort f s) w"

section \<open>The log of the request functions\<close>

text \<open>
  Properties about what the loop exchanged are stated on the interface that records every call in
  its world; it is the same code, run on a world with a log.
\<close>

datatype 'q rq_event =
    RqIndex 'q u16 u8 int
  | RqRead 'q int
  | RqState 'q ec_request_state
  | RqSize 'q nat
  | RqData 'q "u8 list option"

definition log_requests :: "('q rq_event \<Rightarrow> 'e) \<Rightarrow> ('c, 'q, 'w) request_api \<Rightarrow> ('c, 'q, 'w \<times> 'e list) request_api" where
  "log_requests f I = \<lparr>
     create_sdo_request = (\<lambda>c i sub n (w, l). case create_sdo_request I c i sub n w of (r, w) \<Rightarrow> (r, (w, l))),
     sdo_request_timeout = (\<lambda>q ms (w, l). case sdo_request_timeout I q ms w of (r, w) \<Rightarrow> (r, (w, l))),
     sdo_request_index = (\<lambda>q i sub (w, l). case sdo_request_index I q i sub w of (r, w) \<Rightarrow> (r, (w, l @ [f (RqIndex q i sub r)]))),
     sdo_request_read = (\<lambda>q (w, l). case sdo_request_read I q w of (r, w) \<Rightarrow> (r, (w, l @ [f (RqRead q r)]))),
     sdo_request_state = (\<lambda>q (w, l). case sdo_request_state I q w of (r, w) \<Rightarrow> (r, (w, l @ [f (RqState q r)]))),
     sdo_request_data_size = (\<lambda>q (w, l). case sdo_request_data_size I q w of (r, w) \<Rightarrow> (r, (w, l @ [f (RqSize q r)]))),
     sdo_request_data = (\<lambda>q (w, l). case sdo_request_data I q w of (r, w) \<Rightarrow> (r, (w, l @ [f (RqData q r)])))\<rparr>"

abbreviation logged_requests :: "('c, 'q, 'w) request_api \<Rightarrow> ('c, 'q, 'w \<times> 'q rq_event list) request_api" where
  "logged_requests I \<equiv> log_requests (\<lambda>e. e) I"

text \<open>A completed exchange: the object set, the read scheduled, polled until success, the value equal.\<close>

definition exchange_begun :: "'q \<Rightarrow> check \<Rightarrow> 'q rq_event list \<Rightarrow> bool" where
  "exchange_begun q c l \<longleftrightarrow> (\<exists>k. l = [RqIndex q (ck_index c) (ck_subindex c) 0, RqRead q 0]
     @ replicate k (RqState q EC_REQUEST_BUSY))"

definition exchange_done :: "'q \<Rightarrow> check \<Rightarrow> 'q rq_event list \<Rightarrow> bool" where
  "exchange_done q c l \<longleftrightarrow> (\<exists>begun bytes. exchange_begun q c begun
     \<and> l = begun @ [RqState q EC_REQUEST_SUCCESS, RqSize q (unat (ck_size c)), RqData q (Some bytes)]
     \<and> le_decode (take (unat (ck_size c)) bytes) = ck_expected c)"

lemma exchange_begun_poll: "exchange_begun q c l \<Longrightarrow> exchange_begun q c (l @ [RqState q EC_REQUEST_BUSY])"
proof -
  assume "exchange_begun q c l"
  then obtain k where "l = [RqIndex q (ck_index c) (ck_subindex c) 0, RqRead q 0]
     @ replicate k (RqState q EC_REQUEST_BUSY)" by (auto simp: exchange_begun_def)
  then show ?thesis
    unfolding exchange_begun_def by (intro exI [of _ "Suc k"]) (simp flip: replicate_append_same)
qed

definition verify_inv :: "'q pdo_verification \<Rightarrow> 'q pdo_verification \<Rightarrow> 'q rq_event list \<Rightarrow> bool" where
  "verify_inv s0 s l \<longleftrightarrow> checks s = checks s0 \<and> requests s = requests s0 \<and> prepared s
     \<and> (vresult s \<noteq> Failed \<longrightarrow>
         (vresult s = Pending \<longrightarrow> cursor s < length (checks s0))
         \<and> (vresult s = Complete \<longrightarrow> cursor s = length (checks s0) \<and> \<not> busy s)
         \<and> (\<exists>segs open_seg. l = concat segs @ open_seg \<and> length segs = cursor s
              \<and> (\<forall>i < cursor s. exchange_done (requests s0 ! ck_slave_index (checks s0 ! i)) (checks s0 ! i) (segs ! i))
              \<and> (if busy s then exchange_begun (requests s0 ! ck_slave_index (checks s0 ! cursor s)) (checks s0 ! cursor s) open_seg
                 else open_seg = [])))"

lemma log_requests_simps [simp]:
  "sdo_request_index (log_requests f I) q i sub (w, l)
     = (case sdo_request_index I q i sub w of (r, w) \<Rightarrow> (r, (w, l @ [f (RqIndex q i sub r)])))"
  "sdo_request_read (log_requests f I) q (w, l)
     = (case sdo_request_read I q w of (r, w) \<Rightarrow> (r, (w, l @ [f (RqRead q r)])))"
  "sdo_request_state (log_requests f I) q (w, l)
     = (case sdo_request_state I q w of (r, w) \<Rightarrow> (r, (w, l @ [f (RqState q r)])))"
  "sdo_request_data_size (log_requests f I) q (w, l)
     = (case sdo_request_data_size I q w of (r, w) \<Rightarrow> (r, (w, l @ [f (RqSize q r)])))"
  "sdo_request_data (log_requests f I) q (w, l)
     = (case sdo_request_data I q w of (r, w) \<Rightarrow> (r, (w, l @ [f (RqData q r)])))"
  by (simp_all add: log_requests_def)

lemma verify_inv_failed:
  "checks s = checks s0 \<Longrightarrow> requests s = requests s0 \<Longrightarrow> prepared s \<Longrightarrow> vresult s = Failed \<Longrightarrow> verify_inv s0 s l"
  by (simp add: verify_inv_def)

lemma compare_simps [simp]:
  "checks (snd (compare d n s)) = checks s" "requests (snd (compare d n s)) = requests s"
  "prepared (snd (compare d n s)) = prepared s"
  by (auto simp: compare_def Let_def split: option.splits)

lemma compare_cases:
  "fst (compare d n s) \<Longrightarrow> snd (compare d n s) = s \<and> n = unat (ck_size (checks s ! cursor s))
     \<and> (\<exists>bytes. d = Some bytes \<and> le_decode (take n bytes) = ck_expected (checks s ! cursor s))"
  "\<not> fst (compare d n s) \<Longrightarrow> vresult (snd (compare d n s)) = Failed"
  by (auto simp: compare_def Let_def split: option.splits if_splits)

text \<open>The step by its outcome: it fails, starts the exchange, polls once more, or completes it.\<close>

lemma verify_step_cases:
  assumes "verify_step (logged_requests I) t s (w, l) = (r, s', (w', l'))" "vresult s = Pending" "prepared s"
  defines "c \<equiv> checks s ! cursor s"
  defines "q \<equiv> requests s ! ck_slave_index c"
  shows "checks s' = checks s \<and> requests s' = requests s \<and> prepared s' \<and> r = vresult s' \<and>
    (vresult s' = Failed
     \<or> \<not> busy s \<and> s' = s\<lparr>started := True, request_deadline_ns := t + request_window_ns, busy := True\<rparr>
        \<and> l' = l @ [RqIndex q (ck_index c) (ck_subindex c) 0, RqRead q 0]
     \<or> busy s \<and> t < request_deadline_ns s \<and> s' = s\<lparr>started := True\<rparr> \<and> l' = l @ [RqState q EC_REQUEST_BUSY]
     \<or> busy s \<and> t < request_deadline_ns s
        \<and> s' = (let n = Suc (cursor s) in s\<lparr>started := True, busy := False, cursor := n,
             vresult := (if n = length (checks s) then Complete else Pending)\<rparr>)
        \<and> (\<exists>bytes. le_decode (take (unat (ck_size c)) bytes) = ck_expected c
            \<and> l' = l @ [RqState q EC_REQUEST_SUCCESS, RqSize q (unat (ck_size c)), RqData q (Some bytes)]))"
proof (cases "busy s")
  case False
  then show ?thesis using assms
    by (auto simp: verify_step_def Let_def split: prod.splits if_splits)
next
  case True
  let ?s = "s\<lparr>started := True\<rparr>"
  show ?thesis
  proof (cases "request_deadline_ns s \<le> t")
    case True
    with assms \<open>busy s\<close> show ?thesis by (auto simp: verify_step_def Let_def)
  next
    case in_time: False
    obtain state w1 where st: "sdo_request_state I q w = (state, w1)" by fastforce
    obtain n w2 where sz: "sdo_request_data_size I q w1 = (n, w2)" by fastforce
    obtain d w3 where dt: "sdo_request_data I q w2 = (d, w3)" by fastforce
    show ?thesis
    proof (cases "state = EC_REQUEST_SUCCESS")
      case False
      with assms \<open>busy s\<close> in_time st show ?thesis
        by (auto simp: verify_step_def Let_def c_def q_def split: if_splits)
    next
      case True
      let ?d = "if n = unat (ck_size c) then d else None"
      have s': "vresult s' = Failed \<and> checks s' = checks s \<and> requests s' = requests s \<and> prepared s' \<and> r = vresult s'"
        if "\<not> fst (compare ?d n ?s)"
      proof -
        obtain b sc where "compare ?d n ?s = (b, sc)" by fastforce
        with that compare_cases(2) [OF that] compare_simps [of ?d n ?s]
        have cmp: "compare ?d n ?s = (False, sc)" "vresult sc = Failed" "checks sc = checks s"
          "requests sc = requests s" "prepared sc = prepared s" by auto
        show ?thesis
          using assms(1,2,3) True \<open>busy s\<close> in_time st sz dt cmp
          by (auto simp: verify_step_def Let_def c_def [symmetric] q_def [symmetric] split: if_splits)
      qed
      show ?thesis
      proof (cases "fst (compare ?d n ?s)")
        case False
        with s' show ?thesis by blast
      next
        case same: True
        from compare_cases(1) [OF same] have n: "n = unat (ck_size c)"
          and d: "\<exists>bytes. d = Some bytes \<and> le_decode (take (unat (ck_size c)) bytes) = ck_expected c"
          and cmp: "compare d n ?s = (True, ?s)"
          using same by (auto simp: c_def prod_eq_iff split: if_splits)
        from assms(1,2,3) True \<open>busy s\<close> in_time st sz dt n cmp
        show ?thesis using d
          by (auto simp: verify_step_def Let_def c_def [symmetric] q_def [symmetric] split: if_splits)
      qed
    qed
  qed
qed

lemma verify_step_final: "vresult s \<noteq> Pending \<Longrightarrow> verify_step I t s w = (vresult s, s, w)"
  by (simp add: verify_step_def)

lemma result_cases: "r = Pending \<or> r = Complete \<or> r = Failed"
  by (cases r) auto

lemma verify_step_inv:
  assumes "verify_inv s0 s l" "verify_step (logged_requests I) t s (w, l) = (r, s', (w', l'))"
  shows "verify_inv s0 s' l'"
proof (cases "vresult s = Pending")
  case False
  with assms verify_step_final [of s "logged_requests I" t "(w, l)"] show ?thesis by simp
next
  case True
  let ?c = "\<lambda>i. checks s0 ! i"
  let ?q = "\<lambda>i. requests s0 ! ck_slave_index (checks s0 ! i)"
  have base: "checks s = checks s0" "requests s = requests s0" "prepared s" "cursor s < length (checks s0)"
    using assms(1) True by (auto simp: verify_inv_def)
  from assms(1) True obtain segs op where segs: "l = concat segs @ op" "length segs = cursor s"
    "\<forall>i < cursor s. exchange_done (?q i) (?c i) (segs ! i)"
    "if busy s then exchange_begun (?q (cursor s)) (?c (cursor s)) op else op = []"
    by (auto simp: verify_inv_def)
  note outcome = verify_step_cases [OF assms(2) True base(3), unfolded base(1,2)]
  then have keep: "checks s' = checks s0" "requests s' = requests s0" "prepared s'" by auto
  from outcome consider (failed) "vresult s' = Failed"
    | (start) "\<not> busy s" "s' = s\<lparr>started := True, request_deadline_ns := t + request_window_ns, busy := True\<rparr>"
        "l' = l @ [RqIndex (?q (cursor s)) (ck_index (?c (cursor s))) (ck_subindex (?c (cursor s))) 0, RqRead (?q (cursor s)) 0]"
    | (poll) "busy s" "s' = s\<lparr>started := True\<rparr>" "l' = l @ [RqState (?q (cursor s)) EC_REQUEST_BUSY]"
    | (success) bytes where "busy s" "s' = (let n = Suc (cursor s) in s\<lparr>started := True, busy := False, cursor := n,
             vresult := (if n = length (checks s0) then Complete else Pending)\<rparr>)"
        "le_decode (take (unat (ck_size (?c (cursor s)))) bytes) = ck_expected (?c (cursor s))"
        "l' = l @ [RqState (?q (cursor s)) EC_REQUEST_SUCCESS, RqSize (?q (cursor s)) (unat (ck_size (?c (cursor s)))),
             RqData (?q (cursor s)) (Some bytes)]"
    by blast
  then show ?thesis
  proof cases
    case failed
    with keep show ?thesis by (intro verify_inv_failed)
  next
    case start
    then have "exchange_begun (?q (cursor s)) (?c (cursor s)) [RqIndex (?q (cursor s)) (ck_index (?c (cursor s)))
        (ck_subindex (?c (cursor s))) 0, RqRead (?q (cursor s)) 0]"
      by (auto simp: exchange_begun_def)
    with start segs base True show ?thesis
      by (auto simp: verify_inv_def)
  next
    case poll
    then have "exchange_begun (?q (cursor s)) (?c (cursor s)) (op @ [RqState (?q (cursor s)) EC_REQUEST_BUSY])"
      using segs(4) exchange_begun_poll by auto
    with poll segs base True show ?thesis
      by (auto simp: verify_inv_def)
  next
    case success
    let ?seg = "op @ [RqState (?q (cursor s)) EC_REQUEST_SUCCESS, RqSize (?q (cursor s)) (unat (ck_size (?c (cursor s)))),
             RqData (?q (cursor s)) (Some bytes)]"
    have "exchange_done (?q (cursor s)) (?c (cursor s)) ?seg"
      using success(1,3) segs(4) unfolding exchange_done_def by auto
    then have all: "\<forall>i < Suc (cursor s). exchange_done (?q i) (?c i) ((segs @ [?seg]) ! i)"
      using segs(2,3) by (auto simp: less_Suc_eq nth_append)
    have "l' = concat (segs @ [?seg]) @ []" "length (segs @ [?seg]) = Suc (cursor s)"
      using success(4) segs(1,2) by simp_all
    with all have ex: "\<exists>segs open_seg. l' = concat segs @ open_seg \<and> length segs = Suc (cursor s)
        \<and> (\<forall>i < Suc (cursor s). exchange_done (?q i) (?c i) (segs ! i)) \<and> open_seg = []" by blast
    have "cursor s' = Suc (cursor s)" "\<not> busy s'"
      "vresult s' = (if Suc (cursor s) = length (checks s0) then Complete else Pending)"
      using success(2) by (simp_all add: Let_def)
    with ex base(4) show ?thesis
      unfolding verify_inv_def using keep by (auto split: if_splits)
  qed
qed

lemma verify_calls_inv:
  "verify_calls (logged_requests I) calls s (w, l) = (s', (w', l')) \<Longrightarrow> verify_inv s0 s l \<Longrightarrow> verify_inv s0 s' l'"
proof (induction calls arbitrary: s w l)
  case Nil
  then show ?case by simp
next
  case (Cons c calls)
  show ?case
  proof (cases c)
    case (Step t)
    obtain r s1 w1 l1 where st: "verify_step (logged_requests I) t s (w, l) = (r, s1, (w1, l1))"
      by (metis prod.exhaust)
    from Cons.prems(1) Step st have "verify_calls (logged_requests I) calls s1 (w1, l1) = (s', (w', l'))" by simp
    with Cons.IH verify_step_inv [OF Cons.prems(2) st] show ?thesis by blast
  next
    case (Abort f)
    have "verify_inv s0 (verification_abort f s) l"
      using Cons.prems(2) by (cases "vresult s = Failed")
        (auto simp: verification_abort_def verify_inv_def fail_keeps_first intro!: verify_inv_failed)
    with Cons Abort show ?thesis by auto
  qed
qed

lemma verify_inv_ready: "verification_ready ss s \<Longrightarrow> checks s \<noteq> [] \<Longrightarrow> verify_inv s s []"
  by (auto simp: verification_ready_def verify_inv_def)

lemma ready_checks_nonempty:
  assumes "verification_ready ss s"
  shows "checks s \<noteq> []"
proof -
  obtain slave rest where ss: "ss = slave # rest" using assms by (cases ss) (auto simp: verification_ready_def)
  with assms have "sy_index ` set (process_syncs slave) = {2, 3}"
    by (simp add: verification_ready_def checkable_def)
  then obtain sm sms where "process_syncs slave = sm # sms" by (cases "process_syncs slave") auto
  with assms show ?thesis by (simp add: verification_ready_def all_checks_def ss slave_checks_def sync_checks_def)
qed

text \<open>
  Claim C19. The cyclic verification is complete only when everything was read back: after any calls
  of \<open>step\<close> (at any times) and \<open>abort\<close> on a prepared verification, if it reports completion then the
  log is, check by check in order, one full exchange each - the object and subindex set on the
  request of its slave, one read scheduled, polled until success, the size exact and the value equal
  to the expected one - and nothing else.
\<close>
theorem verification_complete_sound:
  assumes "verification_ready ss s"
    and "verify_calls (logged_requests I) calls s (w, []) = (s', (w', l))" "vresult s' = Complete"
  shows "\<exists>segs. l = concat segs \<and> length segs = length (checks s)
    \<and> (\<forall>i < length (checks s).
         exchange_done (requests s ! ck_slave_index (checks s ! i)) (checks s ! i) (segs ! i))"
proof -
  have "verify_inv s s' l"
    by (rule verify_calls_inv [OF assms(2) verify_inv_ready [OF assms(1) ready_checks_nonempty [OF assms(1)]]])
  with assms(3) show ?thesis by (auto simp: verify_inv_def)
qed

text \<open>The log does not influence the run.\<close>

text \<open>The log does not depend on what was logged before, nor on the type of the events.\<close>

lemma verify_step_log:
  "\<exists>ev. (\<forall>l. verify_step (logged_requests I) t s (w, l)
       = (fst (verify_step I t s w), fst (snd (verify_step I t s w)), (snd (snd (verify_step I t s w)), l @ ev)))
     \<and> (\<forall>f l. verify_step (log_requests f I) t s (w, l)
       = (fst (verify_step I t s w), fst (snd (verify_step I t s w)), (snd (snd (verify_step I t s w)), l @ map f ev)))"
proof -
  let ?c = "checks s ! cursor s"
  let ?q = "requests s ! ck_slave_index ?c"
  obtain i1 w1 where i: "sdo_request_index I ?q (ck_index ?c) (ck_subindex ?c) w = (i1, w1)" by fastforce
  obtain i2 w2 where r: "sdo_request_read I ?q w1 = (i2, w2)" by fastforce
  obtain st w3 where st: "sdo_request_state I ?q w = (st, w3)" by fastforce
  obtain n w4 where n: "sdo_request_data_size I ?q w3 = (n, w4)" by fastforce
  obtain d w5 where d: "sdo_request_data I ?q w4 = (d, w5)" by fastforce
  obtain b1 s1 where c1: "compare d (unat (ck_size ?c)) (s\<lparr>started := True\<rparr>) = (b1, s1)" by fastforce
  obtain b2 s2 where c2: "compare None n (s\<lparr>started := True\<rparr>) = (b2, s2)" by fastforce
  consider "vresult s \<noteq> Pending \<or> \<not> prepared s" | "vresult s = Pending" "prepared s" "\<not> busy s"
    | "vresult s = Pending" "prepared s" "busy s" "request_deadline_ns s \<le> t"
    | "vresult s = Pending" "prepared s" "busy s" "\<not> request_deadline_ns s \<le> t" "st \<noteq> EC_REQUEST_SUCCESS"
    | "vresult s = Pending" "prepared s" "busy s" "\<not> request_deadline_ns s \<le> t" "st = EC_REQUEST_SUCCESS"
        "n = unat (ck_size ?c)"
    | "vresult s = Pending" "prepared s" "busy s" "\<not> request_deadline_ns s \<le> t" "st = EC_REQUEST_SUCCESS"
        "n \<noteq> unat (ck_size ?c)" by blast
  then show ?thesis
  proof cases
    case 1
    then show ?thesis by (intro exI [of _ "[]"]) (simp add: verify_step_def Let_def)
  next
    case 2
    then show ?thesis
      by (intro exI [of _ "if i1 \<noteq> 0 then [RqIndex ?q (ck_index ?c) (ck_subindex ?c) i1]
            else [RqIndex ?q (ck_index ?c) (ck_subindex ?c) i1, RqRead ?q i2]"])
         (simp add: verify_step_def Let_def i r)
  next
    case 3
    then show ?thesis by (intro exI [of _ "[]"]) (simp add: verify_step_def Let_def)
  next
    case 4
    then show ?thesis by (intro exI [of _ "[RqState ?q st]"]) (simp add: verify_step_def Let_def st)
  next
    case 5
    then show ?thesis
      by (intro exI [of _ "[RqState ?q st, RqSize ?q n, RqData ?q d]"]) (simp add: verify_step_def Let_def st n d c1)
  next
    case 6
    then show ?thesis
      by (intro exI [of _ "[RqState ?q st, RqSize ?q n]"]) (simp add: verify_step_def Let_def st n c2)
  qed
qed

lemma verify_step_project:
  "\<exists>l'. verify_step (logged_requests I) t s (w, l)
     = (fst (verify_step I t s w), fst (snd (verify_step I t s w)), (snd (snd (verify_step I t s w)), l'))"
  using verify_step_log [of I t s w] by blast

section \<open>Bounded verification\<close>

fun paced :: "int \<Rightarrow> int list \<Rightarrow> bool" where
  "paced g (t # t' # ts) \<longleftrightarrow> t \<le> t' \<and> t' \<le> t + g \<and> paced g (t' # ts)"
| "paced g ts \<longleftrightarrow> True"

text \<open>
  While the verification is pending at time \<open>t\<close> of the last step: a running exchange still has its
  window, which ends no later than one window after \<open>cursor\<close> rounds of a window and a gap each.
\<close>

definition on_schedule :: "int \<Rightarrow> int \<Rightarrow> int \<Rightarrow> 'q pdo_verification \<Rightarrow> bool" where
  "on_schedule t0 g t s \<longleftrightarrow> vresult s = Pending \<longrightarrow> prepared s \<and> cursor s < length (checks s)
     \<and> (if busy s
        then t < request_deadline_ns s
          \<and> request_deadline_ns s \<le> t0 + int (cursor s) * (request_window_ns + g) + request_window_ns
        else t + g < t0 + int (cursor s) * (request_window_ns + g))"

lemma request_window_pos: "0 < request_window_ns"
  by (simp add: request_window_ns_def kRequestTimeoutMs_def)

lemma on_schedule_step:
  assumes "on_schedule t0 g t s" "t \<le> t'" "t' \<le> t + g" "verify_step I t' s w = (r, s', w')"
  shows "on_schedule t0 g t' s' \<and> (vresult s = Pending \<longrightarrow> checks s' = checks s)"
proof (cases "vresult s = Pending")
  case False
  with assms verify_step_final [of s I t' w] show ?thesis by (simp add: on_schedule_def)
next
  case True
  obtain l' where st: "verify_step (logged_requests I) t' s (w, []) = (r, s', (w', l'))"
    using verify_step_project [of I t' s w "[]"] assms(4) by auto
  have pre: "prepared s" "cursor s < length (checks s)" using assms(1) True by (auto simp: on_schedule_def)
  note out = verify_step_cases [OF st True pre(1)]
  show ?thesis
  proof (cases "vresult s' = Failed")
    case True
    with out show ?thesis by (simp add: on_schedule_def)
  next
    case False
    with out consider (start) "\<not> busy s" "s' = s\<lparr>started := True, request_deadline_ns := t' + request_window_ns, busy := True\<rparr>"
      | (poll) "busy s" "t' < request_deadline_ns s" "s' = s\<lparr>started := True\<rparr>"
      | (success) "busy s" "t' < request_deadline_ns s" "s' = (let n = Suc (cursor s) in s\<lparr>started := True, busy := False,
             cursor := n, vresult := (if n = length (checks s) then Complete else Pending)\<rparr>)"
      by blast
    then show ?thesis
    proof cases
      case start
      with assms(1,3) True pre request_window_pos show ?thesis by (auto simp: on_schedule_def)
    next
      case poll
      with assms(1) True pre show ?thesis by (auto simp: on_schedule_def)
    next
      case success
      with assms(1) True pre show ?thesis
        by (auto simp: on_schedule_def Let_def algebra_simps split: if_splits)
    qed
  qed
qed

lemma on_schedule_steps:
  assumes "on_schedule t0 g t s" "paced g (t # ts)"
  shows "on_schedule t0 g (last (t # ts)) (fst (verify_calls I (map Step ts) s w))
    \<and> (vresult (fst (verify_calls I (map Step ts) s w)) = Pending \<longrightarrow> checks (fst (verify_calls I (map Step ts) s w)) = checks s)"
  using assms
proof (induction ts arbitrary: t s w)
  case Nil
  then show ?case by simp
next
  case (Cons t' ts)
  obtain r s' w' where st: "verify_step I t' s w = (r, s', w')" by (metis prod.exhaust)
  have step: "on_schedule t0 g t' s'" "vresult s = Pending \<longrightarrow> checks s' = checks s"
    using on_schedule_step [OF Cons.prems(1) _ _ st] Cons.prems(2) by simp_all
  have fixed: "vresult s \<noteq> Pending \<Longrightarrow> s' = s" using verify_step_final [of s I t' w] st by simp
  from Cons.IH [OF step(1), of w'] Cons.prems(2) st step(2) fixed show ?case
    by (cases "vresult s = Pending") auto
qed

text \<open>
  Claim C20. The cyclic verification cannot stay pending: when \<open>step\<close> is called from time \<open>t0\<close> with
  gaps of at most \<open>g\<close> nanoseconds, then at the latest after one second plus a gap per check it has
  completed or failed, whatever the requests answer.
\<close>
theorem verification_bounded:
  assumes "verification_ready ss s" "paced g (t0 # ts)" "0 \<le> g"
    and "t0 + int (length (checks s)) * (1000000000 + g) \<le> last (t0 # ts)"
  shows "vresult (fst (verify_calls I (map Step (t0 # ts)) s w)) \<noteq> Pending"
proof
  assume pending: "vresult (fst (verify_calls I (map Step (t0 # ts)) s w)) = Pending"
  have win: "request_window_ns = 1000000000" by (simp add: request_window_ns_def kRequestTimeoutMs_def)
  have ne: "checks s \<noteq> []" using assms(1) by (rule ready_checks_nonempty)
  obtain r s1 w1 where st: "verify_step I t0 s w = (r, s1, w1)" by (metis prod.exhaust)
  obtain l1 where st': "verify_step (logged_requests I) t0 s (w, []) = (r, s1, (w1, l1))"
    using verify_step_project [of I t0 s w "[]"] st by auto
  have r: "vresult s = Pending" "prepared s" "\<not> busy s" "cursor s = 0"
    using assms(1) by (auto simp: verification_ready_def)
  have first: "on_schedule t0 g t0 s1" "checks s1 = checks s"
    using verify_step_cases [OF st' r(1,2)] r ne by (auto simp: on_schedule_def request_window_pos)
  let ?s = "fst (verify_calls I (map Step ts) s1 w1)"
  have "on_schedule t0 g (last (t0 # ts)) ?s" "vresult ?s = Pending \<longrightarrow> checks ?s = checks s1"
    using on_schedule_steps [OF first(1) assms(2), of I w1] by auto
  moreover have "vresult ?s = Pending" using pending st by simp
  ultimately have bound: "cursor ?s < length (checks s)"
      "last (t0 # ts) < t0 + int (cursor ?s) * (1000000000 + g) + 1000000000 + g"
    using assms(3) by (auto simp: on_schedule_def win first(2) split: if_splits)
  have "int (Suc (cursor ?s)) * (1000000000 + g) \<le> int (length (checks s)) * (1000000000 + g)"
    using bound(1) assms(3) by (intro mult_right_mono) auto
  then show False using bound(2) assms(4) by (simp add: algebra_simps)
qed

text \<open>
  A concrete bus for the witnesses: one slave with one output PDO, and a request interface whose
  world is the object last selected and which answers every read at once from a fixed dictionary.
\<close>

definition example_dictionary :: "u16 \<times> u8 \<Rightarrow> u8 list" where
  "example_dictionary ob =
     (if ob = (0x1c12, 0) then [1] else if ob = (0x1c12, 1) then [0x00, 0x16]
      else if ob = (0x1600, 0) then [1] else if ob = (0x1600, 1) then [0x10, 0x00, 0x40, 0x60]
      else if ob = (0x1c13, 0) then [0] else [])"

definition example_requests :: "(nat, nat, u16 \<times> u8) request_api" where
  "example_requests = \<lparr>
     create_sdo_request = (\<lambda>c i sub n w. (Some c, w)),
     sdo_request_timeout = (\<lambda>q ms w. (0, w)),
     sdo_request_index = (\<lambda>q i sub w. (0, (i, sub))),
     sdo_request_read = (\<lambda>q w. (0, w)),
     sdo_request_state = (\<lambda>q w. (EC_REQUEST_SUCCESS, w)),
     sdo_request_data_size = (\<lambda>q w. (length (example_dictionary w), w)),
     sdo_request_data = (\<lambda>q w. (Some (example_dictionary w), w))\<rparr>"

definition example_spec :: slave_spec where
  "example_spec = storage_spec (build_storage (hd (bc_slaves example_bus_config)))"

definition example_static :: static_slave_config where
  "example_static = \<lparr>ssc_slaves = Some [example_spec], ssc_slave_count = 1\<rparr>"

definition example_verification :: "nat pdo_verification" where
  "example_verification = fst (prepare example_requests example_static [Some 7] verification_init (0, 0))"

lemma example_prepare:
  "prepare example_requests example_static [Some 7] verification_init (0, 0)
     = (example_verification, (0, 0), None)"
  by (simp add: example_verification_def prepare_def prepare_slave_def Let_def example_static_def example_spec_def
      storage_spec_def build_storage_def example_bus_config_def store_pdos_def build_pdo_views_def append_entry_views_def
      data_def sync_end_def example_requests_def array_def)

lemma example_ready: "verification_ready [example_spec] example_verification"
  using prepare_ready [OF example_prepare] by (simp add: example_static_def)

theorem prepare_correct_witness:
  "length (requests example_verification) = 1"
  using prepare_correct [OF example_prepare] by (simp add: example_static_def)

definition example_calls :: "verify_call list" where
  "example_calls = map Step [0, 1, 2, 3, 4, 5, 6, 7, 8, 9]"

lemma example_complete:
  "vresult (fst (verify_calls (logged_requests example_requests) example_calls example_verification ((0, 0), []))) = Complete"
  by code_simp

theorem verification_complete_sound_witness:
  "\<exists>segs. snd (snd (verify_calls (logged_requests example_requests) example_calls example_verification ((0, 0), [])))
      = concat segs \<and> length segs = 5"
proof -
  let ?run = "verify_calls (logged_requests example_requests) example_calls example_verification ((0, 0), [])"
  have run: "?run = (fst ?run, (fst (snd ?run), snd (snd ?run)))" by simp
  have "length (checks example_verification) = 5" by code_simp
  with verification_complete_sound [OF example_ready run example_complete] show ?thesis by auto
qed

theorem verification_bounded_witness:
  "vresult (fst (verify_calls example_requests
      (map Step [0, 5000000000, 10000000000, 15000000000, 20000000000, 25000000000, 30000000000])
      example_verification (0, 0))) \<noteq> Pending"
proof (rule verification_bounded [OF example_ready])
  have len: "length (checks example_verification) = 5" by code_simp
  show "paced 5000000000 [0, 5000000000, 10000000000, 15000000000, 20000000000, 25000000000, 30000000000]"
    "(0::int) \<le> 5000000000" by simp_all
  show "0 + int (length (checks example_verification)) * (1000000000 + 5000000000)
      \<le> last [0, 5000000000, 10000000000, 15000000000, 20000000000, 25000000000, 30000000000]"
    unfolding len by simp
qed

end
