(* ===== verification/Preop_Configuration.thy ===== *)
theory Preop_Configuration
  imports Pdo_Verification
begin

text \<open>
  \<open>PdoVerification::configurePreop\<close> of src/src/pdo_verification.cpp: the initialization commands,
  then per slave the fixed-mapping check, the six write phases and the readback, retried as a whole.
  The blocking calls of the EtherCAT library and the clock are the fields of the parameter
  \<open>preop_api\<close>; the text written to the log stream is not modelled. A loop that moves \<open>cursor_\<close> is a
  recursion over the indices it visits, which sets the field at every index.
\<close>

section \<open>The blocking interface\<close>

record slave_info =
  si_vendor_id :: u32
  si_product_code :: u32
  si_revision_number :: u32
  si_serial_number :: u32
  si_al_state :: u8
  si_error_flag :: u8

text \<open>
  \<open>ecrt_master_get_slave\<close> returns a code and the information, \<open>ecrt_master_sdo_download\<close> a code and
  an abort code, \<open>ecrt_master_sdo_upload\<close> also the four bytes of the buffer and the reported size;
  \<open>clock_gettime\<close> returns an \<open>errno\<close> or the monotonic time.
\<close>

record 'w preop_api =
  al_preop :: u8
  get_slave :: "u16 \<Rightarrow> 'w \<Rightarrow> (int \<times> slave_info) \<times> 'w"
  sdo_download :: "u16 \<Rightarrow> u16 \<Rightarrow> u8 \<Rightarrow> u8 list \<Rightarrow> 'w \<Rightarrow> (int \<times> u32) \<times> 'w"
  sdo_upload :: "u16 \<Rightarrow> u16 \<Rightarrow> u8 \<Rightarrow> 'w \<Rightarrow> (int \<times> u8 list \<times> nat \<times> u32) \<times> 'w"
  monotonic_ns :: "'w \<Rightarrow> (int + int) \<times> 'w"

section \<open>Guarded transfers\<close>

definition set_check :: "check \<Rightarrow> 'q pdo_verification \<Rightarrow> 'q pdo_verification" where
  "set_check c s = s\<lparr>verror := (verror s)\<lparr>ve_check := c\<rparr>\<rparr>"

definition set_abort_code :: "u32 \<Rightarrow> 'q pdo_verification \<Rightarrow> 'q pdo_verification" where
  "set_abort_code a s = s\<lparr>verror := (verror s)\<lparr>ve_abort_code := a\<rparr>\<rparr>"

definition clock_now :: "'w preop_api \<Rightarrow> 'q pdo_verification \<Rightarrow> 'w \<Rightarrow> int \<times> 'q pdo_verification \<times> 'w" where
  "clock_now I s w =
     (case monotonic_ns I w of
        (Inl errno, w) \<Rightarrow> (0, fail Clock (- errno) 0 0 s, w)
      | (Inr t, w) \<Rightarrow> (t, s, w))"

definition guard :: "'w preop_api \<Rightarrow> int \<Rightarrow> check \<Rightarrow> 'q pdo_verification \<Rightarrow> 'w
    \<Rightarrow> bool \<times> 'q pdo_verification \<times> 'w" where
  "guard I deadline c s w =
     (case get_slave I (ck_slave_position c) w of
        ((rc, info), w) \<Rightarrow>
          if rc \<noteq> 0 \<or> si_al_state info \<noteq> al_preop I \<or> si_error_flag info \<noteq> 0
          then (False, set_check c (fail PreopState rc (ucast (si_al_state info)) (unat (si_error_flag info)) s), w)
          else (case clock_now I s w of
            (now, s, w) \<Rightarrow>
              let s = (if deadline \<le> now then fail PreopTimeout 0 0 0 s else s);
                  s = (if vresult s = Failed then set_check c s else s)
              in (vresult s \<noteq> Failed, s, w)))"

text \<open>
  Every transfer stands between two guards: late results and a loss of PREOP are rejected. \<open>None\<close> is
  a guard that failed; otherwise the result of the call.
\<close>

definition guarded_download :: "'w preop_api \<Rightarrow> int \<Rightarrow> check \<Rightarrow> u8 list \<Rightarrow> 'q pdo_verification \<Rightarrow> 'w
    \<Rightarrow> (int \<times> u32) option \<times> 'q pdo_verification \<times> 'w" where
  "guarded_download I deadline c bytes s w =
     (case guard I deadline c s w of
        (False, s, w) \<Rightarrow> (None, s, w)
      | (True, s, w) \<Rightarrow>
          (case sdo_download I (ck_slave_position c) (ck_index c) (ck_subindex c) bytes w of
             (r, w) \<Rightarrow>
               (case guard I deadline c s w of
                  (False, s, w) \<Rightarrow> (None, s, w)
                | (True, s, w) \<Rightarrow> (Some r, s, w))))"

definition guarded_upload :: "'w preop_api \<Rightarrow> int \<Rightarrow> check \<Rightarrow> 'q pdo_verification \<Rightarrow> 'w
    \<Rightarrow> (int \<times> u8 list \<times> nat \<times> u32) option \<times> 'q pdo_verification \<times> 'w" where
  "guarded_upload I deadline c s w =
     (case guard I deadline c s w of
        (False, s, w) \<Rightarrow> (None, s, w)
      | (True, s, w) \<Rightarrow>
          (case sdo_upload I (ck_slave_position c) (ck_index c) (ck_subindex c) w of
             (r, w) \<Rightarrow>
               (case guard I deadline c s w of
                  (False, s, w) \<Rightarrow> (None, s, w)
                | (True, s, w) \<Rightarrow> (Some r, s, w))))"

section \<open>Initialization commands\<close>

definition init_check :: "init_write \<Rightarrow> check" where
  "init_check write =
     \<lparr>ck_slave_position = iw_position write, ck_sync_index = 0, ck_index = ic_index (iw_command write),
      ck_subindex = ic_sub_index (iw_command write), ck_size = ic_size (iw_command write), ck_expected = 0,
      ck_field = InitCommand, ck_slave_index = 0\<rparr>"

definition init_bytes :: "init_write \<Rightarrow> u8 list" where
  "init_bytes write = take (unat (ic_size (iw_command write))) (ic_data (iw_command write))"

fun write_init_commands :: "'w preop_api \<Rightarrow> int \<Rightarrow> init_write list \<Rightarrow> 'q pdo_verification \<Rightarrow> 'w
    \<Rightarrow> bool \<times> 'q pdo_verification \<times> 'w" where
  "write_init_commands I deadline [] s w = (True, s, w)"
| "write_init_commands I deadline (write # rest) s w =
     (let c = init_check write in
      case guarded_download I deadline c (init_bytes write) s w of
        (None, s, w) \<Rightarrow> (False, s, w)
      | (Some (rc, abort_code), s, w) \<Rightarrow>
          if rc \<noteq> 0 then (False, set_abort_code abort_code (set_check c (fail Write rc 0 0 s)), w)
          else write_init_commands I deadline rest s w)"

section \<open>One attempt on one slave\<close>

definition fill :: "nat \<Rightarrow> nat \<Rightarrow> 'a \<Rightarrow> 'a list \<Rightarrow> 'a list" where
  "fill b e v xs = map (\<lambda>i. if b \<le> i \<and> i < e then v else xs ! i) [0..<length xs]"

text \<open>The objects of one mapping: the result tells whether all of them matched so far.\<close>

fun match_mapping :: "'w preop_api \<Rightarrow> int \<Rightarrow> nat list \<Rightarrow> 'q pdo_verification \<Rightarrow> 'w
    \<Rightarrow> bool \<times> 'q pdo_verification \<times> 'w" where
  "match_mapping I deadline [] s w = (True, s, w)"
| "match_mapping I deadline (i # rest) s w =
     (let s = s\<lparr>cursor := i\<rparr>; c = checks s ! i in
      case guarded_upload I deadline c s w of
        (None, s, w) \<Rightarrow> (True, s, w)
      | (Some (rc, dat, size', abort_code), s, w) \<Rightarrow>
          if rc \<noteq> 0 then (True, set_abort_code abort_code (fail Read rc 0 0 s), w)
          else if size' \<noteq> unat (ck_size c) then (True, fail Size 0 0 size' s, w)
          else if le_decode (take size' dat) \<noteq> ck_expected c then (False, s, w)
          else match_mapping I deadline rest s w)"

text \<open>The loop that finds the mappings that already match, from index \<open>i\<close>.\<close>

function match_mappings :: "'w preop_api \<Rightarrow> int \<Rightarrow> nat \<Rightarrow> nat \<Rightarrow> bool list \<Rightarrow> 'q pdo_verification \<Rightarrow> 'w
    \<Rightarrow> bool list \<times> 'q pdo_verification \<times> 'w" where
  "match_mappings I deadline i e keep s w =
     (if e \<le> i \<or> vresult s \<noteq> Pending then (keep, s\<lparr>cursor := i\<rparr>, w)
      else if ck_field (checks s ! i) \<noteq> MappingCount \<or> ck_expected (checks s ! i) = 0
      then match_mappings I deadline (Suc i) e keep s w
      else
        let mapping_end = i + 1 + unat (ck_expected (checks s ! i)) in
        case match_mapping I deadline [i..<mapping_end] s w of
          (same, s, w) \<Rightarrow>
            let keep = (if same \<and> vresult s = Pending then fill i mapping_end True keep else keep)
            in match_mappings I deadline mapping_end e keep s w)"
  by pat_completeness auto
termination
  by (relation "measure (\<lambda>(I, deadline, i, e, keep, s, w). e - i)") auto

declare match_mappings.simps [simp del]

fun write_phase :: "'w preop_api \<Rightarrow> int \<Rightarrow> nat \<Rightarrow> check_field \<Rightarrow> bool list \<Rightarrow> nat list \<Rightarrow> 'q pdo_verification \<Rightarrow> 'w
    \<Rightarrow> 'q pdo_verification \<times> 'w" where
  "write_phase I deadline phase field keep [] s w = (s, w)"
| "write_phase I deadline phase field keep (i # rest) s w =
     (let s = s\<lparr>cursor := i\<rparr>; c = checks s ! i in
      if ck_field c \<noteq> field then write_phase I deadline phase field keep rest s w
      else if keep ! i then write_phase I deadline phase field keep rest s w
      else if ck_field c = MappingCount \<and> ck_expected c = 0 then write_phase I deadline phase field keep rest s w
      else
        let v = (if phase < 2 then 0 else ck_expected c) in
        case guarded_download I deadline c (le_encode (unat (ck_size c)) v) s w of
          (None, s, w) \<Rightarrow> (s, w)
        | (Some (rc, abort_code), s, w) \<Rightarrow>
            if rc \<noteq> 0 then (set_abort_code abort_code (fail Write rc v (unat (ck_size c)) s), w)
            else write_phase I deadline phase field keep rest s w)"

text \<open>
  Both assignments are disabled before a mapping is touched, mapping counts restored before the
  assignments are enabled.
\<close>

definition phases :: "check_field list" where
  "phases = [AssignmentCount, MappingCount, MappingEntry, MappingCount, Assignment, AssignmentCount]"

fun write_phases :: "'w preop_api \<Rightarrow> int \<Rightarrow> nat \<Rightarrow> check_field list \<Rightarrow> bool list \<Rightarrow> nat \<Rightarrow> nat
    \<Rightarrow> 'q pdo_verification \<Rightarrow> 'w \<Rightarrow> 'q pdo_verification \<times> 'w" where
  "write_phases I deadline phase [] keep b e s w = (s, w)"
| "write_phases I deadline phase (field # rest) keep b e s w =
     (if vresult s \<noteq> Pending then (s, w)
      else case write_phase I deadline phase field keep [b..<e] s w of
        (s, w) \<Rightarrow> write_phases I deadline (Suc phase) rest keep b e s w)"

fun readback :: "'w preop_api \<Rightarrow> int \<Rightarrow> nat list \<Rightarrow> 'q pdo_verification \<Rightarrow> 'w \<Rightarrow> 'q pdo_verification \<times> 'w" where
  "readback I deadline [] s w = (s, w)"
| "readback I deadline (i # rest) s w =
     (let s = s\<lparr>cursor := i\<rparr>; c = checks s ! i in
      case guarded_upload I deadline c s w of
        (None, s, w) \<Rightarrow> (s, w)
      | (Some (rc, dat, size', abort_code), s, w) \<Rightarrow>
          if rc \<noteq> 0 then (set_abort_code abort_code (fail Read rc 0 0 s), w)
          else (case compare (Some dat) size' s of
            (False, s) \<Rightarrow> (s, w)
          | (True, s) \<Rightarrow> readback I deadline rest s w))"

definition attempt :: "'w preop_api \<Rightarrow> int \<Rightarrow> nat \<Rightarrow> nat \<Rightarrow> bool list \<Rightarrow> 'q pdo_verification \<Rightarrow> 'w
    \<Rightarrow> bool list \<times> 'q pdo_verification \<times> 'w" where
  "attempt I deadline b e keep s w =
     (case match_mappings I deadline b e (fill b e False keep) (s\<lparr>vresult := Pending, verror := error_init\<rparr>) w of
        (keep, s, w) \<Rightarrow>
          (case write_phases I deadline 0 phases keep b e s w of
             (s, w) \<Rightarrow>
               if vresult s = Pending then (case readback I deadline [b..<e] s w of (s, w) \<Rightarrow> (keep, s, w))
               else (keep, s, w)))"

section \<open>Attempts and slaves\<close>

text \<open>\<open>n\<close> is the number of attempts left.\<close>

fun attempts :: "'w preop_api \<Rightarrow> int \<Rightarrow> nat \<Rightarrow> nat \<Rightarrow> nat \<Rightarrow> bool list \<Rightarrow> 'q pdo_verification \<Rightarrow> 'w
    \<Rightarrow> bool \<times> bool list \<times> 'q pdo_verification \<times> 'w" where
  "attempts I deadline b e 0 keep s w = (False, keep, s, w)"
| "attempts I deadline b e (Suc n) keep s w =
     (case attempt I deadline b e keep s w of
        (keep, s, w) \<Rightarrow>
          if vresult s = Pending then (True, keep, s, w)
          else if ve_failure (verror s) \<in> {PreopState, PreopTimeout, Clock} then (False, keep, s, w)
          else attempts I deadline b e n keep s w)"

definition block_end :: "check list \<Rightarrow> nat \<Rightarrow> nat" where
  "block_end cs b = Suc b + length (takeWhile (\<lambda>c. ck_slave_index c = ck_slave_index (cs ! b)) (drop (Suc b) cs))"

lemma block_end_gt: "b < block_end cs b"
  by (simp add: block_end_def)

function configure_slaves :: "'w preop_api \<Rightarrow> int \<Rightarrow> nat \<Rightarrow> nat \<Rightarrow> nat \<Rightarrow> bool list \<Rightarrow> 'q pdo_verification \<Rightarrow> 'w
    \<Rightarrow> bool \<times> 'q pdo_verification \<times> 'w" where
  "configure_slaves I deadline n limit b keep s w =
     (if limit \<le> b then (True, s, w)
      else
        let e = block_end (checks s) b in
        case attempts I deadline b e n keep s w of
          (verified, keep, s, w) \<Rightarrow>
            if \<not> verified then (False, s, w) else configure_slaves I deadline n limit e keep s w)"
  by pat_completeness auto
termination
proof (relation "measure (\<lambda>(I, deadline, n, limit, b, keep, s, w). limit - b)", simp)
  fix I :: "'w preop_api" and deadline :: int and n limit b :: nat and keep keep' :: "bool list"
    and s s' :: "'q pdo_verification" and w w' :: 'w and e x y z a
  assume "\<not> limit \<le> b" "e = block_end (checks s) b"
  then show "((I, deadline, n, limit, e, keep', s', w'), (I, deadline, n, limit, b, keep, s, w))
      \<in> measure (\<lambda>(I, deadline, n, limit, b, keep, s, w). limit - b)"
    using block_end_gt [of b "checks s"] by simp
qed

declare configure_slaves.simps [simp del]

datatype preop_outcome = PreopConfigured | AttemptsMustBePositive | PreopFailed verify_error

definition configure_preop :: "'w preop_api \<Rightarrow> bool \<Rightarrow> u32 \<Rightarrow> u32 \<Rightarrow> 'q pdo_verification \<Rightarrow> 'w
    \<Rightarrow> preop_outcome \<times> 'q pdo_verification \<times> 'w" where
  "configure_preop I master_present timeout_ms max_attempts s w =
     (if max_attempts = 0 then (AttemptsMustBePositive, s, w)
      else if \<not> prepared s \<or> \<not> master_present \<or> started s
      then (let s = fail NotPrepared 0 0 0 s in (PreopFailed (verror s), s, w))
      else (case clock_now I s w of
        (now, s, w) \<Rightarrow>
          let deadline = now + uint timeout_ms * 1000000 in
          if vresult s = Failed then (PreopFailed (verror s), s, w)
          else (case write_init_commands I deadline (init_writes s) s w of
            (False, s, w) \<Rightarrow> (PreopFailed (verror s), s, w)
          | (True, s, w) \<Rightarrow>
              (case configure_slaves I deadline (unat max_attempts) (length (checks s)) 0
                      (replicate (length (checks s)) False) s w of
                 (False, s, w) \<Rightarrow> (PreopFailed (verror s), s, w)
               | (True, s, w) \<Rightarrow>
                   (PreopConfigured, s\<lparr>cursor := 0, vresult := Pending, verror := error_init\<rparr>, w)))))"

end
