(* ===== verification/Preop_Trace.thy ===== *)
theory Preop_Trace
  imports Preop_Configuration
begin

text \<open>
  What \<open>configurePreop\<close> does on the bus: the log of its calls, recorded by the interface it runs on.
  The theory proves that every transfer, read or write, stands between a passed check of its slave and
  a second check, which ends the run when it is refused, that
  the number of transfers is bounded, and that success means every slave was written in the order of
  the plan and read back completely after the last write.
\<close>

section \<open>The log\<close>

datatype sdo_event =
    EvSlave u16 int slave_info
  | EvDownload u16 u16 u8 "u8 list" int
  | EvUpload u16 u16 u8 int "u8 list" nat
  | EvClock "int + int"

definition logged :: "'w preop_api \<Rightarrow> ('w \<times> sdo_event list) preop_api" where
  "logged I = \<lparr>al_preop = al_preop I,
     get_slave = (\<lambda>p (w, l). case get_slave I p w of
        ((rc, info), w) \<Rightarrow> ((rc, info), (w, l @ [EvSlave p rc info]))),
     sdo_download = (\<lambda>p i sub d (w, l). case sdo_download I p i sub d w of
        ((rc, a), w) \<Rightarrow> ((rc, a), (w, l @ [EvDownload p i sub d rc]))),
     sdo_upload = (\<lambda>p i sub (w, l). case sdo_upload I p i sub w of
        ((rc, d, n, a), w) \<Rightarrow> ((rc, d, n, a), (w, l @ [EvUpload p i sub rc d n]))),
     monotonic_ns = (\<lambda>(w, l). case monotonic_ns I w of (t, w) \<Rightarrow> (t, (w, l @ [EvClock t])))\<rparr>"

lemma logged_simps [simp]:
  "al_preop (logged I) = al_preop I"
  "get_slave (logged I) p (w, l) = (case get_slave I p w of
        ((rc, info), w) \<Rightarrow> ((rc, info), (w, l @ [EvSlave p rc info])))"
  "sdo_download (logged I) p i sub d (w, l) = (case sdo_download I p i sub d w of
        ((rc, a), w) \<Rightarrow> ((rc, a), (w, l @ [EvDownload p i sub d rc])))"
  "sdo_upload (logged I) p i sub (w, l) = (case sdo_upload I p i sub w of
        ((rc, d, n, a), w) \<Rightarrow> ((rc, d, n, a), (w, l @ [EvUpload p i sub rc d n])))"
  "monotonic_ns (logged I) (w, l) = (case monotonic_ns I w of (t, w) \<Rightarrow> (t, (w, l @ [EvClock t])))"
  by (simp_all add: logged_def)

fun is_download :: "sdo_event \<Rightarrow> bool" where
  "is_download (EvDownload p i sub d rc) = True"
| "is_download _ = False"

fun is_transfer :: "sdo_event \<Rightarrow> bool" where
  "is_transfer (EvDownload p i sub d rc) = True"
| "is_transfer (EvUpload p i sub rc d n) = True"
| "is_transfer _ = False"

lemma download_transfer: "is_download e \<Longrightarrow> is_transfer e"
  by (cases e) auto

text \<open>The event concerns the slave at position \<open>p\<close>; reading the clock concerns every slave.\<close>

fun concerns :: "u16 \<Rightarrow> sdo_event \<Rightarrow> bool" where
  "concerns p (EvSlave q rc info) \<longleftrightarrow> q = p"
| "concerns p (EvDownload q i sub d rc) \<longleftrightarrow> q = p"
| "concerns p (EvUpload q i sub rc d n) \<longleftrightarrow> q = p"
| "concerns p (EvClock t) \<longleftrightarrow> True"

text \<open>The two events of a passed guard: the slave healthy in PREOP, then the clock before the deadline.\<close>

definition passed :: "u8 \<Rightarrow> int \<Rightarrow> u16 \<Rightarrow> sdo_event list \<Rightarrow> bool" where
  "passed al deadline p ev \<longleftrightarrow> (\<exists>info t. ev = [EvSlave p 0 info, EvClock (Inr t)]
     \<and> si_al_state info = al \<and> si_error_flag info = 0 \<and> t < deadline)"

text \<open>A refused guard: the slave not healthy in PREOP, or the clock not before the deadline.\<close>

definition refused :: "u8 \<Rightarrow> int \<Rightarrow> u16 \<Rightarrow> sdo_event list \<Rightarrow> bool" where
  "refused al deadline p ev \<longleftrightarrow>
     (\<exists>rc info. ev = [EvSlave p rc info] \<and> \<not> (rc = 0 \<and> si_al_state info = al \<and> si_error_flag info = 0))
     \<or> (\<exists>info t. ev = [EvSlave p 0 info, EvClock t] \<and> si_al_state info = al \<and> si_error_flag info = 0
          \<and> (\<forall>now. t = Inr now \<longrightarrow> deadline \<le> now))"

fun transfer_of :: "u16 \<Rightarrow> sdo_event \<Rightarrow> bool" where
  "transfer_of p (EvDownload q i sub d rc) \<longleftrightarrow> q = p"
| "transfer_of p (EvUpload q i sub rc d n) \<longleftrightarrow> q = p"
| "transfer_of p _ \<longleftrightarrow> False"

text \<open>One transfer between two passed guards of its slave, and a log made of such exchanges only.\<close>

definition exchange :: "u8 \<Rightarrow> int \<Rightarrow> u16 \<Rightarrow> sdo_event list \<Rightarrow> bool" where
  "exchange al deadline p ev \<longleftrightarrow> (\<exists>g e h. ev = g @ [e] @ h
     \<and> passed al deadline p g \<and> transfer_of p e \<and> passed al deadline p h)"

definition guarded :: "u8 \<Rightarrow> int \<Rightarrow> sdo_event list \<Rightarrow> bool" where
  "guarded al deadline ev \<longleftrightarrow> (\<exists>xs. ev = concat xs \<and> (\<forall>x \<in> set xs. \<exists>p. exchange al deadline p x))"

text \<open>The end of a run that a guard stops: before a transfer, or after the one it follows.\<close>

definition broken :: "u8 \<Rightarrow> int \<Rightarrow> u16 \<Rightarrow> sdo_event list \<Rightarrow> bool" where
  "broken al deadline p ev \<longleftrightarrow> refused al deadline p ev
     \<or> (\<exists>g e h. ev = g @ [e] @ h \<and> passed al deadline p g \<and> transfer_of p e \<and> refused al deadline p h)"

definition stopped :: "u8 \<Rightarrow> int \<Rightarrow> sdo_event list \<Rightarrow> bool" where
  "stopped al deadline ev \<longleftrightarrow> (\<exists>a b p. ev = a @ b \<and> guarded al deadline a \<and> broken al deadline p b)"

lemma guarded_Nil [simp]: "guarded al deadline []"
  by (auto simp: guarded_def intro!: exI [of _ "[]"])

lemma guarded_exchange: "exchange al deadline p ev \<Longrightarrow> guarded al deadline ev"
  by (auto simp: guarded_def intro!: exI [of _ "[ev]"])

lemma guarded_append: "guarded al deadline a \<Longrightarrow> guarded al deadline b \<Longrightarrow> guarded al deadline (a @ b)"
  unfolding guarded_def by (metis Un_iff concat_append set_append)

lemma stopped_append: "guarded al deadline a \<Longrightarrow> stopped al deadline b \<Longrightarrow> stopped al deadline (a @ b)"
  unfolding stopped_def by (metis append.assoc guarded_append)

lemma stopped_broken: "broken al deadline p ev \<Longrightarrow> stopped al deadline ev"
  unfolding stopped_def using guarded_Nil by fastforce

section \<open>Pieces of a log\<close>

definition transfers :: "sdo_event list \<Rightarrow> nat" where
  "transfers ev = length (filter is_transfer ev)"

lemma transfers_simps [simp]:
  "transfers [] = 0" "transfers (a @ b) = transfers a + transfers b"
  "transfers (e # a) = (if is_transfer e then Suc (transfers a) else transfers a)"
  by (simp_all add: transfers_def)

text \<open>Exchanges, the last one perhaps broken off, about slaves in \<open>P\<close> with at most \<open>n\<close> transfers.\<close>

definition harmless :: "u8 \<Rightarrow> int \<Rightarrow> u16 set \<Rightarrow> nat \<Rightarrow> sdo_event list \<Rightarrow> bool" where
  "harmless al deadline P n ev \<longleftrightarrow> (guarded al deadline ev \<or> stopped al deadline ev) \<and> (\<forall>e \<in> set ev. \<exists>p \<in> P. concerns p e) \<and> transfers ev \<le> n"

lemma harmless_append:
  "harmless al deadline P m a \<Longrightarrow> guarded al deadline a \<Longrightarrow> harmless al deadline P n b
    \<Longrightarrow> harmless al deadline P (m + n) (a @ b)"
  by (auto simp: harmless_def intro: guarded_append stopped_append)

lemma harmless_mono:
  "harmless al deadline P m a \<Longrightarrow> m \<le> n \<Longrightarrow> P \<subseteq> Q \<Longrightarrow> harmless al deadline Q n a"
  unfolding harmless_def by (meson le_trans subsetD)

lemma harmless_Nil [simp]: "harmless al deadline P n []"
  by (simp add: harmless_def)

text \<open>A sequence of exchanges, one for each element of a list.\<close>

definition each :: "('a \<Rightarrow> sdo_event list \<Rightarrow> bool) \<Rightarrow> 'a list \<Rightarrow> sdo_event list \<Rightarrow> bool" where
  "each R xs ev \<longleftrightarrow> (\<exists>segs. ev = concat segs \<and> list_all2 R xs segs)"

lemma each_Nil [simp]: "each R [] ev \<longleftrightarrow> ev = []"
  by (auto simp: each_def)

lemma each_Cons: "R x a \<Longrightarrow> each R xs b \<Longrightarrow> each R (x # xs) (a @ b)"
  unfolding each_def by (metis concat.simps(2) list_all2_Cons)

lemma each_append: "each R xs a \<Longrightarrow> each R ys b \<Longrightarrow> each R (xs @ ys) (a @ b)"
  unfolding each_def by (metis concat_append list_all2_appendI)

text \<open>A write that counted: guarded before and after, with return code 0; a read likewise.\<close>

definition written :: "u8 \<Rightarrow> int \<Rightarrow> check \<times> u8 list \<Rightarrow> sdo_event list \<Rightarrow> bool" where
  "written al deadline cb ev \<longleftrightarrow> (\<exists>g h. passed al deadline (ck_slave_position (fst cb)) g
     \<and> passed al deadline (ck_slave_position (fst cb)) h
     \<and> ev = g @ [EvDownload (ck_slave_position (fst cb)) (ck_index (fst cb)) (ck_subindex (fst cb)) (snd cb) 0] @ h)"

definition confirmed :: "u8 \<Rightarrow> int \<Rightarrow> check \<Rightarrow> sdo_event list \<Rightarrow> bool" where
  "confirmed al deadline c ev \<longleftrightarrow> (\<exists>g h bytes. passed al deadline (ck_slave_position c) g
     \<and> passed al deadline (ck_slave_position c) h
     \<and> ev = g @ [EvUpload (ck_slave_position c) (ck_index c) (ck_subindex c) 0 bytes (unat (ck_size c))] @ h
     \<and> le_decode (take (unat (ck_size c)) bytes) = ck_expected c)"

text \<open>What a step of the configuration keeps of the verification object.\<close>

definition same_job :: "'q pdo_verification \<Rightarrow> 'q pdo_verification \<Rightarrow> bool" where
  "same_job s s' \<longleftrightarrow> checks s' = checks s \<and> init_writes s' = init_writes s \<and> requests s' = requests s
     \<and> started s' = started s \<and> prepared s' = prepared s \<and> busy s' = busy s"

lemma same_job_refl [simp]: "same_job s s"
  by (simp add: same_job_def)

lemma same_job_trans: "same_job a b \<Longrightarrow> same_job b c \<Longrightarrow> same_job a c"
  by (simp add: same_job_def)

lemma same_job_updates [simp]:
  "same_job s (fail f a v n t) = same_job s t" "same_job s (set_check c t) = same_job s t"
  "same_job s (set_abort_code x t) = same_job s t" "same_job s (t\<lparr>cursor := k\<rparr>) = same_job s t"
  "same_job (s\<lparr>cursor := k\<rparr>) t = same_job s t" "same_job s (t\<lparr>vresult := r, verror := e\<rparr>) = same_job s t"
  by (simp_all add: same_job_def set_check_def set_abort_code_def)

lemma set_simps [simp]:
  "vresult (set_check c s) = vresult s" "vresult (set_abort_code a s) = vresult s"
  "ve_failure (verror (set_check c s)) = ve_failure (verror s)"
  "ve_failure (verror (set_abort_code a s)) = ve_failure (verror s)"
  by (simp_all add: set_check_def set_abort_code_def)

lemma ve_failure_fail: "vresult s \<noteq> Failed \<Longrightarrow> ve_failure (verror (fail f a v n s)) = f"
  by (simp add: fail_def error_init_def)

section \<open>The guard\<close>

definition fatal :: "verify_failure \<Rightarrow> bool" where
  "fatal f \<longleftrightarrow> f \<in> {PreopState, PreopTimeout, Clock}"

text \<open>The state after a refused guard: nothing is transferred any more.\<close>

definition halted :: "'q pdo_verification \<Rightarrow> bool" where
  "halted s \<longleftrightarrow> vresult s = Failed \<and> fatal (ve_failure (verror s))"

lemma not_halted [simp]: "vresult s = Pending \<Longrightarrow> \<not> halted s"
  by (simp add: halted_def)

lemma halted_Failed [dest]: "halted s \<Longrightarrow> vresult s = Failed"
  by (simp add: halted_def)

lemma halted_cursor [simp]: "halted (s\<lparr>cursor := k\<rparr>) = halted s"
  by (simp add: halted_def)

lemma guard_log:
  assumes "guard (logged I) deadline c s (w, l) = (ok, s', (w', l'))" "vresult s = Pending"
  shows "\<exists>ev. l' = l @ ev \<and> (\<forall>e \<in> set ev. concerns (ck_slave_position c) e) \<and> transfers ev = 0 \<and> same_job s s'
    \<and> (if ok then s' = s \<and> passed (al_preop I) deadline (ck_slave_position c) ev
       else halted s' \<and> refused (al_preop I) deadline (ck_slave_position c) ev)"
proof -
  let ?p = "ck_slave_position c"
  obtain rc info w1 where g: "get_slave I ?p w = ((rc, info), w1)" by (metis prod.exhaust)
  show ?thesis
  proof (cases "rc \<noteq> 0 \<or> si_al_state info \<noteq> al_preop I \<or> si_error_flag info \<noteq> 0")
    case True
    with assms g have "ok = False" "l' = l @ [EvSlave ?p rc info]"
      "s' = set_check c (fail PreopState rc (ucast (si_al_state info)) (unat (si_error_flag info)) s)"
      by (auto simp: guard_def)
    moreover have "refused (al_preop I) deadline ?p [EvSlave ?p rc info]"
      using True by (auto simp: refused_def)
    ultimately show ?thesis using assms(2)
      by (auto simp: halted_def ve_failure_fail fatal_def)
  next
    case False
    obtain t w2 where m: "monotonic_ns I w1 = (t, w2)" by fastforce
    have l': "l' = l @ [EvSlave ?p rc info, EvClock t]" using assms False g m
      by (cases t) (auto simp: guard_def clock_now_def Let_def)
    show ?thesis
    proof (cases t)
      case (Inl err)
      let ?f = "fail Clock (- err) 0 0 s"
      have first: "(if deadline \<le> 0 then fail PreopTimeout 0 0 0 ?f else ?f) = ?f"
        by (simp add: fail_keeps_first)
      have "(ok, s') = (False, set_check c ?f)"
        using assms(1) False g m Inl unfolding guard_def by (simp add: clock_now_def first Let_def)
      then have "ok = False" "halted s'" "same_job s s'"
        using assms(2) by (simp_all add: halted_def ve_failure_fail fatal_def)
      moreover have "refused (al_preop I) deadline ?p [EvSlave ?p rc info, EvClock t]"
        using False Inl by (auto simp: refused_def)
      ultimately show ?thesis using l' by (intro exI [of _ "[EvSlave ?p rc info, EvClock t]"]) simp
    next
      case (Inr now)
      show ?thesis
      proof (cases "deadline \<le> now")
        case True
        with assms False g m Inr have "ok = False" "s' = set_check c (fail PreopTimeout 0 0 0 s)"
          by (auto simp: guard_def clock_now_def Let_def)
        moreover have "refused (al_preop I) deadline ?p [EvSlave ?p rc info, EvClock t]"
          using False Inr True by (auto simp: refused_def)
        ultimately show ?thesis using l' assms(2)
          by (intro exI [of _ "[EvSlave ?p rc info, EvClock t]"]) (simp add: halted_def ve_failure_fail fatal_def)
      next
        case now: False
        with assms False g m Inr have "ok = True" "s' = s"
          by (auto simp: guard_def clock_now_def Let_def)
        moreover have "passed (al_preop I) deadline ?p [EvSlave ?p rc info, EvClock t]"
          using False now Inr by (auto simp: passed_def)
        ultimately show ?thesis using l'
          by (intro exI [of _ "[EvSlave ?p rc info, EvClock t]"]) simp
      qed
    qed
  qed
qed

text \<open>A transfer between its guards: the log, and the outcome.\<close>

lemma guards_around:
  assumes g: "guard (logged I) deadline c s (w, l) = (True, s1, (w1, l1))"
    and h: "guard (logged I) deadline c s (w2, l1 @ [e]) = (ok, s2, (w3, l3))"
    and e: "transfer_of (ck_slave_position c) e" and pend: "vresult s = Pending"
  shows "\<exists>a b. l3 = l @ (a @ [e] @ b) \<and> harmless (al_preop I) deadline {ck_slave_position c} 1 (a @ [e] @ b)
    \<and> transfers a = 0 \<and> transfers b = 0 \<and> same_job s s2 \<and> passed (al_preop I) deadline (ck_slave_position c) a
    \<and> (if ok then s2 = s \<and> passed (al_preop I) deadline (ck_slave_position c) b
          \<and> guarded (al_preop I) deadline (a @ [e] @ b)
       else halted s2)"
proof -
  let ?p = "ck_slave_position c"
  from guard_log [OF g pend] obtain a where a: "l1 = l @ a" "\<forall>x \<in> set a. concerns ?p x" "transfers a = 0"
    "passed (al_preop I) deadline ?p a" by auto
  from guard_log [OF h pend] obtain b where b: "l3 = (l1 @ [e]) @ b" "\<forall>x \<in> set b. concerns ?p x" "transfers b = 0"
    "same_job s s2" "if ok then s2 = s \<and> passed (al_preop I) deadline ?p b
      else halted s2 \<and> refused (al_preop I) deadline ?p b" by blast
  have c: "concerns ?p e" and t: "transfers (a @ [e] @ b) \<le> 1"
    using e a(3) b(3) by (cases e; simp)+
  have gd: "guarded (al_preop I) deadline (a @ [e] @ b)" if ok
    using that a(4) b(5) e by (intro guarded_exchange [where p = ?p]) (auto simp: exchange_def)
  have st: "stopped (al_preop I) deadline (a @ [e] @ b)" if "\<not> ok"
    using that a(4) b(5) e by (intro stopped_broken [where p = ?p]) (auto simp: broken_def)
  have "harmless (al_preop I) deadline {?p} 1 (a @ [e] @ b)"
    using gd st a(2) b(2) c t by (cases ok) (auto simp: harmless_def)
  then show ?thesis
    using a b gd by (intro exI [of _ a] exI [of _ b]) (auto split: if_splits)
qed

lemma guard_refused:
  assumes "guard (logged I) deadline c s (w, l) = (False, s', (w', l'))" "vresult s = Pending"
  shows "\<exists>ev. l' = l @ ev \<and> harmless (al_preop I) deadline {ck_slave_position c} 1 ev \<and> transfers ev = 0
    \<and> same_job s s' \<and> halted s'"
  using guard_log [OF assms] by (auto simp: harmless_def broken_def intro!: stopped_broken)

lemma guarded_download_log:
  assumes "guarded_download (logged I) deadline c bytes s (w, l) = (r, s', (w', l'))" "vresult s = Pending"
  shows "\<exists>ev. l' = l @ ev \<and> harmless (al_preop I) deadline {ck_slave_position c} 1 ev \<and> same_job s s'
    \<and> (case r of None \<Rightarrow> halted s'
       | Some (rc, a) \<Rightarrow> s' = s \<and> guarded (al_preop I) deadline ev
           \<and> (rc = 0 \<longrightarrow> written (al_preop I) deadline (c, bytes) ev))"
proof -
  let ?p = "ck_slave_position c"
  obtain g s1 w1 l1 where g: "guard (logged I) deadline c s (w, l) = (g, s1, (w1, l1))" by (metis prod.exhaust)
  show ?thesis
  proof (cases g)
    case False
    with assms(1) g have "r = None" "s' = s1" "l' = l1" by (auto simp: guarded_download_def)
    with guard_refused [of I deadline c s w l s1 w1 l1] False g assms(2) show ?thesis by auto
  next
    case True
    obtain rc a w2 where d: "sdo_download I ?p (ck_index c) (ck_subindex c) bytes w1 = ((rc, a), w2)"
      by (metis prod.exhaust)
    let ?d = "EvDownload ?p (ck_index c) (ck_subindex c) bytes rc"
    obtain h s2 w3 l3 where h: "guard (logged I) deadline c s (w2, l1 @ [?d]) = (h, s2, (w3, l3))"
      by (metis prod.exhaust)
    have s1: "s1 = s" and first: "guard (logged I) deadline c s (w, l) = (True, s1, (w1, l1))"
      using guard_log [OF g assms(2)] g True by auto
    have out: "r = (if h then Some (rc, a) else None)" "s' = s2" "l' = l3"
      using assms(1) g True d h s1 by (auto simp: guarded_download_def split: if_splits bool.splits)
    from guards_around [OF first h _ assms(2)] obtain x y where
      "l3 = l @ (x @ [?d] @ y)" "harmless (al_preop I) deadline {?p} 1 (x @ [?d] @ y)" "same_job s s2"
      "passed (al_preop I) deadline ?p x"
      "if h then s2 = s \<and> passed (al_preop I) deadline ?p y \<and> guarded (al_preop I) deadline (x @ [?d] @ y)
       else halted s2" by auto
    then show ?thesis
      using out by (intro exI [of _ "x @ [?d] @ y"]) (auto simp: written_def split: if_splits)
  qed
qed

lemma no_transfers: "transfers ev = 0 \<Longrightarrow> \<forall>e \<in> set ev. \<not> is_download e"
  using download_transfer by (auto simp: transfers_def filter_empty_conv)

lemma guarded_upload_log:
  assumes "guarded_upload (logged I) deadline c s (w, l) = (r, s', (w', l'))" "vresult s = Pending"
  shows "\<exists>ev. l' = l @ ev \<and> harmless (al_preop I) deadline {ck_slave_position c} 1 ev
    \<and> (\<forall>e \<in> set ev. \<not> is_download e) \<and> same_job s s'
    \<and> (case r of None \<Rightarrow> halted s'
       | Some (rc, dat, n, a) \<Rightarrow> s' = s \<and> guarded (al_preop I) deadline ev
           \<and> (rc = 0 \<and> n = unat (ck_size c) \<and> le_decode (take n dat) = ck_expected c
                \<longrightarrow> confirmed (al_preop I) deadline c ev))"
proof -
  let ?p = "ck_slave_position c"
  obtain g s1 w1 l1 where g: "guard (logged I) deadline c s (w, l) = (g, s1, (w1, l1))" by (metis prod.exhaust)
  show ?thesis
  proof (cases g)
    case False
    with assms(1) g have "r = None" "s' = s1" "l' = l1" by (auto simp: guarded_upload_def)
    with guard_refused [of I deadline c s w l s1 w1 l1] False g assms(2) no_transfers show ?thesis by auto
  next
    case True
    obtain rc dat n a w2 where d: "sdo_upload I ?p (ck_index c) (ck_subindex c) w1 = ((rc, dat, n, a), w2)"
      by (metis prod.exhaust)
    let ?d = "EvUpload ?p (ck_index c) (ck_subindex c) rc dat n"
    obtain h s2 w3 l3 where h: "guard (logged I) deadline c s (w2, l1 @ [?d]) = (h, s2, (w3, l3))"
      by (metis prod.exhaust)
    have s1: "s1 = s" and first: "guard (logged I) deadline c s (w, l) = (True, s1, (w1, l1))"
      using guard_log [OF g assms(2)] g True by auto
    have out: "r = (if h then Some (rc, dat, n, a) else None)" "s' = s2" "l' = l3"
      using assms(1) g True d h s1 by (auto simp: guarded_upload_def split: if_splits bool.splits)
    from guards_around [OF first h _ assms(2)] obtain x y where xy:
      "l3 = l @ (x @ [?d] @ y)" "harmless (al_preop I) deadline {?p} 1 (x @ [?d] @ y)" "same_job s s2"
      "transfers x = 0" "transfers y = 0" "passed (al_preop I) deadline ?p x"
      "if h then s2 = s \<and> passed (al_preop I) deadline ?p y \<and> guarded (al_preop I) deadline (x @ [?d] @ y)
       else halted s2" by auto
    have "\<forall>e \<in> set (x @ [?d] @ y). \<not> is_download e"
      using no_transfers [OF xy(4)] no_transfers [OF xy(5)] by auto
    with xy show ?thesis
      using out by (intro exI [of _ "x @ [?d] @ y"]) (auto simp: confirmed_def split: if_splits)
  qed
qed

section \<open>The loops of an attempt\<close>

definition position_of :: "check list \<Rightarrow> nat list \<Rightarrow> u16 set" where
  "position_of cs is = (\<lambda>i. ck_slave_position (cs ! i)) ` set is"

lemma position_of_simps [simp]:
  "position_of cs [] = {}" "position_of cs (i # is) = insert (ck_slave_position (cs ! i)) (position_of cs is)"
  by (simp_all add: position_of_def)

text \<open>
  The common shape of the results: an extension of the log by whole exchanges, unless the state is
  halted, and a state that did not complete.
\<close>

definition progress :: "u8 \<Rightarrow> int \<Rightarrow> u16 set \<Rightarrow> nat \<Rightarrow> 'q pdo_verification \<Rightarrow> 'q pdo_verification
    \<Rightarrow> sdo_event list \<Rightarrow> bool" where
  "progress al deadline P n s s' ev \<longleftrightarrow> harmless al deadline P n ev \<and> same_job s s' \<and> vresult s' \<noteq> Complete
     \<and> (guarded al deadline ev \<or> halted s')"

lemma progress_append:
  "progress al dl P m s t a \<Longrightarrow> progress al dl P n t u b \<Longrightarrow> (halted t \<Longrightarrow> b = [] \<and> halted u)
    \<Longrightarrow> progress al dl P (m + n) s u (a @ b)"
  by (cases "halted t")
     (auto simp: progress_def intro: harmless_append guarded_append same_job_trans harmless_mono [OF _ _ order_refl])

lemma progress_pending:
  "progress al dl P m s t a \<Longrightarrow> progress al dl P n t u b \<Longrightarrow> vresult t = Pending
    \<Longrightarrow> progress al dl P (m + n) s u (a @ b)"
  by (rule progress_append) auto

lemma progress_mono:
  "progress al dl P m s t a \<Longrightarrow> m \<le> n \<Longrightarrow> P \<subseteq> Q \<Longrightarrow> progress al dl Q n s t a"
  by (auto simp: progress_def intro: harmless_mono)

lemma write_init_log:
  "write_init_commands (logged I) deadline writes s (w, l) = (ok, s', (w', l')) \<Longrightarrow> vresult s = Pending \<Longrightarrow>
   \<exists>ev. l' = l @ ev \<and> progress (al_preop I) deadline (iw_position ` set writes) (length writes) s s' ev
     \<and> (if ok then s' = s \<and> each (\<lambda>x. written (al_preop I) deadline (init_check x, init_bytes x)) writes ev
        else vresult s' = Failed)"
proof (induction writes arbitrary: w l)
  case Nil
  then show ?case by (simp add: progress_def)
next
  case (Cons x xs)
  let ?c = "init_check x"
  have pos: "ck_slave_position ?c = iw_position x" by (simp add: init_check_def)
  obtain r s1 w1 l1 where d: "guarded_download (logged I) deadline ?c (init_bytes x) s (w, l) = (r, s1, (w1, l1))"
    by (metis prod.exhaust)
  from guarded_download_log [OF d Cons.prems(2)] obtain ev where ev: "l1 = l @ ev"
    "harmless (al_preop I) deadline {iw_position x} 1 ev" "same_job s s1"
    "case r of None \<Rightarrow> halted s1
       | Some (rc, a) \<Rightarrow> s1 = s \<and> guarded (al_preop I) deadline ev \<and> (rc = 0 \<longrightarrow> written (al_preop I) deadline (?c, init_bytes x) ev)"
    unfolding pos by blast
  have wide: "harmless (al_preop I) deadline (iw_position ` set (x # xs)) (length (x # xs)) ev"
    using ev(2) by (rule harmless_mono) auto
  show ?case
  proof (cases r)
    case None
    with Cons.prems(1) d have "ok = False" "s' = s1" "l' = l1" by (auto simp: Let_def)
    with None ev wide show ?thesis by (auto simp: progress_def)
  next
    case (Some ra)
    obtain rc a where ra: "ra = (rc, a)" by fastforce
    show ?thesis
    proof (cases "rc = 0")
      case False
      with Cons.prems(1) d Some ra have "ok = False" "l' = l1"
        "s' = set_abort_code a (set_check ?c (fail Write rc 0 0 s1))" by (auto simp: Let_def)
      with ev wide Some ra show ?thesis by (auto simp: progress_def)
    next
      case True
      with Cons.prems(1) d Some ra ev(4) have rest:
        "write_init_commands (logged I) deadline xs s (w1, l1) = (ok, s', (w', l'))"
        and w: "written (al_preop I) deadline (?c, init_bytes x) ev"
        and whole: "guarded (al_preop I) deadline ev" by (auto simp: Let_def)
      from Cons.IH [OF rest Cons.prems(2)] obtain ev' where ev': "l' = l1 @ ev'"
        "progress (al_preop I) deadline (iw_position ` set xs) (length xs) s s' ev'"
        "if ok then s' = s \<and> each (\<lambda>x. written (al_preop I) deadline (init_check x, init_bytes x)) xs ev'
         else vresult s' = Failed" by blast
      have one: "progress (al_preop I) deadline (iw_position ` set (x # xs)) 1 s s ev"
        using ev(2) Cons.prems(2) whole by (auto simp: progress_def intro: harmless_mono)
      have more: "progress (al_preop I) deadline (iw_position ` set (x # xs)) (length xs) s s' ev'"
        using ev'(2) by (rule progress_mono) auto
      have "progress (al_preop I) deadline (iw_position ` set (x # xs)) (length (x # xs)) s s' (ev @ ev')"
        using progress_pending [OF one more Cons.prems(2)] by simp
      with ev' ev(1) w show ?thesis
        by (intro exI [of _ "ev @ ev'"]) (auto intro: each_Cons [where R = "\<lambda>x. written (al_preop I) deadline (init_check x, init_bytes x)"])
    qed
  qed
qed

lemma match_mapping_log:
  "match_mapping (logged I) deadline is s (w, l) = (same, s', (w', l')) \<Longrightarrow> vresult s = Pending \<Longrightarrow>
   \<exists>ev. l' = l @ ev \<and> progress (al_preop I) deadline (position_of (checks s) is) (length is) s s' ev
     \<and> (\<forall>e \<in> set ev. \<not> is_download e)
     \<and> (same \<and> vresult s' = Pending \<longrightarrow> each (confirmed (al_preop I) deadline) (map ((!) (checks s)) is) ev)"
proof (induction "is" arbitrary: s w l)
  case Nil
  then show ?case by (auto simp: progress_def)
next
  case (Cons i "is")
  let ?c = "checks s ! i" and ?s = "s\<lparr>cursor := i\<rparr>"
  have pend: "vresult ?s = Pending" using Cons.prems(2) by simp
  obtain r s1 w1 l1 where d: "guarded_upload (logged I) deadline ?c ?s (w, l) = (r, s1, (w1, l1))"
    by (metis prod.exhaust)
  from guarded_upload_log [OF d pend] obtain ev where ev: "l1 = l @ ev"
    "harmless (al_preop I) deadline {ck_slave_position ?c} 1 ev" "\<forall>e \<in> set ev. \<not> is_download e" "same_job s s1"
    "case r of None \<Rightarrow> halted s1
       | Some (rc, dat, n, a) \<Rightarrow> s1 = ?s \<and> guarded (al_preop I) deadline ev \<and> (rc = 0 \<and> n = unat (ck_size ?c) \<and> le_decode (take n dat) = ck_expected ?c
           \<longrightarrow> confirmed (al_preop I) deadline ?c ev)"
    by auto
  have one: "harmless (al_preop I) deadline (position_of (checks s) (i # is)) 1 ev"
    using ev(2) by (rule harmless_mono) auto
  then have wide: "harmless (al_preop I) deadline (position_of (checks s) (i # is)) (length (i # is)) ev"
    by (rule harmless_mono) auto
  show ?case
  proof (cases r)
    case None
    with Cons.prems(1) d have "s' = s1" "l' = l1" by (auto simp: Let_def)
    with None ev wide show ?thesis by (intro exI [of _ ev]) (auto simp: progress_def)
  next
    case (Some ra)
    obtain rc dat n a where ra: "ra = (rc, dat, n, a)" by (metis prod.exhaust)
    have s1: "s1 = ?s" and whole: "guarded (al_preop I) deadline ev" using ev(5) Some ra by simp_all
    consider "rc \<noteq> 0" | "rc = 0" "n \<noteq> unat (ck_size ?c)"
      | "rc = 0" "n = unat (ck_size ?c)" "le_decode (take n dat) \<noteq> ck_expected ?c"
      | "rc = 0" "n = unat (ck_size ?c)" "le_decode (take n dat) = ck_expected ?c" by blast
    then show ?thesis
    proof cases
      case 1
      with Cons.prems(1) d Some ra s1 have "l' = l1" "s' = set_abort_code a (fail Read rc 0 0 ?s)" by (auto simp: Let_def)
      with ev wide whole show ?thesis by (intro exI [of _ ev]) (auto simp: progress_def)
    next
      case 2
      with Cons.prems(1) d Some ra s1 have "l' = l1" "s' = fail Size 0 0 n ?s" by (auto simp: Let_def)
      with ev wide whole show ?thesis by (intro exI [of _ ev]) (auto simp: progress_def)
    next
      case 3
      with Cons.prems(1) d Some ra s1 have "l' = l1" "s' = ?s" "\<not> same" by (auto simp: Let_def)
      with ev wide whole pend show ?thesis by (intro exI [of _ ev]) (auto simp: progress_def)
    next
      case 4
      with Cons.prems(1) d Some ra s1 have rest:
        "match_mapping (logged I) deadline is ?s (w1, l1) = (same, s', (w', l'))" by (auto simp: Let_def)
      from Cons.IH [OF rest pend] obtain ev' where ev': "l' = l1 @ ev'"
        "progress (al_preop I) deadline (position_of (checks s) is) (length is) ?s s' ev'"
        "\<forall>e \<in> set ev'. \<not> is_download e"
        "same \<and> vresult s' = Pending \<longrightarrow> each (confirmed (al_preop I) deadline) (map ((!) (checks s)) is) ev'" by auto
      have first: "progress (al_preop I) deadline (position_of (checks s) (i # is)) 1 s ?s ev"
        using one pend whole by (simp add: progress_def)
      have more: "progress (al_preop I) deadline (position_of (checks s) (i # is)) (length is) ?s s' ev'"
        using ev'(2) by (rule progress_mono) auto
      have "confirmed (al_preop I) deadline ?c ev" using ev(5) Some ra 4 by simp
      with ev ev' progress_pending [OF first more pend] show ?thesis
        by (intro exI [of _ "ev @ ev'"]) (auto intro: each_Cons)
    qed
  qed
qed

lemma readback_log:
  "readback (logged I) deadline is s (w, l) = (s', (w', l')) \<Longrightarrow> vresult s = Pending \<Longrightarrow>
   \<exists>ev. l' = l @ ev \<and> progress (al_preop I) deadline (position_of (checks s) is) (length is) s s' ev
     \<and> (vresult s' = Pending \<longrightarrow> each (confirmed (al_preop I) deadline) (map ((!) (checks s)) is) ev)"
proof (induction "is" arbitrary: s w l)
  case Nil
  then show ?case by (auto simp: progress_def)
next
  case (Cons i "is")
  let ?c = "checks s ! i" and ?s = "s\<lparr>cursor := i\<rparr>"
  have pend: "vresult ?s = Pending" using Cons.prems(2) by simp
  obtain r s1 w1 l1 where d: "guarded_upload (logged I) deadline ?c ?s (w, l) = (r, s1, (w1, l1))"
    by (metis prod.exhaust)
  from guarded_upload_log [OF d pend] obtain ev where ev: "l1 = l @ ev"
    "harmless (al_preop I) deadline {ck_slave_position ?c} 1 ev" "same_job s s1"
    "case r of None \<Rightarrow> halted s1
       | Some (rc, dat, n, a) \<Rightarrow> s1 = ?s \<and> guarded (al_preop I) deadline ev \<and> (rc = 0 \<and> n = unat (ck_size ?c) \<and> le_decode (take n dat) = ck_expected ?c
           \<longrightarrow> confirmed (al_preop I) deadline ?c ev)"
    by auto
  have one: "harmless (al_preop I) deadline (position_of (checks s) (i # is)) 1 ev"
    using ev(2) by (rule harmless_mono) auto
  then have wide: "harmless (al_preop I) deadline (position_of (checks s) (i # is)) (length (i # is)) ev"
    by (rule harmless_mono) auto
  show ?case
  proof (cases r)
    case None
    with Cons.prems(1) d have "s' = s1" "l' = l1" by (auto simp: Let_def)
    with None ev wide show ?thesis by (intro exI [of _ ev]) (auto simp: progress_def)
  next
    case (Some ra)
    obtain rc dat n a where ra: "ra = (rc, dat, n, a)" by (metis prod.exhaust)
    have s1: "s1 = ?s" and whole: "guarded (al_preop I) deadline ev" using ev(4) Some ra by simp_all
    obtain b s2 where cmp: "compare (Some dat) n ?s = (b, s2)" by fastforce
    consider "rc \<noteq> 0" | "rc = 0" "\<not> b" | "rc = 0" "b" by blast
    then show ?thesis
    proof cases
      case 1
      with Cons.prems(1) d Some ra s1 have "l' = l1" "s' = set_abort_code a (fail Read rc 0 0 ?s)" by (auto simp: Let_def)
      with ev wide whole show ?thesis by (intro exI [of _ ev]) (auto simp: progress_def)
    next
      case 2
      have "vresult s2 = Failed" "same_job s s2"
        using cmp 2(2) by (auto simp: compare_def Let_def split: option.splits if_splits)
      moreover from 2 Cons.prems(1) d Some ra s1 cmp have "l' = l1" "s' = s2" by (auto simp: Let_def)
      ultimately show ?thesis using ev wide whole by (intro exI [of _ ev]) (auto simp: progress_def)
    next
      case 3
      have ok: "s2 = ?s" "n = unat (ck_size ?c)" "le_decode (take n dat) = ck_expected ?c"
        using cmp 3(2) by (auto simp: compare_def Let_def split: option.splits if_splits)
      with 3 Cons.prems(1) d Some ra s1 cmp have rest:
        "readback (logged I) deadline is ?s (w1, l1) = (s', (w', l'))" by (auto simp: Let_def)
      from Cons.IH [OF rest pend] obtain ev' where ev': "l' = l1 @ ev'"
        "progress (al_preop I) deadline (position_of (checks s) is) (length is) ?s s' ev'"
        "vresult s' = Pending \<longrightarrow> each (confirmed (al_preop I) deadline) (map ((!) (checks s)) is) ev'" by auto
      have first: "progress (al_preop I) deadline (position_of (checks s) (i # is)) 1 s ?s ev"
        using one pend whole by (simp add: progress_def)
      have more: "progress (al_preop I) deadline (position_of (checks s) (i # is)) (length is) ?s s' ev'"
        using ev'(2) by (rule progress_mono) auto
      have "confirmed (al_preop I) deadline ?c ev" using ev(4) Some ra 3 ok by simp
      with ev ev' progress_pending [OF first more pend] show ?thesis
        by (intro exI [of _ "ev @ ev'"]) (auto intro: each_Cons)
    qed
  qed
qed

text \<open>The writes one phase owes, and the writes of all phases.\<close>

definition planned :: "check list \<Rightarrow> bool list \<Rightarrow> check_field \<Rightarrow> nat \<Rightarrow> bool" where
  "planned cs keep field i \<longleftrightarrow> ck_field (cs ! i) = field \<and> \<not> keep ! i
     \<and> \<not> (field = MappingCount \<and> ck_expected (cs ! i) = 0)"

definition phase_plan :: "check list \<Rightarrow> bool list \<Rightarrow> nat \<Rightarrow> check_field \<Rightarrow> nat list \<Rightarrow> (check \<times> u8 list) list" where
  "phase_plan cs keep phase field is =
     map (\<lambda>i. (cs ! i, le_encode (unat (ck_size (cs ! i))) (if phase < 2 then 0 else ck_expected (cs ! i))))
       (filter (planned cs keep field) is)"

definition write_plan :: "check list \<Rightarrow> bool list \<Rightarrow> nat \<Rightarrow> check_field list \<Rightarrow> nat list \<Rightarrow> (check \<times> u8 list) list" where
  "write_plan cs keep phase flds is =
     concat (map (\<lambda>(phase, field). phase_plan cs keep phase field is) (enumerate phase flds))"

lemma write_phase_log:
  "write_phase (logged I) deadline phase field keep is s (w, l) = (s', (w', l')) \<Longrightarrow> vresult s = Pending \<Longrightarrow>
   \<exists>ev. l' = l @ ev
     \<and> progress (al_preop I) deadline (position_of (checks s) is) (length (phase_plan (checks s) keep phase field is)) s s' ev
     \<and> (vresult s' = Pending \<longrightarrow> each (written (al_preop I) deadline) (phase_plan (checks s) keep phase field is) ev)"
proof (induction "is" arbitrary: s w l)
  case Nil
  then show ?case by (auto simp: progress_def phase_plan_def)
next
  case (Cons i "is")
  let ?c = "checks s ! i" and ?s = "s\<lparr>cursor := i\<rparr>"
  let ?b = "le_encode (unat (ck_size ?c)) (if phase < 2 then 0 else ck_expected ?c)"
  have pend: "vresult ?s = Pending" using Cons.prems(2) by simp
  show ?case
  proof (cases "planned (checks s) keep field i")
    case False
    with Cons.prems(1) have "write_phase (logged I) deadline phase field keep is ?s (w, l) = (s', (w', l'))"
      by (auto simp: planned_def Let_def split: if_splits)
    from Cons.IH [OF this pend] obtain ev where ev: "l' = l @ ev"
      "progress (al_preop I) deadline (position_of (checks s) is) (length (phase_plan (checks s) keep phase field is)) ?s s' ev"
      "vresult s' = Pending \<longrightarrow> each (written (al_preop I) deadline) (phase_plan (checks s) keep phase field is) ev" by auto
    have "phase_plan (checks s) keep phase field (i # is) = phase_plan (checks s) keep phase field is"
      using False by (simp add: phase_plan_def)
    moreover have "progress (al_preop I) deadline (position_of (checks s) (i # is))
        (length (phase_plan (checks s) keep phase field is)) ?s s' ev"
      using ev(2) by (rule progress_mono) auto
    ultimately show ?thesis using ev by (auto simp: progress_def)
  next
    case True
    then have plan: "phase_plan (checks s) keep phase field (i # is) = (?c, ?b) # phase_plan (checks s) keep phase field is"
      by (simp add: phase_plan_def)
    obtain r s1 w1 l1 where d: "guarded_download (logged I) deadline ?c ?b ?s (w, l) = (r, s1, (w1, l1))"
      by (metis prod.exhaust)
    from guarded_download_log [OF d pend] obtain ev where ev: "l1 = l @ ev"
      "harmless (al_preop I) deadline {ck_slave_position ?c} 1 ev" "same_job s s1"
      "case r of None \<Rightarrow> halted s1
       | Some (rc, a) \<Rightarrow> s1 = ?s \<and> guarded (al_preop I) deadline ev \<and> (rc = 0 \<longrightarrow> written (al_preop I) deadline (?c, ?b) ev)"
      by auto
    have one: "harmless (al_preop I) deadline (position_of (checks s) (i # is)) 1 ev"
      using ev(2) by (rule harmless_mono) auto
    then have wide: "harmless (al_preop I) deadline (position_of (checks s) (i # is))
        (length (phase_plan (checks s) keep phase field (i # is))) ev"
      unfolding plan by (rule harmless_mono) auto
    have step: "write_phase (logged I) deadline phase field keep (i # is) s (w, l) =
       (case r of None \<Rightarrow> (s1, (w1, l1))
        | Some (rc, a) \<Rightarrow> if rc \<noteq> 0 then (set_abort_code a (fail Write rc (if phase < 2 then 0 else ck_expected ?c)
              (unat (ck_size ?c)) s1), (w1, l1))
            else write_phase (logged I) deadline phase field keep is s1 (w1, l1))"
      using True d by (auto simp: planned_def Let_def split: option.splits)
    show ?thesis
    proof (cases r)
      case None
      with Cons.prems(1) step have "s' = s1" "l' = l1" by auto
      with None ev wide show ?thesis by (intro exI [of _ ev]) (auto simp: progress_def)
    next
      case (Some ra)
      obtain rc a where ra: "ra = (rc, a)" by fastforce
      have whole: "guarded (al_preop I) deadline ev" using ev(4) Some ra by simp
      show ?thesis
      proof (cases "rc = 0")
        case False
        with Cons.prems(1) step Some ra have "l' = l1"
          "s' = set_abort_code a (fail Write rc (if phase < 2 then 0 else ck_expected ?c) (unat (ck_size ?c)) s1)" by auto
        with ev wide whole show ?thesis by (intro exI [of _ ev]) (auto simp: progress_def)
      next
        case zero: True
        with Cons.prems(1) step Some ra ev(4) have rest:
          "write_phase (logged I) deadline phase field keep is ?s (w1, l1) = (s', (w', l'))"
          and wr: "written (al_preop I) deadline (?c, ?b) ev" by auto
        from Cons.IH [OF rest pend] obtain ev' where ev': "l' = l1 @ ev'"
          "progress (al_preop I) deadline (position_of (checks s) is) (length (phase_plan (checks s) keep phase field is)) ?s s' ev'"
          "vresult s' = Pending \<longrightarrow> each (written (al_preop I) deadline) (phase_plan (checks s) keep phase field is) ev'" by auto
        have first: "progress (al_preop I) deadline (position_of (checks s) (i # is)) 1 s ?s ev"
          using one pend whole by (simp add: progress_def)
        have more: "progress (al_preop I) deadline (position_of (checks s) (i # is))
            (length (phase_plan (checks s) keep phase field is)) ?s s' ev'"
          using ev'(2) by (rule progress_mono) auto
        from ev ev' wr progress_pending [OF first more pend] show ?thesis
          unfolding plan by (intro exI [of _ "ev @ ev'"]) (auto intro: each_Cons)
      qed
    qed
  qed
qed

lemma write_phases_log:
  "write_phases (logged I) deadline phase flds keep b e s (w, l) = (s', (w', l')) \<Longrightarrow> vresult s \<noteq> Complete \<Longrightarrow>
   \<exists>ev. l' = l @ ev
     \<and> progress (al_preop I) deadline (position_of (checks s) [b..<e])
          (length (write_plan (checks s) keep phase flds [b..<e])) s s' ev
     \<and> (vresult s = Failed \<longrightarrow> s' = s \<and> ev = [])
     \<and> (vresult s' = Pending \<longrightarrow> each (written (al_preop I) deadline) (write_plan (checks s) keep phase flds [b..<e]) ev)"
proof (induction flds arbitrary: phase s w l)
  case Nil
  then show ?case by (auto simp: progress_def write_plan_def)
next
  case (Cons field flds)
  show ?case
  proof (cases "vresult s = Pending")
    case False
    with Cons.prems show ?thesis by (auto simp: progress_def)
  next
    case True
    obtain s1 w1 l1 where p: "write_phase (logged I) deadline phase field keep [b..<e] s (w, l) = (s1, (w1, l1))"
      by (metis prod.exhaust)
    from write_phase_log [OF p True] obtain ev where ev: "l1 = l @ ev"
      "progress (al_preop I) deadline (position_of (checks s) [b..<e]) (length (phase_plan (checks s) keep phase field [b..<e])) s s1 ev"
      "vresult s1 = Pending \<longrightarrow> each (written (al_preop I) deadline) (phase_plan (checks s) keep phase field [b..<e]) ev" by blast
    have rest: "write_phases (logged I) deadline (Suc phase) flds keep b e s1 (w1, l1) = (s', (w', l'))"
      using Cons.prems(1) True p by simp
    have s1: "vresult s1 \<noteq> Complete" "checks s1 = checks s" using ev(2) by (auto simp: progress_def same_job_def)
    from Cons.IH [OF rest s1(1)] obtain ev' where ev': "l' = l1 @ ev'"
      "progress (al_preop I) deadline (position_of (checks s) [b..<e]) (length (write_plan (checks s) keep (Suc phase) flds [b..<e])) s1 s' ev'"
      "vresult s1 = Failed \<longrightarrow> s' = s1 \<and> ev' = []"
      "vresult s' = Pending \<longrightarrow> each (written (al_preop I) deadline) (write_plan (checks s) keep (Suc phase) flds [b..<e]) ev'"
      unfolding s1(2) by blast
    have "vresult s' = Pending \<Longrightarrow> vresult s1 = Pending" using ev'(3) s1(1) by (cases "vresult s1") auto
    moreover have "progress (al_preop I) deadline (position_of (checks s) [b..<e])
        (length (phase_plan (checks s) keep phase field [b..<e])
          + length (write_plan (checks s) keep (Suc phase) flds [b..<e])) s s' (ev @ ev')"
      using ev'(3) by (intro progress_append [OF ev(2) ev'(2)]) auto
    ultimately show ?thesis
      using ev ev' True
      by (intro exI [of _ "ev @ ev'"]) (auto simp: write_plan_def intro: each_append)
  qed
qed

text \<open>The mapping of a count check lies inside the block it belongs to.\<close>

definition well_laid :: "check list \<Rightarrow> nat \<Rightarrow> nat \<Rightarrow> bool" where
  "well_laid cs b e \<longleftrightarrow> (\<forall>i. b \<le> i \<and> i < e \<and> ck_field (cs ! i) = MappingCount
     \<longrightarrow> i + 1 + unat (ck_expected (cs ! i)) \<le> e)"

text \<open>The object of the check was read and had the expected value.\<close>

definition seen :: "check \<Rightarrow> sdo_event list \<Rightarrow> bool" where
  "seen c ev \<longleftrightarrow> (\<exists>bytes. EvUpload (ck_slave_position c) (ck_index c) (ck_subindex c) 0 bytes (unat (ck_size c)) \<in> set ev
     \<and> le_decode (take (unat (ck_size c)) bytes) = ck_expected c)"

lemma seen_append: "seen c a \<or> seen c b \<Longrightarrow> seen c (a @ b)"
  by (auto simp: seen_def)

lemma each_seen:
  assumes "each (confirmed al dl) cs ev" "c \<in> set cs"
  shows "seen c ev"
proof -
  from assms(1) obtain segs where segs: "ev = concat segs" "list_all2 (confirmed al dl) cs segs"
    by (auto simp: each_def)
  from segs(2) assms(2) obtain seg where "seg \<in> set segs" "confirmed al dl c seg"
    by (metis in_set_conv_nth list_all2_conv_all_nth)
  then have "seen c seg" by (auto simp: confirmed_def seen_def)
  with \<open>seg \<in> set segs\<close> segs(1) show ?thesis by (auto simp: seen_def)
qed

lemma length_fill [simp]: "length (fill b e v xs) = length xs"
  by (simp add: fill_def)

lemma nth_fill: "i < length xs \<Longrightarrow> fill b e v xs ! i = (if b \<le> i \<and> i < e then v else xs ! i)"
  by (simp add: fill_def)

lemma position_of_mono: "set is \<subseteq> set js \<Longrightarrow> position_of cs is \<subseteq> position_of cs js"
  by (auto simp: position_of_def)

definition kept_by :: "check list \<Rightarrow> bool list \<Rightarrow> bool list \<Rightarrow> sdo_event list \<Rightarrow> bool" where
  "kept_by cs keep keep' ev \<longleftrightarrow> length keep' = length keep
     \<and> (\<forall>j < length keep. keep' ! j \<longrightarrow> keep ! j \<or> seen (cs ! j) ev)"

lemma kept_by_refl [simp]: "kept_by cs keep keep ev"
  by (simp add: kept_by_def)

lemma kept_by_trans: "kept_by cs k1 k2 a \<Longrightarrow> kept_by cs k2 k3 b \<Longrightarrow> kept_by cs k1 k3 (a @ b)"
  unfolding kept_by_def by (metis seen_append)

lemma match_mappings_log:
  assumes "match_mappings (logged I) deadline i e keep s (w, l) = (keep', s', (w', l'))"
    and "vresult s \<noteq> Complete" "b \<le> i" "well_laid (checks s) b e"
  shows "\<exists>ev. l' = l @ ev \<and> progress (al_preop I) deadline (position_of (checks s) [b..<e]) (e - i) s s' ev
    \<and> (\<forall>x \<in> set ev. \<not> is_download x) \<and> kept_by (checks s) keep keep' ev
    \<and> (vresult s = Failed \<longrightarrow> ev = [] \<and> halted s' = halted s)"
  using assms
proof (induction "e - i" arbitrary: i keep s w l rule: less_induct)
  case less
  note eq = match_mappings.simps [of "logged I" deadline i e keep s "(w, l)"]
  consider (stop) "e \<le> i \<or> vresult s \<noteq> Pending"
    | (skip) "i < e" "vresult s = Pending" "ck_field (checks s ! i) \<noteq> MappingCount \<or> ck_expected (checks s ! i) = 0"
    | (map) "i < e" "vresult s = Pending" "ck_field (checks s ! i) = MappingCount" "ck_expected (checks s ! i) \<noteq> 0"
    by linarith
  then show ?case
  proof cases
    case stop
    with less.prems(1,2) eq show ?thesis by (auto simp: progress_def)
  next
    case skip
    with less.prems(1) eq have rest: "match_mappings (logged I) deadline (Suc i) e keep s (w, l) = (keep', s', (w', l'))"
      by (auto split: if_splits)
    have "e - Suc i < e - i" "b \<le> Suc i" using skip less.prems(3) by auto
    from less.hyps [OF this(1) rest less.prems(2) this(2) less.prems(4)] obtain ev where ev: "l' = l @ ev"
      "progress (al_preop I) deadline (position_of (checks s) [b..<e]) (e - Suc i) s s' ev"
      "\<forall>x \<in> set ev. \<not> is_download x" "kept_by (checks s) keep keep' ev" by blast
    have "progress (al_preop I) deadline (position_of (checks s) [b..<e]) (e - i) s s' ev"
      using ev(2) by (rule progress_mono) auto
    with ev skip(2) show ?thesis by auto
  next
    case map
    let ?m = "i + 1 + unat (ck_expected (checks s ! i))"
    have m: "?m \<le> e" using map less.prems(3,4) by (simp add: well_laid_def)
    obtain same s1 w1 l1 where mm: "match_mapping (logged I) deadline [i..<?m] s (w, l) = (same, s1, (w1, l1))"
      by (metis prod.exhaust)
    let ?keep = "if same \<and> vresult s1 = Pending then fill i ?m True keep else keep"
    from map less.prems(1) mm eq have rest: "match_mappings (logged I) deadline ?m e ?keep s1 (w1, l1) = (keep', s', (w', l'))"
      by (auto simp: Let_def split: if_splits)
    from match_mapping_log [OF mm map(2)] obtain ev where ev: "l1 = l @ ev"
      "progress (al_preop I) deadline (position_of (checks s) [i..<?m]) (length [i..<?m]) s s1 ev"
      "\<forall>x \<in> set ev. \<not> is_download x"
      "same \<and> vresult s1 = Pending \<longrightarrow> each (confirmed (al_preop I) deadline) (List.map ((!) (checks s)) [i..<?m]) ev" by blast
    have s1: "vresult s1 \<noteq> Complete" "checks s1 = checks s" using ev(2) by (auto simp: progress_def same_job_def)
    have "position_of (checks s) [i..<?m] \<subseteq> position_of (checks s) [b..<e]"
      using m less.prems(3) by (intro position_of_mono) auto
    then have first: "progress (al_preop I) deadline (position_of (checks s) [b..<e]) (?m - i) s s1 ev"
      using ev(2) by (auto intro: progress_mono)
    have kept: "kept_by (checks s) keep ?keep ev"
      unfolding kept_by_def
    proof (intro conjI allI impI)
      fix j assume j: "j < length keep" "?keep ! j"
      show "keep ! j \<or> seen (checks s ! j) ev"
      proof (cases "keep ! j")
        case False
        with j have "i \<le> j" "j < ?m" "same \<and> vresult s1 = Pending"
          by (auto simp: nth_fill split: if_splits)
        then have "j \<in> set [i..<?m]" by (simp only: set_upt atLeastLessThan_iff)
        then have "checks s ! j \<in> set (List.map ((!) (checks s)) [i..<?m])" unfolding set_map by (rule imageI)
        with ev(4) \<open>same \<and> vresult s1 = Pending\<close> show ?thesis using each_seen by blast
      qed simp
    qed simp
    have "e - ?m < e - i" "b \<le> ?m" using map less.prems(3) by auto
    from less.hyps [OF this(1) rest s1(1) this(2)] less.prems(4) obtain ev' where ev': "l' = l1 @ ev'"
      "progress (al_preop I) deadline (position_of (checks s) [b..<e]) (e - ?m) s1 s' ev'"
      "\<forall>x \<in> set ev'. \<not> is_download x" "kept_by (checks s) ?keep keep' ev'"
      "vresult s1 = Failed \<longrightarrow> ev' = [] \<and> halted s' = halted s1"
      unfolding s1(2) by blast
    have len: "(?m - i) + (e - ?m) = e - i" using m by simp
    have "progress (al_preop I) deadline (position_of (checks s) [b..<e]) (e - i) s s' (ev @ ev')"
      unfolding len [symmetric] using ev'(5) by (intro progress_append [OF first ev'(2)]) auto
    with ev ev' kept_by_trans [OF kept ev'(4)] map(2) show ?thesis
      by (intro exI [of _ "ev @ ev'"]) auto
  qed
qed

lemma plan_length:
  "length (write_plan cs keep 0 phases is) \<le> 2 * length is"
proof -
  have "length (filter (planned cs keep AssignmentCount) is) + length (filter (planned cs keep MappingCount) is)
      + length (filter (planned cs keep MappingEntry) is) + length (filter (planned cs keep Assignment) is) \<le> length is"
    by (induction "is") (auto simp: planned_def)
  moreover have "length (filter (planned cs keep MappingEntry) is) \<le> length is"
    "length (filter (planned cs keep Assignment) is) \<le> length is" by auto
  ultimately show ?thesis
    by (simp add: write_plan_def phases_def phase_plan_def numeral_eq_Suc)
qed

text \<open>
  A verified slave: the events of the attempt that succeeded are reads (which saw every mapping it
  keeps), then exactly the planned writes, then a complete readback.
\<close>

definition attempt_done :: "u8 \<Rightarrow> int \<Rightarrow> check list \<Rightarrow> nat \<Rightarrow> nat \<Rightarrow> sdo_event list \<Rightarrow> bool" where
  "attempt_done al deadline cs b e ev \<longleftrightarrow> (\<exists>keep pre wr rb. ev = pre @ wr @ rb
     \<and> (\<forall>x \<in> set pre. \<not> is_download x) \<and> (\<forall>i. b \<le> i \<and> i < e \<and> keep ! i \<longrightarrow> seen (cs ! i) pre)
     \<and> each (written al deadline) (write_plan cs keep 0 phases [b..<e]) wr
     \<and> each (confirmed al deadline) (map ((!) cs) [b..<e]) rb)"

lemma attempt_log:
  assumes "attempt (logged I) deadline b e keep s (w, l) = (keep', s', (w', l'))"
    and "well_laid (checks s) b e" "length keep = length (checks s)" "e \<le> length (checks s)"
  shows "\<exists>ev. l' = l @ ev \<and> progress (al_preop I) deadline (position_of (checks s) [b..<e]) (4 * (e - b)) s s' ev
    \<and> length keep' = length keep \<and> (vresult s' = Pending \<longrightarrow> attempt_done (al_preop I) deadline (checks s) b e ev)"
proof -
  let ?P = "position_of (checks s) [b..<e]" and ?s = "s\<lparr>vresult := Pending, verror := error_init\<rparr>"
  obtain k1 s1 w1 l1 where m: "match_mappings (logged I) deadline b e (fill b e False keep) ?s (w, l) = (k1, s1, (w1, l1))"
    by (metis prod.exhaust)
  have "vresult ?s \<noteq> Complete" "well_laid (checks ?s) b e" using assms(2) by simp_all
  from match_mappings_log [OF m this(1) le_refl this(2)] obtain e1 where e1: "l1 = l @ e1"
    "progress (al_preop I) deadline ?P (e - b) ?s s1 e1" "\<forall>x \<in> set e1. \<not> is_download x"
    "kept_by (checks s) (fill b e False keep) k1 e1" by auto
  have s1: "vresult s1 \<noteq> Complete" "checks s1 = checks s" using e1(2) by (auto simp: progress_def same_job_def)
  have k1: "length k1 = length keep" using e1(4) by (simp add: kept_by_def)
  have k1_seen: "seen (checks s ! i) e1" if "b \<le> i" "i < e" "k1 ! i" for i
  proof -
    have "i < length keep" using that(2) assms(3,4) by simp
    moreover from this have "fill b e False keep ! i = False" using that by (simp add: nth_fill)
    ultimately show ?thesis using e1(4) that(3) unfolding kept_by_def by auto
  qed
  obtain s2 w2 l2 where p: "write_phases (logged I) deadline 0 phases k1 b e s1 (w1, l1) = (s2, (w2, l2))"
    by (metis prod.exhaust)
  from write_phases_log [OF p s1(1)] obtain e2 where e2: "l2 = l1 @ e2"
    "progress (al_preop I) deadline ?P (length (write_plan (checks s) k1 0 phases [b..<e])) s1 s2 e2"
    "vresult s1 = Failed \<longrightarrow> s2 = s1 \<and> e2 = []"
    "vresult s2 = Pending \<longrightarrow> each (written (al_preop I) deadline) (write_plan (checks s) k1 0 phases [b..<e]) e2"
    unfolding s1(2) by blast
  have s2: "checks s2 = checks s" using e2(2) s1(2) by (simp add: progress_def same_job_def)
  have e2': "progress (al_preop I) deadline ?P (2 * (e - b)) s1 s2 e2"
    using e2(2) plan_length [of "checks s" k1 "[b..<e]"] by (auto intro: progress_mono)
  have start: "progress (al_preop I) deadline ?P (3 * (e - b)) s s2 (e1 @ e2)"
  proof -
    have "progress (al_preop I) deadline ?P ((e - b) + 2 * (e - b)) ?s s2 (e1 @ e2)"
      using e2(3) by (intro progress_append [OF e1(2) e2']) auto
    then show ?thesis by (simp add: progress_def same_job_def)
  qed
  show ?thesis
  proof (cases "vresult s2 = Pending")
    case False
    with assms(1) m p have "s' = s2" "l' = l2" "keep' = k1" by (auto simp: attempt_def)
    moreover have "progress (al_preop I) deadline ?P (4 * (e - b)) s s2 (e1 @ e2)"
      using start by (rule progress_mono) auto
    ultimately show ?thesis using e1(1) e2(1) k1 False by auto
  next
    case True
    obtain s3 w3 l3 where r: "readback (logged I) deadline [b..<e] s2 (w2, l2) = (s3, (w3, l3))"
      by (metis prod.exhaust)
    from readback_log [OF r True] obtain e3 where e3: "l3 = l2 @ e3"
      "progress (al_preop I) deadline ?P (e - b) s2 s3 e3"
      "vresult s3 = Pending \<longrightarrow> each (confirmed (al_preop I) deadline) (map ((!) (checks s)) [b..<e]) e3"
      unfolding s2 by auto
    from assms(1) m p r True have out: "s' = s3" "l' = l3" "keep' = k1" by (auto simp: attempt_def)
    have "progress (al_preop I) deadline ?P (4 * (e - b)) s s3 ((e1 @ e2) @ e3)"
      using progress_pending [OF start e3(2) True] by simp
    moreover have "attempt_done (al_preop I) deadline (checks s) b e ((e1 @ e2) @ e3)" if "vresult s3 = Pending"
      unfolding attempt_done_def using e1(3) k1_seen e2(4) e3(3) True that
      by (intro exI [of _ k1] exI [of _ e1] exI [of _ e2] exI [of _ e3]) simp
    ultimately show ?thesis using out e1(1) e2(1) e3(1) k1 by auto
  qed
qed

end
