(* ===== verification/Preop_Correct.thy ===== *)
theory Preop_Correct
  imports Preop_Trace
begin

text \<open>
  The correctness of \<open>configurePreop\<close>: the retries and the loop over the slaves, the check list of a
  prepared verification seen as one block per slave, and the two main properties - no transfer without
  a passed check before and a check after it in any run, and the complete readback of every slave in
  a run that succeeds.
\<close>

section \<open>Retries and slaves\<close>

lemma attempts_log:
  "attempts (logged I) deadline b e n keep s (w, l) = (ok, keep', s', (w', l')) \<Longrightarrow>
   well_laid (checks s) b e \<Longrightarrow> length keep = length (checks s) \<Longrightarrow> e \<le> length (checks s) \<Longrightarrow>
   \<exists>ev. l' = l @ ev \<and> harmless (al_preop I) deadline (position_of (checks s) [b..<e]) (n * (4 * (e - b))) ev
     \<and> same_job s s' \<and> length keep' = length keep
     \<and> (ok \<longrightarrow> vresult s' = Pending \<and> guarded (al_preop I) deadline ev
          \<and> (\<exists>earlier final. ev = earlier @ final \<and> attempt_done (al_preop I) deadline (checks s) b e final))"
proof (induction n arbitrary: keep s w l)
  case 0
  then show ?case by auto
next
  case (Suc n)
  let ?P = "position_of (checks s) [b..<e]"
  obtain k1 s1 w1 l1 where a: "attempt (logged I) deadline b e keep s (w, l) = (k1, s1, (w1, l1))"
    by (metis prod.exhaust)
  from attempt_log [OF a Suc.prems(2-4)] obtain ev where ev: "l1 = l @ ev"
    "progress (al_preop I) deadline ?P (4 * (e - b)) s s1 ev" "length k1 = length keep"
    "vresult s1 = Pending \<longrightarrow> attempt_done (al_preop I) deadline (checks s) b e ev" by blast
  have job: "same_job s s1" "checks s1 = checks s" and h: "harmless (al_preop I) deadline ?P (4 * (e - b)) ev"
    using ev(2) by (auto simp: progress_def same_job_def)
  have wide: "harmless (al_preop I) deadline ?P (Suc n * (4 * (e - b))) ev"
    using h by (rule harmless_mono) auto
  consider "vresult s1 = Pending" | "vresult s1 \<noteq> Pending" "fatal (ve_failure (verror s1))"
    | "vresult s1 \<noteq> Pending" "\<not> fatal (ve_failure (verror s1))" by blast
  then show ?case
  proof cases
    case 1
    with Suc.prems(1) a have "ok" "keep' = k1" "s' = s1" "l' = l1" by auto
    moreover have "guarded (al_preop I) deadline ev" using 1 ev(2) by (auto simp: progress_def)
    ultimately show ?thesis using 1 ev job wide by (intro exI [of _ ev]) auto
  next
    case 2
    with Suc.prems(1) a have "\<not> ok" "keep' = k1" "s' = s1" "l' = l1" by (auto simp: fatal_def)
    with ev job wide show ?thesis by (intro exI [of _ ev]) auto
  next
    case 3
    with Suc.prems(1) a have rest: "attempts (logged I) deadline b e n k1 s1 (w1, l1) = (ok, keep', s', (w', l'))"
      by (auto simp: fatal_def)
    from Suc.IH [OF rest] Suc.prems(2-4) ev(3) job(2) obtain ev' where ev': "l' = l1 @ ev'"
      "harmless (al_preop I) deadline ?P (n * (4 * (e - b))) ev'" "same_job s1 s'" "length keep' = length k1"
      "ok \<longrightarrow> vresult s' = Pending \<and> guarded (al_preop I) deadline ev'
          \<and> (\<exists>earlier final. ev' = earlier @ final \<and> attempt_done (al_preop I) deadline (checks s) b e final)"
      by auto
    have whole: "guarded (al_preop I) deadline ev"
      using 3 ev(2) by (cases "vresult s1") (auto simp: progress_def halted_def)
    have "harmless (al_preop I) deadline ?P (Suc n * (4 * (e - b))) (ev @ ev')"
      using harmless_append [OF h whole ev'(2)] by simp
    moreover have "\<exists>earlier final. ev @ ev' = earlier @ final \<and> attempt_done (al_preop I) deadline (checks s) b e final"
      if "ok" using ev'(5) that by (metis append.assoc)
    ultimately show ?thesis
      using ev ev' same_job_trans [OF job(1) ev'(3)] whole
      by (intro exI [of _ "ev @ ev'"]) (auto intro: guarded_append)
  qed
qed

text \<open>The blocks of consecutive checks of one slave, from index \<open>b\<close>.\<close>

function blocks :: "check list \<Rightarrow> nat \<Rightarrow> (nat \<times> nat) list" where
  "blocks cs b = (if length cs \<le> b then [] else (b, block_end cs b) # blocks cs (block_end cs b))"
  by pat_completeness auto
termination
  using block_end_gt by (relation "measure (\<lambda>(cs, b). length cs - b)") (auto intro: diff_less_mono2)

declare blocks.simps [simp del]

lemma block_end_le: "b < length cs \<Longrightarrow> block_end cs b \<le> length cs"
  using length_takeWhile_le [of "\<lambda>c. ck_slave_index c = ck_slave_index (cs ! b)" "drop (Suc b) cs"]
  by (simp add: block_end_def)

definition slave_done :: "u8 \<Rightarrow> int \<Rightarrow> check list \<Rightarrow> nat \<times> nat \<Rightarrow> sdo_event list \<Rightarrow> bool" where
  "slave_done al deadline cs be ev \<longleftrightarrow> (\<forall>x \<in> set ev. \<exists>q \<in> position_of cs [fst be..<snd be]. concerns q x)
     \<and> (\<exists>earlier final. ev = earlier @ final \<and> attempt_done al deadline cs (fst be) (snd be) final)"

lemma configure_slaves_log:
  assumes "configure_slaves (logged I) deadline n (length (checks s)) b keep s (w, l) = (ok, s', (w', l'))"
    and "\<forall>(x, y) \<in> set (blocks (checks s) b). well_laid (checks s) x y" "length keep = length (checks s)"
  shows "\<exists>ev. l' = l @ ev
    \<and> harmless (al_preop I) deadline (position_of (checks s) [b..<length (checks s)]) (n * (4 * (length (checks s) - b))) ev
    \<and> same_job s s'
    \<and> (ok \<longrightarrow> guarded (al_preop I) deadline ev
          \<and> each (slave_done (al_preop I) deadline (checks s)) (blocks (checks s) b) ev)"
  using assms
proof (induction "length (checks s) - b" arbitrary: b keep s w l rule: less_induct)
  case less
  let ?cs = "checks s" and ?e = "block_end (checks s) b"
  note eq = configure_slaves.simps [of "logged I" deadline n "length ?cs" b keep s "(w, l)"]
  show ?case
  proof (cases "length ?cs \<le> b")
    case True
    then have "blocks ?cs b = []" by (simp add: blocks.simps [of ?cs b])
    with True less.prems(1) eq show ?thesis by auto
  next
    case False
    then have bl: "blocks ?cs b = (b, ?e) # blocks ?cs ?e" and e: "?e \<le> length ?cs" "b < ?e"
      using block_end_le [of b ?cs] block_end_gt [of b ?cs] by (auto simp: blocks.simps [of ?cs b])
    obtain v k1 s1 w1 l1 where a: "attempts (logged I) deadline b ?e n keep s (w, l) = (v, k1, s1, (w1, l1))"
      by (metis prod.exhaust)
    from attempts_log [OF a _ less.prems(3) e(1)] less.prems(2) bl obtain ev where ev: "l1 = l @ ev"
      "harmless (al_preop I) deadline (position_of ?cs [b..<?e]) (n * (4 * (?e - b))) ev" "same_job s s1"
      "length k1 = length keep"
      "v \<longrightarrow> vresult s1 = Pending \<and> guarded (al_preop I) deadline ev
          \<and> (\<exists>earlier final. ev = earlier @ final \<and> attempt_done (al_preop I) deadline ?cs b ?e final)"
      by auto
    have cs: "checks s1 = ?cs" using ev(3) by (simp add: same_job_def)
    have first: "harmless (al_preop I) deadline (position_of ?cs [b..<length ?cs]) (n * (4 * (?e - b))) ev"
      using ev(2) by (rule harmless_mono) (use e in \<open>auto intro!: position_of_mono\<close>)
    then have wide: "harmless (al_preop I) deadline (position_of ?cs [b..<length ?cs]) (n * (4 * (length ?cs - b))) ev"
      by (rule harmless_mono) (use e in auto)
    show ?thesis
    proof (cases v)
      case False
      with less.prems(1) eq a \<open>\<not> length ?cs \<le> b\<close> have "\<not> ok" "s' = s1" "l' = l1" by auto
      with ev wide show ?thesis by auto
    next
      case True
      with less.prems(1) eq a \<open>\<not> length ?cs \<le> b\<close>
      have rest: "configure_slaves (logged I) deadline n (length (checks s1)) ?e k1 s1 (w1, l1) = (ok, s', (w', l'))"
        by (auto simp: cs)
      have "length (checks s1) - ?e < length ?cs - b" using e \<open>\<not> length ?cs \<le> b\<close> cs by auto
      from less.hyps [OF this rest] less.prems(2,3) ev(4) bl obtain ev' where ev': "l' = l1 @ ev'"
        "harmless (al_preop I) deadline (position_of ?cs [?e..<length ?cs]) (n * (4 * (length ?cs - ?e))) ev'"
        "same_job s1 s'" "ok \<longrightarrow> guarded (al_preop I) deadline ev'
          \<and> each (slave_done (al_preop I) deadline ?cs) (blocks ?cs ?e) ev'"
        by (auto simp: cs)
      have more: "harmless (al_preop I) deadline (position_of ?cs [b..<length ?cs]) (n * (4 * (length ?cs - ?e))) ev'"
        using ev'(2) by (rule harmless_mono) (use e in \<open>auto intro!: position_of_mono\<close>)
      have "n * (4 * (?e - b)) + n * (4 * (length ?cs - ?e)) = n * (4 * (length ?cs - b))"
        using e by (simp flip: distrib_left)
      then have "harmless (al_preop I) deadline (position_of ?cs [b..<length ?cs]) (n * (4 * (length ?cs - b))) (ev @ ev')"
        using harmless_append [OF first _ more] ev(5) True by simp
      moreover have "slave_done (al_preop I) deadline ?cs (b, ?e) ev"
        using ev(2,5) True by (auto simp: slave_done_def harmless_def)
      moreover have "ok \<longrightarrow> guarded (al_preop I) deadline (ev @ ev')"
        using ev(5) ev'(4) True guarded_append by blast
      ultimately show ?thesis
        using ev(1) ev'(1,4) same_job_trans [OF ev(3) ev'(3)] bl
        by (intro exI [of _ "ev @ ev'"]) (auto intro: each_Cons)
    qed
  qed
qed

section \<open>The check list as one block per slave\<close>

definition block_of :: "'a list \<Rightarrow> nat \<times> nat \<Rightarrow> 'a list" where
  "block_of xs be = map ((!) xs) [fst be..<snd be]"

lemma in_enumerate: "(i, x) \<in> set (enumerate n xs) \<Longrightarrow> x \<in> set xs"
proof (induction xs arbitrary: n)
  case (Cons a xs)
  then show ?case by (auto split: if_splits)
qed simp

text \<open>A list of checks that all belong to the slave with index \<open>s\<close>.\<close>

definition of_slave :: "nat \<Rightarrow> check list \<Rightarrow> bool" where
  "of_slave s cs \<longleftrightarrow> cs \<noteq> [] \<and> (\<forall>c \<in> set cs. ck_slave_index c = s)"

fun separated :: "check list list \<Rightarrow> bool" where
  "separated (a # b # rest) \<longleftrightarrow> ck_slave_index (hd a) \<noteq> ck_slave_index (hd b) \<and> separated (b # rest)"
| "separated _ \<longleftrightarrow> True"

lemma block_end_segment:
  assumes "of_slave s seg" "rest \<noteq> [] \<longrightarrow> ck_slave_index (hd rest) \<noteq> s"
  shows "block_end (pre @ seg @ rest) (length pre) = length pre + length seg"
proof -
  obtain c cs where seg: "seg = c # cs" using assms(1) by (cases seg) (auto simp: of_slave_def)
  have all: "\<forall>x \<in> set cs. ck_slave_index x = s" "ck_slave_index c = s"
    using assms(1) by (auto simp: of_slave_def seg)
  have "takeWhile (\<lambda>x. ck_slave_index x = s) (cs @ rest) = cs"
    using assms(2) all(1) by (cases rest) auto
  then show ?thesis by (simp add: block_end_def seg nth_append all(2))
qed

lemma slice_segment: "block_of (pre @ seg @ rest) (length pre, length pre + length seg) = seg"
  by (rule nth_equalityI) (simp_all add: block_of_def nth_append)

lemma blocks_segments:
  assumes "\<forall>seg \<in> set segs. \<exists>s. of_slave s seg" "separated segs"
  shows "map (block_of (pre @ concat segs)) (blocks (pre @ concat segs) (length pre)) = segs"
  using assms
proof (induction segs arbitrary: pre)
  case Nil
  then show ?case by (simp add: blocks.simps)
next
  case (Cons seg segs)
  then obtain s where s: "of_slave s seg" by auto
  have next_seg: "concat segs \<noteq> [] \<longrightarrow> ck_slave_index (hd (concat segs)) \<noteq> s"
  proof (cases segs)
    case (Cons seg2 rest)
    with Cons.prems have "seg2 \<noteq> []" "ck_slave_index (hd seg) \<noteq> ck_slave_index (hd seg2)"
      by (auto simp: of_slave_def)
    moreover have "ck_slave_index (hd seg) = s" using s by (cases seg) (auto simp: of_slave_def)
    ultimately show ?thesis using Cons by auto
  qed simp
  have e: "block_end (pre @ seg @ concat segs) (length pre) = length pre + length seg"
    using s next_seg by (rule block_end_segment)
  have b: "blocks (pre @ seg @ concat segs) (length pre)
      = (length pre, length pre + length seg) # blocks (pre @ seg @ concat segs) (length pre + length seg)"
    using s e by (subst blocks.simps) (auto simp: of_slave_def)
  have "separated segs" using Cons.prems(2) by (cases segs) auto
  with Cons.IH [of "pre @ seg"] Cons.prems(1) b slice_segment [of pre seg "concat segs"] show ?case by simp
qed

text \<open>Mapping counts inside a list of checks do not point beyond it.\<close>

definition laid :: "check list \<Rightarrow> bool" where
  "laid cs \<longleftrightarrow> (\<forall>i < length cs. ck_field (cs ! i) = MappingCount \<longrightarrow> i + 1 + unat (ck_expected (cs ! i)) \<le> length cs)"

lemma laid_Nil [simp]: "laid []"
  by (simp add: laid_def)

lemma laid_append: "laid a \<Longrightarrow> laid b \<Longrightarrow> laid (a @ b)"
  unfolding laid_def
proof (intro allI impI)
  fix i
  assume a: "\<forall>i < length a. ck_field (a ! i) = MappingCount \<longrightarrow> i + 1 + unat (ck_expected (a ! i)) \<le> length a"
    and b: "\<forall>i < length b. ck_field (b ! i) = MappingCount \<longrightarrow> i + 1 + unat (ck_expected (b ! i)) \<le> length b"
    and i: "i < length (a @ b)" "ck_field ((a @ b) ! i) = MappingCount"
  show "i + 1 + unat (ck_expected ((a @ b) ! i)) \<le> length (a @ b)"
  proof (cases "i < length a")
    case True
    with a i have "i + 1 + unat (ck_expected (a ! i)) \<le> length a" by (simp add: nth_append)
    with True show ?thesis by (simp add: nth_append)
  next
    case False
    with i have "i - length a < length b" "ck_field (b ! (i - length a)) = MappingCount" by (auto simp: nth_append)
    with b have "i - length a + 1 + unat (ck_expected (b ! (i - length a))) \<le> length b" by blast
    with False show ?thesis by (simp add: nth_append)
  qed
qed

lemma laid_Cons: "ck_field c \<noteq> MappingCount \<Longrightarrow> laid cs \<Longrightarrow> laid (c # cs)"
  using laid_append [of "[c]" cs] by (simp add: laid_def)

lemma laid_concat: "\<forall>xs \<in> set xss. laid xs \<Longrightarrow> laid (concat xss)"
  by (induction xss) (auto intro: laid_append)

lemma laid_slice:
  assumes "laid (block_of cs (b, e))"
  shows "well_laid cs b e"
  unfolding well_laid_def
proof (intro allI impI)
  fix i assume i: "b \<le> i \<and> i < e \<and> ck_field (cs ! i) = MappingCount"
  then have "block_of cs (b, e) ! (i - b) = cs ! i" "i - b < length (block_of cs (b, e))" by (auto simp: block_of_def)
  with assms i have "(i - b) + 1 + unat (ck_expected (cs ! i)) \<le> length (block_of cs (b, e))"
    unfolding laid_def by metis
  with i show "i + 1 + unat (ck_expected (cs ! i)) \<le> e" by (simp add: block_of_def)
qed

text \<open>The pointers of the tables really carry as many elements as their counts say.\<close>

definition well_sized :: "slave_spec \<Rightarrow> bool" where
  "well_sized slave \<longleftrightarrow> (\<forall>sm \<in> set (process_syncs slave). length (array (sy_pdos sm) (sy_n_pdos sm)) = sy_n_pdos sm
     \<and> (\<forall>pdo \<in> set (array (sy_pdos sm) (sy_n_pdos sm)). length (array (pi_entries pdo) (pi_n_entries pdo)) = pi_n_entries pdo))"

lemma mk_check_simps [simp]:
  "ck_slave_index (mk_check s slave sm i sub n v f) = s" "ck_slave_position (mk_check s slave sm i sub n v f) = sp_position slave"
  "ck_field (mk_check s slave sm i sub n v f) = f" "ck_expected (mk_check s slave sm i sub n v f) = v"
  by (simp_all add: mk_check_def)

lemma unat_small: "n \<le> 255 \<Longrightarrow> unat (word_of_nat n :: u32) = n"
  by (simp add: unat_of_nat)

lemma laid_pdo_checks:
  assumes "pdo_fits pdo" "length (array (pi_entries pdo) (pi_n_entries pdo)) = pi_n_entries pdo"
  shows "laid (pdo_checks s slave sm p pdo)"
proof -
  let ?es = "array (pi_entries pdo) (pi_n_entries pdo)"
  let ?entries = "map (\<lambda>(e, entry). mk_check s slave (sy_index sm) (pi_index pdo) (of_nat (Suc e)) 4 (mapping_value entry) MappingEntry)
         (enumerate 0 ?es)"
  have entries: "ck_field (?entries ! i) = MappingEntry" if "i < length ?entries" for i
    using that by (simp add: nth_enumerate_eq split: prod.splits)
  have "laid (mk_check s slave (sy_index sm) (pi_index pdo) 0 1 (of_nat (pi_n_entries pdo)) MappingCount # ?entries)"
    unfolding laid_def
  proof (intro allI impI)
    fix i
    assume "i < length (mk_check s slave (sy_index sm) (pi_index pdo) 0 1 (of_nat (pi_n_entries pdo)) MappingCount # ?entries)"
      and "ck_field ((mk_check s slave (sy_index sm) (pi_index pdo) 0 1 (of_nat (pi_n_entries pdo)) MappingCount # ?entries) ! i) = MappingCount"
    then have "i = 0" using entries by (cases i) auto
    then show "i + 1 + unat (ck_expected ((mk_check s slave (sy_index sm) (pi_index pdo) 0 1 (of_nat (pi_n_entries pdo)) MappingCount # ?entries) ! i))
        \<le> length (mk_check s slave (sy_index sm) (pi_index pdo) 0 1 (of_nat (pi_n_entries pdo)) MappingCount # ?entries)"
      using assms by (simp add: pdo_fits_def unat_small)
  qed
  then show ?thesis unfolding pdo_checks_def by (rule laid_Cons [rotated]) simp
qed

lemma laid_slave_checks:
  assumes "checkable slave" "well_sized slave"
  shows "laid (slave_checks s slave)"
proof -
  have "laid (sync_checks s slave sm)" if "sm \<in> set (process_syncs slave)" for sm
  proof -
    have "laid (pdo_checks s slave sm p pdo)" if "pdo \<in> set (array (sy_pdos sm) (sy_n_pdos sm))" for p pdo
      using assms that \<open>sm \<in> set (process_syncs slave)\<close>
      by (intro laid_pdo_checks) (auto simp: checkable_def sync_fits_def well_sized_def)
    then have "laid (concat (map (\<lambda>(p, pdo). pdo_checks s slave sm p pdo) (enumerate 0 (array (sy_pdos sm) (sy_n_pdos sm)))))"
      by (intro laid_concat) (auto dest: in_enumerate)
    then show ?thesis unfolding sync_checks_def by (rule laid_Cons [rotated]) simp
  qed
  then show ?thesis unfolding slave_checks_def by (intro laid_concat) auto
qed

lemma slave_checks_of_slave:
  assumes "checkable slave"
  shows "of_slave s (slave_checks s slave)" "\<forall>c \<in> set (slave_checks s slave). ck_slave_position c = sp_position slave"
proof -
  have "process_syncs slave \<noteq> []" using assms by (auto simp: checkable_def)
  then show "of_slave s (slave_checks s slave)"
    by (cases "process_syncs slave") (auto simp: of_slave_def slave_checks_def sync_checks_def pdo_checks_def split: prod.splits)
  show "\<forall>c \<in> set (slave_checks s slave). ck_slave_position c = sp_position slave"
    by (auto simp: slave_checks_def sync_checks_def pdo_checks_def split: prod.splits)
qed

lemma separated_slaves: "\<forall>slave \<in> set ss. checkable slave \<Longrightarrow>
  separated (map (\<lambda>(s, slave). slave_checks s slave) (enumerate n ss))"
proof (induction ss arbitrary: n)
  case Nil
  then show ?case by simp
next
  case (Cons a ss)
  have hd: "ck_slave_index (hd (slave_checks s slave)) = s" if "checkable slave" for s slave
    using slave_checks_of_slave(1) [OF that, of s] by (cases "slave_checks s slave") (auto simp: of_slave_def)
  show ?case
  proof (cases ss)
    case (Cons b rest)
    with Cons.prems Cons.IH [of "Suc n"] show ?thesis by (simp add: hd)
  qed simp
qed

lemma blocks_of_slaves:
  assumes "\<forall>slave \<in> set ss. checkable slave"
  shows "map (block_of (all_checks ss)) (blocks (all_checks ss) 0) = map (\<lambda>(s, slave). slave_checks s slave) (enumerate 0 ss)"
proof -
  let ?segs = "map (\<lambda>(s, slave). slave_checks s slave) (enumerate 0 ss)"
  have "\<forall>seg \<in> set ?segs. \<exists>s. of_slave s seg"
    using assms slave_checks_of_slave(1) by (auto dest!: in_enumerate)
  from blocks_segments [OF this separated_slaves [OF assms], of "[]"] show ?thesis
    by (simp add: all_checks_def)
qed

lemma well_laid_blocks:
  assumes "\<forall>slave \<in> set ss. checkable slave \<and> well_sized slave"
  shows "\<forall>(x, y) \<in> set (blocks (all_checks ss) 0). well_laid (all_checks ss) x y"
proof -
  have "laid (block_of (all_checks ss) be)" if "be \<in> set (blocks (all_checks ss) 0)" for be
  proof -
    have "block_of (all_checks ss) be \<in> set (map (block_of (all_checks ss)) (blocks (all_checks ss) 0))" using that by simp
    then have "block_of (all_checks ss) be \<in> set (map (\<lambda>(s, slave). slave_checks s slave) (enumerate 0 ss))"
      using blocks_of_slaves [of ss] assms by simp
    then show ?thesis using assms laid_slave_checks by (auto dest!: in_enumerate)
  qed
  then show ?thesis using laid_slice by blast
qed

section \<open>The two properties\<close>

text \<open>The whole run: its log, its outcome, and what it did when it succeeded.\<close>

lemma configure_preop_log:
  assumes "configure_preop (logged I) present timeout tries s (w, []) = (r, s', (w', l))"
    and "verification_ready ss s" "\<forall>slave \<in> set ss. well_sized slave"
  shows "l = [] \<and> r \<noteq> PreopConfigured
    \<or> (\<exists>t ev. l = EvClock t # ev
        \<and> (\<forall>e. t = Inl e \<longrightarrow> ev = [] \<and> r \<noteq> PreopConfigured)
        \<and> (\<forall>now. t = Inr now \<longrightarrow> (let deadline = now + uint timeout * 1000000 in
            (guarded (al_preop I) deadline ev \<or> stopped (al_preop I) deadline ev)
            \<and> transfers ev \<le> length (init_writes s) + unat tries * (4 * length (checks s))
            \<and> (r = PreopConfigured \<longrightarrow> guarded (al_preop I) deadline ev \<and> verification_ready ss s'
                 \<and> (\<exists>ini cfg. ev = ini @ cfg
                      \<and> each (\<lambda>x. written (al_preop I) deadline (init_check x, init_bytes x)) (init_writes s) ini
                      \<and> each (slave_done (al_preop I) deadline (checks s)) (blocks (checks s) 0) cfg)))))"
proof -
  have ready: "vresult s = Pending" "prepared s" "\<not> started s" "checks s = all_checks ss"
    using assms(2) by (auto simp: verification_ready_def)
  show ?thesis
  proof (cases "tries = 0 \<or> \<not> present")
    case True
    then have "configure_preop (logged I) present timeout tries s (w, []) =
        (if tries = 0 then (AttemptsMustBePositive, s, (w, []))
         else (PreopFailed (verror (fail NotPrepared 0 0 0 s)), fail NotPrepared 0 0 0 s, (w, [])))"
      by (auto simp: configure_preop_def Let_def)
    with assms(1) show ?thesis by (auto split: if_splits)
  next
    case False
    obtain t w1 where m: "monotonic_ns I w = (t, w1)" by fastforce
    show ?thesis
    proof (cases t)
      case (Inl e)
      with False assms(1) ready m have "l = [EvClock t]" "r \<noteq> PreopConfigured"
        by (auto simp: configure_preop_def clock_now_def Let_def)
      with Inl show ?thesis by auto
    next
      case (Inr now)
      let ?dl = "now + uint timeout * 1000000" and ?l1 = "[EvClock t]" and ?al = "al_preop I"
      obtain ok s1 w2 l2 where i: "write_init_commands (logged I) ?dl (init_writes s) s (w1, ?l1) = (ok, s1, (w2, l2))"
        by (metis prod.exhaust)
      from write_init_log [OF i ready(1)] obtain ini where ini: "l2 = ?l1 @ ini"
        "progress ?al ?dl (iw_position ` set (init_writes s)) (length (init_writes s)) s s1 ini"
        "if ok then s1 = s \<and> each (\<lambda>x. written ?al ?dl (init_check x, init_bytes x)) (init_writes s) ini
          else vresult s1 = Failed" by blast
      have ini_ok: "guarded ?al ?dl ini \<or> stopped ?al ?dl ini" "transfers ini \<le> length (init_writes s)"
        using ini(2) by (auto simp: progress_def harmless_def)
      show ?thesis
      proof (cases ok)
        case not_ok: False
        with False assms(1) ready m Inr i have "l = l2" "r \<noteq> PreopConfigured"
          by (auto simp: configure_preop_def clock_now_def Let_def)
        with ini(1) ini_ok Inr show ?thesis by auto
      next
        case True
        with ini(3) have s1: "s1 = s" by simp
        with ini(2) ready(1) have whole: "guarded ?al ?dl ini" by (auto simp: progress_def)
        let ?keep = "replicate (length (checks s)) False"
        obtain ok2 s2 w3 l3 where c: "configure_slaves (logged I) ?dl (unat tries) (length (checks s)) 0 ?keep s (w2, l2)
            = (ok2, s2, (w3, l3))" by (metis prod.exhaust)
        have wl: "\<forall>(x, y) \<in> set (blocks (checks s) 0). well_laid (checks s) x y"
          using well_laid_blocks [of ss] assms(2,3) ready(4) by (simp add: verification_ready_def)
        from configure_slaves_log [OF c wl] obtain cfg where cfg: "l3 = l2 @ cfg"
          "harmless ?al ?dl (position_of (checks s) [0..<length (checks s)]) (unat tries * (4 * (length (checks s) - 0))) cfg"
          "same_job s s2" "ok2 \<longrightarrow> guarded ?al ?dl cfg \<and> each (slave_done ?al ?dl (checks s)) (blocks (checks s) 0) cfg" by auto
        have all: "guarded ?al ?dl (ini @ cfg) \<or> stopped ?al ?dl (ini @ cfg)"
          "ok2 \<longrightarrow> guarded ?al ?dl (ini @ cfg)"
          "transfers (ini @ cfg) \<le> length (init_writes s) + unat tries * (4 * length (checks s))"
          using ini_ok whole cfg(2,4) by (auto simp: harmless_def intro: guarded_append stopped_append add_mono)
        have out: "l = l3" "r = (if ok2 then PreopConfigured else PreopFailed (verror s2))"
          "s' = (if ok2 then s2\<lparr>cursor := 0, vresult := Pending, verror := error_init\<rparr> else s2)"
          using False assms(1) ready m Inr i True s1 c
          by (cases ok2; auto simp: configure_preop_def clock_now_def Let_def split: if_splits)+
        have again: "verification_ready ss (s2\<lparr>cursor := 0, vresult := Pending, verror := error_init\<rparr>)"
          using cfg(3) assms(2) by (simp add: verification_ready_def same_job_def)
        show ?thesis
          using all out again cfg(4) ini(1,3) cfg(1) True Inr by (auto simp: Let_def)
      qed
    qed
  qed
qed

text \<open>
  The writes owed to one slave, with the checks whose mapping is kept: both assignment counts to
  zero, mapping counts to zero, mapping entries, mapping counts, assignments, assignment counts.
\<close>

definition owed :: "check_field \<Rightarrow> (check \<times> bool) list \<Rightarrow> check list" where
  "owed f cks = map fst (filter (\<lambda>(c, k). ck_field c = f \<and> \<not> k \<and> \<not> (f = MappingCount \<and> ck_expected c = 0)) cks)"

definition zero_bytes :: "check \<Rightarrow> check \<times> u8 list" where
  "zero_bytes c = (c, le_encode (unat (ck_size c)) (0 :: u32))"

definition value_bytes :: "check \<Rightarrow> check \<times> u8 list" where
  "value_bytes c = (c, le_encode (unat (ck_size c)) (ck_expected c))"

definition block_plan :: "(check \<times> bool) list \<Rightarrow> (check \<times> u8 list) list" where
  "block_plan cks = map zero_bytes (owed AssignmentCount cks) @ map zero_bytes (owed MappingCount cks)
     @ map value_bytes (owed MappingEntry cks) @ map value_bytes (owed MappingCount cks)
     @ map value_bytes (owed Assignment cks) @ map value_bytes (owed AssignmentCount cks)"

lemma write_plan_block: "write_plan cs keep 0 phases is = block_plan (map (\<lambda>i. (cs ! i, keep ! i)) is)"
proof -
  have "map fst (filter P (map (\<lambda>i. (cs ! i, keep ! i)) is)) = map ((!) cs) (filter (\<lambda>i. P (cs ! i, keep ! i)) is)" for P
    by (simp add: filter_map comp_def)
  then show ?thesis
    by (simp add: write_plan_def phases_def block_plan_def phase_plan_def owed_def planned_def[abs_def]
        zero_bytes_def[abs_def] value_bytes_def[abs_def] comp_def numeral_eq_Suc)
qed

text \<open>One slave configured: earlier attempts, then reads, the writes of the plan and the readback.\<close>

definition slave_configured :: "u8 \<Rightarrow> int \<Rightarrow> nat \<times> slave_spec \<Rightarrow> sdo_event list \<Rightarrow> bool" where
  "slave_configured al deadline sl ev \<longleftrightarrow> (\<forall>x \<in> set ev. concerns (sp_position (snd sl)) x)
     \<and> (let cs = slave_checks (fst sl) (snd sl) in
        \<exists>keeps earlier pre wr rb. ev = earlier @ pre @ wr @ rb \<and> length keeps = length cs
          \<and> (\<forall>x \<in> set pre. \<not> is_download x) \<and> (\<forall>i < length cs. keeps ! i \<longrightarrow> seen (cs ! i) pre)
          \<and> each (written al deadline) (block_plan (zip cs keeps)) wr
          \<and> each (confirmed al deadline) cs rb)"

lemma slave_done_configured:
  assumes "slave_done al deadline cs be ev" "block_of cs be = slave_checks s slave" "checkable slave"
  shows "slave_configured al deadline (s, slave) ev"
proof -
  obtain b e where be: "be = (b, e)" by fastforce
  have pos: "position_of cs [b..<e] = (\<lambda>c. ck_slave_position c) ` set (slave_checks s slave)"
    unfolding assms(2) [symmetric] be by (auto simp: block_of_def position_of_def)
  have "\<forall>x \<in> set ev. concerns (sp_position slave) x"
  proof
    fix x assume "x \<in> set ev"
    with assms(1) obtain q where "q \<in> position_of cs [b..<e]" "concerns q x" by (auto simp: slave_done_def be)
    then show "concerns (sp_position slave) x"
      using slave_checks_of_slave(2) [OF assms(3), of s] by (auto simp: pos)
  qed
  moreover from assms(1) obtain earlier final where ef: "ev = earlier @ final" "attempt_done al deadline cs b e final"
    by (auto simp: slave_done_def be)
  from ef(2) obtain keep pre wr rb where k: "final = pre @ wr @ rb" "\<forall>x \<in> set pre. \<not> is_download x"
    "\<forall>i. b \<le> i \<and> i < e \<and> keep ! i \<longrightarrow> seen (cs ! i) pre"
    "each (written al deadline) (write_plan cs keep 0 phases [b..<e]) wr"
    "each (confirmed al deadline) (map ((!) cs) [b..<e]) rb"
    unfolding attempt_done_def by blast
  define keeps where "keeps = map ((!) keep) [b..<e]"
  have cs: "slave_checks s slave = map ((!) cs) [b..<e]" using assms(2) by (simp add: block_of_def be)
  have "map (\<lambda>i. (cs ! i, keep ! i)) [b..<e] = zip (slave_checks s slave) keeps"
    unfolding cs keeps_def by (rule nth_equalityI) auto
  then have plan: "each (written al deadline) (block_plan (zip (slave_checks s slave) keeps)) wr"
    using k(4) by (simp add: write_plan_block)
  have "seen (slave_checks s slave ! i) pre" if "i < length (slave_checks s slave)" "keeps ! i" for i
    using k(3) that by (auto simp: cs keeps_def)
  then have kept: "\<forall>i < length (slave_checks s slave). keeps ! i \<longrightarrow> seen (slave_checks s slave ! i) pre" by blast
  have len: "length keeps = length (slave_checks s slave)" by (simp add: cs keeps_def)
  have split: "ev = earlier @ pre @ wr @ rb" using ef(1) k(1) by simp
  show ?thesis
    unfolding slave_configured_def Let_def fst_conv snd_conv
    using calculation split len k(2) kept plan k(5) [folded cs] by blast
qed

lemma blocks_done_configured:
  assumes "\<forall>slave \<in> set ss. checkable slave"
    and "each (slave_done al deadline (all_checks ss)) (blocks (all_checks ss) 0) ev"
  shows "each (slave_configured al deadline) (enumerate 0 ss) ev"
proof -
  let ?bl = "blocks (all_checks ss) 0" and ?en = "enumerate 0 ss"
  note eq = blocks_of_slaves [OF assms(1)]
  from assms(2) obtain segs where segs: "ev = concat segs" "list_all2 (slave_done al deadline (all_checks ss)) ?bl segs"
    by (auto simp: each_def)
  have len: "length ?bl = length ?en" using arg_cong [OF eq, of length] by simp
  have "list_all2 (slave_configured al deadline) ?en segs"
    unfolding list_all2_conv_all_nth
  proof (intro conjI allI impI)
    show "length ?en = length segs" using segs(2) len by (simp add: list_all2_lengthD)
    fix i assume i: "i < length ?en"
    obtain s slave where e: "?en ! i = (s, slave)" by fastforce
    have "block_of (all_checks ss) (?bl ! i) = slave_checks s slave"
      using arg_cong [OF eq, of "\<lambda>xs. xs ! i"] i len e by simp
    moreover have "slave_done al deadline (all_checks ss) (?bl ! i) (segs ! i)"
      using segs(2) i len by (simp add: list_all2_nthD)
    moreover have "checkable slave" using assms(1) in_enumerate [of s slave 0 ss] i e by (metis nth_mem)
    ultimately show "slave_configured al deadline (?en ! i) (segs ! i)"
      unfolding e by (intro slave_done_configured)
  qed
  with segs(1) show ?thesis by (auto simp: each_def)
qed

text \<open>
  Claim C21. In every run of \<open>configurePreop\<close> on a prepared verification, successful or not, every SDO
  transfer - the downloads of the initialization commands and of the mappings and the uploads of both
  readings - stands between two checks of its slave. The log is: the clock, which sets the deadline;
  then whole exchanges, each a passed check, one transfer of that slave and a passed check, where a
  passed check is a successful state query of the slave that shows PREOP without error flag, directly
  followed by a clock reading before the deadline; and then nothing, or the end of a run that fails
  because a check is refused, before a transfer or after one that passed its first check. The run
  ends: its transfers are at most the initialization commands and four per check and attempt.
\<close>
theorem preop_writes_guarded:
  assumes "verification_ready ss s" "\<forall>slave \<in> set ss. well_sized slave"
    and "configure_preop (logged I) present timeout tries s (w, []) = (r, s', (w', l))"
  shows "transfers l \<le> length (init_writes s) + unat tries * (4 * length (checks s))
    \<and> (l = [] \<or> (\<exists>e. l = [EvClock (Inl e)])
       \<or> (\<exists>start exchanges rest. l = EvClock (Inr start) # concat exchanges @ rest
            \<and> (\<forall>x \<in> set exchanges. \<exists>p. exchange (al_preop I) (start + uint timeout * 1000000) p x)
            \<and> (rest = [] \<or> r \<noteq> PreopConfigured \<and> (\<exists>p. broken (al_preop I) (start + uint timeout * 1000000) p rest))))
    \<and> (r = PreopConfigured \<longrightarrow> (\<exists>start exchanges. l = EvClock (Inr start) # concat exchanges
            \<and> (\<forall>x \<in> set exchanges. \<exists>p. exchange (al_preop I) (start + uint timeout * 1000000) p x)))"
proof -
  from configure_preop_log [OF assms(3,1,2)] consider "l = []" "r \<noteq> PreopConfigured"
    | e where "l = [EvClock (Inl e)]" "r \<noteq> PreopConfigured"
    | start ev where "l = EvClock (Inr start) # ev"
        "guarded (al_preop I) (start + uint timeout * 1000000) ev
         \<or> r \<noteq> PreopConfigured \<and> stopped (al_preop I) (start + uint timeout * 1000000) ev"
        "transfers ev \<le> length (init_writes s) + unat tries * (4 * length (checks s))"
    by (metis sum.exhaust)
  then show ?thesis
  proof cases
    case 3
    let ?dl = "start + uint timeout * 1000000"
    from 3(2) obtain a rest where ev: "ev = a @ rest" "guarded (al_preop I) ?dl a"
      "rest = [] \<or> r \<noteq> PreopConfigured \<and> (\<exists>p. broken (al_preop I) ?dl p rest)"
      unfolding stopped_def by (metis append_Nil2)
    from ev(2) obtain xs where xs: "a = concat xs" "\<forall>x \<in> set xs. \<exists>p. exchange (al_preop I) ?dl p x"
      by (auto simp: guarded_def)
    have log: "l = EvClock (Inr start) # concat xs @ rest" using 3(1) ev(1) xs(1) by simp
    show ?thesis
    proof (intro conjI impI)
      show "transfers l \<le> length (init_writes s) + unat tries * (4 * length (checks s))" using 3 by simp
      show "l = [] \<or> (\<exists>e. l = [EvClock (Inl e)])
       \<or> (\<exists>start exchanges rest. l = EvClock (Inr start) # concat exchanges @ rest
            \<and> (\<forall>x \<in> set exchanges. \<exists>p. exchange (al_preop I) (start + uint timeout * 1000000) p x)
            \<and> (rest = [] \<or> r \<noteq> PreopConfigured \<and> (\<exists>p. broken (al_preop I) (start + uint timeout * 1000000) p rest)))"
        using log xs(2) ev(3) by blast
      assume "r = PreopConfigured"
      with ev(3) log xs(2) show "\<exists>start exchanges. l = EvClock (Inr start) # concat exchanges
            \<and> (\<forall>x \<in> set exchanges. \<exists>p. exchange (al_preop I) (start + uint timeout * 1000000) p x)"
        by auto
    qed
  qed auto
qed

text \<open>
  Claim C22. When \<open>configurePreop\<close> succeeds on a prepared verification, its log is: the clock, every
  initialization command exactly once and in order, then one part per slave in configuration order.
  The part of a slave concerns only that slave and ends with one attempt: reads that saw every mapping
  kept as it is; exactly the writes of the plan (both assignments cleared first, no mapping count of
  an empty PDO touched, counts restored before the assignments, assignment counts last); and a
  readback of the slave's complete check list with exact sizes and values after the last write. Each
  write and read is guarded before and after, and the verification is ready for the cyclic readback.
\<close>
theorem preop_configured_slaves:
  assumes "verification_ready ss s" "\<forall>slave \<in> set ss. well_sized slave"
    and "configure_preop (logged I) present timeout tries s (w, []) = (PreopConfigured, s', (w', l))"
  shows "\<exists>start ini cfg. l = EvClock (Inr start) # ini @ cfg
    \<and> each (\<lambda>x. written (al_preop I) (start + uint timeout * 1000000) (init_check x, init_bytes x))
        (concat (map slave_init_writes ss)) ini
    \<and> each (slave_configured (al_preop I) (start + uint timeout * 1000000)) (enumerate 0 ss) cfg
    \<and> verification_ready ss s'"
proof -
  from configure_preop_log [OF assms(3,1,2)] obtain t ev where t: "l = EvClock t # ev" "\<forall>e. t \<noteq> Inl e"
    "\<forall>now. t = Inr now \<longrightarrow> verification_ready ss s'
                 \<and> (\<exists>ini cfg. ev = ini @ cfg
                      \<and> each (\<lambda>x. written (al_preop I) (now + uint timeout * 1000000) (init_check x, init_bytes x)) (init_writes s) ini
                      \<and> each (slave_done (al_preop I) (now + uint timeout * 1000000) (checks s)) (blocks (checks s) 0) cfg)"
    by (auto simp: Let_def)
  then obtain now where now: "t = Inr now" by (cases t) auto
  from t(3) now obtain ini cfg where log: "verification_ready ss s'" "ev = ini @ cfg"
    "each (\<lambda>x. written (al_preop I) (now + uint timeout * 1000000) (init_check x, init_bytes x)) (init_writes s) ini"
    "each (slave_done (al_preop I) (now + uint timeout * 1000000) (checks s)) (blocks (checks s) 0) cfg" by blast
  have "checks s = all_checks ss" "init_writes s = concat (map slave_init_writes ss)" "\<forall>slave \<in> set ss. checkable slave"
    using assms(1) by (auto simp: verification_ready_def)
  with log blocks_done_configured [of ss "al_preop I" "now + uint timeout * 1000000" cfg] t(1) now
  show ?thesis by auto
qed

section \<open>A concrete bus\<close>

text \<open>
  A slave whose object dictionary is the world: downloads update it, it stays healthy in PREOP and the
  clock stands still.
\<close>

type_synonym device = "u16 \<times> u8 \<Rightarrow> u8 list"

definition example_info :: slave_info where
  "example_info = \<lparr>si_vendor_id = 1, si_product_code = 2, si_revision_number = 0, si_serial_number = 0,
     si_al_state = 2, si_error_flag = 0\<rparr>"

definition example_bus :: "device preop_api" where
  "example_bus = \<lparr>al_preop = 2,
     get_slave = (\<lambda>p w. ((0, example_info), w)),
     sdo_download = (\<lambda>p i sub d w. ((0, 0), w((i, sub) := d))),
     sdo_upload = (\<lambda>p i sub w. ((0, w (i, sub), length (w (i, sub)), 0), w)),
     monotonic_ns = (\<lambda>w. (Inr 7, w))\<rparr>"

definition example_run :: "preop_outcome \<times> nat pdo_verification \<times> device \<times> sdo_event list" where
  "example_run = configure_preop (logged example_bus) True 1000 2 example_verification (\<lambda>ob. [0], [])"

lemma example_run_ok: "fst example_run = PreopConfigured"
  by code_simp

lemma example_well_sized: "\<forall>slave \<in> set [example_spec]. well_sized slave"
  by (simp add: well_sized_def process_syncs_def example_spec_def storage_spec_def build_storage_def Let_def
      example_bus_config_def store_pdos_def build_pdo_views_def append_entry_views_def data_def array_def sync_end_def)

theorem preop_writes_guarded_witness:
  "transfers (snd (snd (snd example_run))) \<le> 40
   \<and> (\<exists>start exchanges. snd (snd (snd example_run)) = EvClock (Inr start) # concat exchanges
        \<and> (\<forall>x \<in> set exchanges. \<exists>p. exchange 2 (start + 1000000000) p x))"
proof -
  have run: "configure_preop (logged example_bus) True 1000 2 example_verification (\<lambda>ob. [0], [])
      = (fst example_run, fst (snd example_run), (fst (snd (snd example_run)), snd (snd (snd example_run))))"
    by (simp add: example_run_def)
  have "length (init_writes example_verification) = 0" "length (checks example_verification) = 5" by code_simp+
  with preop_writes_guarded [OF example_ready example_well_sized run] example_run_ok show ?thesis
    by (simp add: example_bus_def)
qed

theorem preop_configured_slaves_witness:
  "\<exists>start ini cfg. snd (snd (snd example_run)) = EvClock (Inr start) # ini @ cfg
     \<and> each (slave_configured 2 (start + 1000000000)) [(0, example_spec)] cfg"
proof -
  have run: "configure_preop (logged example_bus) True 1000 2 example_verification (\<lambda>ob. [0], [])
      = (PreopConfigured, fst (snd example_run), (fst (snd (snd example_run)), snd (snd (snd example_run))))"
    using example_run_ok by (simp add: example_run_def prod_eq_iff)
  from preop_configured_slaves [OF example_ready example_well_sized run] show ?thesis
    by (auto simp: example_bus_def)
qed

end
