(* ===== verification/Preop_Wait.thy ===== *)
theory Preop_Wait
  imports Preop_Trace
begin

text \<open>
  Waiting for PREOP: \<open>slaveReadyForConfiguration\<close> and both overloads of \<open>waitForSlavesInPreop\<close> of
  src/src/ethercat_master.cpp. The query, the wait and the optional expiry test are parameters, as
  they are in the code (\<open>std::function\<close>); the loop counts its attempts, so it is a recursion on the
  attempts left. The information of the slaves that the timeout message lists is returned with it.
  Progress messages are not modelled.
\<close>

definition kPreopStableConfirmations :: u64 where
  "kPreopStableConfirmations = 5"

definition slave_ready :: "u8 \<Rightarrow> slave_info \<Rightarrow> bool" where
  "slave_ready preop info \<longleftrightarrow> si_al_state info = preop \<and> si_error_flag info = 0"

definition slave_info_init :: slave_info where
  "slave_info_init = \<lparr>si_vendor_id = 0, si_product_code = 0, si_revision_number = 0, si_serial_number = 0,
     si_al_state = 0, si_error_flag = 0\<rparr>"

datatype wait_error = QueryFailed nat | PreopTimedOut "(nat \<times> slave_info) list"

record 'w wait_api =
  wa_preop :: u8
  wa_query :: "u16 \<Rightarrow> 'w \<Rightarrow> (int \<times> slave_info) \<times> 'w"
  wa_wait :: "'w \<Rightarrow> 'w"
  wa_expired :: "('w \<Rightarrow> bool \<times> 'w) option"

definition check_expired :: "'w wait_api \<Rightarrow> 'w \<Rightarrow> bool \<times> 'w" where
  "check_expired I w = (case wa_expired I of None \<Rightarrow> (False, w) | Some f \<Rightarrow> f w)"

text \<open>One poll of all slaves from index \<open>i\<close>: the information seen, or the index whose query failed.\<close>

fun poll_preop :: "'w wait_api \<Rightarrow> nat \<Rightarrow> slave_spec list \<Rightarrow> slave_info list \<Rightarrow> bool \<Rightarrow> 'w
    \<Rightarrow> (nat + bool) \<times> slave_info list \<times> 'w" where
  "poll_preop I i [] pend all_ready w = (Inr all_ready, pend, w)"
| "poll_preop I i (slave # rest) pend all_ready w =
     (case wa_query I (sp_position slave) w of
        ((rc, info), w) \<Rightarrow>
          if rc \<noteq> 0 then (Inl i, pend, w)
          else poll_preop I (Suc i) rest (pend[i := info]) (all_ready \<and> slave_ready (wa_preop I) info) w)"

text \<open>The slaves the timeout message lists.\<close>

definition not_ready :: "u8 \<Rightarrow> slave_info list \<Rightarrow> (nat \<times> slave_info) list" where
  "not_ready preop pend = filter (\<lambda>(i, info). \<not> slave_ready preop info) (enumerate 0 pend)"

text \<open>\<open>n\<close> is the number of attempts left, the counter a 64-bit word.\<close>

fun wait_loop :: "'w wait_api \<Rightarrow> slave_spec list \<Rightarrow> nat \<Rightarrow> u64 \<Rightarrow> slave_info list \<Rightarrow> 'w
    \<Rightarrow> wait_error option \<times> 'w" where
  "wait_loop I ss 0 stable_count pend w = (Some (PreopTimedOut (not_ready (wa_preop I) pend)), w)"
| "wait_loop I ss (Suc n) stable_count pend w =
     (case check_expired I w of
        (True, w) \<Rightarrow> (Some (PreopTimedOut (not_ready (wa_preop I) pend)), w)
      | (False, w) \<Rightarrow>
          (case poll_preop I 0 ss pend True w of
             (Inl i, pend, w) \<Rightarrow> (Some (QueryFailed i), w)
           | (Inr all_ready, pend, w) \<Rightarrow>
               (case check_expired I w of
                  (True, w) \<Rightarrow> (Some (PreopTimedOut (not_ready (wa_preop I) pend)), w)
                | (False, w) \<Rightarrow>
                    let stable_count = (if all_ready then stable_count + 1 else 0) in
                    if all_ready \<and> kPreopStableConfirmations \<le> stable_count then (None, w)
                    else wait_loop I ss n stable_count pend (if n \<noteq> 0 then wa_wait I w else w))))"

definition wait_for_slaves :: "'w wait_api \<Rightarrow> static_slave_config \<Rightarrow> nat \<Rightarrow> 'w \<Rightarrow> wait_error option \<times> 'w" where
  "wait_for_slaves I config max_attempts w =
     wait_loop I (config_slaves config) max_attempts 0 (replicate (ssc_slave_count config) slave_info_init) w"

text \<open>
  The member overload: the deadline is the steady clock (the field \<open>steady_ns\<close>) plus the timeout, the
  wait sleeps until the earlier of the deadline and 10 ms from now, and the attempts are bounded only
  by \<open>size_t\<close>.
\<close>

record 'w steady_api =
  sa_preop :: u8
  sa_query :: "u16 \<Rightarrow> 'w \<Rightarrow> (int \<times> slave_info) \<times> 'w"
  steady_ns :: "'w \<Rightarrow> int \<times> 'w"
  sleep_until :: "int \<Rightarrow> 'w \<Rightarrow> 'w"

definition SIZE_MAX :: nat where
  "SIZE_MAX = 2 ^ 64 - 1"

definition wait_for_slaves_timed :: "'w steady_api \<Rightarrow> static_slave_config \<Rightarrow> u32 \<Rightarrow> 'w \<Rightarrow> wait_error option \<times> 'w" where
  "wait_for_slaves_timed S config timeout_ms w =
     (case steady_ns S w of
        (start, w) \<Rightarrow>
          let deadline = start + uint timeout_ms * 1000000;
              I = \<lparr>wa_preop = sa_preop S, wa_query = sa_query S,
                   wa_wait = (\<lambda>w. case steady_ns S w of (now, w) \<Rightarrow> sleep_until S (min deadline (now + 10000000)) w),
                   wa_expired = Some (\<lambda>w. case steady_ns S w of (now, w) \<Rightarrow> (deadline \<le> now, w))\<rparr>
          in wait_for_slaves I config SIZE_MAX w)"

section \<open>Five consecutive polls\<close>

datatype wait_event = WeQuery u16 int slave_info | WeExpired bool | WeWait

definition logged_wait :: "'w wait_api \<Rightarrow> ('w \<times> wait_event list) wait_api" where
  "logged_wait I = \<lparr>wa_preop = wa_preop I,
     wa_query = (\<lambda>p (w, l). case wa_query I p w of ((rc, info), w) \<Rightarrow> ((rc, info), (w, l @ [WeQuery p rc info]))),
     wa_wait = (\<lambda>(w, l). (wa_wait I w, l @ [WeWait])),
     wa_expired = Some (\<lambda>(w, l). case check_expired I w of (b, w) \<Rightarrow> (b, (w, l @ [WeExpired b])))\<rparr>"

text \<open>A healthy poll inside the time: every slave answers, in order, in PREOP without error flag.\<close>

definition healthy_poll :: "u8 \<Rightarrow> slave_spec list \<Rightarrow> wait_event list \<Rightarrow> bool" where
  "healthy_poll preop ss l \<longleftrightarrow> (\<exists>infos. length infos = length ss \<and> (\<forall>info \<in> set infos. slave_ready preop info)
     \<and> l = [WeExpired False] @ map (\<lambda>(slave, info). WeQuery (sp_position slave) 0 info) (zip ss infos) @ [WeExpired False])"

lemma poll_preop_log:
  "poll_preop (logged_wait I) i ss pend b (w, l) = (r, pend', (w', l')) \<Longrightarrow>
     case r of Inl k \<Rightarrow> True
     | Inr all_ready \<Rightarrow> \<exists>infos. length infos = length ss
         \<and> l' = l @ map (\<lambda>(slave, info). WeQuery (sp_position slave) 0 info) (zip ss infos)
         \<and> (all_ready \<longleftrightarrow> b \<and> (\<forall>info \<in> set infos. slave_ready (wa_preop I) info))"
proof (induction ss arbitrary: i pend b w l)
  case Nil
  then show ?case by auto
next
  case (Cons slave ss)
  obtain rc info w1 where q: "wa_query I (sp_position slave) w = ((rc, info), w1)" by (metis prod.exhaust)
  show ?case
  proof (cases "rc = 0")
    case False
    with Cons.prems q show ?thesis by (auto simp: logged_wait_def)
  next
    case True
    with Cons.prems q have "poll_preop (logged_wait I) (Suc i) ss (pend[i := info])
        (b \<and> slave_ready (wa_preop I) info) (w1, l @ [WeQuery (sp_position slave) 0 info]) = (r, pend', (w', l'))"
      by (simp add: logged_wait_def)
    note IH = Cons.IH [OF this]
    show ?thesis
    proof (cases r)
      case (Inr all_ready)
      with IH obtain infos where "length infos = length ss"
        "l' = (l @ [WeQuery (sp_position slave) 0 info]) @ map (\<lambda>(slave, info). WeQuery (sp_position slave) 0 info) (zip ss infos)"
        "all_ready \<longleftrightarrow> (b \<and> slave_ready (wa_preop I) info) \<and> (\<forall>info \<in> set infos. slave_ready (wa_preop I) info)"
        by auto
      then show ?thesis unfolding Inr by (auto intro!: exI [of _ "info # infos"])
    qed simp
  qed
qed

text \<open>The log ends with \<open>k\<close> healthy polls, one wait after each.\<close>

definition ends_healthy :: "u8 \<Rightarrow> slave_spec list \<Rightarrow> nat \<Rightarrow> wait_event list \<Rightarrow> bool" where
  "ends_healthy preop ss k l \<longleftrightarrow> (\<exists>before polls. l = before @ concat (map (\<lambda>p. p @ [WeWait]) polls)
     \<and> length polls = k \<and> (\<forall>p \<in> set polls. healthy_poll preop ss p))"

lemma ends_healthy_Suc:
  "ends_healthy preop ss k l \<Longrightarrow> healthy_poll preop ss p \<Longrightarrow> ends_healthy preop ss (Suc k) (l @ p @ [WeWait])"
proof -
  assume "ends_healthy preop ss k l" and p: "healthy_poll preop ss p"
  then obtain before polls where "l = before @ concat (map (\<lambda>p. p @ [WeWait]) polls)" "length polls = k"
    "\<forall>p \<in> set polls. healthy_poll preop ss p" by (auto simp: ends_healthy_def)
  with p show ?thesis
    unfolding ends_healthy_def by (intro exI [of _ before] exI [of _ "polls @ [p]"]) auto
qed

lemma ends_healthy_0 [simp]: "ends_healthy preop ss 0 l"
  by (simp add: ends_healthy_def)

lemma wait_loop_log:
  "wait_loop (logged_wait I) ss n c pend (w, l) = (None, (w', l')) \<Longrightarrow> unat c < 5 \<Longrightarrow>
   ends_healthy (wa_preop I) ss (unat c) l \<Longrightarrow>
   \<exists>l4 p. l' = l4 @ p \<and> ends_healthy (wa_preop I) ss 4 l4 \<and> healthy_poll (wa_preop I) ss p"
proof (induction n arbitrary: c pend w l)
  case 0
  then show ?case by simp
next
  case (Suc n)
  obtain e1 w1 where x1: "check_expired I w = (e1, w1)" by fastforce
  have lx: "check_expired (logged_wait I) (v, m) = (case check_expired I v of (b, v) \<Rightarrow> (b, (v, m @ [WeExpired b])))" for v m
    by (simp add: check_expired_def logged_wait_def)
  from Suc.prems(1) x1 have e1: "\<not> e1" by (auto simp: lx split: bool.splits)
  obtain r pend2 w2 l2 where po: "poll_preop (logged_wait I) 0 ss pend True (w1, l @ [WeExpired False]) = (r, pend2, (w2, l2))"
    by (metis prod.exhaust)
  from Suc.prems(1) x1 e1 po obtain ready where r: "r = Inr ready" by (cases r) (auto simp: lx)
  from poll_preop_log [OF po] r obtain infos where infos: "length infos = length ss"
    "l2 = (l @ [WeExpired False]) @ map (\<lambda>(slave, info). WeQuery (sp_position slave) 0 info) (zip ss infos)"
    "ready \<longleftrightarrow> (\<forall>info \<in> set infos. slave_ready (wa_preop I) info)" by auto
  obtain e2 w3 where x2: "check_expired I w2 = (e2, w3)" by fastforce
  from Suc.prems(1) x1 e1 po r x2 have e2: "\<not> e2" by (auto simp: lx split: bool.splits)
  let ?p = "[WeExpired False] @ map (\<lambda>(slave, info). WeQuery (sp_position slave) 0 info) (zip ss infos) @ [WeExpired False]"
  let ?c = "if ready then c + 1 else 0"
  have next_loop: "wait_loop (logged_wait I) ss (Suc n) c pend (w, l) =
      (if ready \<and> kPreopStableConfirmations \<le> ?c then (None, (w3, l @ ?p))
       else wait_loop (logged_wait I) ss n ?c pend2
         (if n \<noteq> 0 then (wa_wait I w3, (l @ ?p) @ [WeWait]) else (w3, l @ ?p)))"
    using x1 e1 po r x2 e2 infos(2) by (simp add: lx Let_def) (simp add: logged_wait_def)
  have healthy: "ready \<Longrightarrow> healthy_poll (wa_preop I) ss ?p"
    using infos(1,3) unfolding healthy_poll_def by blast
  have c1: "unat (c + 1) = Suc (unat c)" using Suc.prems(2) by (simp add: unat_word_ariths)
  show ?case
  proof (cases "ready \<and> kPreopStableConfirmations \<le> ?c")
    case True
    then have now: "ready" "kPreopStableConfirmations \<le> c + 1" by auto
    then have "5 \<le> unat (c + 1)" by (simp add: kPreopStableConfirmations_def word_le_nat_alt)
    then have "unat c = 4" using c1 Suc.prems(2) by simp
    then have "ends_healthy (wa_preop I) ss 4 l" using Suc.prems(3) by simp
    moreover have "l' = l @ ?p" using now Suc.prems(1) unfolding next_loop by simp
    ultimately show ?thesis using healthy True by blast
  next
    case False
    have small: "unat ?c < 5" using False c1 by (auto simp: kPreopStableConfirmations_def word_le_nat_alt)
    show ?thesis
    proof (cases "n = 0")
      case True
      with Suc.prems(1) False show ?thesis unfolding next_loop by simp
    next
      case n: False
      have rest: "wait_loop (logged_wait I) ss n ?c pend2 (wa_wait I w3, (l @ ?p) @ [WeWait]) = (None, (w', l'))"
        using Suc.prems(1) False n unfolding next_loop by simp
      have "ends_healthy (wa_preop I) ss (unat ?c) ((l @ ?p) @ [WeWait])"
        using ends_healthy_Suc [OF Suc.prems(3) healthy] c1 by simp
      from Suc.IH [OF rest small this] show ?thesis .
    qed
  qed
qed

text \<open>
  Claim C23. \<open>waitForSlavesInPreop\<close> reports readiness only after five consecutive polls, separated by
  waits, in each of which every configured slave answered, in order, in PREOP without error flag, and
  before and after each of which the time had not expired.
\<close>
theorem preop_five_polls:
  assumes "wait_for_slaves (logged_wait I) config max_attempts (w, []) = (None, (w', l))"
  shows "\<exists>before p1 p2 p3 p4 p5. l = before @ p1 @ [WeWait] @ p2 @ [WeWait] @ p3 @ [WeWait] @ p4 @ [WeWait] @ p5
    \<and> (\<forall>p \<in> {p1, p2, p3, p4, p5}. healthy_poll (wa_preop I) (config_slaves config) p)"
proof -
  from wait_loop_log [OF assms [unfolded wait_for_slaves_def]] obtain l4 p5 where
    l: "l = l4 @ p5" "ends_healthy (wa_preop I) (config_slaves config) 4 l4"
    and p5: "healthy_poll (wa_preop I) (config_slaves config) p5" by auto
  from l(2) obtain before polls where polls: "l4 = before @ concat (map (\<lambda>p. p @ [WeWait]) polls)"
    "length polls = 4" "\<forall>p \<in> set polls. healthy_poll (wa_preop I) (config_slaves config) p"
    by (auto simp: ends_healthy_def)
  then obtain p1 p2 p3 p4 where "polls = [p1, p2, p3, p4]" by (auto simp: numeral_eq_Suc length_Suc_conv)
  with polls(1,3) l(1) p5 have
    "l = before @ p1 @ [WeWait] @ p2 @ [WeWait] @ p3 @ [WeWait] @ p4 @ [WeWait] @ p5
     \<and> (\<forall>p \<in> {p1, p2, p3, p4, p5}. healthy_poll (wa_preop I) (config_slaves config) p)" by simp
  then show ?thesis by blast
qed

definition example_wait :: "nat wait_api" where
  "example_wait = \<lparr>wa_preop = 2,
     wa_query = (\<lambda>p w. ((0, slave_info_init\<lparr>si_al_state := (if w < 2 then 1 else 2)\<rparr>), Suc w)),
     wa_wait = (\<lambda>w. w), wa_expired = None\<rparr>"

theorem preop_five_polls_witness:
  "\<exists>before p5. snd (snd (wait_for_slaves (logged_wait example_wait) example_static 20 (0, []))) = before @ p5
     \<and> healthy_poll 2 [example_spec] p5"
proof -
  let ?r = "wait_for_slaves (logged_wait example_wait) example_static 20 (0, [])"
  have "fst ?r = None" by code_simp
  then have run: "?r = (None, (fst (snd ?r), snd (snd ?r)))" by (simp add: prod_eq_iff)
  from preop_five_polls [OF run] obtain before p1 p2 p3 p4 p5 where
    "snd (snd ?r) = before @ p1 @ [WeWait] @ p2 @ [WeWait] @ p3 @ [WeWait] @ p4 @ [WeWait] @ p5"
    "healthy_poll (wa_preop example_wait) (config_slaves example_static) p5" by blast
  then show ?thesis
    by (intro exI [of _ "before @ p1 @ [WeWait] @ p2 @ [WeWait] @ p3 @ [WeWait] @ p4 @ [WeWait]"] exI [of _ p5])
       (simp add: example_wait_def example_static_def)
qed

end
