(* ===== verification/Ethercat_Master.thy ===== *)
theory Ethercat_Master
  imports Preop_Wait Process_Data_Layout
begin

text \<open>
  \<open>EthercatMaster\<close> of src/src/ethercat_master.hpp and src/src/ethercat_master.cpp after its
  configuration: its state, the realtime operations of one cycle, the activation with the first clock
  sample, and \<open>reset\<close>. A pointer is an optional handle; the functions of the EtherCAT library, the
  monotonic clock and \<open>std::memcpy\<close> between process images (memory that the kernel and the other
  processes write as well) are the fields of the parameter \<open>rt_api\<close>, functions of the world they act on.
\<close>

section \<open>The interface\<close>

record ec_master_state =
  ms_slaves_responding :: u32
  ms_al_states :: u32
  ms_link_up :: u32

record ec_domain_state =
  ds_working_counter :: u32
  ds_wc_state :: ec_wc_state

record ec_slave_config_state =
  cs_online :: bool
  cs_operational :: bool
  cs_al_state :: u32

record ('m, 'd, 'c, 'p, 'w) rt_api =
  al_op :: u32
  rt_receive :: "'m option \<Rightarrow> 'w \<Rightarrow> 'w"
  rt_process :: "'d option \<Rightarrow> 'w \<Rightarrow> 'w"
  rt_application_time :: "'m option \<Rightarrow> u64 \<Rightarrow> 'w \<Rightarrow> int \<times> 'w"
  rt_queue :: "'d option \<Rightarrow> 'w \<Rightarrow> 'w"
  rt_monotonic :: "'w \<Rightarrow> (int + timespec) \<times> 'w"
  rt_sync_reference_clock_to :: "'m option \<Rightarrow> u64 \<Rightarrow> 'w \<Rightarrow> int \<times> 'w"
  rt_sync_slave_clocks :: "'m option \<Rightarrow> 'w \<Rightarrow> int \<times> 'w"
  rt_send :: "'m option \<Rightarrow> 'w \<Rightarrow> 'w"
  rt_master_state :: "'m option \<Rightarrow> 'w \<Rightarrow> (int \<times> ec_master_state) \<times> 'w"
  rt_domain_state :: "'d option \<Rightarrow> 'w \<Rightarrow> (int \<times> ec_domain_state) \<times> 'w"
  rt_slave_config_state :: "'c \<Rightarrow> 'w \<Rightarrow> (int \<times> ec_slave_config_state) \<times> 'w"
  rt_copy :: "'p \<Rightarrow> 'p \<Rightarrow> nat \<Rightarrow> 'w \<Rightarrow> 'w"
  rt_activate :: "'m option \<Rightarrow> 'w \<Rightarrow> int \<times> 'w"
  rt_release :: "'m option \<Rightarrow> 'w \<Rightarrow> 'w"

section \<open>State\<close>

datatype dc_error_stage = DcNone | ApplicationTime | SyncReferenceClock | SyncSlaveClocks

record dc_error =
  dc_stage :: dc_error_stage
  dc_error_code :: int

definition dc_error_init :: dc_error where
  "dc_error_init = \<lparr>dc_stage = DcNone, dc_error_code = 0\<rparr>"

record ('m, 'd, 'c, 'q, 'p) ethercat_master =
  slave_configs :: "'c list"
  slave_identities :: "slave_info list"
  verification :: "'q pdo_verification"
  layout :: process_data_layout
  master :: "'m option"
  input_domain :: "'d option"
  output_domain :: "'d option"
  input_data :: "'p option"
  output_data :: "'p option"
  em_input_size :: nat
  em_output_size :: nat
  em_dc_enabled :: bool
  dc_phase_origin_ns :: u64
  last_dc_error :: dc_error
  initialized :: bool

definition ethercat_master_init :: "('m, 'd, 'c, 'q, 'p) ethercat_master" where
  "ethercat_master_init = \<lparr>slave_configs = [], slave_identities = [], verification = verification_init,
     layout = \<lparr>input_size = 0, output_size = 0\<rparr>, master = None, input_domain = None, output_domain = None,
     input_data = None, output_data = None, em_input_size = 0, em_output_size = 0, em_dc_enabled = False,
     dc_phase_origin_ns = 0, last_dc_error = dc_error_init, initialized = False\<rparr>"

definition record_dc_error :: "dc_error_stage \<Rightarrow> int \<Rightarrow> ('m, 'd, 'c, 'q, 'p) ethercat_master
    \<Rightarrow> ('m, 'd, 'c, 'q, 'p) ethercat_master" where
  "record_dc_error stage code em = em\<lparr>last_dc_error := \<lparr>dc_stage = stage, dc_error_code = code\<rparr>\<rparr>"

text \<open>The unsigned nanosecond count of a clock sample.\<close>

definition unsigned_ns :: "timespec \<Rightarrow> u64" where
  "unsigned_ns ts = word_of_int (tv_sec ts) * 1000000000 + word_of_int (tv_nsec ts)"

section \<open>Operations of a cycle\<close>

definition bus_ready :: "('m, 'd, 'c, 'q, 'p) ethercat_master \<Rightarrow> bool" where
  "bus_ready em \<longleftrightarrow> \<not> (\<not> initialized em \<or> master em = None \<or> input_domain em = None \<or> output_domain em = None)"

definition receive_and_process :: "('m, 'd, 'c, 'p, 'w) rt_api \<Rightarrow> ('m, 'd, 'c, 'q, 'p) ethercat_master
    \<Rightarrow> 'w \<Rightarrow> 'w" where
  "receive_and_process I em w =
     (if \<not> bus_ready em then w
      else rt_process I (output_domain em) (rt_process I (input_domain em) (rt_receive I (master em) w)))"

definition set_application_time :: "('m, 'd, 'c, 'p, 'w) rt_api \<Rightarrow> u64
    \<Rightarrow> ('m, 'd, 'c, 'q, 'p) ethercat_master \<Rightarrow> 'w \<Rightarrow> bool \<times> ('m, 'd, 'c, 'q, 'p) ethercat_master \<times> 'w" where
  "set_application_time I app_time_ns em w =
     (if \<not> em_dc_enabled em then (True, em, w)
      else if \<not> initialized em \<or> master em = None then (False, em, w)
      else case rt_application_time I (master em) app_time_ns w of
        (result, w) \<Rightarrow>
          if result \<noteq> 0 then (False, record_dc_error ApplicationTime result em, w) else (True, em, w))"

definition queue_and_send :: "('m, 'd, 'c, 'p, 'w) rt_api \<Rightarrow> ('m, 'd, 'c, 'q, 'p) ethercat_master \<Rightarrow> 'w
    \<Rightarrow> bool \<times> ('m, 'd, 'c, 'q, 'p) ethercat_master \<times> 'w" where
  "queue_and_send I em w =
     (if \<not> bus_ready em then (False, em, w)
      else
        let w = rt_queue I (output_domain em) (rt_queue I (input_domain em) w) in
        if em_dc_enabled em then
          (case rt_monotonic I w of
             (Inl errno, w) \<Rightarrow> (False, record_dc_error SyncReferenceClock (- errno) em, w)
           | (Inr now, w) \<Rightarrow>
               (case rt_sync_reference_clock_to I (master em) (unsigned_ns now) w of
                  (reference_result, w) \<Rightarrow>
                    if reference_result \<noteq> 0 then (False, record_dc_error SyncReferenceClock reference_result em, w)
                    else (case rt_sync_slave_clocks I (master em) w of
                      (slave_result, w) \<Rightarrow>
                        if slave_result \<noteq> 0 then (False, record_dc_error SyncSlaveClocks slave_result em, w)
                        else (True, em, rt_send I (master em) w))))
        else (True, em, rt_send I (master em) w))"

definition read_state :: "('m, 'd, 'c, 'p, 'w) rt_api \<Rightarrow> ('m, 'd, 'c, 'q, 'p) ethercat_master \<Rightarrow> 'w
    \<Rightarrow> bus_state \<times> 'w" where
  "read_state I em w =
     (let state = bus_state_init in
      if \<not> initialized em then (state, w)
      else case rt_master_state I (master em) w of
        ((master_rc, m), w) \<Rightarrow>
          let state = (if master_rc = 0
                then state\<lparr>responding_slaves := ms_slaves_responding m, al_states := ms_al_states m,
                  bs_link_up := ms_link_up m \<noteq> 0, bs_status_valid := or (bs_status_valid state) 3\<rparr>
                else state)
          in case rt_domain_state I (input_domain em) w of
            ((input_rc, i), w) \<Rightarrow> (case rt_domain_state I (output_domain em) w of
              ((output_rc, o'), w) \<Rightarrow>
                (if input_rc = 0 \<and> output_rc = 0
                 then state\<lparr>input_working_counter := ds_working_counter i,
                   output_working_counter := ds_working_counter o',
                   input_wc_state := ds_wc_state i, output_wc_state := ds_wc_state o',
                   bs_status_valid := or (bs_status_valid state) 4\<rparr>
                 else state, w)))"

definition identity_row :: "slave_info \<Rightarrow> shm_slave \<Rightarrow> shm_slave" where
  "identity_row info slave = slave\<lparr>sl_vendor_id := si_vendor_id info, sl_product_code := si_product_code info,
     sl_revision_number := si_revision_number info, sl_serial_number := si_serial_number info,
     sl_info_valid := 0x0f, sl_identity_source := 1, sl_firmware_version := []\<rparr>"

text \<open>The rows of the first slaves are overwritten, the others kept.\<close>

definition update_rows :: "('a \<Rightarrow> 'b \<Rightarrow> 'b) \<Rightarrow> 'a list \<Rightarrow> 'b list \<Rightarrow> 'b list" where
  "update_rows f xs rows = map (\<lambda>(x, row). f x row) (zip xs rows) @ drop (length xs) rows"

definition publish_identity :: "abi \<Rightarrow> ('m, 'd, 'c, 'q, 'p) ethercat_master \<Rightarrow> 'r ecat_bus
    \<Rightarrow> bool \<times> 'r ecat_bus" where
  "publish_identity A em bus =
     (if slave_num bus < 0 \<or> int (MAX_SLAVE_NUM A) < slave_num bus
         \<or> nat (slave_num bus) \<noteq> length (slave_identities em)
      then (False, bus)
      else (True, bus\<lparr>slaves := update_rows identity_row (slave_identities em) (slaves bus)\<rparr>))"

definition runtime_row :: "int \<Rightarrow> ec_slave_config_state \<Rightarrow> shm_slave \<Rightarrow> shm_slave" where
  "runtime_row rc state slave =
     (let valid = (rc = 0) in
      slave\<lparr>sl_online := (if valid \<and> cs_online state then 1 else 0),
        sl_al_state := (if valid \<and> cs_online state then cs_al_state state else 0),
        sl_al_status_code := 0,
        sl_runtime_valid := (if valid then (if cs_online state then 3 else 1) else 0)\<rparr>)"

fun publish_rows :: "('m, 'd, 'c, 'p, 'w) rt_api \<Rightarrow> nat \<Rightarrow> 'c list \<Rightarrow> 'r ecat_bus \<Rightarrow> 'w
    \<Rightarrow> 'r ecat_bus \<times> 'w" where
  "publish_rows I i [] bus w = (bus, w)"
| "publish_rows I i (sc # rest) bus w =
     (if \<not> i < nat (slave_num bus) then (bus, w)
      else case rt_slave_config_state I sc w of
        ((rc, state), w) \<Rightarrow>
          publish_rows I (Suc i) rest
            (bus\<lparr>slaves := (slaves bus)[i := runtime_row rc state (slaves bus ! i)]\<rparr>) w)"

definition publish_slave_runtime :: "abi \<Rightarrow> ('m, 'd, 'c, 'p, 'w) rt_api
    \<Rightarrow> ('m, 'd, 'c, 'q, 'p) ethercat_master \<Rightarrow> 'r ecat_bus \<Rightarrow> 'w \<Rightarrow> 'r ecat_bus \<times> 'w" where
  "publish_slave_runtime A I em bus w =
     (if slave_num bus < 0 \<or> int (MAX_SLAVE_NUM A) < slave_num bus then (bus, w)
      else publish_rows I 0 (slave_configs em) bus w)"

text \<open>
  \<open>pollSlaves\<close>: the state of the loop is the readiness so far, the first error, and the snapshot of
  the caller (a pointer and its capacity).
\<close>

definition slave_reached :: "('m, 'd, 'c, 'p, 'w) rt_api \<Rightarrow> u32 \<Rightarrow> int \<Rightarrow> ec_slave_config_state \<Rightarrow> bool" where
  "slave_reached I target rc state \<longleftrightarrow>
     rc = 0 \<and> cs_online state \<and> cs_al_state state = target \<and> (target \<noteq> al_op I \<or> cs_operational state)"

fun poll_loop :: "('m, 'd, 'c, 'p, 'w) rt_api \<Rightarrow> u32 \<Rightarrow> nat \<Rightarrow> 'c list \<Rightarrow> bool \<Rightarrow> int \<Rightarrow> bool list option
    \<Rightarrow> nat \<Rightarrow> 'w \<Rightarrow> (int \<times> bool \<times> bool list option) \<times> 'w" where
  "poll_loop I target index [] all_ready first_rc ready_states capacity w =
     ((first_rc, all_ready, ready_states), w)"
| "poll_loop I target index (sc # rest) all_ready first_rc ready_states capacity w =
     (case rt_slave_config_state I sc w of
        ((rc, state), w) \<Rightarrow>
          let first_rc = (if rc \<noteq> 0 \<and> first_rc = 0 then rc else first_rc);
              ready = slave_reached I target rc state;
              ready_states = (case ready_states of None \<Rightarrow> None
                | Some rs \<Rightarrow> Some (if index < capacity then rs[index := ready] else rs))
          in poll_loop I target (Suc index) rest (all_ready \<and> ready) first_rc ready_states capacity w)"

definition poll_slaves :: "('m, 'd, 'c, 'p, 'w) rt_api \<Rightarrow> ('m, 'd, 'c, 'q, 'p) ethercat_master \<Rightarrow> u32
    \<Rightarrow> bool list option \<Rightarrow> nat \<Rightarrow> 'w \<Rightarrow> (int \<times> bool \<times> bool list option) \<times> 'w" where
  "poll_slaves I em target ready_states capacity w =
     poll_loop I target 0 (slave_configs em) (initialized em \<and> slave_configs em \<noteq> []) 0 ready_states capacity w"

definition shared_input_size :: "('m, 'd, 'c, 'q, 'p) ethercat_master \<Rightarrow> nat" where
  "shared_input_size em = max (em_input_size em) (input_size (layout em))"

definition shared_output_size :: "('m, 'd, 'c, 'q, 'p) ethercat_master \<Rightarrow> nat" where
  "shared_output_size em = max (em_output_size em) (output_size (layout em))"

text \<open>\<open>unpackInputs\<close> and \<open>packOutputs\<close> are empty functions of the code.\<close>

definition exchange_process_data :: "('m, 'd, 'c, 'p, 'w) rt_api \<Rightarrow> ('m, 'd, 'c, 'q, 'p) ethercat_master
    \<Rightarrow> 'p option \<Rightarrow> 'p option \<Rightarrow> 'w \<Rightarrow> 'w" where
  "exchange_process_data I em shared_input shared_output w =
     (let w = (case (input_data em, shared_input) of
            (Some src, Some dst) \<Rightarrow> if em_input_size em \<noteq> 0 then rt_copy I dst src (em_input_size em) w else w
          | _ \<Rightarrow> w)
      in case (output_data em, shared_output) of
            (Some dst, Some src) \<Rightarrow> if em_output_size em \<noteq> 0 then rt_copy I dst src (em_output_size em) w else w
          | _ \<Rightarrow> w)"

section \<open>Activation and reset\<close>

datatype activate_error = DcClockUnreadable bool int | DcTimeRejected bool int | ActivateFailed

definition supply_time :: "('m, 'd, 'c, 'p, 'w) rt_api \<Rightarrow> bool \<Rightarrow> ('m, 'd, 'c, 'q, 'p) ethercat_master \<Rightarrow> 'w
    \<Rightarrow> activate_error option \<times> ('m, 'd, 'c, 'q, 'p) ethercat_master \<times> 'w" where
  "supply_time I initial em w =
     (case rt_monotonic I w of
        (Inl errno, w) \<Rightarrow> (Some (DcClockUnreadable initial errno), em, w)
      | (Inr now, w) \<Rightarrow>
          let time = unsigned_ns now in
          (case rt_application_time I (master em) time w of
             (rc, w) \<Rightarrow>
               if rc \<noteq> 0 then (Some (DcTimeRejected initial rc), record_dc_error ApplicationTime rc em, w)
               else (None, if initial then em\<lparr>dc_phase_origin_ns := time\<rparr> else em, w)))"

definition activate_with_dc_time :: "('m, 'd, 'c, 'p, 'w) rt_api \<Rightarrow> bool
    \<Rightarrow> ('m, 'd, 'c, 'q, 'p) ethercat_master \<Rightarrow> 'w
    \<Rightarrow> activate_error option \<times> ('m, 'd, 'c, 'q, 'p) ethercat_master \<times> 'w" where
  "activate_with_dc_time I dc em w =
     (case (if dc then supply_time I True (em\<lparr>dc_phase_origin_ns := 0\<rparr>) w
            else (None, em\<lparr>dc_phase_origin_ns := 0\<rparr>, w)) of
        (Some err, em, w) \<Rightarrow> (Some err, em, w)
      | (None, em, w) \<Rightarrow>
          (case rt_activate I (master em) w of
             (rc, w) \<Rightarrow>
               if rc \<noteq> 0 then (Some ActivateFailed, em, w)
               else if dc then supply_time I False em w
               else (None, em, w)))"

definition master_reset :: "('m, 'd, 'c, 'p, 'w) rt_api \<Rightarrow> ('m, 'd, 'c, 'q, 'p) ethercat_master \<Rightarrow> 'w
    \<Rightarrow> ('m, 'd, 'c, 'q, 'p) ethercat_master \<times> 'w" where
  "master_reset I em w =
     (let em = em\<lparr>verification := verification_reset (verification em), layout := layout_reset (layout em),
            slave_configs := [], slave_identities := [], input_data := None, output_data := None,
            em_input_size := 0, em_output_size := 0, input_domain := None, output_domain := None,
            em_dc_enabled := False, dc_phase_origin_ns := 0, initialized := False\<rparr>
      in case master em of
           None \<Rightarrow> (em, w)
         | Some m \<Rightarrow> (em\<lparr>master := None\<rparr>, rt_release I (Some m) w))"

end
