(* ===== verification/Master_Cycle.thy ===== *)
theory Master_Cycle
  imports Ethercat_Master
begin

text \<open>
  What the realtime operations of \<open>EthercatMaster\<close> do, stated over the log of the calls they make: the
  send order and its guards, the poll of the slaves, the activation with the first clock sample, and
  the exchange of the process images on an explicit store.
\<close>

section \<open>The call log\<close>

datatype ('m, 'd, 'c, 'p) rt_event =
    RtReceive "'m option" | RtProcess "'d option" | RtAppTime "'m option" u64 int | RtQueue "'d option"
  | RtClock "int + timespec" | RtSyncRef "'m option" u64 int | RtSyncSlaves "'m option" int
  | RtSend "'m option" | RtMasterState "'m option" int ec_master_state
  | RtDomainState "'d option" int ec_domain_state | RtSlaveState 'c int ec_slave_config_state
  | RtCopy 'p 'p nat | RtActivate "'m option" int | RtRelease "'m option"

definition log_rt :: "(('m, 'd, 'c, 'p) rt_event \<Rightarrow> 'e) \<Rightarrow> ('m, 'd, 'c, 'p, 'w) rt_api
    \<Rightarrow> ('m, 'd, 'c, 'p, 'w \<times> 'e list) rt_api" where
  "log_rt f I = \<lparr>al_op = al_op I,
     rt_receive = (\<lambda>m (w, l). (rt_receive I m w, l @ [f (RtReceive m)])),
     rt_process = (\<lambda>d (w, l). (rt_process I d w, l @ [f (RtProcess d)])),
     rt_application_time = (\<lambda>m t (w, l). case rt_application_time I m t w of (rc, w) \<Rightarrow> (rc, (w, l @ [f (RtAppTime m t rc)]))),
     rt_queue = (\<lambda>d (w, l). (rt_queue I d w, l @ [f (RtQueue d)])),
     rt_monotonic = (\<lambda>(w, l). case rt_monotonic I w of (r, w) \<Rightarrow> (r, (w, l @ [f (RtClock r)]))),
     rt_sync_reference_clock_to =
       (\<lambda>m t (w, l). case rt_sync_reference_clock_to I m t w of (rc, w) \<Rightarrow> (rc, (w, l @ [f (RtSyncRef m t rc)]))),
     rt_sync_slave_clocks = (\<lambda>m (w, l). case rt_sync_slave_clocks I m w of (rc, w) \<Rightarrow> (rc, (w, l @ [f (RtSyncSlaves m rc)]))),
     rt_send = (\<lambda>m (w, l). (rt_send I m w, l @ [f (RtSend m)])),
     rt_master_state = (\<lambda>m (w, l). case rt_master_state I m w of ((rc, s), w) \<Rightarrow> ((rc, s), (w, l @ [f (RtMasterState m rc s)]))),
     rt_domain_state = (\<lambda>d (w, l). case rt_domain_state I d w of ((rc, s), w) \<Rightarrow> ((rc, s), (w, l @ [f (RtDomainState d rc s)]))),
     rt_slave_config_state =
       (\<lambda>c (w, l). case rt_slave_config_state I c w of ((rc, s), w) \<Rightarrow> ((rc, s), (w, l @ [f (RtSlaveState c rc s)]))),
     rt_copy = (\<lambda>dst src n (w, l). (rt_copy I dst src n w, l @ [f (RtCopy dst src n)])),
     rt_activate = (\<lambda>m (w, l). case rt_activate I m w of (rc, w) \<Rightarrow> (rc, (w, l @ [f (RtActivate m rc)]))),
     rt_release = (\<lambda>m (w, l). (rt_release I m w, l @ [f (RtRelease m)]))\<rparr>"

lemma log_rt_simps [simp]:
  "al_op (log_rt f I) = al_op I"
  "rt_receive (log_rt f I) m (w, l) = (rt_receive I m w, l @ [f (RtReceive m)])"
  "rt_process (log_rt f I) d (w, l) = (rt_process I d w, l @ [f (RtProcess d)])"
  "rt_queue (log_rt f I) d (w, l) = (rt_queue I d w, l @ [f (RtQueue d)])"
  "rt_send (log_rt f I) m (w, l) = (rt_send I m w, l @ [f (RtSend m)])"
  "rt_copy (log_rt f I) dst src n (w, l) = (rt_copy I dst src n w, l @ [f (RtCopy dst src n)])"
  "rt_release (log_rt f I) m (w, l) = (rt_release I m w, l @ [f (RtRelease m)])"
  "rt_application_time (log_rt f I) m t (w, l) =
     (case rt_application_time I m t w of (rc, w) \<Rightarrow> (rc, (w, l @ [f (RtAppTime m t rc)])))"
  "rt_monotonic (log_rt f I) (w, l) = (case rt_monotonic I w of (r, w) \<Rightarrow> (r, (w, l @ [f (RtClock r)])))"
  "rt_sync_reference_clock_to (log_rt f I) m t (w, l) =
     (case rt_sync_reference_clock_to I m t w of (rc, w) \<Rightarrow> (rc, (w, l @ [f (RtSyncRef m t rc)])))"
  "rt_sync_slave_clocks (log_rt f I) m (w, l) =
     (case rt_sync_slave_clocks I m w of (rc, w) \<Rightarrow> (rc, (w, l @ [f (RtSyncSlaves m rc)])))"
  "rt_master_state (log_rt f I) m (w, l) =
     (case rt_master_state I m w of ((rc, s), w) \<Rightarrow> ((rc, s), (w, l @ [f (RtMasterState m rc s)])))"
  "rt_domain_state (log_rt f I) d (w, l) =
     (case rt_domain_state I d w of ((rc, s), w) \<Rightarrow> ((rc, s), (w, l @ [f (RtDomainState d rc s)])))"
  "rt_slave_config_state (log_rt f I) c (w, l) =
     (case rt_slave_config_state I c w of ((rc, s), w) \<Rightarrow> ((rc, s), (w, l @ [f (RtSlaveState c rc s)])))"
  "rt_activate (log_rt f I) m (w, l) = (case rt_activate I m w of (rc, w) \<Rightarrow> (rc, (w, l @ [f (RtActivate m rc)])))"
  by (simp_all add: log_rt_def)

abbreviation logged_rt :: "('m, 'd, 'c, 'p, 'w) rt_api
    \<Rightarrow> ('m, 'd, 'c, 'p, 'w \<times> ('m, 'd, 'c, 'p) rt_event list) rt_api" where
  "logged_rt I \<equiv> log_rt (\<lambda>e. e) I"

section \<open>Sending\<close>

text \<open>
  The clock synchronisation of one send: its events, and the failure it ends with.
\<close>

inductive sync_events :: "'m option \<Rightarrow> ('m, 'd, 'c, 'p) rt_event list \<Rightarrow> dc_error option \<Rightarrow> bool" for m where
  "sync_events m [RtClock (Inl errno)] (Some \<lparr>dc_stage = SyncReferenceClock, dc_error_code = - errno\<rparr>)"
| "rc \<noteq> 0 \<Longrightarrow> sync_events m [RtClock (Inr now), RtSyncRef m (unsigned_ns now) rc]
     (Some \<lparr>dc_stage = SyncReferenceClock, dc_error_code = rc\<rparr>)"
| "rc \<noteq> 0 \<Longrightarrow> sync_events m [RtClock (Inr now), RtSyncRef m (unsigned_ns now) 0, RtSyncSlaves m rc]
     (Some \<lparr>dc_stage = SyncSlaveClocks, dc_error_code = rc\<rparr>)"
| "sync_events m [RtClock (Inr now), RtSyncRef m (unsigned_ns now) 0, RtSyncSlaves m 0] None"

inductive_cases sync_eventsE: "sync_events m ev r"

text \<open>The branch with distributed clocks.\<close>

lemma queue_and_send_synced:
  assumes "queue_and_send (logged_rt I) em (w, []) = (ok, em', (w', l))" "bus_ready em" "em_dc_enabled em"
  shows "\<exists>dc failure. l = [RtQueue (input_domain em), RtQueue (output_domain em)] @ dc @ (if ok then [RtSend (master em)] else [])
      \<and> sync_events (master em) dc failure \<and> (ok \<longleftrightarrow> failure = None)
      \<and> em' = (case failure of None \<Rightarrow> em | Some e \<Rightarrow> em\<lparr>last_dc_error := e\<rparr>)"
proof -
  define w1 where "w1 = rt_queue I (output_domain em) (rt_queue I (input_domain em) w)"
  obtain r w2 where r: "rt_monotonic I w1 = (r, w2)" by fastforce
  show ?thesis
  proof (cases r)
    case (Inl errno)
    with assms r show ?thesis
      using sync_events.intros(1) by (fastforce simp: queue_and_send_def w1_def Let_def record_dc_error_def)
  next
    case (Inr now)
    obtain rc w3 where rc: "rt_sync_reference_clock_to I (master em) (unsigned_ns now) w2 = (rc, w3)" by fastforce
    obtain rc' w4 where rc': "rt_sync_slave_clocks I (master em) w3 = (rc', w4)" by fastforce
    note run = assms r [unfolded w1_def] Inr rc rc'
    consider "rc \<noteq> 0" | "rc = 0" "rc' \<noteq> 0" | "rc = 0" "rc' = 0" by blast
    then show ?thesis
    proof cases
      case 1
      with run show ?thesis
        using sync_events.intros(2) [OF 1] by (fastforce simp: queue_and_send_def Let_def record_dc_error_def)
    next
      case 2
      with run show ?thesis
        using sync_events.intros(3) [OF 2(2)] by (fastforce simp: queue_and_send_def Let_def record_dc_error_def)
    next
      case 3
      with run show ?thesis
        using sync_events.intros(4) by (fastforce simp: queue_and_send_def Let_def)
    qed
  qed
qed

text \<open>
  Claim C24. \<open>queueAndSend\<close> queues the input domain, then the output domain, then synchronises the
  reference clock with the current time and the slave clocks when clocks are enabled, and then sends.
  It sends exactly when it returns true, exactly once and last; a clock failure stops it before the
  send and is recorded with its stage and code; an uninitialised master makes no call.
\<close>
theorem queue_and_send_order:
  assumes "queue_and_send (logged_rt I) em (w, []) = (ok, em', (w', l))"
  shows "if \<not> bus_ready em then \<not> ok \<and> l = [] \<and> em' = em
    else \<exists>dc failure. l = [RtQueue (input_domain em), RtQueue (output_domain em)] @ dc @ (if ok then [RtSend (master em)] else [])
      \<and> (if em_dc_enabled em then sync_events (master em) dc failure else dc = [] \<and> failure = None)
      \<and> (ok \<longleftrightarrow> failure = None)
      \<and> em' = (case failure of None \<Rightarrow> em | Some e \<Rightarrow> em\<lparr>last_dc_error := e\<rparr>)
      \<and> RtSend (master em) \<notin> set dc"
proof (cases "bus_ready em \<and> em_dc_enabled em")
  case False
  with assms show ?thesis by (cases "bus_ready em") (auto simp: queue_and_send_def Let_def)
next
  case True
  from queue_and_send_synced [OF assms] True obtain dc failure where
    "l = [RtQueue (input_domain em), RtQueue (output_domain em)] @ dc @ (if ok then [RtSend (master em)] else [])"
    "sync_events (master em) dc failure" "ok \<longleftrightarrow> failure = None"
    "em' = (case failure of None \<Rightarrow> em | Some e \<Rightarrow> em\<lparr>last_dc_error := e\<rparr>)" by blast
  moreover from this(2) have "RtSend (master em) \<notin> set dc" by cases auto
  ultimately show ?thesis using True by auto
qed

section \<open>Polling\<close>

text \<open>The first nonzero code, or zero.\<close>

fun first_nonzero :: "int list \<Rightarrow> int" where
  "first_nonzero [] = 0"
| "first_nonzero (x # xs) = (if x \<noteq> 0 then x else first_nonzero xs)"

text \<open>The log of one query of every slave.\<close>

definition queries :: "'c list \<Rightarrow> (int \<times> ec_slave_config_state) list \<Rightarrow> ('m, 'd, 'c, 'p) rt_event list" where
  "queries cs answers = map (\<lambda>(sc, rc, state). RtSlaveState sc rc state) (zip cs answers)"

text \<open>The snapshot of readiness written from position \<open>i\<close>, below the capacity.\<close>

definition snapshot :: "nat \<Rightarrow> nat \<Rightarrow> 'a list \<Rightarrow> 'a list \<Rightarrow> 'a list" where
  "snapshot i capacity ready rs =
     map (\<lambda>k. if i \<le> k \<and> k < i + length ready \<and> k < capacity then ready ! (k - i) else rs ! k) [0..<length rs]"

lemma snapshot_Nil [simp]: "snapshot i capacity [] rs = rs"
  by (rule nth_equalityI) (auto simp: snapshot_def)

lemma snapshot_Cons:
  "snapshot (Suc i) capacity ready (if i < capacity then rs[i := r] else rs) = snapshot i capacity (r # ready) rs"
  by (rule nth_equalityI) (auto simp: snapshot_def nth_list_update nth_Cons' Suc_le_eq split: if_splits)

lemma slave_reached_logged [simp]: "slave_reached (log_rt f I) = slave_reached I"
  by (simp add: slave_reached_def fun_eq_iff)

lemma poll_loop_log:
  "poll_loop (log_rt f I) target i cs all_ready first_rc rs capacity (w, l) = ((rc, all_ready', rs'), (w', l')) \<Longrightarrow>
   \<exists>answers. length answers = length cs \<and> l' = l @ map f (queries cs answers)
     \<and> (all_ready' \<longleftrightarrow> all_ready \<and> list_all (\<lambda>(c, s). slave_reached I target c s) answers)
     \<and> rc = (if first_rc \<noteq> 0 then first_rc else first_nonzero (map fst answers))
     \<and> rs' = map_option (snapshot i capacity (map (\<lambda>(c, s). slave_reached I target c s) answers)) rs"
proof (induction cs arbitrary: i all_ready first_rc rs w l)
  case Nil
  then show ?case by (cases rs) (auto simp: queries_def)
next
  case (Cons sc cs)
  obtain c s w1 where q: "rt_slave_config_state I sc w = ((c, s), w1)" by (metis prod.exhaust)
  let ?ready = "slave_reached I target c s"
  let ?rs = "map_option (\<lambda>rs. if i < capacity then rs[i := ?ready] else rs) rs"
  have "poll_loop (log_rt f I) target (Suc i) cs (all_ready \<and> ?ready)
      (if c \<noteq> 0 \<and> first_rc = 0 then c else first_rc) ?rs capacity (w1, l @ [f (RtSlaveState sc c s)])
    = ((rc, all_ready', rs'), (w', l'))"
    using Cons.prems q by (cases rs) (simp_all add: Let_def split del: if_split)
  from Cons.IH [OF this] obtain answers where answers: "length answers = length cs"
    "l' = (l @ [f (RtSlaveState sc c s)]) @ map f (queries cs answers)"
    "all_ready' \<longleftrightarrow> (all_ready \<and> ?ready) \<and> list_all (\<lambda>(c, s). slave_reached I target c s) answers"
    "rc = (if (if c \<noteq> 0 \<and> first_rc = 0 then c else first_rc) \<noteq> 0
             then (if c \<noteq> 0 \<and> first_rc = 0 then c else first_rc) else first_nonzero (map fst answers))"
    "rs' = map_option (snapshot (Suc i) capacity (map (\<lambda>(c, s). slave_reached I target c s) answers)) ?rs" by blast
  have "rs' = map_option (snapshot i capacity (map (\<lambda>(c, s). slave_reached I target c s) ((c, s) # answers))) rs"
    unfolding answers(5) by (cases rs) (simp_all add: snapshot_Cons)
  with answers show ?case by (intro exI [of _ "(c, s) # answers"]) (auto simp: queries_def)
qed

text \<open>
  Claim C25. \<open>pollSlaves\<close> queries every configured slave exactly once, in configuration order, whatever
  the answers are. It reports all slaves ready exactly when the master is initialised, has slaves, and
  every answer is successful, online and in the target state (for OP: also operational); it returns
  the first error code; the snapshot of the caller gets the readiness of each slave below its
  capacity and nothing else.
\<close>
theorem poll_slaves_complete:
  assumes "poll_slaves (logged_rt I) em target rs capacity (w, []) = ((rc, all_ready, rs'), (w', l))"
  shows "\<exists>answers. length answers = length (slave_configs em) \<and> l = queries (slave_configs em) answers
    \<and> (all_ready \<longleftrightarrow> initialized em \<and> slave_configs em \<noteq> []
         \<and> list_all (\<lambda>(c, s). c = 0 \<and> cs_online s \<and> cs_al_state s = target \<and> (target = al_op I \<longrightarrow> cs_operational s)) answers)
    \<and> rc = first_nonzero (map fst answers)
    \<and> (rs' = None \<longleftrightarrow> rs = None)
    \<and> (\<forall>old new. rs = Some old \<and> rs' = Some new \<longrightarrow> length new = length old
         \<and> (\<forall>k < length old. new ! k = (if k < length answers \<and> k < capacity
              then slave_reached I target (fst (answers ! k)) (snd (answers ! k)) else old ! k)))"
proof -
  from poll_loop_log [OF assms [unfolded poll_slaves_def]] obtain answers where a:
    "length answers = length (slave_configs em)" "l = [] @ map (\<lambda>e. e) (queries (slave_configs em) answers)"
    "all_ready \<longleftrightarrow> (initialized em \<and> slave_configs em \<noteq> []) \<and> list_all (\<lambda>(c, s). slave_reached I target c s) answers"
    "rc = (if (0::int) \<noteq> 0 then 0 else first_nonzero (map fst answers))"
    "rs' = map_option (snapshot 0 capacity (map (\<lambda>(c, s). slave_reached I target c s) answers)) rs" by blast
  have reached: "(\<lambda>(c, s). slave_reached I target c s) =
      (\<lambda>(c, s). c = 0 \<and> cs_online s \<and> cs_al_state s = target \<and> (target = al_op I \<longrightarrow> cs_operational s))"
    by (auto simp: slave_reached_def)
  have "length (snapshot 0 capacity r old) = length old" for r old by (simp add: snapshot_def)
  moreover have "snapshot 0 capacity (map (\<lambda>(c, s). slave_reached I target c s) answers) old ! k =
      (if k < length answers \<and> k < capacity then slave_reached I target (fst (answers ! k)) (snd (answers ! k)) else old ! k)"
    if "k < length old" for k old using that by (simp add: snapshot_def case_prod_beta)
  ultimately show ?thesis
    using a unfolding reached by (intro exI [of _ answers]) auto
qed


section \<open>The published state of the bus\<close>

lemma publish_rows_log:
  "publish_rows (log_rt f I) i cs bus (w, l) = (bus', (w', l')) \<Longrightarrow>
     i + length cs \<le> nat (slave_num bus) \<Longrightarrow> nat (slave_num bus) \<le> length (slaves bus) \<Longrightarrow>
   \<exists>answers. length answers = length cs \<and> l' = l @ map f (queries cs answers)
     \<and> slave_num bus' = slave_num bus \<and> length (slaves bus') = length (slaves bus)
     \<and> (\<forall>k < length (slaves bus). slaves bus' ! k = (if i \<le> k \<and> k < i + length cs
          then runtime_row (fst (answers ! (k - i))) (snd (answers ! (k - i))) (slaves bus ! k) else slaves bus ! k))"
proof (induction cs arbitrary: i bus w l)
  case Nil
  then show ?case by (auto simp: queries_def)
next
  case (Cons sc cs)
  obtain c s w1 where q: "rt_slave_config_state I sc w = ((c, s), w1)" by (metis prod.exhaust)
  let ?bus = "bus\<lparr>slaves := (slaves bus)[i := runtime_row c s (slaves bus ! i)]\<rparr>"
  have "publish_rows (log_rt f I) (Suc i) cs ?bus (w1, l @ [f (RtSlaveState sc c s)]) = (bus', (w', l'))"
    using Cons.prems q by simp
  from Cons.IH [OF this] Cons.prems(2,3) obtain answers where answers: "length answers = length cs"
    "l' = (l @ [f (RtSlaveState sc c s)]) @ map f (queries cs answers)" "slave_num bus' = slave_num bus"
    "length (slaves bus') = length (slaves bus)"
    "\<forall>k < length (slaves bus). slaves bus' ! k = (if Suc i \<le> k \<and> k < Suc i + length cs
        then runtime_row (fst (answers ! (k - Suc i))) (snd (answers ! (k - Suc i))) (slaves ?bus ! k) else slaves ?bus ! k)"
    by auto
  have "slaves bus' ! k = (if i \<le> k \<and> k < i + length (sc # cs)
      then runtime_row (fst (((c, s) # answers) ! (k - i))) (snd (((c, s) # answers) ! (k - i))) (slaves bus ! k)
      else slaves bus ! k)" if "k < length (slaves bus)" for k
    using answers(5) that Cons.prems(2,3) by (cases "k = i") (auto simp: nth_Cons' Suc_le_eq)
  then show ?case
    using answers by (intro exI [of _ "(c, s) # answers"]) (auto simp: queries_def)
qed

lemma slave_reports_runtime_row:
  "slave_reports al (runtime_row rc state row) \<longleftrightarrow> rc = 0 \<and> cs_online state \<and> cs_al_state state = al"
  by (auto simp: slave_reports_def runtime_row_def Let_def)

text \<open>
  Claim C26. After the two publications of a cycle, \<open>publishSlaveRuntime\<close> and \<open>updateSharedBus\<close>, the
  shared state of a bus whose configured slaves match its slave count is \<open>al\<close> (not zero) exactly when
  the library answered for every configured slave in this cycle, successfully, online and in state
  \<open>al\<close>, one of the five EtherCAT states, with the link up and the count of responding slaves right and
  valid. The rows of the other slaves and everything the cycle does not measure are untouched.
\<close>
theorem published_cycle_state:
  assumes "publish_slave_runtime A (logged_rt I) em bus (w, []) = (bus', (w', l))"
    and "slave_num bus = int (length (slave_configs em))" "length (slave_configs em) \<le> MAX_SLAVE_NUM A"
    and "length (slaves bus) = MAX_SLAVE_NUM A" "al \<noteq> 0"
  shows "\<exists>answers. length answers = length (slave_configs em) \<and> l = queries (slave_configs em) answers
    \<and> (current_state (snd (update_shared_bus A state st period ts bus')) = al \<longleftrightarrow>
         and (bs_status_valid state) 3 = 3 \<and> bs_link_up state \<and> slave_configs em \<noteq> []
         \<and> responding_slaves state = of_nat (length (slave_configs em)) \<and> known_ecat_state al
         \<and> (\<forall>(rc, s) \<in> set answers. rc = 0 \<and> cs_online s \<and> cs_al_state s = al))
    \<and> drop (length (slave_configs em)) (slaves bus') = drop (length (slave_configs em)) (slaves bus)"
proof -
  let ?n = "length (slave_configs em)"
  from assms(1-3) have "publish_rows (logged_rt I) 0 (slave_configs em) bus (w, []) = (bus', (w', l))"
    by (simp add: publish_slave_runtime_def)
  from publish_rows_log [OF this] assms(2-4) obtain answers where a: "length answers = ?n"
    "l = queries (slave_configs em) answers" "slave_num bus' = int ?n" "length (slaves bus') = MAX_SLAVE_NUM A"
    "\<forall>k < MAX_SLAVE_NUM A. slaves bus' ! k = (if k < ?n
       then runtime_row (fst (answers ! k)) (snd (answers ! k)) (slaves bus ! k) else slaves bus ! k)"
    by auto
  have rows: "(\<forall>k < ?n. slave_reports al (slaves bus' ! k)) \<longleftrightarrow>
      (\<forall>(rc, s) \<in> set answers. rc = 0 \<and> cs_online s \<and> cs_al_state s = al)"
  proof -
    have "(\<forall>k < ?n. slave_reports al (slaves bus' ! k)) \<longleftrightarrow>
        (\<forall>k < length answers. (\<lambda>a. fst a = 0 \<and> cs_online (snd a) \<and> cs_al_state (snd a) = al) (answers ! k))"
      using a(1,5) assms(3) by (simp add: slave_reports_runtime_row)
    also have "\<dots> \<longleftrightarrow> (\<forall>a \<in> set answers. fst a = 0 \<and> cs_online (snd a) \<and> cs_al_state (snd a) = al)"
      by (simp add: all_set_conv_all_nth)
    finally show ?thesis by (simp add: case_prod_beta)
  qed
  have "drop ?n (slaves bus') = drop ?n (slaves bus)"
    using a(4,5) assms(4) by (intro nth_equalityI) auto
  with a rows current_state_iff [OF assms(5) a(4), of state st period ts] assms(3) show ?thesis
    by (intro exI [of _ answers]) auto
qed

section \<open>The process images\<close>

text \<open>\<open>std::memcpy\<close> on an explicit store of images.\<close>

definition store_copy :: "'p \<Rightarrow> 'p \<Rightarrow> nat \<Rightarrow> ('p \<Rightarrow> u8 list) \<times> 'v \<Rightarrow> ('p \<Rightarrow> u8 list) \<times> 'v" where
  "store_copy dst src n W = ((fst W)(dst := take n (fst W src) @ drop n (fst W dst)), snd W)"

definition entry_bytes :: "u8 list \<Rightarrow> u32 \<Rightarrow> pdo_entry_spec \<Rightarrow> u8 list" where
  "entry_bytes img offset e = take (byte_size e) (drop (unat offset) img)"

lemma entry_bytes_append: "unat off + byte_size e \<le> length img \<Longrightarrow> entry_bytes (img @ rest) off e = entry_bytes img off e"
  by (simp add: entry_bytes_def)

lemma entry_bytes_take: "unat off + byte_size e \<le> n \<Longrightarrow> entry_bytes (take n img) off e = entry_bytes img off e"
  by (simp add: entry_bytes_def drop_take min_def)

text \<open>
  Claim C27. The exchange of a cycle is exact for every accepted layout: with the sizes of that layout
  and four distinct images, each input entry of the configuration has, at the shared offset that is
  published to clients, the bytes of the input domain at its domain offset; each output entry has, in
  the output domain, the bytes clients wrote at its shared offset; bytes beyond the domain sizes and
  every other image are unchanged.
\<close>
theorem exchange_exact:
  fixes config :: static_slave_config and em :: "('m, 'd, 'c, 'q, 'p) ethercat_master"
    and I :: "('m, 'd, 'c, 'p, ('p \<Rightarrow> u8 list) \<times> 'v) rt_api"
  defines "entries \<equiv> concat (map spec_entries (config_slaves config))"
  assumes layout: "layout_build A config0 (em_input_size em) (em_output_size em) L0 = (L, config, None)"
    and images: "rt_copy I = store_copy" "input_data em = Some di" "output_data em = Some do'"
      "distinct [di, do', si, so]"
    and sizes: "length (m di) = em_input_size em" "length (m do') = em_output_size em"
      "em_input_size em \<le> length (m si)" "em_output_size em \<le> length (m so)"
    and run: "exchange_process_data I em (Some si) (Some so) (m, v) = (m', v')"
  shows "v' = v \<and> (\<forall>p. p \<noteq> si \<longrightarrow> p \<noteq> do' \<longrightarrow> m' p = m p)
    \<and> drop (em_input_size em) (m' si) = drop (em_input_size em) (m si) \<and> length (m' si) = length (m si)
    \<and> (\<forall>e \<in> set entries. case es_direction e of
         Input \<Rightarrow> entry_bytes (m' si) (es_shared_offset e) e = entry_bytes (m di) (es_offset e) e
       | Output \<Rightarrow> entry_bytes (m' do') (es_offset e) e = entry_bytes (m so) (es_shared_offset e) e)"
proof -
  have m': "m' = m(si := take (em_input_size em) (m di) @ drop (em_input_size em) (m si),
      do' := take (em_output_size em) (m so) @ drop (em_output_size em) (m do'))" "v' = v"
  proof -
    have copy: "(if n \<noteq> 0 then rt_copy I a b n W else W) = store_copy a b n W" for a b n W
      by (simp add: images(1) store_copy_def)
    have "exchange_process_data I em (Some si) (Some so) (m, v) =
        store_copy do' so (em_output_size em) (store_copy si di (em_input_size em) (m, v))"
      by (simp add: exchange_process_data_def images(2,3) copy del: neq0_conv)
    with run images(4) show "m' = m(si := take (em_input_size em) (m di) @ drop (em_input_size em) (m si),
        do' := take (em_output_size em) (m so) @ drop (em_output_size em) (m do'))" "v' = v"
      by (auto simp: store_copy_def)
  qed
  have entry: "es_shared_offset e = es_offset e \<and> in_domain (em_input_size em) (em_output_size em) e"
    if "e \<in> set entries" for e
    using layout_placed [OF layout] that by (auto simp: entries_def)
  have "case es_direction e of
         Input \<Rightarrow> entry_bytes (m' si) (es_shared_offset e) e = entry_bytes (m di) (es_offset e) e
       | Output \<Rightarrow> entry_bytes (m' do') (es_offset e) e = entry_bytes (m so) (es_shared_offset e) e"
    if "e \<in> set entries" for e
    using entry [OF that] images(4) sizes
    by (auto simp: m' in_domain_def entry_bytes_append entry_bytes_take split: pdo_direction.splits)
  with m' images(4) sizes show ?thesis by auto
qed

section \<open>Activation and reset\<close>

text \<open>
  Claim C28. Activation with clocks gives the master its first application time, taken from the clock,
  before the activation, keeps exactly that time as the phase origin of the cyclic deadlines, and gives
  a second time after the activation; it fails, with the first call that failed as its cause, in all
  other cases. Without clocks it only activates, and the phase origin is zero.
\<close>
theorem activation_seeds_clock:
  assumes "activate_with_dc_time (logged_rt I) dc em (w, []) = (r, em', (w', l))"
  shows "(r = None \<longleftrightarrow> (if dc
      then \<exists>t0 t1. l = [RtClock (Inr t0), RtAppTime (master em) (unsigned_ns t0) 0, RtActivate (master em) 0,
             RtClock (Inr t1), RtAppTime (master em) (unsigned_ns t1) 0]
      else l = [RtActivate (master em) 0]))
    \<and> (r = None \<longrightarrow> em' = em\<lparr>dc_phase_origin_ns :=
         (if dc then (case hd l of RtClock (Inr t0) \<Rightarrow> unsigned_ns t0 | _ \<Rightarrow> 0) else 0)\<rparr>)
    \<and> (\<forall>initial errno. r = Some (DcClockUnreadable initial errno) \<longrightarrow> dc \<and> last l = RtClock (Inl errno))
    \<and> (\<forall>initial rc. r = Some (DcTimeRejected initial rc) \<longrightarrow> dc \<and> rc \<noteq> 0
         \<and> (\<exists>t. last l = RtAppTime (master em) t rc)
         \<and> last_dc_error em' = \<lparr>dc_stage = ApplicationTime, dc_error_code = rc\<rparr>)
    \<and> (r = Some ActivateFailed \<longrightarrow> (\<exists>rc. rc \<noteq> 0 \<and> last l = RtActivate (master em) rc))"
proof (cases dc)
  case False
  obtain rc w1 where "rt_activate I (master em) w = (rc, w1)" by fastforce
  with False assms show ?thesis by (auto simp: activate_with_dc_time_def split: if_splits)
next
  case True
  obtain c0 w1 where c0: "rt_monotonic I w = (c0, w1)" by fastforce
  show ?thesis
  proof (cases c0)
    case (Inl e)
    with True c0 assms show ?thesis by (auto simp: activate_with_dc_time_def supply_time_def)
  next
    case (Inr t0)
    obtain a0 w2 where a0: "rt_application_time I (master em) (unsigned_ns t0) w1 = (a0, w2)" by fastforce
    obtain rc w3 where rc: "rt_activate I (master em) w2 = (rc, w3)" by fastforce
    obtain c1 w4 where c1: "rt_monotonic I w3 = (c1, w4)" by fastforce
    consider "a0 \<noteq> 0" | "a0 = 0" "rc \<noteq> 0" | e where "a0 = 0" "rc = 0" "c1 = Inl e" | t1 where "a0 = 0" "rc = 0" "c1 = Inr t1"
      by (cases c1) auto
    then show ?thesis
    proof cases
      case 4
      obtain a1 w5 where "rt_application_time I (master em) (unsigned_ns t1) w4 = (a1, w5)" by fastforce
      with 4 True c0 Inr a0 rc c1 assms show ?thesis
        by (cases "a1 = 0") (auto simp: activate_with_dc_time_def supply_time_def Let_def record_dc_error_def)
    qed (use True c0 Inr a0 rc c1 assms in \<open>auto simp: activate_with_dc_time_def supply_time_def Let_def record_dc_error_def\<close>)
  qed
qed

text \<open>
  \<open>reset\<close> makes a master equal to a fresh one up to the last clock error, which it keeps for the
  report, and releases it exactly when there is one.
\<close>

lemma master_reset_fresh:
  "fst (master_reset I em w) = ethercat_master_init\<lparr>last_dc_error := last_dc_error em\<rparr>
   \<and> snd (master_reset I em w) = (case master em of None \<Rightarrow> w | Some m \<Rightarrow> rt_release I (Some m) w)"
proof -
  have "layout_reset (layout em) = \<lparr>input_size = 0, output_size = 0\<rparr>"
    by (cases "layout em") (simp add: layout_reset_def)
  then show ?thesis
    by (cases em; cases "master em") (auto simp: master_reset_def ethercat_master_init_def Let_def)
qed

section \<open>A concrete bus\<close>

text \<open>
  Two operational slaves and a clock that stands still; the calls do not change the world.
\<close>

definition example_rt :: "(unit, bool, nat, nat, 'w) rt_api" where
  "example_rt = \<lparr>al_op = 8, rt_receive = (\<lambda>m w. w), rt_process = (\<lambda>d w. w),
     rt_application_time = (\<lambda>m t w. (0, w)), rt_queue = (\<lambda>d w. w),
     rt_monotonic = (\<lambda>w. (Inr \<lparr>tv_sec = 5, tv_nsec = 7\<rparr>, w)),
     rt_sync_reference_clock_to = (\<lambda>m t w. (0, w)), rt_sync_slave_clocks = (\<lambda>m w. (0, w)),
     rt_send = (\<lambda>m w. w),
     rt_master_state = (\<lambda>m w. ((0, \<lparr>ms_slaves_responding = 2, ms_al_states = 8, ms_link_up = 1\<rparr>), w)),
     rt_domain_state = (\<lambda>d w. ((0, \<lparr>ds_working_counter = 3, ds_wc_state = EC_WC_COMPLETE\<rparr>), w)),
     rt_slave_config_state = (\<lambda>c w. ((0, \<lparr>cs_online = True, cs_operational = True, cs_al_state = 8\<rparr>), w)),
     rt_copy = (\<lambda>dst src n w. w), rt_activate = (\<lambda>m w. (0, w)), rt_release = (\<lambda>m w. w)\<rparr>"

definition example_master :: "(unit, bool, nat, nat, nat) ethercat_master" where
  "example_master = ethercat_master_init\<lparr>slave_configs := [0, 1], master := Some (), input_domain := Some False,
     output_domain := Some True, input_data := Some 0, output_data := Some 1, em_dc_enabled := True, initialized := True\<rparr>"

theorem queue_and_send_order_witness:
  "\<exists>em' w' l. queue_and_send (logged_rt example_rt) example_master (0 :: nat, []) = (True, em', (w', l))
     \<and> last l = RtSend (Some ())"
proof -
  let ?r = "queue_and_send (logged_rt example_rt) example_master (0 :: nat, [])"
  have "fst ?r" by code_simp
  then have run: "?r = (True, fst (snd ?r), (fst (snd (snd ?r)), snd (snd (snd ?r))))" by (simp add: prod_eq_iff)
  have "bus_ready example_master" "master example_master = Some ()" by code_simp+
  with queue_and_send_order [OF run] have "last (snd (snd (snd ?r))) = RtSend (Some ())" by auto
  with run show ?thesis by blast
qed

theorem poll_slaves_complete_witness:
  "\<exists>answers. length answers = 2 \<and> snd (snd (poll_slaves (logged_rt example_rt) example_master 8 None 0 (0 :: nat, [])))
     = queries [0, 1] answers"
proof -
  let ?r = "poll_slaves (logged_rt example_rt) example_master 8 None 0 (0 :: nat, [])"
  have run: "?r = ((fst (fst ?r), fst (snd (fst ?r)), snd (snd (fst ?r))), (fst (snd ?r), snd (snd ?r)))" by simp
  have "slave_configs example_master = [0, 1]" by (simp add: example_master_def)
  with poll_slaves_complete [OF run] obtain answers where "length answers = length [0 :: nat, 1]"
    "snd (snd ?r) = queries [0, 1] answers" by metis
  then show ?thesis by (intro exI [of _ answers]) simp
qed

definition example_bus_state :: bus_state where
  "example_bus_state = bus_state_init\<lparr>bs_status_valid := 7, bs_link_up := True, responding_slaves := 2\<rparr>"

theorem published_cycle_state_witness:
  "current_state (snd (update_shared_bus abi_example example_bus_state cycle_statistics_init 1000 0
     (fst (publish_slave_runtime abi_example (logged_rt example_rt) example_master
       ((ecat_bus_init abi_example :: rat ecat_bus)\<lparr>slave_num := 2\<rparr>) (0 :: nat, []))))) = 8"
proof -
  let ?bus = "(ecat_bus_init abi_example :: rat ecat_bus)\<lparr>slave_num := 2\<rparr>"
  let ?r = "publish_slave_runtime abi_example (logged_rt example_rt) example_master ?bus (0 :: nat, [])"
  let ?s = "\<lparr>cs_online = True, cs_operational = True, cs_al_state = 8\<rparr>"
  have run: "?r = (fst ?r, (fst (snd ?r), snd (snd ?r)))" by simp
  have h: "slave_num ?bus = int (length (slave_configs example_master))"
    "length (slave_configs example_master) \<le> MAX_SLAVE_NUM abi_example"
    "length (slaves ?bus) = MAX_SLAVE_NUM abi_example" "(8 :: u32) \<noteq> 0"
    by (simp_all add: example_master_def abi_example_def ecat_bus_init_def)
  have log: "snd (snd ?r) = [RtSlaveState 0 0 ?s, RtSlaveState 1 0 ?s]"
    by (simp add: publish_slave_runtime_def example_master_def example_rt_def abi_example_def)
  have cs: "slave_configs example_master = [0, 1]" by (simp add: example_master_def)
  from published_cycle_state [OF run h, of example_bus_state cycle_statistics_init 1000 0]
  obtain answers where a: "length answers = length (slave_configs example_master)"
    "snd (snd ?r) = queries (slave_configs example_master) answers"
    and iff: "current_state (snd (update_shared_bus abi_example example_bus_state cycle_statistics_init 1000 0 (fst ?r))) = 8 \<longleftrightarrow>
      and (bs_status_valid example_bus_state) 3 = 3 \<and> bs_link_up example_bus_state \<and> slave_configs example_master \<noteq> []
         \<and> responding_slaves example_bus_state = of_nat (length (slave_configs example_master)) \<and> known_ecat_state 8
         \<and> (\<forall>(rc, s) \<in> set answers. rc = 0 \<and> cs_online s \<and> cs_al_state s = 8)" by blast
  have "queries (slave_configs example_master) answers = [RtSlaveState 0 0 ?s, RtSlaveState 1 0 ?s :: (unit, bool, nat, nat) rt_event]"
    by (rule trans [OF a(2) [symmetric] log])
  then have "set answers \<subseteq> {(0, ?s)}"
    using a(1) unfolding cs by (auto simp: queries_def length_Suc_conv split: prod.splits)
  then show ?thesis unfolding iff
    by (auto simp: cs example_bus_state_def bus_state_init_def ecat_state_defs)
qed

definition example_images :: "nat \<Rightarrow> u8 list" where
  "example_images p = replicate (if p = 0 then 4092 else if p = 1 then 2 else 4096) (of_nat p)"

theorem exchange_exact_witness:
  "\<exists>m'. exchange_process_data (example_rt\<lparr>rt_copy := store_copy\<rparr>)
      (example_master\<lparr>em_input_size := 4092, em_output_size := 2\<rparr>) (Some 2) (Some 3) (example_images, 0 :: nat)
    = (m', 0) \<and> drop 4092 (m' 2) = drop 4092 (example_images 2)"
proof -
  let ?I = "example_rt\<lparr>rt_copy := store_copy\<rparr> :: (unit, bool, nat, nat, (nat \<Rightarrow> u8 list) \<times> nat) rt_api"
  let ?em = "example_master\<lparr>em_input_size := 4092, em_output_size := 2\<rparr>"
  let ?b = "layout_build abi_example example_config 4092 2 example_layout"
  have len: "length (config_slaves example_config) = ssc_slave_count example_config"
    by (simp add: example_config_def)
  have "snd (snd ?b) = None"
    using layout_ok_iff [OF len, of abi_example 4092 2 example_layout] wf_example example_in_domain
    by (simp add: abi_example_def)
  then have layout: "layout_build abi_example example_config (em_input_size ?em) (em_output_size ?em) example_layout
      = (fst ?b, fst (snd ?b), None)"
    by (simp add: prod_eq_iff)
  let ?x = "exchange_process_data ?I ?em (Some 2) (Some 3) (example_images, 0 :: nat)"
  have run: "?x = (fst ?x, snd ?x)" by simp
  have h: "rt_copy ?I = store_copy" "input_data ?em = Some 0" "output_data ?em = Some 1" "distinct [0, 1, 2, 3 :: nat]"
    "length (example_images 0) = em_input_size ?em" "length (example_images 1) = em_output_size ?em"
    "em_input_size ?em \<le> length (example_images 2)" "em_output_size ?em \<le> length (example_images 3)"
    by (simp_all add: example_master_def example_images_def)
  from exchange_exact [OF layout h run] run show ?thesis by (intro exI [of _ "fst ?x"]) simp
qed

theorem activation_seeds_clock_witness:
  "dc_phase_origin_ns (fst (snd (activate_with_dc_time (logged_rt example_rt) True example_master (0 :: nat, [])))) = 5000000007"
proof -
  let ?r = "activate_with_dc_time (logged_rt example_rt) True example_master (0 :: nat, [])"
  have ok: "fst ?r = None" and hd: "hd (snd (snd (snd ?r))) = RtClock (Inr \<lparr>tv_sec = 5, tv_nsec = 7\<rparr>)" by code_simp+
  then have run: "?r = (None, fst (snd ?r), (fst (snd (snd ?r)), snd (snd (snd ?r))))" by (simp add: prod_eq_iff)
  from activation_seeds_clock [OF run] hd show ?thesis by (simp add: unsigned_ns_def)
qed

end
