(* ===== verification/Cyclic_Task.thy ===== *)
theory Cyclic_Task
  imports Ethercat_Master Startup_Gate Report_Mailbox Statistics_Reset
begin

text \<open>
  \<open>CyclicTask\<close> of src/src/cyclic_task.hpp and src/src/cyclic_task.cpp: the startup loop, which keeps
  the bus alive and gates client data on readiness, and the running loop, composed of the operations of
  the master, the startup gate, the PDO verification, the shared snapshot and the report mailbox. The
  clocks, the sleep, the stop flag of the signal handler and the notification of the clients are
  fields of \<open>task_api\<close>; \<open>ta_console\<close> is what the other threads of the process did to the two shared
  cells (reset requests and the mailbox) since the last cycle. Both loops take fuel: a run that is
  stopped returns within it, one that is not ends with \<open>NoFuel\<close>. Console messages are not modelled.
\<close>

section \<open>Interface and state\<close>

record ('m, 'd, 'c, 'q, 'p, 'r, 'w) task_api =
  ta_rt :: "('m, 'd, 'c, 'p, 'w) rt_api"
  ta_requests :: "('c, 'q, 'w) request_api"
  ta_realtime :: "'w \<Rightarrow> (int + timespec) \<times> 'w"
  ta_sleep :: "timespec \<Rightarrow> 'w \<Rightarrow> int \<times> 'w"
  ta_stop :: "'w \<Rightarrow> bool \<times> 'w"
  ta_notify :: "'w \<Rightarrow> 'w"
  ta_wc_code :: "ec_wc_state \<Rightarrow> u32"
  ta_console :: "reset_cells \<times> 'r runtime_report mailbox \<Rightarrow> 'w \<Rightarrow> (reset_cells \<times> 'r runtime_report mailbox) \<times> 'w"

record ('m, 'd, 'c, 'q, 'p, 'r) cyclic_task =
  ct_master :: "('m, 'd, 'c, 'q, 'p) ethercat_master"
  ecat_bus :: "'r ecat_bus option"
  pd_input_ptr :: "'p option"
  pd_output_ptr :: "'p option"
  ct_period_us :: u32
  ct_op_timeout_ms :: u32
  ct_statistics :: "'r cycle_statistics"
  statistics_reset :: reset_cells
  reports :: "'r runtime_report mailbox"
  startup_op_mask :: u64
  startup_ready :: bool

datatype cycle_exit = Exit int | NoFuel

text \<open>The error numbers of Linux that the code names.\<close>

definition EINTR :: int where "EINTR = 4"
definition EIO :: int where "EIO = 5"
definition EINVAL :: int where "EINVAL = 22"
definition ETIMEDOUT :: int where "ETIMEDOUT = 110"

definition kMinPeriodUs :: u32 where
  "kMinPeriodUs = 1000"

text \<open>The wait for the deadline is repeated while it is interrupted and no stop is requested.\<close>

fun sleep_loop :: "('m, 'd, 'c, 'q, 'p, 'r, 'w) task_api \<Rightarrow> nat \<Rightarrow> timespec \<Rightarrow> 'w \<Rightarrow> int option \<times> 'w" where
  "sleep_loop I 0 deadline w = (None, w)"
| "sleep_loop I (Suc n) deadline w =
     (case ta_sleep I deadline w of
        (sleep_rc, w) \<Rightarrow>
          if sleep_rc = EINTR
          then (case ta_stop I w of (stop, w) \<Rightarrow>
            if \<not> stop then sleep_loop I n deadline w else (Some sleep_rc, w))
          else (Some sleep_rc, w))"

text \<open>
  Both loops begin a cycle in the same way: the sleep, the stop flag, the wake time and the application
  time of the nominal deadline. The result is the wake time or the return of \<open>run\<close>.
\<close>

definition begin_cycle :: "('m, 'd, 'c, 'q, 'p, 'r, 'w) task_api \<Rightarrow> nat \<Rightarrow> timespec
    \<Rightarrow> ('m, 'd, 'c, 'q, 'p, 'r) cyclic_task \<Rightarrow> 'w
    \<Rightarrow> (cycle_exit + timespec) \<times> ('m, 'd, 'c, 'q, 'p, 'r) cyclic_task \<times> 'w" where
  "begin_cycle I fuel deadline t w =
     (case sleep_loop I fuel deadline w of
        (None, w) \<Rightarrow> (Inl NoFuel, t, w)
      | (Some sleep_rc, w) \<Rightarrow> (case ta_stop I w of (stop, w) \<Rightarrow>
          if stop then (Inl (Exit 0), t, w)
          else if sleep_rc \<noteq> 0 then (Inl (Exit sleep_rc), t, w)
          else case rt_monotonic (ta_rt I) w of
            (Inl errno, w) \<Rightarrow> (Inl (Exit errno), t, w)
          | (Inr wake_time, w) \<Rightarrow>
              (case set_application_time (ta_rt I) (word_of_int (to_nanoseconds deadline)) (ct_master t) w of
                 (ok, em, w) \<Rightarrow>
                   let t = t\<lparr>ct_master := em\<rparr> in
                   if \<not> ok then (Inl (Exit EIO), t, w) else (Inr wake_time, t, w))))"

section \<open>The startup loop\<close>

record startup_locals =
  deadline :: timespec
  last_wake :: timespec
  startup_gate :: startup_wait
  initial_healthy_cycles :: u32
  loop_ready :: bool

text \<open>The snapshot of a startup cycle, with statistics of its own.\<close>

definition startup_publish :: "abi \<Rightarrow> ('m, 'd, 'c, 'q, 'p, 'r::linordered_field, 'w) task_api \<Rightarrow> bus_state \<Rightarrow> timespec
    \<Rightarrow> ('m, 'd, 'c, 'q, 'p, 'r) cyclic_task \<Rightarrow> 'w
    \<Rightarrow> cycle_exit option \<times> ('m, 'd, 'c, 'q, 'p, 'r) cyclic_task \<times> 'w" where
  "startup_publish A I state wake_time t w =
     (case ecat_bus t of
        None \<Rightarrow> (None, t, w)
      | Some bus \<Rightarrow> (case ta_realtime I w of
          (Inl errno, w) \<Rightarrow> (Some (Exit errno), t, w)
        | (Inr wall_time, w) \<Rightarrow>
            (case publish_slave_runtime A (ta_rt I) (ct_master t) bus w of
               (bus, w) \<Rightarrow>
                 let bus = snd (update_shared_bus A state cycle_statistics_init (ct_period_us t)
                       (to_microseconds wall_time) bus);
                     bus = bus\<lparr>heartbeat_mono_ns := to_nanoseconds wake_time\<rparr>
                 in (None, t\<lparr>ecat_bus := Some bus\<rparr>, w))))"

text \<open>Bit \<open>i\<close> of the mask tells whether slave \<open>i\<close> is ready.\<close>

definition op_mask :: "bool list \<Rightarrow> u64" where
  "op_mask ready_states =
     foldl (\<lambda>m i. if ready_states ! i then or m (push_bit i 1) else m) 0 [0..<length ready_states]"

definition bus_healthy :: "bus_state \<Rightarrow> bool \<Rightarrow> nat \<Rightarrow> bool" where
  "bus_healthy state all_operational slave_count \<longleftrightarrow>
     all_operational \<and> bs_link_up state \<and> unat (responding_slaves state) = slave_count
     \<and> input_wc_state state = EC_WC_COMPLETE \<and> output_wc_state state = EC_WC_COMPLETE"

definition abort_task :: "verify_failure \<Rightarrow> ('m, 'd, 'c, 'q, 'p, 'r) cyclic_task
    \<Rightarrow> ('m, 'd, 'c, 'q, 'p, 'r) cyclic_task" where
  "abort_task failure t = t\<lparr>ct_master := (ct_master t)\<lparr>verification :=
     verification_abort failure (verification (ct_master t))\<rparr>\<rparr>"

text \<open>The poll of the slaves; the result is the health of the bus.\<close>

definition startup_poll :: "abi \<Rightarrow> ('m, 'd, 'c, 'q, 'p, 'r, 'w) task_api \<Rightarrow> bus_state
    \<Rightarrow> ('m, 'd, 'c, 'q, 'p, 'r) cyclic_task \<Rightarrow> 'w
    \<Rightarrow> (cycle_exit + bool) \<times> ('m, 'd, 'c, 'q, 'p, 'r) cyclic_task \<times> 'w" where
  "startup_poll A I state t w =
     (let em = ct_master t in
      case poll_slaves (ta_rt I) em (al_op (ta_rt I)) (Some (replicate (MAX_SLAVE_NUM A) False)) (MAX_SLAVE_NUM A) w of
        ((rc, all_operational, ready_states), w) \<Rightarrow>
          if rc \<noteq> 0
          then (Inl (Exit EIO), if started (verification em) then abort_task BusUnhealthy t else t, w)
          else
            let mask = op_mask (take (min (length (slave_configs em)) (MAX_SLAVE_NUM A)) (the ready_states));
                t = t\<lparr>startup_op_mask := mask\<rparr>
            in (Inr (bus_healthy state all_operational (length (slave_configs em))), t, w))"

text \<open>The gate and one verification step, on the clock sample taken after the poll.\<close>

definition startup_verify :: "('m, 'd, 'c, 'q, 'p, 'r, 'w) task_api \<Rightarrow> bool
    \<Rightarrow> ('m, 'd, 'c, 'q, 'p, 'r) cyclic_task \<Rightarrow> startup_locals \<Rightarrow> 'w
    \<Rightarrow> cycle_exit option \<times> ('m, 'd, 'c, 'q, 'p, 'r) cyclic_task \<times> startup_locals \<times> 'w" where
  "startup_verify I healthy t s w =
     (let v = verification (ct_master t);
          s = (if \<not> started v then s\<lparr>initial_healthy_cycles := (if healthy then initial_healthy_cycles s + 1 else 0)\<rparr>
               else s)
      in if started v \<and> \<not> healthy then (Some (Exit EIO), abort_task BusUnhealthy t, s, w)
      else case rt_monotonic (ta_rt I) w of
        (Inl errno, w) \<Rightarrow> (Some (Exit errno), t, s, w)
      | (Inr check_time, w) \<Rightarrow>
          (case observe (startup_gate s) (to_nanoseconds check_time) (healthy \<and> vresult v = Complete) of
             (g, result) \<Rightarrow>
               let s = s\<lparr>startup_gate := g\<rparr> in
               if result = TimedOut
               then (Some (Exit ETIMEDOUT), if started v then abort_task StartupTimeout t else t, s, w)
               else
                 let s = s\<lparr>loop_ready := (result = Ready)\<rparr> in
                 if healthy \<and> 5 \<le> initial_healthy_cycles s \<and> vresult v \<noteq> Complete
                 then (case verify_step (ta_requests I) (to_nanoseconds check_time) v w of
                   (r, v, w) \<Rightarrow>
                     let t = t\<lparr>ct_master := (ct_master t)\<lparr>verification := v\<rparr>\<rparr> in
                     if r = Failed
                     then (Some (Exit (if ve_failure (verror v) = RequestTimeout then ETIMEDOUT else EIO)), t, s, w)
                     else (None, t, s, w))
                 else (None, t, s, w)))"

text \<open>The send and the next deadline.\<close>

definition startup_finish :: "('m, 'd, 'c, 'q, 'p, 'r, 'w) task_api \<Rightarrow> timespec
    \<Rightarrow> ('m, 'd, 'c, 'q, 'p, 'r) cyclic_task \<Rightarrow> startup_locals \<Rightarrow> 'w
    \<Rightarrow> cycle_exit option \<times> ('m, 'd, 'c, 'q, 'p, 'r) cyclic_task \<times> startup_locals \<times> 'w" where
  "startup_finish I wake_time t s w =
     (case queue_and_send (ta_rt I) (ct_master t) w of
        (ok, em, w) \<Rightarrow>
          let t = t\<lparr>ct_master := em\<rparr> in
          if \<not> ok then (Some (Exit EIO), t, s, w)
          else case rt_monotonic (ta_rt I) w of
            (Inl errno, w) \<Rightarrow> (Some (Exit errno), t, s, w)
          | (Inr finish_time, w) \<Rightarrow>
              (case advance_deadline (deadline s) (ct_period_us t) finish_time of
                 (d, missed) \<Rightarrow>
                   (None,
                    t\<lparr>ct_statistics := (ct_statistics t)\<lparr>missed_deadlines := missed_deadlines (ct_statistics t) + missed\<rparr>\<rparr>,
                    s\<lparr>deadline := d, last_wake := wake_time\<rparr>, w)))"

definition startup_cycle :: "abi \<Rightarrow> ('m, 'd, 'c, 'q, 'p, 'r::linordered_field, 'w) task_api \<Rightarrow> nat
    \<Rightarrow> ('m, 'd, 'c, 'q, 'p, 'r) cyclic_task \<Rightarrow> startup_locals \<Rightarrow> 'w
    \<Rightarrow> cycle_exit option \<times> ('m, 'd, 'c, 'q, 'p, 'r) cyclic_task \<times> startup_locals \<times> 'w" where
  "startup_cycle A I fuel t s w =
     (case begin_cycle I fuel (deadline s) t w of
        (Inl e, t, w) \<Rightarrow> (Some e, t, s, w)
      | (Inr wake_time, t, w) \<Rightarrow>
          (case read_state (ta_rt I) (ct_master t) (receive_and_process (ta_rt I) (ct_master t) w) of
             (state, w) \<Rightarrow> (case startup_publish A I state wake_time t w of
                (Some e, t, w) \<Rightarrow> (Some e, t, s, w)
              | (None, t, w) \<Rightarrow> (case startup_poll A I state t w of
                  (Inl e, t, w) \<Rightarrow> (Some e, t, s, w)
                | (Inr healthy, t, w) \<Rightarrow> (case startup_verify I healthy t s w of
                    (Some e, t, s, w) \<Rightarrow> (Some e, t, s, w)
                  | (None, t, s, w) \<Rightarrow> startup_finish I wake_time t s w)))))"

text \<open>\<open>None\<close>: the loop ended, ready or stopped.\<close>

fun startup_loop :: "abi \<Rightarrow> ('m, 'd, 'c, 'q, 'p, 'r::linordered_field, 'w) task_api \<Rightarrow> nat \<Rightarrow> nat
    \<Rightarrow> ('m, 'd, 'c, 'q, 'p, 'r) cyclic_task \<Rightarrow> startup_locals \<Rightarrow> 'w
    \<Rightarrow> cycle_exit option \<times> ('m, 'd, 'c, 'q, 'p, 'r) cyclic_task \<times> startup_locals \<times> 'w" where
  "startup_loop A I fuel 0 t s w = (Some NoFuel, t, s, w)"
| "startup_loop A I fuel (Suc n) t s w =
     (if loop_ready s then (None, t, s, w)
      else case ta_stop I w of (stop, w) \<Rightarrow>
        if stop then (None, t, s, w)
        else case startup_cycle A I fuel t s w of
          (Some e, t, s, w) \<Rightarrow> (Some e, t, s, w)
        | (None, t, s, w) \<Rightarrow> startup_loop A I fuel n t s w)"


section \<open>The running loop\<close>

record 'r running_locals =
  run_deadline :: timespec
  run_last_wake :: timespec
  window :: "'r runtime_report"
  run_total_wc_errors :: u64
  run_total_link_down :: u64
  window_start :: timespec

definition runtime_report_init :: "'r::linordered_field runtime_report" where
  "runtime_report_init = \<lparr>window_seconds = 0, rr_responding_slaves = 0, rr_al_states = 0, input_wc = 0,
     output_wc = 0, rr_input_wc_state = 0, rr_output_wc_state = 0, rr_link_up = False, authorized = False,
     rr_cycle = timing_summary_init, rr_task = timing_summary_init, rr_receive = timing_summary_init,
     rr_pdo = timing_summary_init, rr_send = timing_summary_init, rr_missed = 0, wc_errors = 0, link_down = 0,
     total_missed = 0, total_wc_errors = 0, total_link_down = 0\<rparr>"

text \<open>The snapshot of a running cycle, with the statistics of the task, and the pending reset.\<close>

definition running_publish :: "abi \<Rightarrow> ('m, 'd, 'c, 'q, 'p, 'r::linordered_field, 'w) task_api \<Rightarrow> bus_state \<Rightarrow> timespec
    \<Rightarrow> ('m, 'd, 'c, 'q, 'p, 'r) cyclic_task \<Rightarrow> 'w
    \<Rightarrow> cycle_exit option \<times> ('m, 'd, 'c, 'q, 'p, 'r) cyclic_task \<times> 'w" where
  "running_publish A I state wake_time t w =
     (case ecat_bus t of
        None \<Rightarrow> (None, t, w)
      | Some bus \<Rightarrow> (case ta_realtime I w of
          (Inl errno, w) \<Rightarrow> (Some (Exit errno), t, w)
        | (Inr wall_time, w) \<Rightarrow>
            (case publish_slave_runtime A (ta_rt I) (ct_master t) bus w of
               (bus, w) \<Rightarrow>
                 let (st, bus) = update_shared_bus A state (ct_statistics t) (ct_period_us t)
                       (to_microseconds wall_time) bus;
                     bus = bus\<lparr>heartbeat_mono_ns := to_nanoseconds wake_time\<rparr>;
                     (cs, st, bus, applied) = apply_statistics_reset (statistics_reset t) st bus
                 in (None, t\<lparr>ecat_bus := Some bus, ct_statistics := st, statistics_reset := cs\<rparr>, w))))"

text \<open>Receive and exchange between three clock samples: their times and the state, or the return.\<close>

definition running_exchange :: "('m, 'd, 'c, 'q, 'p, 'r, 'w) task_api \<Rightarrow> ('m, 'd, 'c, 'q, 'p, 'r) cyclic_task \<Rightarrow> 'w
    \<Rightarrow> (cycle_exit + timespec \<times> timespec \<times> timespec) \<times> 'w" where
  "running_exchange I t w =
     (case rt_monotonic (ta_rt I) w of
        (Inl errno, w) \<Rightarrow> (Inl (Exit errno), w)
      | (Inr receive_begin, w) \<Rightarrow>
          (case rt_monotonic (ta_rt I) (receive_and_process (ta_rt I) (ct_master t) w) of
             (Inl errno, w) \<Rightarrow> (Inl (Exit errno), w)
           | (Inr receive_end, w) \<Rightarrow>
               (case rt_monotonic (ta_rt I)
                   (exchange_process_data (ta_rt I) (ct_master t) (pd_input_ptr t) (pd_output_ptr t) w) of
                  (Inl errno, w) \<Rightarrow> (Inl (Exit errno), w)
                | (Inr pdo_end, w) \<Rightarrow> (Inr (receive_begin, receive_end, pdo_end), w))))"

text \<open>Send between two clock samples, then the notification.\<close>

definition running_send :: "('m, 'd, 'c, 'q, 'p, 'r, 'w) task_api \<Rightarrow> ('m, 'd, 'c, 'q, 'p, 'r) cyclic_task \<Rightarrow> 'w
    \<Rightarrow> (cycle_exit + timespec \<times> timespec) \<times> ('m, 'd, 'c, 'q, 'p, 'r) cyclic_task \<times> 'w" where
  "running_send I t w =
     (case rt_monotonic (ta_rt I) w of
        (Inl errno, w) \<Rightarrow> (Inl (Exit errno), t, w)
      | (Inr send_begin, w) \<Rightarrow> (case queue_and_send (ta_rt I) (ct_master t) w of
          (ok, em, w) \<Rightarrow>
            let t = t\<lparr>ct_master := em\<rparr> in
            if \<not> ok then (Inl (Exit EIO), t, w)
            else case rt_monotonic (ta_rt I) w of
              (Inl errno, w) \<Rightarrow> (Inl (Exit errno), t, w)
            | (Inr send_end, w) \<Rightarrow> (Inr (send_begin, send_end), t, ta_notify I w)))"

text \<open>The window after a cycle, and the report that ends a window of a second.\<close>

definition wc_error :: "bus_state \<Rightarrow> bool" where
  "wc_error state \<longleftrightarrow> input_wc_state state \<noteq> EC_WC_COMPLETE \<or> output_wc_state state \<noteq> EC_WC_COMPLETE"

definition account_window :: "bus_state \<Rightarrow> u64 \<Rightarrow> 'r::linordered_field \<Rightarrow> timespec \<Rightarrow> timespec
    \<Rightarrow> timespec \<times> timespec \<times> timespec \<Rightarrow> timespec \<times> timespec \<Rightarrow> 'r running_locals \<Rightarrow> 'r running_locals" where
  "account_window state missed cycle_us wake_time finish_time receive_times send_times r =
     (case (receive_times, send_times) of
        ((receive_begin, receive_end, pdo_end), (send_begin, send_end)) \<Rightarrow>
          let wc = (if wc_error state then 1 else 0); ld = (if \<not> bs_link_up state then 1 else 0); win = window r
          in r\<lparr>window := win\<lparr>rr_cycle := timing_add (rr_cycle win) cycle_us,
                 rr_task := timing_add (rr_task win) (elapsed_microseconds wake_time finish_time),
                 rr_receive := timing_add (rr_receive win) (elapsed_microseconds receive_begin receive_end),
                 rr_pdo := timing_add (rr_pdo win) (elapsed_microseconds receive_end pdo_end),
                 rr_send := timing_add (rr_send win) (elapsed_microseconds send_begin send_end),
                 rr_missed := rr_missed win + missed, wc_errors := wc_errors win + wc,
                 link_down := link_down win + ld\<rparr>,
               run_total_wc_errors := run_total_wc_errors r + wc,
               run_total_link_down := run_total_link_down r + ld\<rparr>)"

definition report_window :: "('m, 'd, 'c, 'q, 'p, 'r::linordered_field, 'w) task_api \<Rightarrow> bus_state \<Rightarrow> timespec
    \<Rightarrow> ('m, 'd, 'c, 'q, 'p, 'r) cyclic_task \<Rightarrow> 'r running_locals
    \<Rightarrow> ('m, 'd, 'c, 'q, 'p, 'r) cyclic_task \<times> 'r running_locals" where
  "report_window I state finish_time t r =
     (if to_nanoseconds finish_time - to_nanoseconds (window_start r) < kNsecPerSec then (t, r)
      else
        let win = (window r)\<lparr>window_seconds := elapsed_microseconds (window_start r) finish_time / 1000000,
              rr_responding_slaves := responding_slaves state, rr_al_states := al_states state,
              input_wc := input_working_counter state, output_wc := output_working_counter state,
              rr_input_wc_state := ta_wc_code I (input_wc_state state),
              rr_output_wc_state := ta_wc_code I (output_wc_state state),
              rr_link_up := bs_link_up state,
              authorized := (case ecat_bus t of None \<Rightarrow> False | Some bus \<Rightarrow> is_authorized bus),
              total_missed := missed_deadlines (ct_statistics t),
              total_wc_errors := run_total_wc_errors r, total_link_down := run_total_link_down r\<rparr>
        in (t\<lparr>reports := fst (publish (reports t) win)\<rparr>,
            r\<lparr>window := runtime_report_init, window_start := finish_time\<rparr>))"

text \<open>The end of a cycle: the next deadline and the accounting.\<close>

definition running_finish :: "('m, 'd, 'c, 'q, 'p, 'r::linordered_field, 'w) task_api \<Rightarrow> bus_state \<Rightarrow> 'r \<Rightarrow> timespec
    \<Rightarrow> timespec \<times> timespec \<times> timespec \<Rightarrow> timespec \<times> timespec
    \<Rightarrow> ('m, 'd, 'c, 'q, 'p, 'r) cyclic_task \<Rightarrow> 'r running_locals \<Rightarrow> 'w
    \<Rightarrow> cycle_exit option \<times> ('m, 'd, 'c, 'q, 'p, 'r) cyclic_task \<times> 'r running_locals \<times> 'w" where
  "running_finish I state cycle_us wake_time receive_times send_times t r w =
     (case rt_monotonic (ta_rt I) w of
        (Inl errno, w) \<Rightarrow> (Some (Exit errno), t, r, w)
      | (Inr finish_time, w) \<Rightarrow>
          let (d, missed) = advance_deadline (run_deadline r) (ct_period_us t) finish_time;
              t = t\<lparr>ct_statistics := (ct_statistics t)\<lparr>missed_deadlines := missed_deadlines (ct_statistics t) + missed\<rparr>\<rparr>;
              r = r\<lparr>run_deadline := d, run_last_wake := wake_time\<rparr>;
              r = account_window state missed cycle_us wake_time finish_time receive_times send_times r;
              (t, r) = report_window I state finish_time t r
          in (None, t, r, w))"

definition running_cycle :: "abi \<Rightarrow> ('m, 'd, 'c, 'q, 'p, 'r::linordered_field, 'w) task_api \<Rightarrow> nat
    \<Rightarrow> ('m, 'd, 'c, 'q, 'p, 'r) cyclic_task \<Rightarrow> 'r running_locals \<Rightarrow> 'w
    \<Rightarrow> cycle_exit option \<times> ('m, 'd, 'c, 'q, 'p, 'r) cyclic_task \<times> 'r running_locals \<times> 'w" where
  "running_cycle A I fuel t r w =
     (case begin_cycle I fuel (run_deadline r) t w of
        (Inl e, t, w) \<Rightarrow> (Some e, t, r, w)
      | (Inr wake_time, t, w) \<Rightarrow>
          let cycle_us = elapsed_microseconds (run_last_wake r) wake_time;
              t = t\<lparr>ct_statistics := (ct_statistics t)\<lparr>current_us := cycle_us\<rparr>\<rparr>
          in case running_exchange I t w of
               (Inl e, w) \<Rightarrow> (Some e, t, r, w)
             | (Inr receive_times, w) \<Rightarrow> (case read_state (ta_rt I) (ct_master t) w of
                 (state, w) \<Rightarrow> (case running_publish A I state wake_time t w of
                   (Some e, t, w) \<Rightarrow> (Some e, t, r, w)
                 | (None, t, w) \<Rightarrow> (case running_send I t w of
                     (Inl e, t, w) \<Rightarrow> (Some e, t, r, w)
                   | (Inr send_times, t, w) \<Rightarrow>
                       running_finish I state cycle_us wake_time receive_times send_times t r w))))"

fun running_loop :: "abi \<Rightarrow> ('m, 'd, 'c, 'q, 'p, 'r::linordered_field, 'w) task_api \<Rightarrow> nat \<Rightarrow> nat
    \<Rightarrow> ('m, 'd, 'c, 'q, 'p, 'r) cyclic_task \<Rightarrow> 'r running_locals \<Rightarrow> 'w
    \<Rightarrow> cycle_exit \<times> ('m, 'd, 'c, 'q, 'p, 'r) cyclic_task \<times> 'w" where
  "running_loop A I fuel 0 t r w = (NoFuel, t, w)"
| "running_loop A I fuel (Suc n) t r w =
     (case ta_stop I w of (stop, w) \<Rightarrow>
        if stop then (Exit 0, t, w)
        else case ta_console I (statistics_reset t, reports t) w of
          ((cs, mb), w) \<Rightarrow>
            (case running_cycle A I fuel (t\<lparr>statistics_reset := cs, reports := mb\<rparr>) r w of
               (Some e, t, r, w) \<Rightarrow> (e, t, w)
             | (None, t, r, w) \<Rightarrow> running_loop A I fuel n t r w))"

section \<open>The run\<close>

text \<open>The first deadline: a period from now, or on the phase of the first application time.\<close>

definition first_deadline :: "u32 \<Rightarrow> u64 \<Rightarrow> timespec \<Rightarrow> timespec" where
  "first_deadline period origin now =
     (if origin \<noteq> 0 then fst (advance_deadline (from_nanoseconds (sint origin)) period now)
      else from_nanoseconds (to_nanoseconds now + uint period * 1000))"

definition run_after_startup :: "abi \<Rightarrow> ('m, 'd, 'c, 'q, 'p, 'r::linordered_field, 'w) task_api \<Rightarrow> nat \<Rightarrow> nat
    \<Rightarrow> ('m, 'd, 'c, 'q, 'p, 'r) cyclic_task \<Rightarrow> startup_locals \<Rightarrow> 'w
    \<Rightarrow> cycle_exit \<times> ('m, 'd, 'c, 'q, 'p, 'r) cyclic_task \<times> 'w" where
  "run_after_startup A I fuel n t s w =
     (case ta_stop I w of (stop, w) \<Rightarrow>
        if stop then (Exit 0, t, w)
        else
          let t = t\<lparr>startup_ready := True\<rparr> in
          case rt_monotonic (ta_rt I) w of
            (Inl errno, w) \<Rightarrow> (Exit errno, t, w)
          | (Inr start, w) \<Rightarrow>
              running_loop A I fuel n t \<lparr>run_deadline = deadline s, run_last_wake = last_wake s,
                window = runtime_report_init, run_total_wc_errors = 0, run_total_link_down = 0,
                window_start = start\<rparr> w)"

definition run_task :: "abi \<Rightarrow> ('m, 'd, 'c, 'q, 'p, 'r::linordered_field, 'w) task_api \<Rightarrow> nat \<Rightarrow> nat
    \<Rightarrow> ('m, 'd, 'c, 'q, 'p, 'r) cyclic_task \<Rightarrow> 'w
    \<Rightarrow> cycle_exit \<times> ('m, 'd, 'c, 'q, 'p, 'r) cyclic_task \<times> 'w" where
  "run_task A I fuel n t w =
     (if ct_period_us t < kMinPeriodUs \<or> ct_op_timeout_ms t = 0 then (Exit EINVAL, t, w)
      else case rt_monotonic (ta_rt I) w of
        (Inl errno, w) \<Rightarrow> (Exit errno, t, w)
      | (Inr now, w) \<Rightarrow>
          (case startup_loop A I fuel n t
              \<lparr>deadline = first_deadline (ct_period_us t) (dc_phase_origin_ns (ct_master t)) now, last_wake = now,
               startup_gate = startup_wait_init (to_nanoseconds now) (ct_op_timeout_ms t),
               initial_healthy_cycles = 0, loop_ready = False\<rparr> w of
             (Some e, t, s, w) \<Rightarrow> (e, t, w)
           | (None, t, s, w) \<Rightarrow> run_after_startup A I fuel n t s w))"

text \<open>What every proof about a run begins with: it is refused at once, or it enters the startup loop.\<close>

definition run_start :: "('m, 'd, 'c, 'q, 'p, 'r) cyclic_task \<Rightarrow> timespec \<Rightarrow> startup_locals" where
  "run_start t now = \<lparr>deadline = first_deadline (ct_period_us t) (dc_phase_origin_ns (ct_master t)) now, last_wake = now,
     startup_gate = startup_wait_init (to_nanoseconds now) (ct_op_timeout_ms t),
     initial_healthy_cycles = 0, loop_ready = False\<rparr>"

lemma run_task_start:
  assumes "\<not> (ct_period_us t < kMinPeriodUs \<or> ct_op_timeout_ms t = 0)" "rt_monotonic (ta_rt I) w = (Inr now, w1)"
    "startup_loop A I fuel n t (run_start t now) w1 = (r, t1, s1, w2)"
  shows "run_task A I fuel n t w = (case r of Some e \<Rightarrow> (e, t1, w2) | None \<Rightarrow> run_after_startup A I fuel n t1 s1 w2)"
  using assms by (cases r) (simp_all add: run_task_def run_start_def)

lemma run_task_cases [case_names refused started]:
  obtains e w1 where "\<And>A fuel n. run_task A I fuel n t w = (Exit e, t, w1)" "w1 = w \<or> (\<exists>c. rt_monotonic (ta_rt I) w = (c, w1))"
  | now w1 where "rt_monotonic (ta_rt I) w = (Inr now, w1)" "\<not> (ct_period_us t < kMinPeriodUs \<or> ct_op_timeout_ms t = 0)"
proof -
  obtain c w1 where c: "rt_monotonic (ta_rt I) w = (c, w1)" by fastforce
  then show thesis using that by (cases c; cases "ct_period_us t < kMinPeriodUs \<or> ct_op_timeout_ms t = 0") (simp_all add: run_task_def)
qed

text \<open>
  The declared but uncalled \<open>copyProcessData\<close> is what the master's exchange does, with the null checks
  in the same order.
\<close>

definition copy_process_data :: "('p \<Rightarrow> 'p \<Rightarrow> nat \<Rightarrow> 'w \<Rightarrow> 'w) \<Rightarrow> 'p option \<Rightarrow> nat \<Rightarrow> 'p option \<Rightarrow> 'p option \<Rightarrow> 'p option \<Rightarrow> nat
    \<Rightarrow> 'w \<Rightarrow> 'w" where
  "copy_process_data cpy domain_input in_size shared_input shared_output domain_output out_size w =
     (let w = (case (domain_input, shared_input) of
            (Some src, Some dst) \<Rightarrow> if 0 < in_size then cpy dst src in_size w else w
          | _ \<Rightarrow> w)
      in case (shared_output, domain_output) of
            (Some src, Some dst) \<Rightarrow> if 0 < out_size then cpy dst src out_size w else w
          | _ \<Rightarrow> w)"

lemma copy_process_data_exchanges:
  "copy_process_data (rt_copy I) (input_data em) (em_input_size em) shared_input shared_output (output_data em)
     (em_output_size em) w = exchange_process_data I em shared_input shared_output w"
  by (simp add: copy_process_data_def exchange_process_data_def Let_def split: option.split)

end
