(* ===== verification/Cyclic_Startup.thy ===== *)
theory Cyclic_Startup
  imports Cyclic_Task Master_Cycle
begin

text \<open>
  The startup of \<open>CyclicTask::run\<close> over the log of every call the task makes: no process data is
  exchanged and no client notified before every PDO check was read back and five consecutive healthy
  cycles followed.
\<close>

section \<open>The log of the task\<close>

datatype ('m, 'd, 'c, 'q, 'p) task_event =
    TeRt "('m, 'd, 'c, 'p) rt_event" | TeRq "'q rq_event" | TeRealtime "int + timespec"
  | TeSleep timespec int | TeStop bool | TeNotify

definition log_task :: "('m, 'd, 'c, 'q, 'p, 'r, 'w) task_api
    \<Rightarrow> ('m, 'd, 'c, 'q, 'p, 'r, 'w \<times> ('m, 'd, 'c, 'q, 'p) task_event list) task_api" where
  "log_task I = \<lparr>ta_rt = log_rt TeRt (ta_rt I), ta_requests = log_requests TeRq (ta_requests I),
     ta_realtime = (\<lambda>(w, l). case ta_realtime I w of (r, w) \<Rightarrow> (r, (w, l @ [TeRealtime r]))),
     ta_sleep = (\<lambda>d (w, l). case ta_sleep I d w of (rc, w) \<Rightarrow> (rc, (w, l @ [TeSleep d rc]))),
     ta_stop = (\<lambda>(w, l). case ta_stop I w of (b, w) \<Rightarrow> (b, (w, l @ [TeStop b]))),
     ta_notify = (\<lambda>(w, l). (ta_notify I w, l @ [TeNotify])),
     ta_wc_code = ta_wc_code I,
     ta_console = (\<lambda>x (w, l). case ta_console I x w of (y, w) \<Rightarrow> (y, (w, l)))\<rparr>"

lemma log_task_simps [simp]:
  "ta_rt (log_task I) = log_rt TeRt (ta_rt I)"
  "ta_requests (log_task I) = log_requests TeRq (ta_requests I)"
  "ta_realtime (log_task I) (w, l) = (case ta_realtime I w of (r, w) \<Rightarrow> (r, (w, l @ [TeRealtime r])))"
  "ta_sleep (log_task I) d (w, l) = (case ta_sleep I d w of (rc, w) \<Rightarrow> (rc, (w, l @ [TeSleep d rc])))"
  "ta_stop (log_task I) (w, l) = (case ta_stop I w of (b, w) \<Rightarrow> (b, (w, l @ [TeStop b])))"
  "ta_notify (log_task I) (w, l) = (ta_notify I w, l @ [TeNotify])"
  "ta_wc_code (log_task I) = ta_wc_code I"
  "ta_console (log_task I) x (w, l) = (case ta_console I x w of (y, w) \<Rightarrow> (y, (w, l)))"
  by (simp_all add: log_task_def)

definition copy_event :: "('m, 'd, 'c, 'p) rt_event \<Rightarrow> bool" where
  "copy_event e \<longleftrightarrow> (case e of RtCopy _ _ _ \<Rightarrow> True | _ \<Rightarrow> False)"

text \<open>The events a client can see: a copy between process images, a notification.\<close>

definition client_event :: "('m, 'd, 'c, 'q, 'p) task_event \<Rightarrow> bool" where
  "client_event e \<longleftrightarrow> (case e of TeRt r \<Rightarrow> copy_event r | TeNotify \<Rightarrow> True | _ \<Rightarrow> False)"

definition rq_events :: "('m, 'd, 'c, 'q, 'p) task_event list \<Rightarrow> 'q rq_event list" where
  "rq_events l = concat (map (\<lambda>e. case e of TeRq r \<Rightarrow> [r] | _ \<Rightarrow> []) l)"

lemma rq_events_simps [simp]:
  "rq_events [] = []" "rq_events (l @ k) = rq_events l @ rq_events k"
  "rq_events (TeRt e # l) = rq_events l" "rq_events (TeRq r # l) = r # rq_events l"
  "rq_events (TeRealtime c # l) = rq_events l" "rq_events (TeSleep d i # l) = rq_events l"
  "rq_events (TeStop b # l) = rq_events l" "rq_events (TeNotify # l) = rq_events l"
  "rq_events (map TeRt ev) = []" "rq_events (map TeRq rs) = rs"
  by (simp_all add: rq_events_def comp_def)

definition quiet :: "('m, 'd, 'c, 'q, 'p) task_event list \<Rightarrow> bool" where
  "quiet l \<longleftrightarrow> (\<forall>e \<in> set l. \<not> client_event e)"

lemma quiet_simps [simp]:
  "quiet []" "quiet (l @ k) \<longleftrightarrow> quiet l \<and> quiet k"
  "quiet (TeRt e # l) \<longleftrightarrow> \<not> copy_event e \<and> quiet l" "quiet (TeRq r # l) \<longleftrightarrow> quiet l"
  "quiet (TeRealtime c # l) \<longleftrightarrow> quiet l" "quiet (TeSleep d i # l) \<longleftrightarrow> quiet l" "quiet (TeStop b # l) \<longleftrightarrow> quiet l"
  "quiet (map TeRt ev) \<longleftrightarrow> (\<forall>e \<in> set ev. \<not> copy_event e)" "quiet (map TeRq rs)"
  by (auto simp: quiet_def client_event_def)

lemma copy_event_simps [simp]:
  "\<not> copy_event (RtReceive m)" "\<not> copy_event (RtProcess d)" "\<not> copy_event (RtAppTime m t rc)"
  "\<not> copy_event (RtQueue d)" "\<not> copy_event (RtClock c)" "\<not> copy_event (RtSyncRef m t rc)"
  "\<not> copy_event (RtSyncSlaves m rc)" "\<not> copy_event (RtSend m)" "\<not> copy_event (RtMasterState m rc s)"
  "\<not> copy_event (RtDomainState d rc s')" "\<not> copy_event (RtSlaveState c' rc s'')" "copy_event (RtCopy p q n)"
  by (simp_all add: copy_event_def)

text \<open>The events on the wire and towards the clients: receive, process, copy, queue, send, notify.\<close>

definition wire_event :: "('m, 'd, 'c, 'p) rt_event \<Rightarrow> bool" where
  "wire_event e \<longleftrightarrow> (case e of RtReceive _ \<Rightarrow> True | RtProcess _ \<Rightarrow> True | RtCopy _ _ _ \<Rightarrow> True
     | RtQueue _ \<Rightarrow> True | RtSend _ \<Rightarrow> True | _ \<Rightarrow> False)"

lemma wire_event_simps [simp]:
  "wire_event (RtReceive m)" "wire_event (RtProcess d)" "\<not> wire_event (RtAppTime m t rc)"
  "wire_event (RtQueue d)" "\<not> wire_event (RtClock c)" "\<not> wire_event (RtSyncRef m t rc)"
  "\<not> wire_event (RtSyncSlaves m rc)" "wire_event (RtSend m)" "\<not> wire_event (RtMasterState m rc s)"
  "\<not> wire_event (RtDomainState d rc s')" "\<not> wire_event (RtSlaveState c' rc s'')" "wire_event (RtCopy p q n)"
  by (simp_all add: wire_event_def)

definition task_wire :: "('m, 'd, 'c, 'q, 'p) task_event list \<Rightarrow> ('m, 'd, 'c, 'q, 'p) task_event list" where
  "task_wire l = filter (\<lambda>e. case e of TeRt r \<Rightarrow> wire_event r | TeNotify \<Rightarrow> True | _ \<Rightarrow> False) l"

lemma task_wire_simps [simp]:
  "task_wire [] = []" "task_wire (l @ k) = task_wire l @ task_wire k"
  "task_wire (TeRt e # l) = (if wire_event e then TeRt e # task_wire l else task_wire l)"
  "task_wire (TeRealtime c # l) = task_wire l" "task_wire (TeSleep d i # l) = task_wire l"
  "task_wire (TeStop b # l) = task_wire l" "task_wire (TeNotify # l) = TeNotify # task_wire l"
  "task_wire (map TeRt ev) = map TeRt (filter wire_event ev)"
  by (simp_all add: task_wire_def filter_map comp_def)

lemma queries_not_copy [simp]: "e \<in> set (queries cs answers) \<Longrightarrow> \<not> copy_event e"
  by (auto simp: queries_def)

section \<open>The operations of the master on the log\<close>

text \<open>What a cycle changes in the master: the clock error and the verification.\<close>

definition same_master :: "('m, 'd, 'c, 'q, 'p) ethercat_master \<Rightarrow> ('m, 'd, 'c, 'q, 'p) ethercat_master \<Rightarrow> bool" where
  "same_master em em' \<longleftrightarrow> em' = em\<lparr>last_dc_error := last_dc_error em', verification := verification em'\<rparr>"

lemma same_master_refl [simp]: "same_master em em"
  by (simp add: same_master_def)

lemma same_master_trans: "same_master a b \<Longrightarrow> same_master b c \<Longrightarrow> same_master a c"
  unfolding same_master_def by (cases a; cases b; cases c) simp

lemma same_masterD: "same_master em em' \<Longrightarrow> slave_configs em' = slave_configs em \<and> master em' = master em
    \<and> input_domain em' = input_domain em \<and> output_domain em' = output_domain em
    \<and> input_data em' = input_data em \<and> output_data em' = output_data em
    \<and> em_input_size em' = em_input_size em \<and> em_output_size em' = em_output_size em
    \<and> initialized em' = initialized em"
  unfolding same_master_def by (cases em; cases em') simp

lemma same_master_updates [simp]:
  "same_master em (em\<lparr>verification := v\<rparr>)" "same_master em (em\<lparr>last_dc_error := e\<rparr>)"
  "same_master em (record_dc_error stage code em)"
  by (simp_all add: same_master_def record_dc_error_def)

lemma record_dc_error_verification [simp]: "verification (record_dc_error stage code em) = verification em"
  by (simp add: record_dc_error_def)

lemma set_application_time_log:
  assumes "set_application_time (log_rt f I) t em (w, l) = (ok, em', (w', l'))"
  shows "\<exists>ev. l' = l @ map f ev \<and> (\<forall>e \<in> set ev. \<not> copy_event e) \<and> same_master em em'
    \<and> verification em' = verification em \<and> filter wire_event ev = []"
proof -
  obtain rc w1 where "rt_application_time I (master em) t w = (rc, w1)" by fastforce
  with assms show ?thesis
    by (cases "\<not> em_dc_enabled em \<or> \<not> initialized em \<or> master em = None")
       (auto simp: set_application_time_def split: if_splits
         intro: exI [of _ "[]"] exI [of _ "[RtAppTime (master em) t rc]"])
qed

lemma receive_and_process_log:
  "\<exists>ev. receive_and_process (log_rt f I) em (w, l) = (receive_and_process I em w, l @ map f ev)
     \<and> (\<forall>e \<in> set ev. \<not> copy_event e)
     \<and> filter wire_event ev = (if bus_ready em
          then [RtReceive (master em), RtProcess (input_domain em), RtProcess (output_domain em)] else [])"
  by (intro exI [of _ "if bus_ready em
        then [RtReceive (master em), RtProcess (input_domain em), RtProcess (output_domain em)] else []"])
     (simp add: receive_and_process_def)

lemma queue_and_send_log:
  assumes "queue_and_send (log_rt f I) em (w, l) = (ok, em', (w', l'))"
  shows "\<exists>ev. l' = l @ map f ev \<and> (\<forall>e \<in> set ev. \<not> copy_event e) \<and> same_master em em'
    \<and> verification em' = verification em
    \<and> filter wire_event ev = (if bus_ready em
         then [RtQueue (input_domain em), RtQueue (output_domain em)] @ (if ok then [RtSend (master em)] else []) else [])"
proof (cases "bus_ready em \<and> em_dc_enabled em")
  case False
  then show ?thesis
    using assms
    by (intro exI [of _ "if bus_ready em
          then [RtQueue (input_domain em), RtQueue (output_domain em), RtSend (master em)] else []"])
       (auto simp: queue_and_send_def Let_def split: if_splits)
next
  case True
  let ?q = "[RtQueue (input_domain em), RtQueue (output_domain em)]"
  obtain r w2 where r: "rt_monotonic I (rt_queue I (output_domain em) (rt_queue I (input_domain em) w)) = (r, w2)"
    by fastforce
  show ?thesis
  proof (cases r)
    case (Inl errno)
    with assms True r show ?thesis
      by (intro exI [of _ "?q @ [RtClock r]"]) (auto simp: queue_and_send_def Let_def)
  next
    case (Inr now)
    obtain rc w3 where rc: "rt_sync_reference_clock_to I (master em) (unsigned_ns now) w2 = (rc, w3)" by fastforce
    obtain rc' w4 where rc': "rt_sync_slave_clocks I (master em) w3 = (rc', w4)" by fastforce
    let ?ref = "?q @ [RtClock r, RtSyncRef (master em) (unsigned_ns now) rc]"
    consider "rc \<noteq> 0" | "rc = 0" "rc' \<noteq> 0" | "rc = 0" "rc' = 0" by blast
    then show ?thesis
    proof cases
      case 1
      with assms True r Inr rc show ?thesis
        by (intro exI [of _ ?ref]) (auto simp: queue_and_send_def Let_def)
    next
      case 2
      with assms True r Inr rc rc' show ?thesis
        by (intro exI [of _ "?ref @ [RtSyncSlaves (master em) rc']"]) (auto simp: queue_and_send_def Let_def)
    next
      case 3
      with assms True r Inr rc rc' show ?thesis
        by (intro exI [of _ "?ref @ [RtSyncSlaves (master em) rc', RtSend (master em)]"])
           (auto simp: queue_and_send_def Let_def)
    qed
  qed
qed

text \<open>What the state tells about the answers it was read from.\<close>

definition state_answers :: "('m, 'd, 'c, 'q, 'p) ethercat_master \<Rightarrow> bus_state \<Rightarrow> ('m, 'd, 'c, 'p) rt_event list \<Rightarrow> bool" where
  "state_answers em state ev \<longleftrightarrow> (\<exists>ms i o'. ev = [RtMasterState (master em) 0 ms,
       RtDomainState (input_domain em) 0 i, RtDomainState (output_domain em) 0 o']
     \<and> ms_link_up ms \<noteq> 0 \<and> ms_slaves_responding ms = responding_slaves state
     \<and> ds_wc_state i = EC_WC_COMPLETE \<and> ds_wc_state o' = EC_WC_COMPLETE)"

lemma read_state_log:
  assumes "read_state (log_rt f I) em (w, l) = (state, (w', l'))"
  shows "\<exists>ev. l' = l @ map f ev \<and> (\<forall>e \<in> set ev. \<not> copy_event e) \<and> filter wire_event ev = []
    \<and> (bs_link_up state \<longrightarrow> input_wc_state state = EC_WC_COMPLETE \<longrightarrow> output_wc_state state = EC_WC_COMPLETE
         \<longrightarrow> state_answers em state ev)"
proof (cases "initialized em")
  case False
  then show ?thesis using assms by (auto simp: read_state_def bus_state_init_def)
next
  case True
  obtain mrc ms w1 where m: "rt_master_state I (master em) w = ((mrc, ms), w1)" by (metis prod.exhaust)
  obtain irc i w2 where i: "rt_domain_state I (input_domain em) w1 = ((irc, i), w2)" by (metis prod.exhaust)
  obtain orc o' w3 where o: "rt_domain_state I (output_domain em) w2 = ((orc, o'), w3)" by (metis prod.exhaust)
  show ?thesis
    using assms True m i o
    by (intro exI [of _ "[RtMasterState (master em) mrc ms, RtDomainState (input_domain em) irc i,
          RtDomainState (output_domain em) orc o']"])
       (auto simp: read_state_def bus_state_init_def state_answers_def Let_def split: if_splits)
qed

lemma publish_slave_runtime_log:
  assumes "publish_slave_runtime A (log_rt f I) em bus (w, l) = (bus', (w', l'))"
  shows "\<exists>ev. l' = l @ map f ev \<and> (\<forall>e \<in> set ev. \<not> copy_event e) \<and> filter wire_event ev = []"
proof -
  have rows: "publish_rows (log_rt f I) i cs bus (w, l) = (bus', (w', l')) \<Longrightarrow>
      \<exists>ev. l' = l @ map f ev \<and> (\<forall>e \<in> set ev. \<not> copy_event e) \<and> filter wire_event ev = []" for i cs bus w l
  proof (induction cs arbitrary: i bus w l)
    case Nil
    then show ?case by auto
  next
    case (Cons sc cs)
    obtain c s w1 where q: "rt_slave_config_state I sc w = ((c, s), w1)" by (metis prod.exhaust)
    show ?case
    proof (cases "i < nat (slave_num bus)")
      case False
      with Cons.prems show ?thesis by (intro exI [of _ "[]"]) simp
    next
      case True
      with Cons.prems q have "publish_rows (log_rt f I) (Suc i) cs
          (bus\<lparr>slaves := (slaves bus)[i := runtime_row c s (slaves bus ! i)]\<rparr>) (w1, l @ [f (RtSlaveState sc c s)])
        = (bus', (w', l'))" by simp
      from Cons.IH [OF this] obtain ev where
        "l' = (l @ [f (RtSlaveState sc c s)]) @ map f ev" "\<forall>e \<in> set ev. \<not> copy_event e" "filter wire_event ev = []" by blast
      then show ?thesis by (intro exI [of _ "RtSlaveState sc c s # ev"]) auto
    qed
  qed
  show ?thesis
    using assms rows by (cases "slave_num bus < 0 \<or> int (MAX_SLAVE_NUM A) < slave_num bus")
      (auto simp: publish_slave_runtime_def)
qed

lemma sleep_loop_log:
  "sleep_loop (log_task I) n d (w, l) = (r, (w', l')) \<Longrightarrow> \<exists>ev. l' = l @ ev \<and> quiet ev \<and> rq_events ev = [] \<and> task_wire ev = []"
proof (induction n arbitrary: w l)
  case 0
  then show ?case by auto
next
  case (Suc n)
  obtain rc w1 where s: "ta_sleep I d w = (rc, w1)" by fastforce
  obtain b w2 where b: "ta_stop I w1 = (b, w2)" by fastforce
  show ?case
  proof (cases "rc = EINTR \<and> \<not> b")
    case True
    with Suc.prems s b have "sleep_loop (log_task I) n d (w2, l @ [TeSleep d rc, TeStop b]) = (r, (w', l'))" by simp
    from Suc.IH [OF this] obtain ev where "l' = (l @ [TeSleep d rc, TeStop b]) @ ev" "quiet ev" "rq_events ev = []" "task_wire ev = []" by blast
    then show ?thesis by (intro exI [of _ "[TeSleep d rc, TeStop b] @ ev"]) auto
  next
    case False
    with Suc.prems s b show ?thesis
      by (cases "rc = EINTR") (auto intro: exI [of _ "[TeSleep d rc, TeStop b]"] exI [of _ "[TeSleep d rc]"])
  qed
qed


section \<open>The parts of a startup cycle\<close>

lemma begin_cycle_log:
  assumes "begin_cycle (log_task I) fuel d t (w, l) = (r, t', (w', l'))"
  shows "\<exists>ev. l' = l @ ev \<and> quiet ev \<and> rq_events ev = [] \<and> same_master (ct_master t) (ct_master t')
    \<and> verification (ct_master t') = verification (ct_master t) \<and> task_wire ev = []
    \<and> t' = t\<lparr>ct_master := ct_master t'\<rparr>"
proof -
  obtain sr w1 l1 where s: "sleep_loop (log_task I) fuel d (w, l) = (sr, (w1, l1))" by (metis prod.exhaust)
  from sleep_loop_log [OF s] obtain e1 where e1: "l1 = l @ e1" "quiet e1" "rq_events e1 = []" "task_wire e1 = []" by blast
  obtain b w2 where b: "ta_stop I w1 = (b, w2)" by fastforce
  obtain c w3 where c: "rt_monotonic (ta_rt I) w2 = (c, w3)" by fastforce
  let ?e2 = "e1 @ [TeStop b]"
  consider "sr = None" | src where "sr = Some src" "b \<or> src \<noteq> 0"
    | e where "sr = Some 0" "\<not> b" "c = Inl e" | now where "sr = Some 0" "\<not> b" "c = Inr now"
    by (cases sr; cases c) auto
  then show ?thesis
  proof cases
    case 1
    with assms s e1 show ?thesis by (intro exI [of _ e1]) (simp add: begin_cycle_def)
  next
    case 2
    with assms s e1 b show ?thesis by (intro exI [of _ ?e2]) (auto simp: begin_cycle_def split: if_splits)
  next
    case 3
    with assms s e1 b c show ?thesis
      by (intro exI [of _ "?e2 @ [TeRt (RtClock c)]"]) (auto simp: begin_cycle_def)
  next
    case 4
    obtain ok em w4 l4 where a: "set_application_time (log_rt TeRt (ta_rt I)) (word_of_int (to_nanoseconds d)) (ct_master t)
        (w3, l @ ?e2 @ [TeRt (RtClock c)]) = (ok, em, (w4, l4))" by (metis prod.exhaust)
    from set_application_time_log [OF a] obtain ev where ev:
      "l4 = (l @ ?e2 @ [TeRt (RtClock c)]) @ map TeRt ev" "\<forall>e \<in> set ev. \<not> copy_event e"
      "same_master (ct_master t) em" "verification em = verification (ct_master t)" "filter wire_event ev = []" by blast
    have "r = (if ok then Inr now else Inl (Exit EIO))" "t' = t\<lparr>ct_master := em\<rparr>" "l' = l4"
      using assms s e1(1) b c a 4 by (simp_all add: begin_cycle_def Let_def split: if_splits)
    then show ?thesis using ev e1 by (intro exI [of _ "(?e2 @ [TeRt (RtClock c)]) @ map TeRt ev"]) auto
  qed
qed

lemma startup_publish_log:
  assumes "startup_publish A (log_task I) state wake t (w, l) = (r, t', (w', l'))"
  shows "\<exists>ev. l' = l @ ev \<and> quiet ev \<and> rq_events ev = [] \<and> ct_master t' = ct_master t"
proof (cases "ecat_bus t")
  case None
  with assms show ?thesis by (simp add: startup_publish_def)
next
  case (Some bus)
  obtain c w1 where c: "ta_realtime I w = (c, w1)" by fastforce
  show ?thesis
  proof (cases c)
    case (Inl e)
    with assms Some c show ?thesis by (intro exI [of _ "[TeRealtime c]"]) (auto simp: startup_publish_def)
  next
    case (Inr wall)
    obtain bus' w2 l2 where p: "publish_slave_runtime A (log_rt TeRt (ta_rt I)) (ct_master t) bus (w1, l @ [TeRealtime c])
        = (bus', (w2, l2))" by (metis prod.exhaust)
    from publish_slave_runtime_log [OF p] obtain ev where ev: "l2 = (l @ [TeRealtime c]) @ map TeRt ev"
      "\<forall>e \<in> set ev. \<not> copy_event e" by blast
    have "l' = l2" "ct_master t' = ct_master t"
      using assms Some c Inr p by (auto simp: startup_publish_def Let_def)
    with ev show ?thesis by (intro exI [of _ "[TeRealtime c] @ map TeRt ev"]) auto
  qed
qed

lemma startup_poll_log:
  assumes "startup_poll A (log_task I) state t (w, l) = (r, t', (w', l'))"
  shows "\<exists>answers. length answers = length (slave_configs (ct_master t))
    \<and> l' = l @ map TeRt (queries (slave_configs (ct_master t)) answers)
    \<and> (case r of
         Inl e \<Rightarrow> ct_master t' \<in> {ct_master t, ct_master (abort_task BusUnhealthy t)}
       | Inr healthy \<Rightarrow> ct_master t' = ct_master t
           \<and> healthy = bus_healthy state (initialized (ct_master t) \<and> slave_configs (ct_master t) \<noteq> []
                \<and> list_all (\<lambda>(c, s). slave_reached (ta_rt I) (al_op (ta_rt I)) c s) answers)
              (length (slave_configs (ct_master t))))"
proof -
  let ?em = "ct_master t"
  let ?rs = "Some (replicate (MAX_SLAVE_NUM A) False)"
  obtain rc allop rs w1 l1 where p: "poll_slaves (log_rt TeRt (ta_rt I)) ?em (al_op (ta_rt I)) ?rs (MAX_SLAVE_NUM A) (w, l)
      = ((rc, allop, rs), (w1, l1))" by (metis prod.exhaust)
  from poll_loop_log [OF p [unfolded poll_slaves_def]] obtain answers where a:
    "length answers = length (slave_configs ?em)" "l1 = l @ map TeRt (queries (slave_configs ?em) answers)"
    "allop \<longleftrightarrow> (initialized ?em \<and> slave_configs ?em \<noteq> []) \<and> list_all (\<lambda>(c, s). slave_reached (ta_rt I) (al_op (ta_rt I)) c s) answers"
    by blast
  have "l' = l1" using assms p by (auto simp: startup_poll_def Let_def split: if_splits)
  moreover have "case r of Inl e \<Rightarrow> ct_master t' \<in> {ct_master t, ct_master (abort_task BusUnhealthy t)}
       | Inr healthy \<Rightarrow> ct_master t' = ct_master t \<and> healthy = bus_healthy state allop (length (slave_configs ?em))"
    using assms p by (cases "rc = 0") (auto simp: startup_poll_def Let_def split: if_splits)
  ultimately show ?thesis
    using a by (intro exI [of _ answers]) (auto split: sum.splits)
qed

lemma startup_finish_log:
  assumes "startup_finish (log_task I) wake t s (w, l) = (r, t', s', (w', l'))"
  shows "\<exists>ev. l' = l @ ev \<and> quiet ev \<and> rq_events ev = [] \<and> same_master (ct_master t) (ct_master t')
    \<and> verification (ct_master t') = verification (ct_master t)
    \<and> startup_gate s' = startup_gate s \<and> loop_ready s' = loop_ready s"
proof -
  obtain ok em w1 l1 where q: "queue_and_send (log_rt TeRt (ta_rt I)) (ct_master t) (w, l) = (ok, em, (w1, l1))"
    by (metis prod.exhaust)
  from queue_and_send_log [OF q] obtain ev where ev: "l1 = l @ map TeRt ev" "\<forall>e \<in> set ev. \<not> copy_event e"
    "same_master (ct_master t) em" "verification em = verification (ct_master t)" by blast
  show ?thesis
  proof (cases ok)
    case False
    with assms q ev show ?thesis by (intro exI [of _ "map TeRt ev"]) (auto simp: startup_finish_def Let_def)
  next
    case True
    obtain c w2 where c: "rt_monotonic (ta_rt I) w1 = (c, w2)" by fastforce
    from True assms q ev c show ?thesis
      by (intro exI [of _ "map TeRt ev @ [TeRt (RtClock c)]"])
         (auto simp: startup_finish_def Let_def split: sum.splits prod.splits)
  qed
qed


lemma observe_cases:
  assumes "observe g now h = (g', r)"
  shows "if deadline_ns g \<le> now then r = TimedOut \<and> g' = g
    else r \<noteq> TimedOut \<and> deadline_ns g' = deadline_ns g \<and> stable_count g' = (if h then stable_count g + 1 else 0)
      \<and> (r = Ready \<longleftrightarrow> 5 \<le> stable_count g')"
  using assms by (auto simp: observe_def Let_def split: if_splits)

lemma verify_inv_abort: "verify_inv s0 v l \<Longrightarrow> verify_inv s0 (verification_abort f v) l'"
  by (intro verify_inv_failed) (auto simp: verify_inv_def verification_abort_def)

lemma verify_step_task_log:
  fixes R :: "('c, 'q, 'w) request_api" and l :: "('m, 'd, 'c, 'q, 'p) task_event list"
  assumes "verify_step (log_requests TeRq R) now v (w, l) = (r, v', (w', l'))" "verify_inv s0 v lq"
  shows "\<exists>ev. l' = l @ map TeRq ev \<and> verify_inv s0 v' (lq @ ev)"
proof -
  from verify_step_log [of R now v w] obtain ev where ev:
    "\<forall>l. verify_step (logged_requests R) now v (w, l)
       = (fst (verify_step R now v w), fst (snd (verify_step R now v w)), (snd (snd (verify_step R now v w)), l @ ev))"
    "\<forall>l :: ('m, 'd, 'c, 'q, 'p) task_event list. verify_step (log_requests TeRq R) now v (w, l)
       = (fst (verify_step R now v w), fst (snd (verify_step R now v w)), (snd (snd (verify_step R now v w)), l @ map TeRq ev))"
    by blast
  from ev(2) [rule_format, of l] assms(1) have "l' = l @ map TeRq ev" "fst (snd (verify_step R now v w)) = v'" by simp_all
  with verify_step_inv [OF assms(2) ev(1) [rule_format, of lq]] show ?thesis by blast
qed

lemma startup_verify_log:
  assumes "startup_verify (log_task I) healthy t s (w, l) = (r, t', s', (w', l'))"
    and "verify_inv s0 (verification (ct_master t)) lq"
  shows "\<exists>ev. l' = l @ ev \<and> quiet ev \<and> verify_inv s0 (verification (ct_master t')) (lq @ rq_events ev)
    \<and> same_master (ct_master t) (ct_master t')
    \<and> (r = None \<longrightarrow> deadline_ns (startup_gate s') = deadline_ns (startup_gate s)
        \<and> (loop_ready s' \<longleftrightarrow> 5 \<le> stable_count (startup_gate s'))
        \<and> (if healthy \<and> vresult (verification (ct_master t)) = Complete
           then stable_count (startup_gate s') = stable_count (startup_gate s) + 1
             \<and> verification (ct_master t') = verification (ct_master t)
             \<and> (\<exists>now. ev = [TeRt (RtClock (Inr now))] \<and> to_nanoseconds now < deadline_ns (startup_gate s))
           else stable_count (startup_gate s') = 0))"
proof -
  let ?v = "verification (ct_master t)"
  define s1 where "s1 = (if \<not> started ?v then s\<lparr>initial_healthy_cycles := (if healthy then initial_healthy_cycles s + 1 else 0)\<rparr> else s)"
  have g1: "startup_gate s1 = startup_gate s" by (simp add: s1_def)
  obtain c w1 where c: "rt_monotonic (ta_rt I) w = (c, w1)" by fastforce
  have abort: "verify_inv s0 (verification (ct_master (abort_task f t))) l0"
    "same_master (ct_master t) (ct_master (abort_task f t))" for f l0
    using verify_inv_abort [OF assms(2)] by (simp_all add: abort_task_def)
  consider "started ?v \<and> \<not> healthy" | e where "\<not> (started ?v \<and> \<not> healthy)" "c = Inl e"
    | now where "\<not> (started ?v \<and> \<not> healthy)" "c = Inr now" by (cases c) auto
  then show ?thesis
  proof cases
    case 1
    with assms abort show ?thesis by (intro exI [of _ "[]"]) (auto simp: startup_verify_def Let_def)
  next
    case 2
    with assms c show ?thesis
      by (intro exI [of _ "[TeRt (RtClock c)]"]) (auto simp: startup_verify_def Let_def)
  next
    case 3
    define h where "h = (healthy \<and> vresult ?v = Complete)"
    obtain g' res where o: "observe (startup_gate s) (to_nanoseconds now) h = (g', res)" by fastforce
    note oc = observe_cases [OF o]
    define s2 where "s2 = s1\<lparr>startup_gate := g', loop_ready := (res = Ready)\<rparr>"
    let ?l1 = "l @ [TeRt (RtClock c)]"
    have eq: "startup_verify (log_task I) healthy t s (w, l) =
       (if res = TimedOut then (Some (Exit ETIMEDOUT), if started ?v then abort_task StartupTimeout t else t,
            s1\<lparr>startup_gate := g'\<rparr>, (w1, ?l1))
        else if healthy \<and> 5 \<le> initial_healthy_cycles s1 \<and> vresult ?v \<noteq> Complete
        then (case verify_step (log_requests TeRq (ta_requests I)) (to_nanoseconds now) ?v (w1, ?l1) of
            (q, v, w) \<Rightarrow> let t = t\<lparr>ct_master := (ct_master t)\<lparr>verification := v\<rparr>\<rparr> in
              if q = Failed
              then (Some (Exit (if ve_failure (verror v) = RequestTimeout then ETIMEDOUT else EIO)), t, s2, w)
              else (None, t, s2, w))
        else (None, t, s2, (w1, ?l1)))"
      unfolding startup_verify_def Let_def s1_def [symmetric] h_def [symmetric] s2_def using 3 c o g1 by (simp add: Let_def)
    show ?thesis
    proof (cases "res = TimedOut")
      case True
      then show ?thesis
        using assms abort unfolding eq by (intro exI [of _ "[TeRt (RtClock c)]"]) auto
    next
      case False
      with oc [unfolded h_def] have live: "to_nanoseconds now < deadline_ns (startup_gate s)" "deadline_ns g' = deadline_ns (startup_gate s)"
        "stable_count g' = (if healthy \<and> vresult ?v = Complete then stable_count (startup_gate s) + 1 else 0)"
        "res = Ready \<longleftrightarrow> 5 \<le> stable_count g'" by (auto split: if_splits)
      show ?thesis
      proof (cases "healthy \<and> 5 \<le> initial_healthy_cycles s1 \<and> vresult ?v \<noteq> Complete")
        case True
        obtain q v w2 l2 where vs: "verify_step (log_requests TeRq (ta_requests I)) (to_nanoseconds now) ?v (w1, ?l1) = (q, v, (w2, l2))"
          by (metis prod.exhaust)
        from verify_step_task_log [OF vs assms(2)] obtain ev where ev: "l2 = ?l1 @ map TeRq ev" "verify_inv s0 v (lq @ ev)" by blast
        have "l' = l2" "ct_master t' = (ct_master t)\<lparr>verification := v\<rparr>" "s' = s2"
          using assms(1) False True vs unfolding eq by (auto simp: Let_def split: if_splits)
        then show ?thesis
          using ev live True by (intro exI [of _ "[TeRt (RtClock c)] @ map TeRq ev"]) (auto simp: s2_def)
      next
        case step: False
        with assms(1) False have "r = None" "t' = t" "s' = s2" "l' = ?l1" unfolding eq by auto
        then show ?thesis
          using assms(2) live 3(2) by (intro exI [of _ "[TeRt (RtClock c)]"]) (auto simp: s2_def)
      qed
    qed
  qed
qed

text \<open>
  A healthy cycle, as the log shows it: link up, all slaves responding and both working counters
  complete in the state read, every configured slave answered operational, in time.
\<close>

definition healthy_cycle :: "('m, 'd, 'c, 'p, 'w) rt_api \<Rightarrow> ('m, 'd, 'c, 'q, 'p) ethercat_master \<Rightarrow> int
    \<Rightarrow> ('m, 'd, 'c, 'q, 'p) task_event list \<Rightarrow> bool" where
  "healthy_cycle R em end_ns seg \<longleftrightarrow> (\<exists>pre state sa mid answers now post.
     seg = pre @ map TeRt sa @ mid @ map TeRt (queries (slave_configs em) answers) @ TeRt (RtClock (Inr now)) # post
     \<and> state_answers em state sa \<and> unat (responding_slaves state) = length (slave_configs em)
     \<and> slave_configs em \<noteq> [] \<and> length answers = length (slave_configs em)
     \<and> list_all (\<lambda>(c, s). slave_reached R (al_op R) c s) answers \<and> to_nanoseconds now < end_ns)"

lemma healthy_cycleI:
  assumes "seg = pre @ map TeRt sa @ mid @ map TeRt (queries (slave_configs em) answers) @ TeRt (RtClock (Inr now)) # post"
    "state_answers em state sa" "unat (responding_slaves state) = length (slave_configs em)"
    "slave_configs em \<noteq> []" "length answers = length (slave_configs em)"
    "list_all (\<lambda>(c, s). slave_reached R (al_op R) c s) answers" "to_nanoseconds now < end_ns"
  shows "healthy_cycle R em end_ns seg"
  using assms unfolding healthy_cycle_def by blast

lemma healthy_cycle_Cons: "healthy_cycle R em D seg \<Longrightarrow> healthy_cycle R em D (e # seg)"
  unfolding healthy_cycle_def by (metis append_Cons)

lemma healthy_cycle_same:
  "same_master em em' \<Longrightarrow> healthy_cycle R em' D seg \<Longrightarrow> healthy_cycle R em D seg"
  using same_masterD [of em em'] by (auto simp: healthy_cycle_def state_answers_def)


text \<open>A cycle up to its poll: nothing is shown to the clients, and the state read has its answers.\<close>

lemma startup_head_log:
  assumes b: "begin_cycle (log_task I) fuel d t (w, l) = (Inr wake, t1, (w1, l1))"
    and st: "read_state (log_rt TeRt (ta_rt I)) (ct_master t1)
        (receive_and_process (log_rt TeRt (ta_rt I)) (ct_master t1) (w1, l1)) = (state, (w2, l2))"
    and p: "startup_publish A (log_task I) state wake t1 (w2, l2) = (p, t2, (w3, l3))"
  shows "\<exists>pre sa mid. l3 = l @ pre @ map TeRt sa @ mid \<and> quiet (pre @ map TeRt sa @ mid)
    \<and> rq_events (pre @ map TeRt sa @ mid) = [] \<and> same_master (ct_master t) (ct_master t2)
    \<and> verification (ct_master t2) = verification (ct_master t)
    \<and> (bs_link_up state \<and> input_wc_state state = EC_WC_COMPLETE \<and> output_wc_state state = EC_WC_COMPLETE
         \<longrightarrow> state_answers (ct_master t2) state sa)"
proof -
  from begin_cycle_log [OF b] obtain e1 where e1: "l1 = l @ e1" "quiet e1" "rq_events e1 = []"
    "same_master (ct_master t) (ct_master t1)" "verification (ct_master t1) = verification (ct_master t)" by blast
  from receive_and_process_log [of TeRt "ta_rt I" "ct_master t1" w1 l1] obtain e2 where e2:
    "receive_and_process (log_rt TeRt (ta_rt I)) (ct_master t1) (w1, l1)
       = (receive_and_process (ta_rt I) (ct_master t1) w1, l1 @ map TeRt e2)" "\<forall>e \<in> set e2. \<not> copy_event e" by blast
  from read_state_log [OF st [unfolded e2(1)]] obtain e3 where e3: "l2 = (l1 @ map TeRt e2) @ map TeRt e3"
    "\<forall>e \<in> set e3. \<not> copy_event e"
    "bs_link_up state \<Longrightarrow> input_wc_state state = EC_WC_COMPLETE \<Longrightarrow> output_wc_state state = EC_WC_COMPLETE
       \<Longrightarrow> state_answers (ct_master t1) state e3" by blast
  from startup_publish_log [OF p] obtain e4 where e4: "l3 = l2 @ e4" "quiet e4" "rq_events e4 = []"
    "ct_master t2 = ct_master t1" by blast
  show ?thesis
    using e1 e2(2) e3 e4 by (intro exI [of _ "e1 @ map TeRt e2"] exI [of _ e3] exI [of _ e4]) auto
qed

text \<open>A cycle after its poll: the verification step, the send and the next deadline.\<close>

lemma startup_tail_log:
  assumes "(case startup_verify (log_task I) healthy t s (w, l) of
        (Some e, t, s, w) \<Rightarrow> (Some e, t, s, w)
      | (None, t, s, w) \<Rightarrow> startup_finish (log_task I) wake t s w) = (r, t', s', (w', l'))"
    and "verify_inv s0 (verification (ct_master t)) lq"
  shows "\<exists>ev. l' = l @ ev \<and> quiet ev \<and> verify_inv s0 (verification (ct_master t')) (lq @ rq_events ev)
    \<and> same_master (ct_master t) (ct_master t')
    \<and> (r = None \<longrightarrow> deadline_ns (startup_gate s') = deadline_ns (startup_gate s)
        \<and> (loop_ready s' \<longleftrightarrow> 5 \<le> stable_count (startup_gate s'))
        \<and> (if healthy \<and> vresult (verification (ct_master t)) = Complete
           then stable_count (startup_gate s') = stable_count (startup_gate s) + 1
             \<and> verification (ct_master t') = verification (ct_master t) \<and> rq_events ev = []
             \<and> (\<exists>now post. ev = TeRt (RtClock (Inr now)) # post \<and> to_nanoseconds now < deadline_ns (startup_gate s))
           else stable_count (startup_gate s') = 0))"
proof -
  obtain v t4 s4 w5 l5 where v: "startup_verify (log_task I) healthy t s (w, l) = (v, t4, s4, (w5, l5))"
    by (metis prod.exhaust)
  from startup_verify_log [OF v assms(2)] obtain e5 where e5: "l5 = l @ e5" "quiet e5"
    "verify_inv s0 (verification (ct_master t4)) (lq @ rq_events e5)" "same_master (ct_master t) (ct_master t4)"
    "v = None \<Longrightarrow> deadline_ns (startup_gate s4) = deadline_ns (startup_gate s)
      \<and> (loop_ready s4 \<longleftrightarrow> 5 \<le> stable_count (startup_gate s4))
      \<and> (if healthy \<and> vresult (verification (ct_master t)) = Complete
         then stable_count (startup_gate s4) = stable_count (startup_gate s) + 1
           \<and> verification (ct_master t4) = verification (ct_master t)
           \<and> (\<exists>now. e5 = [TeRt (RtClock (Inr now))] \<and> to_nanoseconds now < deadline_ns (startup_gate s))
         else stable_count (startup_gate s4) = 0)" by blast
  show ?thesis
  proof (cases v)
    case (Some e)
    then show ?thesis using assms(1) v e5(1-4) by auto
  next
    case None
    then have fin: "startup_finish (log_task I) wake t4 s4 (w5, l5) = (r, t', s', (w', l'))" using assms(1) v by simp
    from startup_finish_log [OF fin] obtain e6 where e6: "l' = l5 @ e6" "quiet e6" "rq_events e6 = []"
      "same_master (ct_master t4) (ct_master t')" "verification (ct_master t') = verification (ct_master t4)"
      "startup_gate s' = startup_gate s4" "loop_ready s' = loop_ready s4" by blast
    show ?thesis
      using e5(1-3) e5(5) [OF None] e6 same_master_trans [OF e5(4) e6(4)]
      by (intro exI [of _ "e5 @ e6"]) (auto split: if_split_asm)
  qed
qed

lemma startup_cycle_log:
  assumes "startup_cycle A (log_task I) fuel t s (w, l) = (r, t', s', (w', l'))"
    and "verify_inv s0 (verification (ct_master t)) lq"
  shows "\<exists>ev. l' = l @ ev \<and> quiet ev \<and> verify_inv s0 (verification (ct_master t')) (lq @ rq_events ev)
    \<and> same_master (ct_master t) (ct_master t')
    \<and> (r = None \<longrightarrow> deadline_ns (startup_gate s') = deadline_ns (startup_gate s)
        \<and> (loop_ready s' \<longleftrightarrow> 5 \<le> stable_count (startup_gate s'))
        \<and> (stable_count (startup_gate s') = 0
           \<or> stable_count (startup_gate s') = stable_count (startup_gate s) + 1
             \<and> vresult (verification (ct_master t)) = Complete
             \<and> verification (ct_master t') = verification (ct_master t) \<and> rq_events ev = []
             \<and> healthy_cycle (ta_rt I) (ct_master t) (deadline_ns (startup_gate s)) ev))"
proof -
  obtain b t1 w1 l1 where b: "begin_cycle (log_task I) fuel (deadline s) t (w, l) = (b, t1, (w1, l1))" by (metis prod.exhaust)
  show ?thesis
  proof (cases b)
    case (Inl e)
    with assms b begin_cycle_log [OF b] show ?thesis by (auto simp: startup_cycle_def)
  next
    case (Inr wake)
    obtain state w2 l2 where st: "read_state (log_rt TeRt (ta_rt I)) (ct_master t1)
        (receive_and_process (log_rt TeRt (ta_rt I)) (ct_master t1) (w1, l1)) = (state, (w2, l2))" by (metis prod.exhaust)
    obtain p t2 w3 l3 where p: "startup_publish A (log_task I) state wake t1 (w2, l2) = (p, t2, (w3, l3))" by (metis prod.exhaust)
    from startup_head_log [OF b [unfolded Inr] st p] obtain pre sa mid where hd: "l3 = l @ pre @ map TeRt sa @ mid"
      "quiet (pre @ map TeRt sa @ mid)" "rq_events (pre @ map TeRt sa @ mid) = []" "same_master (ct_master t) (ct_master t2)"
      "verification (ct_master t2) = verification (ct_master t)"
      "bs_link_up state \<and> input_wc_state state = EC_WC_COMPLETE \<and> output_wc_state state = EC_WC_COMPLETE
         \<longrightarrow> state_answers (ct_master t2) state sa" by blast
    let ?e = "pre @ map TeRt sa @ mid"
    obtain q t3 w4 l4 where q: "startup_poll A (log_task I) state t2 (w3, l3) = (q, t3, (w4, l4))" by (metis prod.exhaust)
    from startup_poll_log [OF q] obtain answers where a: "length answers = length (slave_configs (ct_master t2))"
      "l4 = l3 @ map TeRt (queries (slave_configs (ct_master t2)) answers)"
      "case q of Inl e \<Rightarrow> ct_master t3 \<in> {ct_master t2, ct_master (abort_task BusUnhealthy t2)}
       | Inr healthy \<Rightarrow> ct_master t3 = ct_master t2
         \<and> healthy = bus_healthy state (initialized (ct_master t2) \<and> slave_configs (ct_master t2) \<noteq> []
              \<and> list_all (\<lambda>(c, s). slave_reached (ta_rt I) (al_op (ta_rt I)) c s) answers)
            (length (slave_configs (ct_master t2)))" by blast
    let ?a = "map TeRt (queries (slave_configs (ct_master t2)) answers)"
    consider e where "p = Some e" | e where "p = None" "q = Inl e" | healthy where "p = None" "q = Inr healthy"
      by (cases p; cases q) auto
    then show ?thesis
    proof cases
      case 1
      with assms b Inr st p hd show ?thesis by (intro exI [of _ ?e]) (auto simp: startup_cycle_def)
    next
      case 2
      have t': "r = Some e" "t' = t3" "l' = l4" using assms(1) b Inr st p 2 q by (auto simp: startup_cycle_def)
      have "verify_inv s0 (verification (ct_master t3)) lq" "same_master (ct_master t) (ct_master t3)"
        using a(3) 2(2) hd(4,5) assms(2)
        by (auto simp: abort_task_def verify_inv_abort intro: same_master_trans [OF hd(4)])
      then show ?thesis unfolding t' using a(2) hd(1-3) by (intro exI [of _ "?e @ ?a"]) auto
    next
      case 3
      have tail: "(case startup_verify (log_task I) healthy t3 s (w4, l4) of
          (Some e, t, s, w) \<Rightarrow> (Some e, t, s, w)
        | (None, t, s, w) \<Rightarrow> startup_finish (log_task I) wake t s w) = (r, t', s', (w', l'))"
        using assms(1) b Inr st p 3 q by (simp add: startup_cycle_def)
      have t3: "ct_master t3 = ct_master t2" using a(3) 3(2) by simp
      have "verify_inv s0 (verification (ct_master t3)) lq" using assms(2) hd(5) t3 by simp
      from startup_tail_log [OF tail this] obtain ev where ev: "l' = l4 @ ev" "quiet ev"
        "verify_inv s0 (verification (ct_master t')) (lq @ rq_events ev)" "same_master (ct_master t2) (ct_master t')"
        "r = None \<Longrightarrow> deadline_ns (startup_gate s') = deadline_ns (startup_gate s)
          \<and> (loop_ready s' \<longleftrightarrow> 5 \<le> stable_count (startup_gate s'))
          \<and> (if healthy \<and> vresult (verification (ct_master t2)) = Complete
             then stable_count (startup_gate s') = stable_count (startup_gate s) + 1
               \<and> verification (ct_master t') = verification (ct_master t2) \<and> rq_events ev = []
               \<and> (\<exists>now post. ev = TeRt (RtClock (Inr now)) # post \<and> to_nanoseconds now < deadline_ns (startup_gate s))
             else stable_count (startup_gate s') = 0)" unfolding t3 by blast
      let ?f = "?e @ ?a @ ev"
      have counted: "healthy_cycle (ta_rt I) (ct_master t) (deadline_ns (startup_gate s)) ?f"
        if now: "ev = TeRt (RtClock (Inr now)) # post" "to_nanoseconds now < deadline_ns (startup_gate s)" and healthy for now post
      proof -
        have "state_answers (ct_master t2) state sa" "unat (responding_slaves state) = length (slave_configs (ct_master t2))"
          "slave_configs (ct_master t2) \<noteq> []" "list_all (\<lambda>(c, s). slave_reached (ta_rt I) (al_op (ta_rt I)) c s) answers"
          using \<open>healthy\<close> a(3) 3(2) hd(6) by (simp_all add: bus_healthy_def)
        with now(2) a(1) have "healthy_cycle (ta_rt I) (ct_master t2) (deadline_ns (startup_gate s)) ?f"
          by (intro healthy_cycleI [of _ pre sa mid "ct_master t2" answers now post]) (simp_all add: now(1))
        then show ?thesis by (rule healthy_cycle_same [OF hd(4)])
      qed
      have "l' = l @ ?f" "quiet ?f" "rq_events ?f = rq_events ev" using ev(1,2) a(2) hd(1-3) by auto
      moreover have "same_master (ct_master t) (ct_master t')" by (rule same_master_trans [OF hd(4) ev(4)])
      ultimately show ?thesis
        using ev(3,5) counted hd(5) by (intro exI [of _ ?f]) (auto split: if_split_asm)
    qed
  qed
qed


section \<open>The startup loop\<close>

text \<open>
  The log so far ends with as many healthy cycles as the gate has counted, and once one is counted the
  verification is complete: the counted cycles make no requests.
\<close>

definition startup_inv :: "('m, 'd, 'c, 'p, 'w) rt_api \<Rightarrow> ('m, 'd, 'c, 'q, 'p) ethercat_master \<Rightarrow> int
    \<Rightarrow> ('m, 'd, 'c, 'q, 'p, 'r) cyclic_task \<Rightarrow> startup_locals \<Rightarrow> ('m, 'd, 'c, 'q, 'p) task_event list \<Rightarrow> bool" where
  "startup_inv R em end_ns t s l \<longleftrightarrow> same_master em (ct_master t) \<and> quiet l
     \<and> verify_inv (verification em) (verification (ct_master t)) (rq_events l)
     \<and> deadline_ns (startup_gate s) = end_ns \<and> unat (stable_count (startup_gate s)) \<le> 5
     \<and> (loop_ready s \<longleftrightarrow> 5 \<le> stable_count (startup_gate s))
     \<and> (stable_count (startup_gate s) \<noteq> 0 \<longrightarrow> vresult (verification (ct_master t)) = Complete)
     \<and> (\<exists>before segs. l = before @ concat segs \<and> length segs = unat (stable_count (startup_gate s))
          \<and> (\<forall>seg \<in> set segs. healthy_cycle R em end_ns seg \<and> rq_events seg = []))"

lemma startup_inv_step:
  assumes inv: "startup_inv R em D t s l" and R: "R = ta_rt I" and "\<not> loop_ready s"
    and cycle: "startup_cycle A (log_task I) fuel t s (w, l @ [TeStop False]) = (None, t', s', (w', l'))"
  shows "startup_inv R em D t' s' l'"
proof -
  let ?n = "stable_count (startup_gate s)"
  have lq: "verify_inv (verification em) (verification (ct_master t)) (rq_events (l @ [TeStop False]))"
    using inv by (simp add: startup_inv_def)
  from startup_cycle_log [OF cycle lq] obtain ev where ev: "l' = (l @ [TeStop False]) @ ev" "quiet ev"
    "verify_inv (verification em) (verification (ct_master t')) (rq_events (l @ [TeStop False]) @ rq_events ev)"
    "same_master (ct_master t) (ct_master t')" "deadline_ns (startup_gate s') = deadline_ns (startup_gate s)"
    "loop_ready s' \<longleftrightarrow> 5 \<le> stable_count (startup_gate s')"
    "stable_count (startup_gate s') = 0 \<or> stable_count (startup_gate s') = ?n + 1
       \<and> vresult (verification (ct_master t)) = Complete \<and> verification (ct_master t') = verification (ct_master t)
       \<and> rq_events ev = [] \<and> healthy_cycle (ta_rt I) (ct_master t) (deadline_ns (startup_gate s)) ev" by blast
  have same: "same_master em (ct_master t')"
    using inv ev(4) by (auto simp: startup_inv_def intro: same_master_trans)
  have small: "unat ?n < 5" using assms(3) inv by (auto simp: startup_inv_def word_le_nat_alt)
  from inv obtain before segs where segs: "l = before @ concat segs" "length segs = unat ?n"
    "\<forall>seg \<in> set segs. healthy_cycle R em D seg \<and> rq_events seg = []" by (auto simp: startup_inv_def)
  show ?thesis
  proof (cases "stable_count (startup_gate s') = 0")
    case True
    with inv ev same show ?thesis
      unfolding startup_inv_def by (auto intro!: exI [of _ "l'"] exI [of _ "[]"])
  next
    case False
    with ev(7) have next': "stable_count (startup_gate s') = ?n + 1" "vresult (verification (ct_master t')) = Complete"
      "rq_events ev = []" "healthy_cycle R em D (TeStop False # ev)"
      using healthy_cycle_same [of em "ct_master t"] inv by (auto simp: startup_inv_def R intro!: healthy_cycle_Cons)
    then have n: "unat (stable_count (startup_gate s')) = Suc (unat ?n)" using small by (simp add: unat_word_ariths)
    have "l' = before @ concat (segs @ [TeStop False # ev])" using segs(1) ev(1) by simp
    with segs next' n have "\<exists>before segs. l' = before @ concat segs \<and> length segs = unat (stable_count (startup_gate s'))
          \<and> (\<forall>seg \<in> set segs. healthy_cycle R em D seg \<and> rq_events seg = [])"
      by (intro exI [of _ before] exI [of _ "segs @ [TeStop False # ev]"]) auto
    then show ?thesis
      using inv ev same next'(2) n small by (simp add: startup_inv_def)
  qed
qed

lemma startup_loop_log:
  "startup_loop A (log_task I) fuel n t s (w, l) = (r, t', s', (w', l')) \<Longrightarrow> startup_inv (ta_rt I) em D t s l \<Longrightarrow>
     quiet l' \<and> (\<exists>ev. l' = l @ ev) \<and> same_master em (ct_master t') \<and> (r = None \<and> loop_ready s' \<longrightarrow> startup_inv (ta_rt I) em D t' s' l')"
proof (induction n arbitrary: t s w l)
  case 0
  then show ?case by (auto simp: startup_inv_def)
next
  case (Suc n)
  obtain b w1 where b: "ta_stop I w = (b, w1)" by fastforce
  consider "loop_ready s" | "\<not> loop_ready s" "b" | "\<not> loop_ready s" "\<not> b" by blast
  then show ?case
  proof cases
    case 1
    with Suc.prems show ?thesis by (auto simp: startup_inv_def)
  next
    case 2
    with Suc.prems b show ?thesis by (auto simp: startup_inv_def)
  next
    case 3
    obtain r1 t1 s1 w2 l2 where c: "startup_cycle A (log_task I) fuel t s (w1, l @ [TeStop False]) = (r1, t1, s1, (w2, l2))"
      by (metis prod.exhaust)
    have lq: "verify_inv (verification em) (verification (ct_master t)) (rq_events (l @ [TeStop False]))"
      using Suc.prems(2) by (simp add: startup_inv_def)
    from startup_cycle_log [OF c lq] obtain ev where ev: "l2 = (l @ [TeStop False]) @ ev" "quiet ev"
      "same_master (ct_master t) (ct_master t1)" by blast
    have same: "same_master em (ct_master t1)"
      using Suc.prems(2) ev(3) by (auto simp: startup_inv_def intro: same_master_trans)
    show ?thesis
    proof (cases r1)
      case (Some e)
      with Suc.prems b 3 c ev same show ?thesis by (auto simp: startup_inv_def)
    next
      case None
      from startup_inv_step [OF Suc.prems(2) refl 3(1) c [unfolded None]]
      have "startup_inv (ta_rt I) em D t1 s1 l2" .
      moreover have "startup_loop A (log_task I) fuel n t1 s1 (w2, l2) = (r, t', s', (w', l'))"
        using Suc.prems(1) b 3 c None by simp
      ultimately have "quiet l' \<and> (\<exists>ev. l' = l2 @ ev) \<and> same_master em (ct_master t') \<and>
          (r = None \<and> loop_ready s' \<longrightarrow> startup_inv (ta_rt I) em D t' s' l')"
        using Suc.IH by blast
      then show ?thesis using ev(1) by auto
    qed
  qed
qed

end
