(* ===== verification/Cyclic_Run.thy ===== *)
theory Cyclic_Run
  imports Cyclic_Startup "HOL-Library.Sublist"
begin

text \<open>
  The running loop of \<open>CyclicTask::run\<close> over the log of its calls: the order of one cycle, and the
  release of the process data only after the startup.
\<close>

section \<open>The parts of a running cycle\<close>

text \<open>The copies of the exchange.\<close>

definition exchange_copies :: "('m, 'd, 'c, 'q, 'p, 'r) cyclic_task \<Rightarrow> ('m, 'd, 'c, 'p) rt_event list" where
  "exchange_copies t =
     (case (input_data (ct_master t), pd_input_ptr t) of
        (Some src, Some dst) \<Rightarrow> if em_input_size (ct_master t) \<noteq> 0 then [RtCopy dst src (em_input_size (ct_master t))] else []
      | _ \<Rightarrow> [])
     @ (case (output_data (ct_master t), pd_output_ptr t) of
        (Some dst, Some src) \<Rightarrow> if em_output_size (ct_master t) \<noteq> 0 then [RtCopy dst src (em_output_size (ct_master t))] else []
      | _ \<Rightarrow> [])"

definition receive_events :: "('m, 'd, 'c, 'q, 'p) ethercat_master \<Rightarrow> ('m, 'd, 'c, 'p) rt_event list" where
  "receive_events em = [RtReceive (master em), RtProcess (input_domain em), RtProcess (output_domain em)]"

definition queue_events :: "('m, 'd, 'c, 'q, 'p) ethercat_master \<Rightarrow> ('m, 'd, 'c, 'p) rt_event list" where
  "queue_events em = [RtQueue (input_domain em), RtQueue (output_domain em)]"

text \<open>The wire events of a cycle that completes.\<close>

definition cycle_events :: "('m, 'd, 'c, 'q, 'p, 'r) cyclic_task \<Rightarrow> ('m, 'd, 'c, 'q, 'p) task_event list" where
  "cycle_events t = map TeRt (receive_events (ct_master t) @ exchange_copies t @ queue_events (ct_master t)
     @ [RtSend (master (ct_master t))]) @ [TeNotify]"

lemma exchange_log:
  "exchange_process_data (log_rt f R) (ct_master t) (pd_input_ptr t) (pd_output_ptr t) (w, l)
     = (exchange_process_data R (ct_master t) (pd_input_ptr t) (pd_output_ptr t) w, l @ map f (exchange_copies t))"
  by (simp add: exchange_process_data_def exchange_copies_def split: option.splits)

lemma wire_copies [simp]: "filter wire_event (exchange_copies t) = exchange_copies t"
  by (simp add: exchange_copies_def split: option.splits)

lemma running_exchange_log:
  assumes "running_exchange (log_task I) t (w, l) = (r, (w', l'))" "bus_ready (ct_master t)"
  shows "\<exists>ev. l' = l @ ev \<and> prefix (task_wire ev) (map TeRt (receive_events (ct_master t) @ exchange_copies t))
    \<and> (\<forall>times. r = Inr times \<longrightarrow> task_wire ev = map TeRt (receive_events (ct_master t) @ exchange_copies t))"
proof -
  let ?R = "ta_rt I" and ?em = "ct_master t"
  obtain c0 w1 where c0: "rt_monotonic ?R w = (c0, w1)" by fastforce
  from receive_and_process_log [of TeRt ?R ?em w1 "l @ [TeRt (RtClock c0)]"] assms(2) obtain e1 where e1:
    "receive_and_process (log_rt TeRt ?R) ?em (w1, l @ [TeRt (RtClock c0)])
       = (receive_and_process ?R ?em w1, (l @ [TeRt (RtClock c0)]) @ map TeRt e1)"
    "filter wire_event e1 = receive_events ?em" by (auto simp: receive_events_def)
  obtain c1 w2 where c1: "rt_monotonic ?R (receive_and_process ?R ?em w1) = (c1, w2)" by fastforce
  obtain c2 w3 where c2: "rt_monotonic ?R (exchange_process_data ?R ?em (pd_input_ptr t) (pd_output_ptr t) w2) = (c2, w3)"
    by fastforce
  note run = running_exchange_def exchange_log c0 c1 c2 e1
  consider e where "c0 = Inl e" | t0 e where "c0 = Inr t0" "c1 = Inl e" | t0 t1 where "c0 = Inr t0" "c1 = Inr t1"
    by (cases c0; cases c1) auto
  then show ?thesis
  proof cases
    case 1
    with assms(1) show ?thesis by (intro exI [of _ "[TeRt (RtClock c0)]"]) (auto simp: run [unfolded 1])
  next
    case 2
    with assms(1) show ?thesis
      by (intro exI [of _ "[TeRt (RtClock c0)] @ map TeRt e1 @ [TeRt (RtClock c1)]"]) (auto simp: run [unfolded 2])
  next
    case 3
    with assms(1) show ?thesis
      by (intro exI [of _ "[TeRt (RtClock c0)] @ map TeRt e1 @ [TeRt (RtClock c1)] @ map TeRt (exchange_copies t) @ [TeRt (RtClock c2)]"])
         (cases c2, auto simp: run [unfolded 3])
  qed
qed

lemma running_publish_log:
  assumes "running_publish A (log_task I) state wake t (w, l) = (r, t', (w', l'))"
  shows "\<exists>ev. l' = l @ ev \<and> task_wire ev = [] \<and> ct_master t' = ct_master t"
proof (cases "ecat_bus t")
  case None
  with assms show ?thesis by (simp add: running_publish_def)
next
  case (Some bus)
  obtain c w1 where c: "ta_realtime I w = (c, w1)" by fastforce
  show ?thesis
  proof (cases c)
    case (Inl e)
    with assms Some c show ?thesis by (intro exI [of _ "[TeRealtime c]"]) (auto simp: running_publish_def)
  next
    case (Inr wall)
    obtain bus' w2 l2 where p: "publish_slave_runtime A (log_rt TeRt (ta_rt I)) (ct_master t) bus (w1, l @ [TeRealtime c])
        = (bus', (w2, l2))" by (metis prod.exhaust)
    from publish_slave_runtime_log [OF p] obtain ev where ev: "l2 = (l @ [TeRealtime c]) @ map TeRt ev"
      "filter wire_event ev = []" by blast
    have "l' = l2" "ct_master t' = ct_master t"
      using assms Some c Inr p by (auto simp: running_publish_def Let_def split: prod.splits)
    with ev show ?thesis by (intro exI [of _ "[TeRealtime c] @ map TeRt ev"]) auto
  qed
qed

lemma running_send_log:
  assumes "running_send (log_task I) t (w, l) = (r, t', (w', l'))" "bus_ready (ct_master t)"
  shows "\<exists>ev. l' = l @ ev
    \<and> prefix (task_wire ev) (map TeRt (queue_events (ct_master t) @ [RtSend (master (ct_master t))]) @ [TeNotify])
    \<and> (\<forall>times. r = Inr times \<longrightarrow> task_wire ev = map TeRt (queue_events (ct_master t) @ [RtSend (master (ct_master t))]) @ [TeNotify])"
proof -
  let ?R = "ta_rt I" and ?em = "ct_master t"
  obtain c0 w1 where c0: "rt_monotonic ?R w = (c0, w1)" by fastforce
  obtain ok em w2 l2 where q: "queue_and_send (log_rt TeRt ?R) ?em (w1, l @ [TeRt (RtClock c0)]) = (ok, em, (w2, l2))"
    by (metis prod.exhaust)
  from queue_and_send_log [OF q] assms(2) obtain e1 where e1: "l2 = (l @ [TeRt (RtClock c0)]) @ map TeRt e1"
    "filter wire_event e1 = queue_events ?em @ (if ok then [RtSend (master ?em)] else [])" by (auto simp: queue_events_def)
  obtain c1 w3 where c1: "rt_monotonic ?R w2 = (c1, w3)" by fastforce
  let ?ev = "[TeRt (RtClock c0)] @ map TeRt e1"
  note run = running_send_def c0 q c1 e1(1) Let_def
  consider e where "c0 = Inl e" | t0 where "c0 = Inr t0" "\<not> ok" | t0 e where "c0 = Inr t0" "ok" "c1 = Inl e"
    | t0 t1 where "c0 = Inr t0" "ok" "c1 = Inr t1" by (cases c0; cases c1) auto
  then show ?thesis
  proof cases
    case 1
    with assms(1) show ?thesis by (intro exI [of _ "[TeRt (RtClock c0)]"]) (auto simp: run [unfolded 1])
  next
    case 2
    with assms(1) e1(2) show ?thesis by (intro exI [of _ ?ev]) (auto simp: run [unfolded 2])
  next
    case 3
    with assms(1) e1(2) show ?thesis by (intro exI [of _ "?ev @ [TeRt (RtClock c1)]"]) (auto simp: run [unfolded 3])
  next
    case 4
    with assms(1) e1(2) show ?thesis
      by (intro exI [of _ "?ev @ [TeRt (RtClock c1), TeNotify]"]) (auto simp: run [unfolded 4])
  qed
qed

lemma running_finish_log:
  assumes "running_finish (log_task I) state us wake rx tx t r (w, l) = (res, t', r', (w', l'))"
  shows "\<exists>c. l' = l @ [TeRt (RtClock c)]"
  using assms by (auto simp: running_finish_def Let_def split: prod.splits sum.splits)


section \<open>A running cycle\<close>

lemma same_master_bus_ready: "same_master em em' \<Longrightarrow> bus_ready em' = bus_ready em"
  using same_masterD [of em em'] by (simp add: bus_ready_def)

lemma same_master_cycle_events:
  "same_master (ct_master t) (ct_master t') \<Longrightarrow> pd_input_ptr t' = pd_input_ptr t \<Longrightarrow> pd_output_ptr t' = pd_output_ptr t
     \<Longrightarrow> cycle_events t' = cycle_events t"
  using same_masterD [of "ct_master t" "ct_master t'"]
  by (auto simp: cycle_events_def receive_events_def queue_events_def exchange_copies_def split: option.split)

text \<open>The fields the wire order depends on.\<close>

definition same_task :: "('m, 'd, 'c, 'q, 'p, 'r) cyclic_task \<Rightarrow> ('m, 'd, 'c, 'q, 'p, 'r) cyclic_task \<Rightarrow> bool" where
  "same_task t t' \<longleftrightarrow> same_master (ct_master t) (ct_master t') \<and> pd_input_ptr t' = pd_input_ptr t
     \<and> pd_output_ptr t' = pd_output_ptr t"

lemma same_task_refl [simp]: "same_task t t"
  by (simp add: same_task_def)

lemma same_task_trans: "same_task a b \<Longrightarrow> same_task b c \<Longrightarrow> same_task a c"
  by (auto simp: same_task_def intro: same_master_trans)

lemma same_taskD: "same_task t t' \<Longrightarrow> bus_ready (ct_master t') = bus_ready (ct_master t) \<and> cycle_events t' = cycle_events t"
  by (auto simp: same_task_def same_master_bus_ready same_master_cycle_events)

lemma running_publish_same:
  "running_publish A I state wake t w = (r, t', w') \<Longrightarrow> same_task t t'"
  by (auto simp: running_publish_def same_task_def Let_def split: option.splits sum.splits prod.splits)

lemma running_send_same:
  assumes "running_send (log_task I) t (w, l) = (r, t', W')" shows "same_task t t'"
proof -
  obtain c0 w1 where c0: "rt_monotonic (ta_rt I) w = (c0, w1)" by fastforce
  obtain ok em w2 l2 where q: "queue_and_send (log_rt TeRt (ta_rt I)) (ct_master t) (w1, l @ [TeRt (RtClock c0)]) = (ok, em, (w2, l2))"
    by (metis prod.exhaust)
  from queue_and_send_log [OF q] have "same_master (ct_master t) em" by blast
  with assms c0 q show ?thesis
    by (cases c0) (auto simp: running_send_def same_task_def Let_def split: sum.splits prod.splits if_splits)
qed

lemma running_finish_same:
  "running_finish I state us wake rx tx t r w = (res, t', r', w') \<Longrightarrow> same_task t t'"
  by (auto simp: running_finish_def report_window_def same_task_def Let_def split: sum.splits prod.splits if_splits)

text \<open>A cycle after its exchange: it sends and notifies, unless a step before fails.\<close>

definition send_events :: "('m, 'd, 'c, 'q, 'p, 'r) cyclic_task \<Rightarrow> ('m, 'd, 'c, 'q, 'p) task_event list" where
  "send_events t = map TeRt (queue_events (ct_master t) @ [RtSend (master (ct_master t))]) @ [TeNotify]"

lemma running_rest_log:
  fixes I :: "('m, 'd, 'c, 'q, 'p, 'r::linordered_field, 'w) task_api"
  assumes rest: "(case read_state (ta_rt (log_task I)) (ct_master t) (w, l) of
      (state, w) \<Rightarrow> (case running_publish A (log_task I) state wake t w of
        (Some e, t, w) \<Rightarrow> (Some e, t, r, w)
      | (None, t, w) \<Rightarrow> (case running_send (log_task I) t w of
          (Inl e, t, w) \<Rightarrow> (Some e, t, r, w)
        | (Inr tx, t, w) \<Rightarrow> running_finish (log_task I) state us wake rx tx t r w))) = (x, t', r', (w', l'))"
    and ready: "bus_ready (ct_master t)"
  shows "\<exists>ev. l' = l @ ev \<and> same_task t t' \<and> prefix (task_wire ev) (send_events t) \<and> (x = None \<longrightarrow> task_wire ev = send_events t)"
proof -
  obtain state w3 l3 where st: "read_state (log_rt TeRt (ta_rt I)) (ct_master t) (w, l) = (state, (w3, l3))"
    by (metis prod.exhaust)
  from read_state_log [OF st] obtain e3 where e3: "l3 = l @ map TeRt e3" "filter wire_event e3 = []" by blast
  obtain p t3 w4 l4 where p: "running_publish A (log_task I) state wake t (w3, l3) = (p, t3, (w4, l4))" by (metis prod.exhaust)
  from running_publish_log [OF p] obtain e4 where e4: "l4 = l3 @ e4" "task_wire e4 = []" "ct_master t3 = ct_master t" by blast
  note s3 = running_publish_same [OF p]
  let ?e = "map TeRt e3 @ e4"
  have wire: "task_wire ?e = []" "l4 = l @ ?e" using e3 e4 by auto
  obtain d t4 w5 l5 where d: "running_send (log_task I) t3 (w4, l4) = (d, t4, (w5, l5))" by (metis prod.exhaust)
  from running_send_log [OF d] e4(3) ready obtain e5 where e5: "l5 = l4 @ e5" "prefix (task_wire e5) (send_events t)"
    "\<And>times. d = Inr times \<Longrightarrow> task_wire e5 = send_events t" by (auto simp: send_events_def)
  have s4: "same_task t t4" by (rule same_task_trans [OF s3 running_send_same [OF d]])
  consider e where "p = Some e" | e where "p = None" "d = Inl e" | tx where "p = None" "d = Inr tx" by (cases p; cases d) auto
  then show ?thesis
  proof cases
    case 1
    with rest st p have "x = Some e" "t' = t3" "l' = l4" by auto
    then show ?thesis using wire s3 by (intro exI [of _ ?e]) auto
  next
    case 2
    with rest st p d have "x = Some e" "t' = t4" "l' = l5" by auto
    then show ?thesis using wire e5(1,2) s4 by (intro exI [of _ "?e @ e5"]) auto
  next
    case 3
    with rest st p d have fin: "running_finish (log_task I) state us wake rx tx t4 r (w5, l5) = (x, t', r', (w', l'))" by simp
    from running_finish_log [OF fin] obtain c where "l' = l5 @ [TeRt (RtClock c)]" ..
    moreover have "same_task t t'" by (rule same_task_trans [OF s4 running_finish_same [OF fin]])
    ultimately show ?thesis
      using wire e5(1) e5(3) [OF 3(2)] by (intro exI [of _ "?e @ e5 @ [TeRt (RtClock c)]"]) auto
  qed
qed

lemma running_cycle_log:
  fixes I :: "('m, 'd, 'c, 'q, 'p, 'r::linordered_field, 'w) task_api"
  assumes "running_cycle A (log_task I) fuel t r (w, l) = (x, t', r', (w', l'))" "bus_ready (ct_master t)"
  shows "\<exists>ev. l' = l @ ev \<and> same_task t t' \<and> prefix (task_wire ev) (cycle_events t)
    \<and> (x = None \<longrightarrow> task_wire ev = cycle_events t)"
proof -
  obtain b t1 w1 l1 where b: "begin_cycle (log_task I) fuel (run_deadline r) t (w, l) = (b, t1, (w1, l1))" by (metis prod.exhaust)
  from begin_cycle_log [OF b] obtain e1 where e1: "l1 = l @ e1" "task_wire e1 = []"
    "same_master (ct_master t) (ct_master t1)" "t1 = t\<lparr>ct_master := ct_master t1\<rparr>" by blast
  from e1(4) have "pd_input_ptr t1 = pd_input_ptr t" "pd_output_ptr t1 = pd_output_ptr t"
    by (metis cyclic_task.ext_inject cyclic_task.surjective cyclic_task.update_convs(1))+
  with e1(3) have s1: "same_task t t1" by (simp add: same_task_def)
  show ?thesis
  proof (cases b)
    case (Inl e)
    with assms b e1 s1 show ?thesis by (intro exI [of _ e1]) (auto simp: running_cycle_def)
  next
    case (Inr wake)
    define us where "us = (elapsed_microseconds (run_last_wake r) wake :: 'r)"
    define t2 where "t2 = t1\<lparr>ct_statistics := (ct_statistics t1)\<lparr>current_us := us\<rparr>\<rparr>"
    have s2: "same_task t t2" using s1 by (simp add: t2_def same_task_def)
    have ready2: "bus_ready (ct_master t2)" using same_taskD [OF s2] assms(2) by simp
    let ?rx = "map TeRt (receive_events (ct_master t2) @ exchange_copies t2)"
    have full: "cycle_events t = ?rx @ send_events t2" using same_taskD [OF s2] by (simp add: cycle_events_def send_events_def)
    obtain q w2 l2 where q: "running_exchange (log_task I) t2 (w1, l1) = (q, (w2, l2))" by (metis prod.exhaust)
    from running_exchange_log [OF q ready2] obtain e2 where e2: "l2 = l1 @ e2" "prefix (task_wire e2) ?rx"
      "\<And>times. q = Inr times \<Longrightarrow> task_wire e2 = ?rx" by blast
    show ?thesis
    proof (cases q)
      case (Inl e)
      with assms(1) b Inr q have "x = Some e" "t' = t2" "l' = l2"
        by (auto simp: running_cycle_def Let_def us_def t2_def)
      moreover have "prefix (task_wire (e1 @ e2)) (?rx @ send_events t2)" using prefix_prefix [OF e2(2)] e1(2) by simp
      ultimately show ?thesis using e1(1) e2(1) s2 by (intro exI [of _ "e1 @ e2"]) (simp only: full, simp)
    next
      case rx: (Inr rx)
      note rest = assms(1) [unfolded running_cycle_def b Inr Let_def sum.case prod.case, folded us_def, folded t2_def,
        unfolded q rx sum.case prod.case]
      from running_rest_log [OF rest ready2] obtain ev where
        ev: "l' = l2 @ ev" "same_task t2 t'" "prefix (task_wire ev) (send_events t2)" "x = None \<longrightarrow> task_wire ev = send_events t2"
        by blast
      have "task_wire (e1 @ e2 @ ev) = ?rx @ task_wire ev" "l' = l @ e1 @ e2 @ ev" using e1(1,2) e2(1) e2(3) [OF rx] ev(1) by auto
      then show ?thesis
        using ev(3,4) same_task_trans [OF s2 ev(2)] by (intro exI [of _ "e1 @ e2 @ ev"]) (simp only: full same_prefix_prefix, simp)
    qed
  qed
qed

text \<open>Complete cycles, then the beginning of one.\<close>

lemma running_loop_log:
  "running_loop A (log_task I) fuel n t r (w, l) = (x, t', (w', l')) \<Longrightarrow> bus_ready (ct_master t) \<Longrightarrow>
     \<exists>ev k p. l' = l @ ev \<and> same_task t t' \<and> task_wire ev = concat (replicate k (cycle_events t)) @ p
       \<and> prefix p (cycle_events t)"
proof (induction n arbitrary: t r w l)
  case 0
  then show ?case by (auto intro: exI [of _ 0])
next
  case (Suc n)
  obtain b w1 where b: "ta_stop I w = (b, w1)" by fastforce
  show ?case
  proof (cases b)
    case True
    with Suc.prems b show ?thesis
      by (intro exI [of _ "[TeStop b]"] exI [of _ 0] exI [of _ "[]"]) auto
  next
    case False
    obtain cs mb w2 where c: "ta_console I (statistics_reset t, reports t) w1 = ((cs, mb), w2)" by (metis prod.exhaust)
    let ?t = "t\<lparr>statistics_reset := cs, reports := mb\<rparr>"
    have st: "same_task t ?t" by (simp add: same_task_def)
    obtain y t1 r1 w3 l3 where y: "running_cycle A (log_task I) fuel ?t r (w2, l @ [TeStop b]) = (y, t1, r1, (w3, l3))"
      by (metis prod.exhaust)
    have "bus_ready (ct_master ?t)" using Suc.prems(2) by simp
    from running_cycle_log [OF y this] same_taskD [OF st] obtain ev where ev: "l3 = (l @ [TeStop b]) @ ev" "same_task ?t t1"
      "prefix (task_wire ev) (cycle_events t)" "y = None \<Longrightarrow> task_wire ev = cycle_events t" by auto
    have s1: "same_task t t1" by (rule same_task_trans [OF st ev(2)])
    show ?thesis
    proof (cases y)
      case (Some e)
      with Suc.prems b False c y have "x = e" "t' = t1" "l' = l3" by auto
      then show ?thesis using ev s1
        by (intro exI [of _ "[TeStop b] @ ev"] exI [of _ 0] exI [of _ "task_wire ev"]) auto
    next
      case None
      have "running_loop A (log_task I) fuel n t1 r1 (w3, l3) = (x, t', (w', l'))"
        using Suc.prems(1) b False c y None by simp
      from Suc.IH [OF this] same_taskD [OF s1] Suc.prems(2) obtain ev' k p where ev': "l' = l3 @ ev'" "same_task t1 t'"
        "task_wire ev' = concat (replicate k (cycle_events t)) @ p" "prefix p (cycle_events t)" by auto
      show ?thesis
        using ev ev' None same_task_trans [OF s1 ev'(2)]
        by (intro exI [of _ "[TeStop b] @ ev @ ev'"] exI [of _ "Suc k"] exI [of _ p]) auto
    qed
  qed
qed


section \<open>The run\<close>

text \<open>The stop flag stays set once it is set: the signal handler only sets it.\<close>

definition stop_stays :: "('m, 'd, 'c, 'q, 'p, 'r, 'w) task_api \<Rightarrow> bool" where
  "stop_stays I \<longleftrightarrow> (\<forall>w w'. ta_stop I w = (True, w') \<longrightarrow> fst (ta_stop I w'))"

lemma startup_loop_stopped:
  "startup_loop A (log_task I) fuel n t s W = (None, t', s', (w', l')) \<Longrightarrow> stop_stays I
     \<Longrightarrow> loop_ready s' \<or> fst (ta_stop I w')"
proof (induction n arbitrary: t s W)
  case 0
  then show ?case by simp
next
  case (Suc n)
  obtain w l where W: "W = (w, l)" by fastforce
  obtain b w1 where b: "ta_stop I w = (b, w1)" by fastforce
  obtain r t1 s1 W1 where c: "startup_cycle A (log_task I) fuel t s (w1, l @ [TeStop b]) = (r, t1, s1, W1)"
    by (metis prod.exhaust)
  show ?case
  proof (cases "loop_ready s")
    case True
    with Suc.prems(1) show ?thesis by simp
  next
    case False
    show ?thesis
    proof (cases b)
      case True
      with Suc.prems(1) False W b have "w' = w1" by simp
      with Suc.prems(2) b True show ?thesis by (simp add: stop_stays_def)
    next
      case nb: False
      with Suc.prems(1) False W b c have "r = None"
        "startup_loop A (log_task I) fuel n t1 s1 W1 = (None, t', s', (w', l'))" by (auto split: option.splits)
      with Suc.IH Suc.prems(2) show ?thesis by blast
    qed
  qed
qed

text \<open>The startup has released the process data: every check was read back, then five healthy cycles.\<close>

definition released :: "('m, 'd, 'c, 'p, 'w) rt_api \<Rightarrow> ('m, 'd, 'c, 'q, 'p) ethercat_master \<Rightarrow> int
    \<Rightarrow> ('m, 'd, 'c, 'q, 'p) task_event list \<Rightarrow> bool" where
  "released R em end_ns l \<longleftrightarrow> (\<exists>before segs exchanges. l = before @ concat segs \<and> length segs = 5
     \<and> (\<forall>seg \<in> set segs. healthy_cycle R em end_ns seg \<and> rq_events seg = [])
     \<and> rq_events before = concat exchanges \<and> length exchanges = length (checks (verification em))
     \<and> (\<forall>i < length exchanges. exchange_done (requests (verification em) ! ck_slave_index (checks (verification em) ! i))
          (checks (verification em) ! i) (exchanges ! i)))"

lemma startup_inv_released:
  assumes "startup_inv R em D t s l" "loop_ready s"
  shows "released R em D l"
proof -
  have five: "unat (stable_count (startup_gate s)) = 5"
    using assms by (auto simp: startup_inv_def word_le_nat_alt)
  from assms(1) obtain before segs where segs: "l = before @ concat segs" "length segs = unat (stable_count (startup_gate s))"
    "\<forall>seg \<in> set segs. healthy_cycle R em D seg \<and> rq_events seg = []" by (auto simp: startup_inv_def)
  have "rq_events (concat segs) = []" using segs(3) by (induction segs) auto
  with segs(1) have before: "rq_events before = rq_events l" by simp
  have "stable_count (startup_gate s) \<noteq> 0" using five by auto
  with assms(1) have "vresult (verification (ct_master t)) = Complete" by (simp add: startup_inv_def)
  moreover have "verify_inv (verification em) (verification (ct_master t)) (rq_events l)"
    using assms(1) by (simp add: startup_inv_def)
  ultimately obtain exchanges where "rq_events l = concat exchanges" "length exchanges = length (checks (verification em))"
    "\<forall>i < length (checks (verification em)). exchange_done (requests (verification em) ! ck_slave_index (checks (verification em) ! i))
       (checks (verification em) ! i) (exchanges ! i)"
    by (auto simp: verify_inv_def)
  note ex = this
  have "rq_events before = concat exchanges" "length segs = 5" using ex(1) before segs(2) five by simp_all
  moreover have "\<forall>i < length exchanges. exchange_done (requests (verification em) ! ck_slave_index (checks (verification em) ! i))
       (checks (verification em) ! i) (exchanges ! i)" using ex(2,3) by simp
  ultimately show ?thesis
    unfolding released_def using segs(1,3) ex(2)
    by blast
qed

lemma startup_inv_init:
  assumes "verification_ready ss (verification (ct_master t))" "quiet l" "rq_events l = []"
  shows "startup_inv R (ct_master t) (start + uint ms * 1000000) t
    \<lparr>deadline = d, last_wake = now, startup_gate = startup_wait_init start ms, initial_healthy_cycles = 0, loop_ready = False\<rparr> l"
  using assms verify_inv_ready [OF assms(1) ready_checks_nonempty [OF assms(1)]]
  by (auto simp: startup_inv_def startup_wait_init_def intro: exI [of _ l] exI [of _ "[]"])

definition same_ptrs :: "('m, 'd, 'c, 'q, 'p, 'r) cyclic_task \<Rightarrow> ('m, 'd, 'c, 'q, 'p, 'r) cyclic_task \<Rightarrow> bool" where
  "same_ptrs t t' \<longleftrightarrow> pd_input_ptr t' = pd_input_ptr t \<and> pd_output_ptr t' = pd_output_ptr t
     \<and> ct_op_timeout_ms t' = ct_op_timeout_ms t"

lemma begin_cycle_ptrs: "begin_cycle I fuel d t w = (r, t', w') \<Longrightarrow> same_ptrs t t'"
  by (auto simp: begin_cycle_def same_ptrs_def Let_def split: prod.splits sum.splits if_splits option.splits)

lemma startup_publish_ptrs: "startup_publish A I state wake t w = (r, t', w') \<Longrightarrow> same_ptrs t t'"
  by (auto simp: startup_publish_def same_ptrs_def Let_def split: prod.splits sum.splits if_splits option.splits)

lemma startup_poll_ptrs: "startup_poll A I state t w = (r, t', w') \<Longrightarrow> same_ptrs t t'"
  by (auto simp: startup_poll_def same_ptrs_def abort_task_def Let_def split: prod.splits if_splits)

lemma startup_verify_ptrs: "startup_verify I h t s w = (r, t', s', w') \<Longrightarrow> same_ptrs t t'"
  by (auto simp: startup_verify_def same_ptrs_def abort_task_def Let_def split: prod.splits sum.splits if_splits)

lemma startup_finish_ptrs: "startup_finish I wake t s w = (r, t', s', w') \<Longrightarrow> same_ptrs t t'"
  by (auto simp: startup_finish_def same_ptrs_def Let_def split: prod.splits sum.splits if_splits)

lemmas startup_ptrs = begin_cycle_ptrs startup_publish_ptrs startup_poll_ptrs startup_verify_ptrs startup_finish_ptrs

lemma same_ptrs_refl [simp]: "same_ptrs t t"
  by (simp add: same_ptrs_def)

lemma same_ptrs_trans: "same_ptrs a b \<Longrightarrow> same_ptrs b c \<Longrightarrow> same_ptrs a c"
  by (auto simp: same_ptrs_def)

lemma startup_cycle_ptrs: "startup_cycle A I fuel t s w = (r, t', s', w') \<Longrightarrow> same_ptrs t t'"
  unfolding startup_cycle_def
  by (auto simp: same_ptrs_def split: prod.splits sum.splits option.splits dest!: startup_ptrs)

lemma startup_loop_ptrs: "startup_loop A I fuel n t s w = (r, t', s', w') \<Longrightarrow> same_ptrs t t'"
proof (induction n arbitrary: t s w)
  case 0
  then show ?case by simp
next
  case (Suc n)
  then show ?case
    by (auto split: prod.splits if_splits option.splits dest!: startup_cycle_ptrs intro: same_ptrs_trans)
qed

text \<open>
  After the startup: either nothing more reaches the wire or the clients, or the data was released and
  complete cycles follow.
\<close>

lemma run_after_startup_log:
  assumes "run_after_startup A (log_task I) fuel n t1 s1 (w2, l1) = (x, t', (w', l))"
    and "quiet l1" "same_task t t1" "bus_ready (ct_master t)" "\<not> fst (ta_stop I w2) \<Longrightarrow> rel"
  shows "quiet l \<or> (\<exists>running. l = l1 @ running \<and> rel
    \<and> (\<exists>k p. task_wire running = concat (replicate k (cycle_events t)) @ p \<and> prefix p (cycle_events t)))"
proof -
  obtain b w3 where b: "ta_stop I w2 = (b, w3)" by fastforce
  obtain c1 w4 where c1: "rt_monotonic (ta_rt I) w3 = (c1, w4)" by fastforce
  let ?l2 = "l1 @ [TeStop b]"
  let ?l3 = "?l2 @ [TeRt (RtClock c1)]"
  consider "b" | e where "\<not> b" "c1 = Inl e" | st where "\<not> b" "c1 = Inr st" by (cases c1) auto
  then show ?thesis
  proof cases
    case 1
    with assms(1) b have "l = ?l2" by (simp add: run_after_startup_def)
    then show ?thesis using assms(2) by simp
  next
    case 2
    with assms(1) b c1 have "l = ?l3" by (simp add: run_after_startup_def)
    then show ?thesis using assms(2) by simp
  next
    case 3
    let ?t = "t1\<lparr>startup_ready := True\<rparr>"
    from 3 assms(1) b c1 obtain r0 where loop: "running_loop A (log_task I) fuel n ?t r0 (w4, ?l3) = (x, t', (w', l))"
      by (auto simp: run_after_startup_def Let_def)
    have same: "same_task t ?t" using assms(3) by (simp add: same_task_def same_ptrs_def)
    from running_loop_log [OF loop] same_taskD [OF same] assms(4) obtain ev k p where ev: "l = ?l3 @ ev"
      "task_wire ev = concat (replicate k (cycle_events t)) @ p" "prefix p (cycle_events t)" by auto
    have "task_wire ([TeStop b, TeRt (RtClock c1)] @ ev) = concat (replicate k (cycle_events t)) @ p" using ev(2) by simp
    then show ?thesis
      using ev(1,3) assms(5) b 3(1) by (intro disjI2 exI [of _ "[TeStop b, TeRt (RtClock c1)] @ ev"]) auto
  qed
qed

text \<open>A run that enters the startup loop at \<open>now\<close>, by the log of that loop and of what follows it.\<close>

lemma run_started_log:
  assumes "startup_loop A (log_task I) fuel n t (run_start t now) (w1, [TeRt (RtClock (Inr now))]) = (r, t1, s1, (w2, l1))"
    and "(case r of Some e \<Rightarrow> (e, t1, (w2, l1)) | None \<Rightarrow> run_after_startup A (log_task I) fuel n t1 s1 (w2, l1)) = (x, t', (w', l))"
    and "verification_ready ss (verification (ct_master t))" "bus_ready (ct_master t)" "stop_stays I"
  shows "quiet l \<or> (\<exists>running. l = l1 @ running \<and> quiet l1 \<and> hd l = TeRt (RtClock (Inr now))
    \<and> released (ta_rt I) (ct_master t) (to_nanoseconds now + uint (ct_op_timeout_ms t) * 1000000) l1
    \<and> (\<exists>k p. task_wire running = concat (replicate k (cycle_events t)) @ p \<and> prefix p (cycle_events t)))"
proof -
  let ?D = "to_nanoseconds now + uint (ct_op_timeout_ms t) * 1000000"
  have "startup_inv (ta_rt I) (ct_master t) ?D t (run_start t now) [TeRt (RtClock (Inr now))]"
    unfolding run_start_def by (rule startup_inv_init [OF assms(3)]) auto
  from startup_loop_log [OF assms(1) this] obtain ev where start: "quiet l1" "l1 = [TeRt (RtClock (Inr now))] @ ev"
    "same_master (ct_master t) (ct_master t1)" "r = None \<Longrightarrow> loop_ready s1 \<Longrightarrow> startup_inv (ta_rt I) (ct_master t) ?D t1 s1 l1" by blast
  show ?thesis
  proof (cases r)
    case (Some e)
    with assms(2) start(1) show ?thesis by simp
  next
    case None
    have after: "run_after_startup A (log_task I) fuel n t1 s1 (w2, l1) = (x, t', (w', l))" using assms(2) None by simp
    have same: "same_task t t1" using startup_loop_ptrs [OF assms(1)] start(3) by (simp add: same_task_def same_ptrs_def)
    have rel: "released (ta_rt I) (ct_master t) ?D l1" if "\<not> fst (ta_stop I w2)"
      using startup_loop_stopped [OF assms(1) [unfolded None] assms(5)] that start(4) [OF None] startup_inv_released by blast
    from run_after_startup_log [OF after start(1) same assms(4) rel] start(1,2) show ?thesis by auto
  qed
qed

text \<open>
  Claim C1. For every run of the cyclic task on an initialised master with a prepared verification,
  however it ends, the calls it makes are a startup part without any exchange of process data or
  notification of clients, and then a part that is empty unless the startup released the data: every
  PDO check of every slave was read back with its exact size and value, and then five consecutive
  cycles each found the link up, all slaves responding, both working counters complete and every
  configured slave operational, in time. On the wire and towards the clients the second part is a
  number of complete cycles (receive, process both domains, copy inputs out and outputs in, queue both
  domains, send, notify) followed by the beginning of one.
\<close>
theorem data_only_after_readiness:
  assumes "run_task A (log_task I) fuel n t (w, []) = (x, t', (w', l))"
    and "verification_ready ss (verification (ct_master t))" "bus_ready (ct_master t)" "stop_stays I"
  shows "\<exists>startup running. l = startup @ running \<and> quiet startup
    \<and> (running \<noteq> [] \<longrightarrow> (\<exists>now. hd l = TeRt (RtClock (Inr now))
         \<and> released (ta_rt I) (ct_master t) (to_nanoseconds now + uint (ct_op_timeout_ms t) * 1000000) startup))
    \<and> (\<exists>k p. task_wire running = concat (replicate k (cycle_events t)) @ p \<and> prefix p (cycle_events t))"
proof -
  have none: ?thesis if "quiet l"
    using that by (intro exI [of _ l] exI [of _ "[]"]) (auto intro: exI [of _ 0])
  show ?thesis
  proof (cases rule: run_task_cases [of "log_task I" t "(w, [])"])
    case (refused e w1)
    with assms(1) have "l = [] \<or> (\<exists>c. l = [TeRt (RtClock c)])" by (auto split: prod.split_asm)
    then show ?thesis by (intro none) auto
  next
    case (started now v)
    then obtain w1 where v: "v = (w1, [TeRt (RtClock (Inr now))])" by (cases v) (auto split: prod.split_asm)
    obtain r t1 s1 w2 l1 where loop: "startup_loop A (log_task I) fuel n t (run_start t now) v = (r, t1, s1, (w2, l1))"
      by (metis prod.exhaust)
    note log = run_started_log [OF loop [unfolded v] _ assms(2-4), of x t' w' l]
    from log assms(1) run_task_start [OF started(2,1) loop] show ?thesis
      using none by fastforce
  qed
qed

section \<open>A concrete run\<close>

text \<open>
  One operational slave without process data objects, so that its two checks are the empty assignments;
  the world counts the readings of the stop flag, which is set at the thirty-second.
\<close>

definition example_task_requests :: "(nat, nat, nat) request_api" where
  "example_task_requests = \<lparr>
     create_sdo_request = (\<lambda>c i sub n w. (Some c, w)),
     sdo_request_timeout = (\<lambda>q ms w. (0, w)),
     sdo_request_index = (\<lambda>q i sub w. (0, w)),
     sdo_request_read = (\<lambda>q w. (0, w)),
     sdo_request_state = (\<lambda>q w. (EC_REQUEST_SUCCESS, w)),
     sdo_request_data_size = (\<lambda>q w. (1, w)),
     sdo_request_data = (\<lambda>q w. (Some [0], w))\<rparr>"

definition example_idle_spec :: slave_spec where
  "example_idle_spec = storage_spec (build_storage ((hd (bc_slaves example_bus_config))\<lparr>rx_pdos := [], tx_pdos := []\<rparr>))"

definition example_idle_static :: static_slave_config where
  "example_idle_static = \<lparr>ssc_slaves = Some [example_idle_spec], ssc_slave_count = 1\<rparr>"

definition example_idle_verification :: "nat pdo_verification" where
  "example_idle_verification = fst (prepare example_task_requests example_idle_static [Some 7] verification_init 0)"

lemma example_idle_prepare:
  "prepare example_task_requests example_idle_static [Some 7] verification_init 0
     = (example_idle_verification, 0, None)"
  by (simp add: example_idle_verification_def prepare_def prepare_slave_def Let_def example_idle_static_def example_idle_spec_def
      storage_spec_def build_storage_def example_bus_config_def store_pdos_def build_pdo_views_def append_entry_views_def
      data_def sync_end_def example_task_requests_def array_def)

lemma example_idle_ready: "verification_ready [example_idle_spec] example_idle_verification"
  using prepare_ready [OF example_idle_prepare] by (simp add: example_idle_static_def)

definition example_task_api :: "(unit, bool, nat, nat, nat, rat, nat) task_api" where
  "example_task_api = \<lparr>
     ta_rt = example_rt\<lparr>rt_master_state := (\<lambda>m w. ((0, \<lparr>ms_slaves_responding = 1, ms_al_states = 8, ms_link_up = 1\<rparr>), w))\<rparr>,
     ta_requests = example_task_requests, ta_realtime = (\<lambda>w. (Inr \<lparr>tv_sec = 1, tv_nsec = 0\<rparr>, w)),
     ta_sleep = (\<lambda>d w. (0, w)), ta_stop = (\<lambda>k. (31 \<le> k, Suc k)), ta_notify = (\<lambda>w. w),
     ta_wc_code = (\<lambda>s. 2), ta_console = (\<lambda>x w. (x, w))\<rparr>"

definition example_task :: "(unit, bool, nat, nat, nat, rat) cyclic_task" where
  "example_task = \<lparr>ct_master = example_master\<lparr>slave_configs := [7], verification := example_idle_verification,
       em_input_size := 4, em_output_size := 2\<rparr>,
     ecat_bus = None, pd_input_ptr = Some 2, pd_output_ptr = Some 3, ct_period_us = 1000, ct_op_timeout_ms = 60000,
     ct_statistics = cycle_statistics_init, statistics_reset = \<lparr>requested = 0, acknowledged = 0\<rparr>,
     reports = \<lparr>slot = runtime_report_init, ready = False\<rparr>, startup_op_mask = 0, startup_ready = False\<rparr>"

definition example_task_run :: "cycle_exit \<times> (unit, bool, nat, nat, nat, rat) cyclic_task \<times> nat
    \<times> (unit, bool, nat, nat, nat) task_event list" where
  "example_task_run = run_task abi_example (log_task example_task_api) 3 40 example_task (0, [])"

lemma example_task_stop: "stop_stays example_task_api"
  by (simp add: stop_stays_def example_task_api_def)

theorem data_only_after_readiness_witness:
  "\<exists>startup running. snd (snd (snd example_task_run)) = startup @ running \<and> quiet startup
     \<and> (running \<noteq> [] \<longrightarrow> (\<exists>now. released (ta_rt example_task_api) (ct_master example_task) now startup))"
proof -
  have run: "run_task abi_example (log_task example_task_api) 3 40 example_task (0, [])
      = (fst example_task_run, fst (snd example_task_run),
         (fst (snd (snd example_task_run)), snd (snd (snd example_task_run))))"
    by (simp add: example_task_run_def)
  have ready: "verification_ready [example_idle_spec] (verification (ct_master example_task))"
    using example_idle_ready by (simp add: example_task_def)
  have "bus_ready (ct_master example_task)"
    by (simp add: example_task_def example_master_def bus_ready_def)
  from data_only_after_readiness [OF run ready this example_task_stop] show ?thesis by blast
qed

end
