(* ===== verification/Checked_Results.thy ===== *)
theory Checked_Results
  imports Rocos_Prelude
begin

text \<open>
  Errors as values of a sum: sequencing, guards and index loops that stop at the first error, as the
  exceptions of the configuration loaders do, and the interface of a reader that accepts exactly the
  values it can also be given (\<open>codec\<close>).
\<close>

named_theorems result_simps \<open>when a computation with errors returns a value\<close>

fun and_then :: "'e + 'a \<Rightarrow> ('a \<Rightarrow> 'e + 'b) \<Rightarrow> 'e + 'b" where
  "and_then (Inl e) f = Inl e"
| "and_then (Inr a) f = f a"

definition ensure :: "bool \<Rightarrow> 'e \<Rightarrow> 'e + unit" where
  "ensure b e = (if b then Inr () else Inl e)"

fun traverse :: "(nat \<Rightarrow> 'a \<Rightarrow> 'e + 'b) \<Rightarrow> nat \<Rightarrow> 'a list \<Rightarrow> 'e + 'b list" where
  "traverse f i [] = Inr []"
| "traverse f i (x # xs) = and_then (f i x) (\<lambda>y. and_then (traverse f (Suc i) xs) (\<lambda>ys. Inr (y # ys)))"

lemma and_then_Inr [result_simps]: "and_then m f = Inr b \<longleftrightarrow> (\<exists>a. m = Inr a \<and> f a = Inr b)"
  by (cases m) auto

lemma and_then_cong [fundef_cong]:
  "m = m' \<Longrightarrow> (\<And>a. m' = Inr a \<Longrightarrow> f a = g a) \<Longrightarrow> and_then m f = and_then m' g"
  by (cases m') auto

lemma ensure_Inr [result_simps]: "ensure b e = Inr u \<longleftrightarrow> b"
  by (simp add: ensure_def)

lemma ensure_True [simp]: "ensure True e = Inr ()"
  by (simp add: ensure_def)

lemma ensure_False [simp]: "ensure False e = Inl e"
  by (simp add: ensure_def)

lemma traverse_Inr:
  "traverse f i xs = Inr ys \<longleftrightarrow> length ys = length xs \<and> (\<forall>k < length xs. f (i + k) (xs ! k) = Inr (ys ! k))"
proof (induction xs arbitrary: i ys)
  case Nil
  then show ?case by auto
next
  case (Cons x xs)
  show ?case
  proof (cases ys)
    case Nil
    then show ?thesis by (simp add: result_simps)
  next
    case (Cons y ys')
    have "traverse f i (x # xs) = Inr ys \<longleftrightarrow> f i x = Inr y \<and> traverse f (Suc i) xs = Inr ys'"
      by (simp add: result_simps Cons)
    also have "\<dots> \<longleftrightarrow> f i x = Inr y \<and> length ys' = length xs \<and> (\<forall>k < length xs. f (Suc i + k) (xs ! k) = Inr (ys' ! k))"
      by (simp only: Cons.IH)
    finally show ?thesis using Cons by (auto simp: all_less_Suc_conv)
  qed
qed

lemma traverse_Inr_length: "traverse f i xs = Inr ys \<Longrightarrow> length ys = length xs"
  by (simp add: traverse_Inr)

lemma traverse_map:
  assumes "\<And>k. k < length xs \<Longrightarrow> f (i + k) (g (xs ! k)) = Inr (xs ! k)"
  shows "traverse f i (map g xs) = Inr xs"
  using assms by (simp add: traverse_Inr)

lemma traverse_ok:
  assumes "traverse f i xs = Inr ys" "\<And>k x y. f k x = Inr y \<Longrightarrow> P y"
  shows "list_all P ys"
proof -
  have "length ys = length xs" "\<And>k. k < length xs \<Longrightarrow> f (i + k) (xs ! k) = Inr (ys ! k)"
    using assms(1) by (simp_all add: traverse_Inr)
  with assms(2) show ?thesis unfolding list_all_length by fastforce
qed

section \<open>Errors and effects\<close>

text \<open>
  The same over a state that every call changes, whether it fails or not. \<open>in_sequence R xs ys l\<close>: the
  log \<open>l\<close> is made of consecutive parts, one per element, each of them related by \<open>R\<close>.
\<close>

definition and_do :: "('e + 'a) \<times> 'w \<Rightarrow> ('a \<Rightarrow> 'w \<Rightarrow> ('e + 'b) \<times> 'w) \<Rightarrow> ('e + 'b) \<times> 'w" where
  "and_do m f = (case m of (Inl e, w) \<Rightarrow> (Inl e, w) | (Inr a, w) \<Rightarrow> f a w)"

lemma and_do_simps [simp]: "and_do (Inl e, w) f = (Inl e, w)" "and_do (Inr a, w) f = f a w"
  by (simp_all add: and_do_def)

lemma and_do_Inr [result_simps]: "and_do m f = (Inr b, w') \<longleftrightarrow> (\<exists>a w. m = (Inr a, w) \<and> f a w = (Inr b, w'))"
  by (auto simp: and_do_def split: prod.splits sum.splits)

lemma and_do_Inl: "and_do m f = (Inl e, w') \<longleftrightarrow> m = (Inl e, w') \<or> (\<exists>a w. m = (Inr a, w) \<and> f a w = (Inl e, w'))"
  by (auto simp: and_do_def split: prod.splits sum.splits)

lemma and_do_cong [fundef_cong]:
  "m = m' \<Longrightarrow> (\<And>a w. m' = (Inr a, w) \<Longrightarrow> f a w = g a w) \<Longrightarrow> and_do m f = and_do m' g"
  by (auto simp: and_do_def split: prod.splits sum.splits)

fun in_sequence :: "('a \<Rightarrow> 'b \<Rightarrow> 'l list \<Rightarrow> bool) \<Rightarrow> 'a list \<Rightarrow> 'b list \<Rightarrow> 'l list \<Rightarrow> bool" where
  "in_sequence R [] ys l \<longleftrightarrow> ys = [] \<and> l = []"
| "in_sequence R (x # xs) ys l \<longleftrightarrow>
     (\<exists>y ys' l1 l2. ys = y # ys' \<and> l = l1 @ l2 \<and> R x y l1 \<and> in_sequence R xs ys' l2)"

lemma in_sequence_length: "in_sequence R xs ys l \<Longrightarrow> length ys = length xs"
  by (induction R xs ys l rule: in_sequence.induct) auto

lemma in_sequence_mono:
  "in_sequence R xs ys l \<Longrightarrow> (\<And>x y l. R x y l \<Longrightarrow> S x y l) \<Longrightarrow> in_sequence S xs ys l"
  by (induction R xs ys l rule: in_sequence.induct) (simp, fastforce)

section \<open>Readers that accept exactly the representable values\<close>

text \<open>
  A reader of a document returns only acceptable values (\<open>read_ok\<close>), and every acceptable value has a
  document that reads back to it (\<open>read_render\<close>). The values a reader can return are then exactly the
  acceptable ones, which is how a client knows what it may rely on; readers of sequences inherit both.
\<close>

locale codec =
  fixes read :: "'y \<Rightarrow> 'e + 'a" and render :: "'a \<Rightarrow> 'y" and ok :: "'a \<Rightarrow> bool"
  assumes read_ok: "read y = Inr a \<Longrightarrow> ok a"
    and read_render: "ok a \<Longrightarrow> read (render a) = Inr a"
begin

lemma range_iff: "(\<exists>y. read y = Inr a) \<longleftrightarrow> ok a"
  using read_ok read_render by blast

lemma render_inj: "ok a \<Longrightarrow> ok b \<Longrightarrow> render a = render b \<Longrightarrow> a = b"
  by (metis read_render sum.inject(2))

lemma reread: "read y = Inr a \<Longrightarrow> read (render a) = Inr a"
  using read_ok read_render by blast

end

end
