(* ===== verification/Yaml_Config.thy ===== *)
theory Yaml_Config
  imports Checked_Results Runtime_Options Loaded_Config
begin

text \<open>
  The readers of src/src/pdo_config.cpp over the document tree of yaml-cpp: scalars, initialization
  commands, startup options, PDO lists, slaves. A node carries its tag (\<open>?\<close> for a plain scalar); a
  thrown exception is an error with the path of the node it names. The library's parser, which makes
  the tree, is a parameter of the file reader (theory \<open>Config_File\<close>).
\<close>

section \<open>Documents\<close>

datatype yaml =
    YNull
  | YScalar string string
  | YSeq "yaml list"
  | YMap "(yaml \<times> yaml) list"

fun is_scalar :: "yaml \<Rightarrow> bool" where
  "is_scalar (YScalar tag s) = True" | "is_scalar _ = False"

fun is_sequence :: "yaml \<Rightarrow> bool" where
  "is_sequence (YSeq ns) = True" | "is_sequence _ = False"

fun is_map :: "yaml \<Rightarrow> bool" where
  "is_map (YMap fs) = True" | "is_map _ = False"

fun items :: "yaml \<Rightarrow> yaml list" where
  "items (YSeq ns) = ns" | "items _ = []"

fun map_pairs :: "yaml \<Rightarrow> (yaml \<times> yaml) list" where
  "map_pairs (YMap fs) = fs" | "map_pairs _ = []"

text \<open>\<open>size()\<close> of a node, \<open>Scalar()\<close> and \<open>Tag()\<close>.\<close>

fun node_size :: "yaml \<Rightarrow> nat" where
  "node_size (YSeq ns) = length ns" | "node_size (YMap fs) = length fs" | "node_size _ = 0"

fun scalar :: "yaml \<Rightarrow> string" where
  "scalar (YScalar tag s) = s" | "scalar _ = []"

fun tag_of :: "yaml \<Rightarrow> string" where
  "tag_of (YScalar tag s) = tag" | "tag_of _ = []"

text \<open>\<open>node[key]\<close> with a text key: the first field whose key is that scalar.\<close>

definition field_of :: "yaml \<Rightarrow> string \<Rightarrow> yaml option" where
  "field_of node key = map_option snd (find (\<lambda>(k, v). is_scalar k \<and> scalar k = key) (map_pairs node))"

text \<open>\<open>as<std::string>()\<close> of a key.\<close>

fun key_text :: "yaml \<Rightarrow> string option" where
  "key_text (YScalar tag s) = Some s" | "key_text YNull = Some ''null''" | "key_text _ = None"

section \<open>Errors\<close>

datatype segment = Key string | Item nat

datatype problem =
    Required | KeyNotText | Duplicated | NotAllowed | NotString | EmptyString | TooLong
  | NotUnsigned | OutOfRange | NotSigned | NotBoolean | NotSequence | NotMapping | DuplicatedBy string
  | UnknownType | AtLeast nat | NotOnOff | WithLegacyMaster | NotNonEmptySequence | NotSequenceOrEmpty
  | NotByteAligned | ZeroBits | BadVersion | EniWithSlaves | TooManySlaves | IdMismatch
  | TooManyOutputs | TooManyInputs | SeveralReferences

type_synonym yaml_error = "segment list \<times> problem"

section \<open>Scalars\<close>

definition require_node :: "yaml \<Rightarrow> string \<Rightarrow> segment list \<Rightarrow> yaml_error + yaml" where
  "require_node parent key path =
     (case field_of parent key of None \<Rightarrow> Inl (path @ [Key key], Required) | Some node \<Rightarrow> Inr node)"

fun reject_keys :: "string list \<Rightarrow> segment list \<Rightarrow> string list \<Rightarrow> (yaml \<times> yaml) list \<Rightarrow> yaml_error + unit" where
  "reject_keys allowed path seen [] = Inr ()"
| "reject_keys allowed path seen ((k, v) # fs) =
     (case key_text k of
        None \<Rightarrow> Inl (path, KeyNotText)
      | Some key \<Rightarrow>
          if key \<in> set seen then Inl (path @ [Key key], Duplicated)
          else if key \<notin> set allowed then Inl (path @ [Key key], NotAllowed)
          else reject_keys allowed path (key # seen) fs)"

declare reject_keys.simps(2) [simp del]

definition reject_unknown_keys :: "yaml \<Rightarrow> string list \<Rightarrow> segment list \<Rightarrow> yaml_error + unit" where
  "reject_unknown_keys node allowed path = reject_keys allowed path [] (map_pairs node)"

definition parse_string :: "yaml \<Rightarrow> segment list \<Rightarrow> nat \<Rightarrow> yaml_error + string" where
  "parse_string node path maximum_length =
     (if \<not> is_scalar node then Inl (path, NotString)
      else let v = scalar node in
        if v = [] then Inl (path, EmptyString)
        else if maximum_length < length v then Inl (path, TooLong)
        else Inr v)"

definition is_hex_digit :: "char \<Rightarrow> bool" where
  "is_hex_digit c \<longleftrightarrow> is_digit c \<or> (97 \<le> (of_char c :: nat) \<and> (of_char c :: nat) \<le> 102)
     \<or> (65 \<le> (of_char c :: nat) \<and> (of_char c :: nat) \<le> 70)"

definition hex_value :: "char \<Rightarrow> nat" where
  "hex_value c = (if is_digit c then digit_value c
     else if 97 \<le> (of_char c :: nat) then of_char c - 87 else of_char c - 55)"

definition hexadecimal :: "string \<Rightarrow> nat" where
  "hexadecimal ds = foldl (\<lambda>v c. 16 * v + hex_value c) 0 ds"

text \<open>\<open>std::stoull\<close> on a text of digits, after the prefix when the base is 16: it throws out of range.\<close>

definition stoull :: "bool \<Rightarrow> string \<Rightarrow> (u64 \<times> nat) option" where
  "stoull hex t =
     (let v = (if hex then hexadecimal (drop 2 t) else decimal t) in
      if 2 ^ 64 \<le> v then None else Some (of_nat v, length t))"

definition hex_prefix :: "string \<Rightarrow> bool" where
  "hex_prefix t \<longleftrightarrow> 2 < length t \<and> t ! 0 = CHR ''0'' \<and> (t ! 1 = CHR ''x'' \<or> t ! 1 = CHR ''X'')"

definition parse_unsigned_node :: "yaml \<Rightarrow> segment list \<Rightarrow> u64 \<Rightarrow> yaml_error + u64" where
  "parse_unsigned_node node path maximum =
     (if \<not> is_scalar node \<or> tag_of node \<noteq> ''?'' then Inl (path, NotUnsigned)
      else
        let t = scalar node; hex = hex_prefix t; first_digit = (if hex then 2 else 0) in
        if first_digit = length t then Inl (path, NotUnsigned)
        else if list_ex (\<lambda>c. hex \<and> \<not> is_hex_digit c \<or> \<not> hex \<and> \<not> is_digit c) (drop first_digit t)
        then Inl (path, NotUnsigned)
        else case stoull hex t of
          None \<Rightarrow> Inl (path, NotUnsigned)
        | Some (v, parsed) \<Rightarrow>
            if parsed \<noteq> length t \<or> maximum < v then Inl (path, OutOfRange) else Inr v)"

text \<open>\<open>std::from_chars\<close> for a signed 64-bit value: an optional minus sign, then digits.\<close>

definition from_chars_s64 :: "string \<Rightarrow> (int \<times> string) option" where
  "from_chars_s64 t =
     (let neg = (t \<noteq> [] \<and> hd t = CHR ''-''); r = (if neg then tl t else t);
          ds = takeWhile is_digit r; v = (if neg then - int (decimal ds) else int (decimal ds)) in
      if ds = [] \<or> \<not> fits_int64 v then None else Some (v, dropWhile is_digit r))"

definition parse_signed_node :: "yaml \<Rightarrow> segment list \<Rightarrow> int \<Rightarrow> int \<Rightarrow> yaml_error + int" where
  "parse_signed_node node path minimum maximum =
     (if \<not> is_scalar node \<or> tag_of node \<noteq> ''?'' then Inl (path, NotSigned)
      else let t = scalar node in
        if t = [] \<or> hd t = CHR ''+'' then Inl (path, NotSigned)
        else case from_chars_s64 t of
          Some (v, []) \<Rightarrow> if v < minimum \<or> maximum < v then Inl (path, OutOfRange) else Inr v
        | _ \<Rightarrow> Inl (path, NotSigned))"

definition parse_boolean :: "yaml \<Rightarrow> segment list \<Rightarrow> yaml_error + bool" where
  "parse_boolean node path =
     (if \<not> is_scalar node \<or> tag_of node \<noteq> ''?'' then Inl (path, NotBoolean)
      else if scalar node = ''true'' then Inr True
      else if scalar node = ''false'' then Inr False
      else Inl (path, NotBoolean))"


section \<open>Initialization commands\<close>

text \<open>A field that may be written in lower or upper case, not in both.\<close>

definition either_case :: "yaml \<Rightarrow> segment list \<Rightarrow> string \<Rightarrow> string \<Rightarrow> yaml_error + yaml" where
  "either_case entry path lower upper =
     (if field_of entry lower \<noteq> None \<and> field_of entry upper \<noteq> None
      then Inl (path @ [Key lower], DuplicatedBy upper)
      else case field_of entry upper of Some node \<Rightarrow> Inr node | None \<Rightarrow> require_node entry lower path)"

text \<open>The width and the signedness of a type name; width 0 is an unknown name.\<close>

definition init_type :: "string \<Rightarrow> nat \<times> bool" where
  "init_type type =
     foldl (\<lambda>(bits, is_signed) width.
        let (bits, is_signed) = (if type = ''int'' @ show_nat width then (width, True) else (bits, is_signed))
        in if type = ''uint'' @ show_nat width then (width, is_signed) else (bits, is_signed))
       (0, False) [8, 16, 32, 64]"

definition starts_with :: "string \<Rightarrow> string \<Rightarrow> bool" where
  "starts_with pre s \<longleftrightarrow> take (length pre) s = pre"

definition init_value :: "yaml \<Rightarrow> segment list \<Rightarrow> nat \<Rightarrow> bool \<Rightarrow> yaml_error + u64" where
  "init_value v path bits is_signed =
     (if is_signed then
        let minimum = (if bits = 64 then - (2 ^ 63) else - (2 ^ (bits - 1)));
            maximum = (if bits = 64 then 2 ^ 63 - 1 else 2 ^ (bits - 1) - 1 :: int)
        in if is_scalar v \<and> starts_with ''0x'' (scalar v) then parse_unsigned_node v path (word_of_int maximum)
           else if is_scalar v \<and> starts_with ''0X'' (scalar v) then parse_unsigned_node v path (word_of_int maximum)
           else and_then (parse_signed_node v path minimum maximum) (\<lambda>z. Inr (word_of_int z))
      else
        let maximum = (if bits = 64 then 2 ^ 64 - 1 else 2 ^ bits - 1 :: int)
        in parse_unsigned_node v path (word_of_int maximum))"

definition init_keys :: "string list" where
  "init_keys = [''name'', ''index'', ''sub_index'', ''type'', ''value'', ''Type'', ''Value'']"

definition parse_init_command :: "abi \<Rightarrow> segment list \<Rightarrow> nat \<Rightarrow> yaml \<Rightarrow> yaml_error + init_command_config" where
  "parse_init_command A path i entry =
     (let p = path @ [Item i] in
      and_then (ensure (is_map entry) (p, NotMapping)) (\<lambda>_.
      and_then (reject_unknown_keys entry init_keys p) (\<lambda>_.
      and_then (case field_of entry ''name'' of
          None \<Rightarrow> Inr [] | Some n \<Rightarrow> parse_string n (p @ [Key ''name'']) (MAX_PD_NAME_LEN A - 1)) (\<lambda>_.
      and_then (and_then (require_node entry ''index'' p)
          (\<lambda>n. parse_unsigned_node n (p @ [Key ''index'']) 0xffff)) (\<lambda>index.
      and_then (and_then (require_node entry ''sub_index'' p)
          (\<lambda>n. parse_unsigned_node n (p @ [Key ''sub_index'']) 0xff)) (\<lambda>sub_index.
      and_then (and_then (either_case entry p ''type'' ''Type'')
          (\<lambda>n. parse_string n (p @ [Key ''type'']) 16)) (\<lambda>type.
      let (bits, is_signed) = init_type type in
      and_then (ensure (bits \<noteq> 0) (p @ [Key ''type''], UnknownType)) (\<lambda>_.
      and_then (either_case entry p ''value'' ''Value'') (\<lambda>v.
      and_then (init_value v (p @ [Key ''value'']) bits is_signed) (\<lambda>encoded.
      Inr \<lparr>ic_index = ucast index, ic_sub_index = ucast sub_index, ic_size = of_nat (bits div 8),
           ic_data = le_encode (bits div 8) encoded @ replicate (8 - bits div 8) 0\<rparr>))))))))))"

definition parse_init_commands :: "abi \<Rightarrow> yaml \<Rightarrow> segment list \<Rightarrow> yaml_error + init_command_config list" where
  "parse_init_commands A node path =
     and_then (ensure (is_sequence node) (path, NotSequence)) (\<lambda>_.
       traverse (parse_init_command A path) 0 (items node))"

section \<open>Startup options\<close>

definition parse_integer :: "yaml \<Rightarrow> segment list \<Rightarrow> string \<Rightarrow> u32 \<Rightarrow> u64 \<Rightarrow> yaml_error + u32" where
  "parse_integer node pre key v minimum =
     (case field_of node key of
        None \<Rightarrow> Inr v
      | Some n \<Rightarrow>
          and_then (parse_unsigned_node n (pre @ [Key key]) 0xffffffff) (\<lambda>parsed.
            if parsed < minimum then Inl (pre @ [Key key], AtLeast (unat minimum)) else Inr (ucast parsed)))"

definition master_keys :: "string list" where
  "master_keys = [''master_id'', ''period_us'', ''cpu'', ''dc'', ''preop_timeout_ms'', ''op_timeout_ms'',
     ''pdo_config_attempts'']"

definition parse_cpu :: "yaml \<Rightarrow> segment list \<Rightarrow> string \<Rightarrow> u32 option \<Rightarrow> yaml_error + u32 option" where
  "parse_cpu node pre key v =
     (case field_of node key of
        None \<Rightarrow> Inr v
      | Some n \<Rightarrow> if n = YNull then Inr None else and_then (parse_integer node pre key 0 0) (\<lambda>c. Inr (Some c)))"

definition parse_dc :: "yaml \<Rightarrow> segment list \<Rightarrow> bool \<Rightarrow> yaml_error + bool" where
  "parse_dc node pre v =
     (case field_of node ''dc'' of
        None \<Rightarrow> Inr v
      | Some n \<Rightarrow>
          and_then (parse_string n (pre @ [Key ''dc'']) 3) (\<lambda>dc.
            if dc \<noteq> ''on'' \<and> dc \<noteq> ''off'' then Inl (pre @ [Key ''dc''], NotOnOff) else Inr (dc = ''on'')))"

definition parse_master_options :: "yaml \<Rightarrow> runtime_options \<Rightarrow> bool \<Rightarrow> yaml_error + runtime_options" where
  "parse_master_options node options flat =
     and_then (ensure (is_map node) ([Key ''master''], NotMapping)) (\<lambda>_.
     and_then (if flat then Inr () else reject_unknown_keys node master_keys [Key ''master'']) (\<lambda>_.
     let pre = [Key (if flat then ''root'' else ''master'')] in
     and_then (parse_integer node pre (if flat then ''id'' else ''master_id'') (master_id options) 0) (\<lambda>mid.
     and_then (parse_integer node pre (if flat then ''cycle'' else ''period_us'') (period_us options) 1000) (\<lambda>period.
     and_then (parse_integer node pre ''preop_timeout_ms'' (preop_timeout_ms options) 1) (\<lambda>preop.
     and_then (parse_integer node pre ''op_timeout_ms'' (op_timeout_ms options) 1) (\<lambda>op.
     and_then (parse_integer node pre ''pdo_config_attempts'' (pdo_config_attempts options) 1) (\<lambda>tries.
     and_then (parse_cpu node pre (if flat then ''cpuidx'' else ''cpu'') (cpu options)) (\<lambda>c.
     and_then (parse_dc node pre (dc_enabled options)) (\<lambda>dc.
     Inr (options\<lparr>master_id := mid, period_us := period, preop_timeout_ms := preop, op_timeout_ms := op,
       pdo_config_attempts := tries, cpu := c, dc_enabled := dc\<rparr>))))))))))"

definition flat_keys :: "string list" where
  "flat_keys = [''id'', ''cycle'', ''cpuidx'', ''dc'', ''preop_timeout_ms'', ''op_timeout_ms'', ''pdo_config_attempts'']"

definition parse_startup_options :: "yaml \<Rightarrow> runtime_options \<Rightarrow> yaml_error + runtime_options" where
  "parse_startup_options doc defaults =
     (case field_of doc ''master'' of
        Some m \<Rightarrow>
          (case find (\<lambda>key. field_of doc key \<noteq> None) flat_keys of
             Some key \<Rightarrow> Inl ([Key ''root'', Key key], WithLegacyMaster)
           | None \<Rightarrow> parse_master_options m defaults False)
      | None \<Rightarrow> parse_master_options doc defaults True)"


section \<open>PDO lists\<close>

definition entry_keys :: "string list" where
  "entry_keys = [''name'', ''index'', ''sub_index'', ''bit_length'']"

definition byte_aligned :: "u8 \<Rightarrow> bool" where
  "byte_aligned bit_length \<longleftrightarrow> \<not> bit_length mod 8 \<noteq> 0"

definition parse_pdo_entry :: "abi \<Rightarrow> segment list \<Rightarrow> nat \<Rightarrow> yaml \<Rightarrow> yaml_error + pdo_entry_config" where
  "parse_pdo_entry A path i entry =
     (let p = path @ [Key ''entries'', Item i] in
      and_then (ensure (is_map entry) (p, NotMapping)) (\<lambda>_.
      and_then (reject_unknown_keys entry entry_keys p) (\<lambda>_.
      and_then (and_then (require_node entry ''name'' p)
          (\<lambda>n. parse_string n (p @ [Key ''name'']) (MAX_PD_NAME_LEN A - 1))) (\<lambda>name.
      and_then (and_then (require_node entry ''index'' p)
          (\<lambda>n. parse_unsigned_node n (p @ [Key ''index'']) 0xffff)) (\<lambda>index.
      and_then (and_then (require_node entry ''sub_index'' p)
          (\<lambda>n. parse_unsigned_node n (p @ [Key ''sub_index'']) 0xff)) (\<lambda>sub_index.
      and_then (and_then (require_node entry ''bit_length'' p)
          (\<lambda>n. parse_unsigned_node n (p @ [Key ''bit_length'']) 0xff)) (\<lambda>bits.
      let bit_length = ucast bits :: u8 in
      and_then (ensure (byte_aligned bit_length) (p @ [Key ''bit_length''], NotByteAligned)) (\<lambda>_.
      and_then (ensure (bit_length \<noteq> 0) (p @ [Key ''bit_length''], ZeroBits)) (\<lambda>_.
      Inr \<lparr>pe_name = name, pe_index = ucast index, pe_sub_index = ucast sub_index,
           pe_bit_length = bit_length\<rparr>)))))))))"

definition parse_pdo :: "abi \<Rightarrow> segment list \<Rightarrow> nat \<Rightarrow> yaml \<Rightarrow> yaml_error + pdo_mapping_config" where
  "parse_pdo A path i node =
     (let p = path @ [Item i] in
      and_then (ensure (is_map node) (p, NotMapping)) (\<lambda>_.
      and_then (reject_unknown_keys node [''index'', ''entries''] p) (\<lambda>_.
      and_then (and_then (require_node node ''index'' p)
          (\<lambda>n. parse_unsigned_node n (p @ [Key ''index'']) 0xffff)) (\<lambda>index.
      and_then (require_node node ''entries'' p) (\<lambda>entries.
      and_then (ensure (is_sequence entries \<or> entries = YNull \<or> is_map entries \<and> node_size entries = 0)
          (p @ [Key ''entries''], NotSequenceOrEmpty)) (\<lambda>_.
      and_then (traverse (parse_pdo_entry A p) 0 (items entries)) (\<lambda>es.
      Inr \<lparr>pm_index = ucast index, pm_entries = es\<rparr>)))))))"

definition parse_pdos :: "abi \<Rightarrow> yaml \<Rightarrow> segment list \<Rightarrow> yaml_error + pdo_mapping_config list" where
  "parse_pdos A node path =
     and_then (ensure (is_sequence node \<and> node_size node \<noteq> 0) (path, NotNonEmptySequence)) (\<lambda>_.
       traverse (parse_pdo A path) 0 (items node))"

section \<open>Slaves and the bus\<close>

definition entry_count :: "pdo_mapping_config list \<Rightarrow> nat" where
  "entry_count ms = sum_list (map (\<lambda>m. length (pm_entries m)) ms)"

definition slave_keys :: "string list" where
  "slave_keys = [''id'', ''name'', ''dc_ref'', ''rx_pdos'', ''tx_pdos'', ''init_commands'']"

definition yaml_clock :: "bool \<Rightarrow> distributed_clock_config" where
  "yaml_clock reference = \<lparr>assign_activate = 0x0300, sync0_shift_ns = 0, sync1_cycle_ns = 0,
     sync1_shift_ns = 0, dc_reference = reference, dc_sync0_cycle_ns = 0\<rparr>"

definition parse_slave :: "abi \<Rightarrow> nat \<Rightarrow> yaml \<Rightarrow> yaml_error + slave_pdo_config" where
  "parse_slave A i node =
     (let p = [Key ''slaves'', Item i] in
      and_then (ensure (is_map node) (p, NotMapping)) (\<lambda>_.
      and_then (reject_unknown_keys node slave_keys p) (\<lambda>_.
      and_then (and_then (require_node node ''id'' p)
          (\<lambda>n. parse_unsigned_node n (p @ [Key ''id'']) 0xffff)) (\<lambda>sid.
      and_then (ensure (unat (ucast sid :: u16) = i) (p @ [Key ''id''], IdMismatch)) (\<lambda>_.
      and_then (and_then (require_node node ''name'' p)
          (\<lambda>n. parse_string n (p @ [Key ''name'']) (MAX_SLAVE_NAME_LEN A - 1))) (\<lambda>name.
      and_then (case field_of node ''dc_ref'' of
          None \<Rightarrow> Inr False | Some n \<Rightarrow> parse_boolean n (p @ [Key ''dc_ref''])) (\<lambda>reference.
      and_then (case field_of node ''init_commands'' of
          None \<Rightarrow> Inr [] | Some n \<Rightarrow> parse_init_commands A n (p @ [Key ''init_commands''])) (\<lambda>commands.
      and_then (and_then (require_node node ''rx_pdos'' p)
          (\<lambda>n. parse_pdos A n (p @ [Key ''rx_pdos'']))) (\<lambda>rx.
      and_then (and_then (require_node node ''tx_pdos'' p)
          (\<lambda>n. parse_pdos A n (p @ [Key ''tx_pdos'']))) (\<lambda>tx.
      and_then (ensure (\<not> MAX_PDOUTPUT_NUM A < entry_count rx) (p @ [Key ''rx_pdos''], TooManyOutputs)) (\<lambda>_.
      and_then (ensure (\<not> MAX_PDINPUT_NUM A < entry_count tx) (p @ [Key ''tx_pdos''], TooManyInputs)) (\<lambda>_.
      Inr \<lparr>sc_id = ucast sid, sc_name = name, rx_pdos = rx, tx_pdos = tx, sc_dc = Some (yaml_clock reference),
           sc_init_commands = commands, sc_vendor_id = 0, sc_product_code = 0\<rparr>))))))))))))"

definition reference_count :: "slave_pdo_config list \<Rightarrow> nat" where
  "reference_count ss = length (filter (\<lambda>s. case sc_dc s of None \<Rightarrow> False | Some dc \<Rightarrow> dc_reference dc) ss)"

text \<open>The bus of an inline document, from its \<open>slaves\<close> field on.\<close>

definition inline_config :: "abi \<Rightarrow> string \<Rightarrow> yaml \<Rightarrow> yaml_error + pdo_bus_config" where
  "inline_config A source doc =
     and_then (require_node doc ''slaves'' [Key ''root'']) (\<lambda>slaves_node.
     and_then (ensure (is_sequence slaves_node \<and> node_size slaves_node \<noteq> 0)
         ([Key ''slaves''], NotNonEmptySequence)) (\<lambda>_.
     and_then (ensure (\<not> MAX_SLAVE_NUM A < node_size slaves_node) ([Key ''slaves''], TooManySlaves)) (\<lambda>_.
     and_then (parse_startup_options doc runtime_options_init) (\<lambda>options.
     and_then (traverse (parse_slave A) 0 (items slaves_node)) (\<lambda>ss.
     and_then (ensure (\<not> 1 < reference_count ss) ([], SeveralReferences)) (\<lambda>_.
     Inr \<lparr>bc_slaves = ss, bc_master = options, source_yaml = source, from_eni = False, eni_path = []\<rparr>))))))"

end
