(* ===== verification/Yaml_Commands.thy ===== *)
theory Yaml_Commands
  imports Yaml_Config
begin

text \<open>
  What the scalar readers and the reader of initialization commands accept: every word, text and
  command has a document that reads back to it, and an accepted command carries the number that its
  scalar denotes.
\<close>

section \<open>Scalars that read back\<close>

definition plain :: "string \<Rightarrow> yaml" where "plain s = YScalar ''?'' s"

definition quoted :: "string \<Rightarrow> yaml" where "quoted s = YScalar ''!'' s"

definition word_node :: "'a::len word \<Rightarrow> yaml" where "word_node w = plain (show_nat (unat w))"

lemma digits_not_hex: "list_all is_digit t \<Longrightarrow> \<not> hex_prefix t"
proof
  assume t: "list_all is_digit t" and h: "hex_prefix t"
  then have "is_digit (t ! 1)" by (simp add: hex_prefix_def list_all_length)
  with h show False by (auto simp: hex_prefix_def is_digit_def)
qed

lemma parse_unsigned_digits:
  assumes "list_all is_digit t" "t \<noteq> []" "decimal t < 2 ^ 64"
  shows "parse_unsigned_node (plain t) path m = (if m < of_nat (decimal t) then Inl (path, OutOfRange) else Inr (of_nat (decimal t)))"
proof -
  have "\<not> list_ex (\<lambda>c. \<not> is_digit c) t" using assms(1) by (auto simp: list_ex_iff list_all_iff)
  then show ?thesis
    using assms digits_not_hex [OF assms(1)] by (simp add: parse_unsigned_node_def plain_def Let_def stoull_def)
qed

lemma unat_u64: "unat (w :: u64) < 2 ^ 64"
  using unsigned_less [where ?'a = nat and w = w] by simp

lemma parse_word:
  fixes w :: "'a::len word"
  assumes "LENGTH('a) \<le> 64" "ucast w \<le> m"
  shows "parse_unsigned_node (word_node w) path m = Inr (ucast w)"
proof -
  have "unat w < 2 ^ LENGTH('a)" using unsigned_less [where ?'a = nat and w = w] by simp
  also have "\<dots> \<le> (2 :: nat) ^ 64" using assms(1) by (intro power_increasing) auto
  finally have "unat w < 2 ^ 64" .
  moreover have "of_nat (unat w) = (ucast w :: u64)" by simp
  ultimately show ?thesis
    using show_nat_digits [of "unat w"] assms(2) parse_unsigned_digits [of "show_nat (unat w)" path m]
    by (auto simp: word_node_def not_less)
qed

lemma parse_unsigned_le: "parse_unsigned_node node path m = Inr v \<Longrightarrow> v \<le> m"
  by (auto simp: parse_unsigned_node_def Let_def split: if_splits option.splits)

lemma down_up_cast:
  fixes w :: "'a::len word"
  shows "LENGTH('a) \<le> 64 \<Longrightarrow> ucast (ucast w :: u64) = w"
  by (rule bit_word_eqI) (auto simp: bit_ucast_iff dest: bit_imp_le_length)

lemma up_le: "(ucast (w :: u16) :: u64) \<le> 0xffff" "(ucast (b :: u8) :: u64) \<le> 0xff" "(ucast (d :: u32) :: u64) \<le> 0xffffffff"
proof -
  have "unat w < 2 ^ 16" "unat b < 2 ^ 8" "unat d < 2 ^ 32"
    using unsigned_less [where ?'a = nat and w = w] unsigned_less [where ?'a = nat and w = b]
      unsigned_less [where ?'a = nat and w = d] by simp_all
  then show "(ucast w :: u64) \<le> 0xffff" "(ucast b :: u64) \<le> 0xff" "(ucast d :: u64) \<le> 0xffffffff"
    by (simp_all add: word_le_nat_alt unsigned_ucast_eq take_bit_nat_eq_self)
qed

lemma parse_u16 [simp]: "parse_unsigned_node (word_node (w :: u16)) path 0xffff = Inr (ucast w)"
  by (rule parse_word) (simp_all add: up_le)
lemma parse_u8 [simp]: "parse_unsigned_node (word_node (w :: u8)) path 0xff = Inr (ucast w)"
  by (rule parse_word) (simp_all add: up_le)
lemma parse_u32 [simp]: "parse_unsigned_node (word_node (w :: u32)) path 0xffffffff = Inr (ucast w)"
  by (rule parse_word) (simp_all add: up_le)

lemma down_up [simp]: "ucast (ucast (w :: u16) :: u64) = w" "ucast (ucast (b :: u8) :: u64) = b" "ucast (ucast (d :: u32) :: u64) = d"
  by (simp_all add: down_up_cast)

lemma parse_string_iff:
  "parse_string node path m = Inr s \<longleftrightarrow> is_scalar node \<and> s = scalar node \<and> s \<noteq> [] \<and> length s \<le> m"
  by (auto simp: parse_string_def Let_def)

definition ok_text :: "nat \<Rightarrow> string \<Rightarrow> bool" where
  "ok_text m s \<longleftrightarrow> s \<noteq> [] \<and> length s \<le> m"

interpretation text_codec: codec "\<lambda>n. parse_string n path m" quoted "ok_text m"
  by unfold_locales (auto simp: parse_string_iff ok_text_def quoted_def)

interpretation unsigned_codec: codec "\<lambda>n. parse_unsigned_node n path m" word_node "\<lambda>v. v \<le> m"
proof
  fix v :: u64 assume "v \<le> m"
  then show "parse_unsigned_node (word_node v) path m = Inr v" by (simp add: parse_word)
qed (rule parse_unsigned_le)

lemma parse_quoted [simp]: "ok_text m s \<Longrightarrow> parse_string (quoted s) path m = Inr s"
  by (rule text_codec.read_render)


section \<open>Initialization commands\<close>

fun le_word :: "u8 list \<Rightarrow> u64" where
  "le_word [] = 0"
| "le_word (b # bs) = or (ucast b) (push_bit 8 (le_word bs))"

lemma bit_le_word: "bit (le_word bs) i \<longleftrightarrow> i < 64 \<and> i div 8 < length bs \<and> bit (bs ! (i div 8)) (i mod 8)"
proof (induction bs arbitrary: i)
  case Nil
  then show ?case by simp
next
  case (Cons b bs)
  show ?case
  proof (cases "i < 8")
    case True
    then show ?thesis by (simp add: bit_or_iff bit_ucast_iff bit_push_bit_iff)
  next
    case False
    then obtain j where i: "i = 8 + j" by (metis le_add_diff_inverse not_less)
    have d: "(8 + j) div 8 = Suc (j div 8)" "(8 + j) mod 8 = j mod 8" by simp_all
    have "\<not> bit b (8 + j)" using bit_imp_le_length [of b "8 + j"] by auto
    then have "bit (le_word (b # bs)) (8 + j) \<longleftrightarrow> 8 + j < 64 \<and> bit (le_word bs) j"
      by (simp add: bit_or_iff bit_ucast_iff bit_push_bit_iff)
    also have "\<dots> \<longleftrightarrow> 8 + j < 64 \<and> j div 8 < length bs \<and> bit (bs ! (j div 8)) (j mod 8)"
      by (auto simp: Cons.IH)
    finally show ?thesis unfolding i d by simp
  qed
qed

lemma le_encode_word:
  assumes "length bs \<le> 8" shows "le_encode (length bs) (le_word bs) = bs"
proof (rule nth_equalityI)
  fix i assume "i < length (le_encode (length bs) (le_word bs))"
  then have i: "i < length bs" by simp
  show "le_encode (length bs) (le_word bs) ! i = bs ! i"
  proof (rule bit_word_eqI)
    fix n assume "n < LENGTH(8)"
    then have n: "n < 8" by simp
    have q: "(8 * i + n) div 8 = i" "(8 * i + n) mod 8 = n" "8 * i + n < 64" using n i assms by auto
    have "bit (le_encode (length bs) (le_word bs) ! i) n = bit (le_word bs) (8 * i + n)"
      using n i by (simp add: bit_ucast_iff bit_drop_bit_eq)
    then show "bit (le_encode (length bs) (le_word bs) ! i) n = bit (bs ! i) n"
      using i by (simp only: bit_le_word q) simp
  qed
qed simp

lemma le_word_less:
  assumes "length bs \<le> 8" shows "take_bit (8 * length bs) (le_word bs) = le_word bs"
proof (rule bit_word_eqI)
  fix n :: nat
  have "n div 8 < length bs \<Longrightarrow> n < 8 * length bs" by linarith
  then show "bit (take_bit (8 * length bs) (le_word bs)) n = bit (le_word bs) n"
    by (auto simp: bit_take_bit_iff bit_le_word)
qed

definition ok_command :: "init_command_config \<Rightarrow> bool" where
  "ok_command c \<longleftrightarrow> ic_size c \<in> {1, 2, 4, 8} \<and> length (ic_data c) = 8
     \<and> drop (unat (ic_size c)) (ic_data c) = replicate (8 - unat (ic_size c)) 0"

definition command_bytes :: "init_command_config \<Rightarrow> u8 list" where
  "command_bytes c = take (unat (ic_size c)) (ic_data c)"

definition render_command :: "init_command_config \<Rightarrow> yaml" where
  "render_command c = YMap [(plain ''index'', word_node (ic_index c)), (plain ''sub_index'', word_node (ic_sub_index c)),
     (plain ''type'', quoted (''uint'' @ show_nat (8 * unat (ic_size c)))),
     (plain ''value'', word_node (le_word (command_bytes c)))]"

lemma show_widths [simp]: "show_nat 8 = ''8''" "show_nat 16 = ''16''" "show_nat 32 = ''32''" "show_nat 64 = ''64''"
  by code_simp+

lemma init_type_cases:
  "init_type t = (bits, is_s) \<Longrightarrow> bits \<noteq> 0 \<Longrightarrow> bits \<in> {8, 16, 32, 64} \<and> t = (if is_s then ''int'' else ''uint'') @ show_nat bits"
  by (auto simp: init_type_def split: if_splits)

lemma init_type_uint [simp]: "bits \<in> {8, 16, 32, 64} \<Longrightarrow> init_type (''uint'' @ show_nat bits) = (bits, False)"
  by (auto simp: init_type_def)


lemma command_bytes_length: "ok_command c \<Longrightarrow> length (command_bytes c) = unat (ic_size c) \<and> unat (ic_size c) \<le> 8"
  by (auto simp: ok_command_def command_bytes_def)

lemma ok_size_bits: "ok_command c \<Longrightarrow> 8 * unat (ic_size c) \<in> {8, 16, 32, 64}"
  by (auto simp: ok_command_def)

lemma field_of_simps [simp]:
  "field_of (YMap []) key = None"
  "field_of (YMap ((plain k, v) # fs)) key = (if k = key then Some v else field_of (YMap fs) key)"
  by (simp_all add: field_of_def plain_def)

lemma reject_plain [simp]:
  "reject_keys allowed path seen ((plain k, v) # fs) =
     (if k \<in> set seen then Inl (path @ [Key k], Duplicated) else if k \<notin> set allowed then Inl (path @ [Key k], NotAllowed)
      else reject_keys allowed path (k # seen) fs)"
  by (simp add: plain_def reject_keys.simps(2))

lemma init_value_word:
  assumes "bits \<in> {8, 16, 32, 64}" "take_bit bits v = v"
  shows "init_value (word_node v) path bits False = Inr v"
proof -
  have "v \<le> word_of_int (if bits = 64 then 2 ^ 64 - 1 else 2 ^ bits - 1)"
  proof -
    have "uint v < 2 ^ bits" using assms(2) by (metis take_bit_int_less_exp unsigned_take_bit_eq)
    then show ?thesis using assms(1) uint_lt_2p_32 by (auto simp: word_le_def)
  qed
  then have "parse_unsigned_node (word_node v) path (word_of_int (if bits = 64 then 2 ^ 64 - 1 else 2 ^ bits - 1)) = Inr v"
    by (simp add: parse_word)
  then show ?thesis by (simp add: init_value_def Let_def)
qed

lemma parse_render_command:
  assumes "ok_command c"
  shows "parse_init_command A path i (render_command c) = Inr c"
proof -
  let ?bits = "8 * unat (ic_size c)"
  have bits: "?bits \<in> {8, 16, 32, 64}" by (rule ok_size_bits [OF assms])
  have len: "length (command_bytes c) = unat (ic_size c)" "unat (ic_size c) \<le> 8" using command_bytes_length [OF assms] by auto
  have v: "init_value (word_node (le_word (command_bytes c))) p ?bits False = Inr (le_word (command_bytes c))" for p
    using init_value_word [OF bits] le_word_less [of "command_bytes c"] len by simp
  have data: "le_encode (unat (ic_size c)) (le_word (command_bytes c)) @ replicate (8 - unat (ic_size c)) 0 = ic_data c"
    using le_encode_word [of "command_bytes c"] len assms by (simp add: ok_command_def command_bytes_def) (metis append_take_drop_id)
  define ty where "ty = ''uint'' @ show_nat ?bits"
  have name: "parse_string (quoted ty) p 16 = Inr ty" for p
    by (rule parse_quoted) (use bits in \<open>auto simp: ok_text_def ty_def\<close>)
  have ty: "init_type ty = (?bits, False)" unfolding ty_def by (rule init_type_uint [OF bits])
  have w: "of_nat (unat (ic_size c)) = ic_size c" by simp
  have r: "render_command c = YMap [(plain ''index'', word_node (ic_index c)), (plain ''sub_index'', word_node (ic_sub_index c)),
     (plain ''type'', quoted ty), (plain ''value'', word_node (le_word (command_bytes c)))]"
    by (simp only: render_command_def ty_def)
  have nz: "unat (ic_size c) \<noteq> 0" using bits by auto
  show ?thesis
    using data nz
    by (simp add: parse_init_command_def r Let_def reject_unknown_keys_def init_keys_def require_node_def
        either_case_def name ty v w)
qed

lemma parse_init_commandD:
  assumes "parse_init_command A path i entry = Inr c"
  obtains bits is_s v encoded where "bits \<in> {8, 16, 32, 64}"
    "either_case entry (path @ [Item i]) ''value'' ''Value'' = Inr v"
    "init_value v (path @ [Item i, Key ''value'']) bits is_s = Inr encoded"
    "ic_size c = of_nat (bits div 8)" "ic_data c = le_encode (bits div 8) encoded @ replicate (8 - bits div 8) 0"
    "\<exists>n. either_case entry (path @ [Item i]) ''type'' ''Type'' = Inr n
       \<and> scalar n = (if is_s then ''int'' else ''uint'') @ show_nat bits"
proof -
  from assms obtain n type v encoded where n: "either_case entry (path @ [Item i]) ''type'' ''Type'' = Inr n"
    "parse_string n (path @ [Item i, Key ''type'']) 16 = Inr type" and t: "fst (init_type type) \<noteq> 0"
    and v: "either_case entry (path @ [Item i]) ''value'' ''Value'' = Inr v"
    "init_value v (path @ [Item i, Key ''value'']) (fst (init_type type)) (snd (init_type type)) = Inr encoded"
    "c = \<lparr>ic_index = ic_index c, ic_sub_index = ic_sub_index c, ic_size = of_nat (fst (init_type type) div 8),
       ic_data = le_encode (fst (init_type type) div 8) encoded @ replicate (8 - fst (init_type type) div 8) 0\<rparr>"
    by (auto simp: parse_init_command_def Let_def result_simps split_beta)
  have "ic_size c = of_nat (fst (init_type type) div 8)"
    "ic_data c = le_encode (fst (init_type type) div 8) encoded @ replicate (8 - fst (init_type type) div 8) 0"
    by (subst v(3), simp)+
  moreover have "scalar n = type" using n(2) by (simp add: parse_string_iff)
  ultimately show ?thesis using that [OF _ v(1,2)] init_type_cases [OF surjective_pairing t] n(1) by metis
qed

lemma parse_command_ok: "parse_init_command A path i entry = Inr c \<Longrightarrow> ok_command c"
  by (erule parse_init_commandD) (auto simp: ok_command_def)

interpretation command_codec: codec "parse_init_command A path i" render_command ok_command
  by unfold_locales (rule parse_command_ok, assumption, rule parse_render_command)


text \<open>The number a scalar denotes and the range of a type.\<close>

definition text_value :: "string \<Rightarrow> int" where
  "text_value t = (if hex_prefix t then int (hexadecimal (drop 2 t))
     else if t \<noteq> [] \<and> hd t = CHR ''-'' then - int (decimal (tl t)) else int (decimal t))"

definition in_type :: "bool \<Rightarrow> nat \<Rightarrow> int \<Rightarrow> bool" where
  "in_type is_signed bits z \<longleftrightarrow>
     (if is_signed then - (2 ^ (bits - 1)) \<le> z \<and> z < 2 ^ (bits - 1) else 0 \<le> z \<and> z < 2 ^ bits)"

lemma parse_unsigned_text:
  assumes "parse_unsigned_node node path m = Inr v"
  shows "uint v = text_value (scalar node)"
proof -
  let ?t = "scalar node"
  have dec: "\<not> hex_prefix ?t \<Longrightarrow> list_all is_digit ?t"
    using assms by (auto simp: parse_unsigned_node_def Let_def list_ex_iff list_all_iff split: if_splits)
  have "\<not> hex_prefix ?t \<Longrightarrow> \<not> (?t \<noteq> [] \<and> hd ?t = CHR ''-'')"
    using dec sign_not_digit by (cases ?t) auto
  then have t: "text_value ?t = int (if hex_prefix ?t then hexadecimal (drop 2 ?t) else decimal ?t)"
    by (auto simp: text_value_def)
  have "v = of_nat (if hex_prefix ?t then hexadecimal (drop 2 ?t) else decimal ?t)"
    "(if hex_prefix ?t then hexadecimal (drop 2 ?t) else decimal ?t) < 2 ^ 64"
    using assms by (auto simp: parse_unsigned_node_def stoull_def Let_def split: if_splits)
  then show ?thesis unfolding t by (simp add: unsigned_of_nat take_bit_nat_eq_self)
qed

lemma parse_signed_text:
  assumes "parse_signed_node node path lo hi = Inr z"
  shows "z = text_value (scalar node) \<and> lo \<le> z \<and> z \<le> hi"
proof -
  let ?t = "scalar node"
  from assms have z: "from_chars_s64 ?t = Some (z, [])" "lo \<le> z" "z \<le> hi"
    by (auto simp: parse_signed_node_def Let_def split: if_splits option.splits list.splits)
  show ?thesis
  proof (cases "?t \<noteq> [] \<and> hd ?t = CHR ''-''")
    case True
    then have "\<not> hex_prefix ?t" by (cases ?t) (auto simp: hex_prefix_def)
    moreover have "takeWhile is_digit (tl ?t) = tl ?t" "z = - int (decimal (takeWhile is_digit (tl ?t)))"
      using z(1) True by (auto simp: from_chars_s64_def Let_def takeWhile_eq_all takeWhile_all split: if_splits)
    ultimately show ?thesis using z(2,3) True unfolding text_value_def by metis
  next
    case False
    then have d: "list_all is_digit ?t" "z = int (decimal (takeWhile is_digit ?t))"
      using z(1) by (auto simp: from_chars_s64_def Let_def takeWhile_eq_all list_all_iff split: if_splits)
    then show ?thesis using z False digits_not_hex [OF d(1)] takeWhile_all [OF d(1)]
      by (auto simp: text_value_def)
  qed
qed

lemma init_value_text:
  assumes "init_value v path bits is_s = Inr encoded" "bits \<in> {8, 16, 32, 64}"
  shows "encoded = word_of_int (text_value (scalar v)) \<and> in_type is_s bits (text_value (scalar v))"
proof -
  have uns: "encoded = word_of_int (text_value (scalar v)) \<and> 0 \<le> text_value (scalar v) \<and> text_value (scalar v) \<le> m"
    if "parse_unsigned_node v path (word_of_int m) = Inr encoded" "0 \<le> m" "m < 2 ^ 64" for m
  proof -
    have u: "uint encoded = text_value (scalar v)" by (rule parse_unsigned_text [OF that(1)])
    have "uint encoded \<le> uint (word_of_int m :: u64)" using parse_unsigned_le [OF that(1)] by (simp add: word_le_def)
    also have "\<dots> = m" using that(2,3) by (simp add: uint_word_of_int)
    finally have "text_value (scalar v) \<le> m" using u by simp
    moreover have "0 \<le> text_value (scalar v)" using u by (metis uint_nonnegative)
    moreover have "encoded = word_of_int (text_value (scalar v))" using u by (metis word_of_int_uint)
    ultimately show ?thesis by blast
  qed
  show ?thesis
  proof (cases is_s)
    case True
    let ?hi = "if bits = 64 then 2 ^ 63 - 1 else 2 ^ (bits - 1) - 1 :: int"
    let ?lo = "if bits = 64 then - (2 ^ 63) else - (2 ^ (bits - 1)) :: int"
    have hi: "?hi = 2 ^ (bits - 1) - 1" "?lo = - (2 ^ (bits - 1))" "0 \<le> ?hi" "?hi < 2 ^ 64" using assms(2) by auto
    from assms(1) True consider "parse_unsigned_node v path (word_of_int ?hi) = Inr encoded"
      | z where "parse_signed_node v path ?lo ?hi = Inr z" "encoded = word_of_int z"
      by (auto simp: init_value_def Let_def result_simps split: if_splits)
    then show ?thesis
    proof cases
      case 1
      from uns [OF 1 hi(3,4)] show ?thesis using True hi(1) by (auto simp: in_type_def)
    next
      case 2
      from parse_signed_text [OF 2(1)] show ?thesis using True hi(1,2) 2(2) by (auto simp: in_type_def)
    qed
  next
    case False
    let ?m = "if bits = 64 then 2 ^ 64 - 1 else 2 ^ bits - 1 :: int"
    have m: "?m = 2 ^ bits - 1" "0 \<le> ?m" "?m < 2 ^ 64" using assms(2) by auto
    have "parse_unsigned_node v path (word_of_int ?m) = Inr encoded"
      using assms(1) False by (simp add: init_value_def Let_def)
    from uns [OF this m(2,3)] show ?thesis using False m(1) by (auto simp: in_type_def)
  qed
qed

lemma bytes_value:
  assumes "bits \<in> {8, 16, 32, 64}"
  shows "uint (le_word (le_encode (bits div 8) (word_of_int z :: u64))) = z mod 2 ^ bits"
proof -
  have bits: "bits = 8 * (bits div 8)" "bits \<le> 64" using assms by auto
  have "le_word (le_encode (bits div 8) (word_of_int z :: u64)) = take_bit bits (word_of_int z)"
  proof (rule bit_word_eqI)
    fix n assume "n < LENGTH(64)"
    have "n div 8 < bits div 8 \<longleftrightarrow> n < bits" using bits(1) by (metis less_mult_imp_div_less div_less_iff_less_mult mult.commute zero_less_numeral)
    moreover have "8 * (n div 8) + n mod 8 = n" by simp
    ultimately show "bit (le_word (le_encode (bits div 8) (word_of_int z :: u64))) n = bit (take_bit bits (word_of_int z :: u64)) n"
      using \<open>n < LENGTH(64)\<close> by (auto simp: bit_le_word bit_take_bit_iff bit_ucast_iff bit_drop_bit_eq)
  qed
  then have "uint (le_word (le_encode (bits div 8) (word_of_int z :: u64))) = take_bit bits (uint (word_of_int z :: u64))"
    by (simp only: unsigned_take_bit_eq)
  moreover have "uint (word_of_int z :: u64) = z mod 2 ^ 64" by (simp add: uint_word_of_int)
  moreover have "(2 :: int) ^ bits dvd 2 ^ 64" using bits(2) by (rule le_imp_power_dvd)
  ultimately show ?thesis by (simp only: take_bit_eq_mod mod_mod_cancel)
qed

text \<open>
  Claim C31. A command that the reader accepts carries the number its scalar denotes: the type names a
  width of 8, 16, 32 or 64 bits and a signedness, the number lies in the range of that type, and the
  bytes that are sent are its two's complement in that width, least significant first, the rest of the
  array being zero.
\<close>
theorem init_command_value:
  assumes "parse_init_command A path i entry = Inr c"
  shows "\<exists>bits is_signed type v. bits \<in> {8, 16, 32, 64} \<and> bits = 8 * unat (ic_size c)
     \<and> either_case entry (path @ [Item i]) ''type'' ''Type'' = Inr type
     \<and> scalar type = (if is_signed then ''int'' else ''uint'') @ show_nat bits
     \<and> either_case entry (path @ [Item i]) ''value'' ''Value'' = Inr v
     \<and> in_type is_signed bits (text_value (scalar v))
     \<and> uint (le_word (take (unat (ic_size c)) (ic_data c))) = text_value (scalar v) mod 2 ^ bits
     \<and> drop (unat (ic_size c)) (ic_data c) = replicate (8 - unat (ic_size c)) 0"
proof -
  from assms obtain bits is_s v encoded type where p: "bits \<in> {8, 16, 32, 64}"
    "either_case entry (path @ [Item i]) ''value'' ''Value'' = Inr v"
    "init_value v (path @ [Item i, Key ''value'']) bits is_s = Inr encoded"
    "ic_size c = of_nat (bits div 8)" "ic_data c = le_encode (bits div 8) encoded @ replicate (8 - bits div 8) 0"
    "either_case entry (path @ [Item i]) ''type'' ''Type'' = Inr type"
    "scalar type = (if is_s then ''int'' else ''uint'') @ show_nat bits"
    by (rule parse_init_commandD) blast
  have size: "unat (ic_size c) = bits div 8" "bits = 8 * unat (ic_size c)" using p(1,4) by auto
  have enc: "encoded = word_of_int (text_value (scalar v))" "in_type is_s bits (text_value (scalar v))"
    using init_value_text [OF p(3,1)] by auto
  have "take (unat (ic_size c)) (ic_data c) = le_encode (bits div 8) encoded"
    "drop (unat (ic_size c)) (ic_data c) = replicate (8 - unat (ic_size c)) 0"
    using p(5) size(1) by simp_all
  then have "uint (le_word (take (unat (ic_size c)) (ic_data c))) = text_value (scalar v) mod 2 ^ bits"
    using bytes_value [OF p(1), of "text_value (scalar v)"] enc(1) by simp
  then show ?thesis
    using p(1,2,6,7) size(2) enc(2) \<open>drop _ _ = _\<close>
    by (intro exI [of _ bits] exI [of _ is_s] exI [of _ type] exI [of _ v] conjI)
qed

section \<open>A concrete command\<close>

definition example_command :: yaml where
  "example_command = YMap [(plain ''index'', plain ''0x6060''), (plain ''sub_index'', plain ''3''),
     (plain ''Type'', plain ''int16''), (plain ''Value'', plain ''-2'')]"

lemma replicate_numeral_zero: "replicate 6 (0 :: u8) = [0, 0, 0, 0, 0, 0]"
  by code_simp

lemma example_scalars:
  "parse_unsigned_node (plain ''0x6060'') p 0xffff = Inr 0x6060"
  "parse_unsigned_node (plain ''3'') p 0xff = Inr 3"
  "parse_string (plain ''int16'') p 16 = Inr ''int16''"
  "init_type ''int16'' = (16, True)"
  "init_value (plain ''-2'') p 16 True = Inr 0xfffffffffffffffe"
  by (simp_all add: parse_unsigned_node_def parse_string_def init_type_def init_value_def parse_signed_node_def from_chars_s64_def
      plain_def Let_def hex_prefix_def stoull_def hexadecimal_def decimal_def hex_value_def is_hex_digit_def digit_value_def
      is_digit_def starts_with_def fits_int64_def)

lemma example_command_parsed:
  "parse_init_command abi_example [] 0 example_command
     = Inr \<lparr>ic_index = 0x6060, ic_sub_index = 3, ic_size = 2, ic_data = [0xfe, 0xff, 0, 0, 0, 0, 0, 0]\<rparr>"
  by (simp add: parse_init_command_def example_command_def reject_unknown_keys_def init_keys_def require_node_def
      either_case_def example_scalars Let_def le_encode_def upt_rec replicate_numeral_zero)

theorem init_command_value_witness:
  "\<exists>bits is_signed v. bits = 16 \<and> in_type is_signed bits v \<and> uint (le_word [0xfe, 0xff]) = v mod 2 ^ bits"
  using init_command_value [OF example_command_parsed] by auto
end
