(* ===== verification/Yaml_Bus.thy ===== *)
theory Yaml_Bus
  imports Yaml_Commands
begin

text \<open>
  What the readers of PDO lists, slaves, startup options and whole inline documents accept: each is a
  codec, so the configurations that can be loaded are exactly the well-formed ones of \<open>loadable\<close>, and
  what the table builder requires of a configuration follows from it.
\<close>

section \<open>PDO entries and mappings\<close>

definition ok_entry :: "abi \<Rightarrow> pdo_entry_config \<Rightarrow> bool" where
  "ok_entry A e \<longleftrightarrow> ok_text (MAX_PD_NAME_LEN A - 1) (pe_name e) \<and> pe_bit_length e \<noteq> 0 \<and> byte_aligned (pe_bit_length e)"

definition render_entry :: "pdo_entry_config \<Rightarrow> yaml" where
  "render_entry e = YMap [(plain ''name'', quoted (pe_name e)), (plain ''index'', word_node (pe_index e)),
     (plain ''sub_index'', word_node (pe_sub_index e)), (plain ''bit_length'', word_node (pe_bit_length e))]"

interpretation entry_codec: codec "parse_pdo_entry A path i" render_entry "ok_entry A"
proof
  fix node e assume "parse_pdo_entry A path i node = Inr e"
  then show "ok_entry A e"
    by (auto simp: parse_pdo_entry_def Let_def result_simps ok_entry_def ok_text_def parse_string_iff)
next
  fix e assume "ok_entry A e"
  then show "parse_pdo_entry A path i (render_entry e) = Inr e"
    by (simp add: ok_entry_def parse_pdo_entry_def Let_def render_entry_def reject_unknown_keys_def entry_keys_def
        require_node_def)
qed

definition ok_pdo :: "abi \<Rightarrow> pdo_mapping_config \<Rightarrow> bool" where
  "ok_pdo A m \<longleftrightarrow> (\<forall>e \<in> set (pm_entries m). ok_entry A e)"

definition render_pdo :: "pdo_mapping_config \<Rightarrow> yaml" where
  "render_pdo m = YMap [(plain ''index'', word_node (pm_index m)), (plain ''entries'', YSeq (map render_entry (pm_entries m)))]"

lemma traverse_set:
  assumes "traverse f i xs = Inr ys" "\<And>k x y. f k x = Inr y \<Longrightarrow> P y"
  shows "\<forall>y \<in> set ys. P y"
  using traverse_ok [OF assms] by (simp add: list_all_iff)

lemma traverse_render:
  assumes "\<And>k x. x \<in> set xs \<Longrightarrow> f k (g x) = Inr x"
  shows "traverse f i (map g xs) = Inr xs"
  using assms by (intro traverse_map) simp

interpretation pdo_codec: codec "parse_pdo A path i" render_pdo "ok_pdo A"
proof
  fix node m assume "parse_pdo A path i node = Inr m"
  then show "ok_pdo A m"
    by (auto simp: parse_pdo_def Let_def result_simps ok_pdo_def dest!: traverse_set [OF _ entry_codec.read_ok])
next
  fix m assume "ok_pdo A m"
  then have "traverse (parse_pdo_entry A p) 0 (map render_entry (pm_entries m)) = Inr (pm_entries m)" for p
    by (intro traverse_render) (simp add: ok_pdo_def entry_codec.read_render)
  then show "parse_pdo A path i (render_pdo m) = Inr m"
    by (simp add: parse_pdo_def Let_def render_pdo_def reject_unknown_keys_def require_node_def)
qed

definition ok_pdos :: "abi \<Rightarrow> pdo_mapping_config list \<Rightarrow> bool" where
  "ok_pdos A ms \<longleftrightarrow> ms \<noteq> [] \<and> (\<forall>m \<in> set ms. ok_pdo A m)"

interpretation pdos_codec: codec "\<lambda>n. parse_pdos A n path" "\<lambda>ms. YSeq (map render_pdo ms)" "ok_pdos A"
proof
  fix node ms assume p: "parse_pdos A node path = Inr ms"
  then have "is_sequence node" "node_size node \<noteq> 0" "traverse (parse_pdo A path) 0 (items node) = Inr ms"
    by (auto simp: parse_pdos_def result_simps)
  then show "ok_pdos A ms"
    using traverse_set [OF _ pdo_codec.read_ok] traverse_Inr_length by (cases node) (force simp: ok_pdos_def)+
next
  fix ms assume "ok_pdos A ms"
  then show "parse_pdos A (YSeq (map render_pdo ms)) path = Inr ms"
    by (auto simp: parse_pdos_def ok_pdos_def pdo_codec.read_render intro: traverse_render)
qed

definition ok_commands :: "init_command_config list \<Rightarrow> bool" where
  "ok_commands cs \<longleftrightarrow> (\<forall>c \<in> set cs. ok_command c)"

interpretation commands_codec: codec "\<lambda>n. parse_init_commands A n path" "\<lambda>cs. YSeq (map render_command cs)" ok_commands
proof
  fix node cs assume "parse_init_commands A node path = Inr cs"
  then show "ok_commands cs"
    by (auto simp: parse_init_commands_def result_simps ok_commands_def dest!: traverse_set [OF _ command_codec.read_ok])
next
  fix cs assume "ok_commands cs"
  then show "parse_init_commands A (YSeq (map render_command cs)) path = Inr cs"
    by (auto simp: parse_init_commands_def ok_commands_def command_codec.read_render intro: traverse_render)
qed


section \<open>Slaves\<close>

definition ok_slave :: "abi \<Rightarrow> nat \<Rightarrow> slave_pdo_config \<Rightarrow> bool" where
  "ok_slave A i s \<longleftrightarrow> unat (sc_id s) = i \<and> ok_text (MAX_SLAVE_NAME_LEN A - 1) (sc_name s)
     \<and> (\<exists>reference. sc_dc s = Some (yaml_clock reference)) \<and> ok_commands (sc_init_commands s)
     \<and> ok_pdos A (rx_pdos s) \<and> ok_pdos A (tx_pdos s)
     \<and> entry_count (rx_pdos s) \<le> MAX_PDOUTPUT_NUM A \<and> entry_count (tx_pdos s) \<le> MAX_PDINPUT_NUM A
     \<and> sc_vendor_id s = 0 \<and> sc_product_code s = 0"

definition reference_slave :: "slave_pdo_config \<Rightarrow> bool" where
  "reference_slave s = (case sc_dc s of None \<Rightarrow> False | Some dc \<Rightarrow> dc_reference dc)"

definition render_slave :: "slave_pdo_config \<Rightarrow> yaml" where
  "render_slave s = YMap [(plain ''id'', word_node (sc_id s)), (plain ''name'', quoted (sc_name s)),
     (plain ''dc_ref'', plain (if reference_slave s then ''true'' else ''false'')),
     (plain ''init_commands'', YSeq (map render_command (sc_init_commands s))),
     (plain ''rx_pdos'', YSeq (map render_pdo (rx_pdos s))), (plain ''tx_pdos'', YSeq (map render_pdo (tx_pdos s)))]"

lemma parse_boolean_plain: "parse_boolean (plain (if b then ''true'' else ''false'')) path = Inr b"
  by (simp add: parse_boolean_def plain_def)

interpretation slave_codec: codec "parse_slave A i" render_slave "ok_slave A i"
proof
  fix node s assume "parse_slave A i node = Inr s"
  then show "ok_slave A i s"
    unfolding ok_slave_def ok_text_def
    by (auto simp: parse_slave_def Let_def result_simps parse_string_iff commands_codec.read_ok
        pdos_codec.read_ok ok_commands_def split: option.splits
        dest: pdos_codec.read_ok commands_codec.read_ok [unfolded ok_commands_def])
next
  fix s assume ok: "ok_slave A i s"
  then obtain r where r: "sc_dc s = Some (yaml_clock r)" by (auto simp: ok_slave_def)
  then have ref: "reference_slave s = r" by (simp add: reference_slave_def yaml_clock_def)
  have "parse_pdos A (YSeq (map render_pdo (rx_pdos s))) p = Inr (rx_pdos s)"
    "parse_pdos A (YSeq (map render_pdo (tx_pdos s))) p = Inr (tx_pdos s)"
    "parse_init_commands A (YSeq (map render_command (sc_init_commands s))) p = Inr (sc_init_commands s)" for p
    using ok by (auto simp: ok_slave_def pdos_codec.read_render commands_codec.read_render)
  then show "parse_slave A i (render_slave s) = Inr s"
    using ok r by (simp add: parse_slave_def render_slave_def ref Let_def reject_unknown_keys_def slave_keys_def
        require_node_def parse_boolean_plain ok_slave_def not_less)
qed

lemma slaves_iff: "reference_count ss = length (filter reference_slave ss)"
  by (simp add: reference_count_def reference_slave_def [abs_def])


section \<open>Startup options\<close>

lemma parse_plain: "ok_text m s \<Longrightarrow> parse_string (plain s) path m = Inr s"
  by (simp add: parse_string_def plain_def ok_text_def)

lemma word_node_not_null [simp]: "word_node w \<noteq> YNull"
  by (simp add: word_node_def plain_def)

definition ok_options :: "runtime_options \<Rightarrow> bool" where
  "ok_options o' \<longleftrightarrow> 1000 \<le> period_us o' \<and> 1 \<le> preop_timeout_ms o' \<and> 1 \<le> op_timeout_ms o'
     \<and> 1 \<le> pdo_config_attempts o' \<and> config_path o' = [] \<and> \<not> show_help o'"

definition option_fields :: "runtime_options \<Rightarrow> (yaml \<times> yaml) list" where
  "option_fields o' = [(plain ''version'', plain ''1''), (plain ''id'', word_node (master_id o')), (plain ''cycle'', word_node (period_us o')),
     (plain ''preop_timeout_ms'', word_node (preop_timeout_ms o')), (plain ''op_timeout_ms'', word_node (op_timeout_ms o')),
     (plain ''pdo_config_attempts'', word_node (pdo_config_attempts o')),
     (plain ''cpuidx'', (case cpu o' of None \<Rightarrow> YNull | Some c \<Rightarrow> word_node c)),
     (plain ''dc'', plain (if dc_enabled o' then ''on'' else ''off''))]"

lemma parse_integer_ge:
  assumes "parse_integer node pre key v (ucast (m :: u32)) = Inr r" "m \<le> v"
  shows "m \<le> r"
proof (cases "field_of node key")
  case None
  with assms show ?thesis by (simp add: parse_integer_def)
next
  case (Some n)
  with assms(1) obtain p where p: "parse_unsigned_node n (pre @ [Key key]) 0xffffffff = Inr p" "\<not> p < ucast m" "r = ucast p"
    by (auto simp: parse_integer_def result_simps split: if_splits)
  have "unat p \<le> 4294967295" using parse_unsigned_le [OF p(1)] by (simp add: word_le_nat_alt)
  then have "unat r = unat p" using p(3) by (simp add: unsigned_ucast_eq take_bit_nat_eq_self)
  moreover have "unat m \<le> unat p" using p(2) unat_lt_2p_32 [of m] by (simp add: word_less_nat_alt unsigned_ucast_eq take_bit_nat_eq_self)
  ultimately show ?thesis by (simp add: word_le_nat_alt)
qed

lemma parse_integer_word:
  assumes "field_of node key = Some (word_node (w :: u32))" "m \<le> w"
  shows "parse_integer node pre key v (ucast m) = Inr w"
proof -
  have "\<not> (ucast w :: u64) < ucast m"
    using assms(2) unat_lt_2p_32 [of m] unat_lt_2p_32 [of w]
    by (simp add: word_less_nat_alt word_le_nat_alt unsigned_ucast_eq take_bit_nat_eq_self)
  then show ?thesis using assms(1) by (simp add: parse_integer_def)
qed

lemma parse_master_ok:
  assumes "parse_master_options node d flat = Inr o'" "ok_options d"
  shows "ok_options o'"
proof -
  have m: "(1000 :: u64) = ucast (1000 :: u32)" "(1 :: u64) = ucast (1 :: u32)" by simp_all
  from assms obtain pre kp period preop op tries where
    "parse_integer node pre kp (period_us d) 1000 = Inr period"
    "parse_integer node pre ''preop_timeout_ms'' (preop_timeout_ms d) 1 = Inr preop"
    "parse_integer node pre ''op_timeout_ms'' (op_timeout_ms d) 1 = Inr op"
    "parse_integer node pre ''pdo_config_attempts'' (pdo_config_attempts d) 1 = Inr tries"
    and o: "period_us o' = period" "preop_timeout_ms o' = preop" "op_timeout_ms o' = op" "pdo_config_attempts o' = tries"
      "config_path o' = config_path d" "show_help o' = show_help d"
    by (auto simp: parse_master_options_def Let_def result_simps)
  note p = this
  have "1000 \<le> period" "1 \<le> preop" "1 \<le> op" "1 \<le> tries"
    using p(1-4) assms(2) unfolding m ok_options_def by (blast intro: parse_integer_ge)+
  then show ?thesis using o assms(2) by (simp add: ok_options_def)
qed

lemma parse_startup_ok:
  "parse_startup_options doc d = Inr o' \<Longrightarrow> ok_options d \<Longrightarrow> ok_options o'"
  by (auto simp: parse_startup_options_def parse_master_ok split: option.splits)

lemma ok_options_init: "ok_options runtime_options_init"
  by (simp add: ok_options_def runtime_options_init_def)

lemma read_startup_fields:
  assumes "ok_options o'"
  shows "parse_startup_options (YMap (option_fields o' @ [(plain ''slaves'', n)])) runtime_options_init = Inr o'"
proof -
  let ?doc = "YMap (option_fields o' @ [(plain ''slaves'', n)])"
  have m: "(0 :: u64) = ucast (0 :: u32)" "(1000 :: u64) = ucast (1000 :: u32)" "(1 :: u64) = ucast (1 :: u32)" by simp_all
  have i: "parse_integer ?doc pre ''id'' v 0 = Inr (master_id o')"
    "parse_integer ?doc pre ''cycle'' v 1000 = Inr (period_us o')"
    "parse_integer ?doc pre ''preop_timeout_ms'' v 1 = Inr (preop_timeout_ms o')"
    "parse_integer ?doc pre ''op_timeout_ms'' v 1 = Inr (op_timeout_ms o')"
    "parse_integer ?doc pre ''pdo_config_attempts'' v 1 = Inr (pdo_config_attempts o')" for pre v
    unfolding m by (rule parse_integer_word; use assms in \<open>simp add: option_fields_def ok_options_def\<close>)+
  have "parse_integer ?doc pre ''cpuidx'' v 0 = Inr c" if "cpu o' = Some c" for pre v c
    unfolding m by (rule parse_integer_word) (use that in \<open>simp_all add: option_fields_def\<close>)
  then have c: "parse_cpu ?doc pre ''cpuidx'' v = Inr (cpu o')" for pre v
    by (cases "cpu o'") (simp_all add: parse_cpu_def option_fields_def)
  have d: "parse_dc ?doc pre v = Inr (dc_enabled o')" for pre v
    by (simp add: parse_dc_def option_fields_def parse_plain ok_text_def)
  have "field_of ?doc ''master'' = None" by (simp add: option_fields_def)
  then show ?thesis
    using assms i c d by (simp add: parse_startup_options_def parse_master_options_def Let_def runtime_options_init_def ok_options_def)
qed


section \<open>The document\<close>

definition loadable :: "abi \<Rightarrow> pdo_bus_config \<Rightarrow> bool" where
  "loadable A c \<longleftrightarrow> bc_slaves c \<noteq> [] \<and> length (bc_slaves c) \<le> MAX_SLAVE_NUM A
     \<and> (\<forall>i < length (bc_slaves c). ok_slave A i (bc_slaves c ! i))
     \<and> length (filter reference_slave (bc_slaves c)) \<le> 1
     \<and> ok_options (bc_master c) \<and> \<not> from_eni c \<and> eni_path c = []"

definition render_doc :: "pdo_bus_config \<Rightarrow> yaml" where
  "render_doc c = YMap (option_fields (bc_master c) @ [(plain ''slaves'', YSeq (map render_slave (bc_slaves c)))])"

lemma inline_config_ok:
  assumes "inline_config A source doc = Inr c"
  shows "loadable A c \<and> source_yaml c = source"
proof -
  from assms obtain node o' ss where n: "is_sequence node" "node_size node \<noteq> 0" "node_size node \<le> MAX_SLAVE_NUM A"
    "parse_startup_options doc runtime_options_init = Inr o'" "traverse (parse_slave A) 0 (items node) = Inr ss"
    "length (filter reference_slave ss) \<le> 1"
    "c = \<lparr>bc_slaves = ss, bc_master = o', source_yaml = source, from_eni = False, eni_path = []\<rparr>"
    by (auto simp: inline_config_def result_simps slaves_iff not_less)
  have len: "length ss = node_size node" using n(1) traverse_Inr_length [OF n(5)] by (cases node) auto
  have "\<forall>i < length ss. ok_slave A i (ss ! i)"
    using n(5) by (auto simp: traverse_Inr intro: slave_codec.read_ok)
  then show ?thesis using n len parse_startup_ok [OF n(4) ok_options_init] by (auto simp: loadable_def)
qed

lemma inline_config_render:
  assumes "loadable A c"
  shows "inline_config A (source_yaml c) (render_doc c) = Inr c"
proof -
  have "field_of (render_doc c) ''slaves'' = Some (YSeq (map render_slave (bc_slaves c)))"
    by (simp add: render_doc_def option_fields_def)
  moreover have "traverse (parse_slave A) 0 (map render_slave (bc_slaves c)) = Inr (bc_slaves c)"
    using assms by (intro traverse_map) (simp add: loadable_def slave_codec.read_render)
  moreover have "parse_startup_options (render_doc c) runtime_options_init = Inr (bc_master c)"
    unfolding render_doc_def by (rule read_startup_fields) (use assms in \<open>simp add: loadable_def\<close>)
  ultimately show ?thesis
    using assms by (simp add: inline_config_def require_node_def loadable_def slaves_iff not_less)
qed

text \<open>
  Claim C30. The configurations that an inline startup document can give are exactly the well-formed
  ones: between one and \<open>MAX_SLAVE_NUM\<close> slaves numbered by their position, with names that fit the ABI,
  non-empty lists of mappings whose entries are byte aligned, named and not more than the ABI holds,
  initialization commands of 1, 2, 4 or 8 bytes, a clock with at most one reference slave, no configured
  identity, options in their ranges, and the document's text as snapshot.
\<close>
theorem inline_config_exact:
  "(\<exists>doc. inline_config A source doc = Inr c) \<longleftrightarrow> loadable A c \<and> source_yaml c = source"
  using inline_config_ok inline_config_render by blast


section \<open>A concrete document\<close>

definition example_loaded :: pdo_bus_config where
  "example_loaded = \<lparr>bc_slaves = [\<lparr>sc_id = 0, sc_name = ''drive'', rx_pdos = [\<lparr>pm_index = 0x1600, pm_entries = []\<rparr>],
     tx_pdos = [\<lparr>pm_index = 0x1a00, pm_entries = [\<lparr>pe_name = ''status'', pe_index = 0x6041, pe_sub_index = 0,
       pe_bit_length = 16\<rparr>]\<rparr>], sc_dc = Some (yaml_clock True),
     sc_init_commands = [\<lparr>ic_index = 0x6060, ic_sub_index = 0, ic_size = 2, ic_data = [0xfe, 0xff, 0, 0, 0, 0, 0, 0]\<rparr>],
     sc_vendor_id = 0, sc_product_code = 0\<rparr>],
     bc_master = runtime_options_init\<lparr>period_us := 2000, dc_enabled := True\<rparr>, source_yaml = ''text'', from_eni = False,
     eni_path = []\<rparr>"

lemma example_loadable: "loadable abi_example example_loaded"
  by (auto simp: loadable_def example_loaded_def ok_slave_def ok_text_def ok_commands_def ok_command_def ok_pdos_def
      ok_pdo_def ok_entry_def byte_aligned_def entry_count_def reference_slave_def yaml_clock_def ok_options_def
      runtime_options_init_def abi_example_def replicate_numeral_zero)

end
