(* ===== verification/Eni_Config.thy ===== *)
theory Eni_Config
  imports Yaml_Config
begin

text \<open>
  The ENI reader of src/src/eni_config.cpp over the document tree of libxml2: elements with attributes
  and children, and text. A null node is \<open>None\<close>; a thrown exception is an error value, wrapped where
  the code catches and rethrows it with its field or slave. The XML parser is a parameter of
  \<open>load_eni_config\<close>. The numbers of the text are read by \<open>from_chars_base\<close>, which is \<open>std::from_chars\<close>.
\<close>

section \<open>Documents and text\<close>

datatype xml = XElem string "(string \<times> string) list" "xml list" | XText string | XOther

fun named :: "string \<Rightarrow> xml \<Rightarrow> bool" where
  "named name (XElem n attrs cs) \<longleftrightarrow> n = name"
| "named name _ \<longleftrightarrow> False"

fun children :: "xml \<Rightarrow> xml list" where
  "children (XElem n attrs cs) = cs"
| "children _ = []"

definition children_of :: "xml option \<Rightarrow> xml list" where
  "children_of node = (case node of None \<Rightarrow> [] | Some n \<Rightarrow> children n)"

datatype eni_error =
    ChildDuplicated string | ChildRequired string | BadNumber string | InField string eni_error
  | BadLabel string | DataNotPairs | DataBadSize | SmTypeMismatch | DisabledAssigned | DisabledSelected
  | DuplicatePdo | UnsupportedSm | SmConflict | DuplicateAssignment | UndeclaredAssignment
  | UnsupportedSyncUnit | EntryNotAligned | TooManyEntries | UnsupportedCommand | UnsupportedCompleteAccess
  | BadShift | InactiveClock | UnsupportedActivation | BadActivationData | ActivationConflict
  | ActivationMissing | InSlave u16 eni_error | TooManyEniSlaves | BadStation | ZeroIdentity
  | UnsupportedManager | NoEniSlaves | NotContiguous | OneReference | ShortCycle | UnreadableXml | HasDtd | WrongRoot

text \<open>The only child of a name.\<close>

definition child :: "xml option \<Rightarrow> string \<Rightarrow> bool \<Rightarrow> eni_error + xml option" where
  "child parent name required =
     (case filter (named name) (children_of parent) of
        [] \<Rightarrow> if required then Inl (ChildRequired name) else Inr None
      | [n] \<Rightarrow> Inr (Some n)
      | _ \<Rightarrow> Inl (ChildDuplicated name))"

definition blank :: "char \<Rightarrow> bool" where
  "blank c \<longleftrightarrow> c = CHR '' '' \<or> c = CHR 0x09 \<or> c = CHR 0x0D \<or> c = CHR 0x0A"

definition trim :: "string \<Rightarrow> string" where
  "trim s = rev (dropWhile blank (rev (dropWhile blank s)))"

text \<open>\<open>xmlNodeGetContent\<close> collects the text below a node.\<close>

fun node_text :: "xml \<Rightarrow> string" where
  "node_text (XElem n attrs cs) = concat (map node_text cs)"
| "node_text (XText s) = s"
| "node_text XOther = []"

definition content :: "xml option \<Rightarrow> string" where
  "content node = (case node of None \<Rightarrow> [] | Some n \<Rightarrow> trim (node_text n))"

fun attribute :: "xml \<Rightarrow> string \<Rightarrow> string" where
  "attribute (XElem n attrs cs) name = (case map_of attrs name of None \<Rightarrow> [] | Some v \<Rightarrow> trim v)"
| "attribute _ name = []"

definition from_chars_base :: "bool \<Rightarrow> string \<Rightarrow> (u64 \<times> string) option" where
  "from_chars_base hex t =
     (let digit = (if hex then is_hex_digit else is_digit); ds = takeWhile digit t;
          v = (if hex then hexadecimal ds else decimal ds) in
      if ds = [] \<or> 2 ^ 64 \<le> v then None else Some (of_nat v, dropWhile digit t))"

definition number :: "string \<Rightarrow> u64 \<Rightarrow> eni_error + u64" where
  "number t maximum =
     (let t = trim t;
          hex = starts_with ''#x'' t \<or> starts_with ''#X'' t \<or> starts_with ''0x'' t \<or> starts_with ''0X'' t
      in case from_chars_base hex (if hex then drop 2 t else t) of
           Some (v, []) \<Rightarrow> if maximum < v then Inl (BadNumber t) else Inr v
         | _ \<Rightarrow> Inl (BadNumber t))"

definition field_value :: "xml option \<Rightarrow> string \<Rightarrow> u64 \<Rightarrow> eni_error + u64" where
  "field_value node name maximum =
     (case and_then (child node name True) (\<lambda>n. number (content n) maximum) of
        Inl e \<Rightarrow> Inl (InField name e) | Inr v \<Rightarrow> Inr v)"

definition label :: "xml option \<Rightarrow> string \<Rightarrow> string \<Rightarrow> nat \<Rightarrow> eni_error + string" where
  "label parent name fallback limit =
     and_then (child parent name False) (\<lambda>n.
       let t = content n; result = (if t = [] then fallback else t) in
       if result = [] \<or> limit < length result then Inl (BadLabel name) else Inr result)"

text \<open>\<open>std::isspace\<close>, and the bytes of a \<open>Data\<close> child.\<close>

definition is_space :: "char \<Rightarrow> bool" where
  "is_space c \<longleftrightarrow> c = CHR '' '' \<or> (9 \<le> (of_char c :: nat) \<and> (of_char c :: nat) \<le> 13)"

fun hex_pairs :: "string \<Rightarrow> eni_error + u8 list" where
  "hex_pairs (a # b # t) =
     and_then (number (''#x'' @ [a, b]) 255) (\<lambda>v. and_then (hex_pairs t) (\<lambda>bs. Inr (ucast v # bs)))"
| "hex_pairs _ = Inr []"

definition data_bytes :: "xml \<Rightarrow> eni_error + u8 list" where
  "data_bytes command =
     and_then (child (Some command) ''Data'' True) (\<lambda>n.
       let t = filter (\<lambda>c. \<not> is_space c) (content n) in
       if t = [] \<or> length t mod 2 \<noteq> 0 then Inl DataNotPairs else hex_pairs t)"

definition transition :: "xml \<Rightarrow> string \<Rightarrow> bool" where
  "transition command phase \<longleftrightarrow> list_ex (\<lambda>n. named ''Transition'' n \<and> content (Some n) = phase) (children command)"


section \<open>PDOs\<close>

definition pdo_tag :: "bool \<Rightarrow> string" where
  "pdo_tag rx = (if rx then ''RxPdo'' else ''TxPdo'')"

text \<open>The PDO list of a sync manager.\<close>

definition assigned_pdos :: "xml option \<Rightarrow> eni_error + u16 list" where
  "assigned_pdos manager =
     traverse (\<lambda>i n. and_then (number (content (Some n)) 65535) (\<lambda>v. Inr (ucast v))) 0
       (filter (named ''Pdo'') (children_of manager))"

text \<open>\<open>True\<close>: the manager is disabled and nothing uses it.\<close>

definition manager_disabled :: "xml \<Rightarrow> xml \<Rightarrow> bool \<Rightarrow> u16 list \<Rightarrow> eni_error + bool" where
  "manager_disabled process manager rx assigned =
     and_then (child (Some manager) ''Type'' True) (\<lambda>type.
     and_then (ensure (content type = (if rx then ''Outputs'' else ''Inputs'')) SmTypeMismatch) (\<lambda>_.
     and_then (child (Some manager) ''Enable'' False) (\<lambda>enable.
       if enable = None then Inr False
       else and_then (number (content enable) 1) (\<lambda>v.
         if v \<noteq> 0 then Inr False
         else and_then (ensure (assigned = []) DisabledAssigned) (\<lambda>_.
              and_then (ensure (\<not> list_ex (\<lambda>n. named (pdo_tag rx) n \<and> attribute n ''Sm'' \<noteq> []) (children process))
                  DisabledSelected) (\<lambda>_. Inr True))))))"

text \<open>The declared PDOs, of which those of the manager are selected.\<close>

fun select_pdos :: "bool \<Rightarrow> u16 list \<Rightarrow> u16 list \<Rightarrow> xml list \<Rightarrow> eni_error + xml list" where
  "select_pdos rx assigned declared [] = Inr []"
| "select_pdos rx assigned declared (n # ns) =
     (if \<not> named (pdo_tag rx) n then select_pdos rx assigned declared ns
      else and_then (field_value (Some n) ''Index'' 65535) (\<lambda>v.
        let index = ucast v; attr = attribute n ''Sm''; listed = index \<in> set assigned in
        and_then (ensure (index \<notin> set declared) DuplicatePdo) (\<lambda>_.
        and_then (if attr = [] then Inr ()
          else and_then (number attr 255) (\<lambda>sm. ensure (sm = (if rx then 2 else 3)) UnsupportedSm)) (\<lambda>_.
        and_then (ensure (\<not> (assigned \<noteq> [] \<and> attr \<noteq> [] \<and> \<not> listed)) SmConflict) (\<lambda>_.
        and_then (select_pdos rx assigned (index # declared) ns) (\<lambda>rest.
          Inr (if (if assigned = [] then attr \<noteq> [] else listed) then n # rest else rest)))))))"

fun find_pdo :: "u16 \<Rightarrow> xml list \<Rightarrow> eni_error + xml option" where
  "find_pdo index [] = Inr None"
| "find_pdo index (n # ns) =
     and_then (field_value (Some n) ''Index'' 65535) (\<lambda>v. if v = ucast index then Inr (Some n) else find_pdo index ns)"

text \<open>The order of the assignment is the order of the PDOs.\<close>

fun order_pdos :: "xml list \<Rightarrow> u16 list \<Rightarrow> u16 list \<Rightarrow> eni_error + xml list" where
  "order_pdos selected seen [] = Inr []"
| "order_pdos selected seen (index # rest) =
     and_then (ensure (index \<notin> set seen) DuplicateAssignment) (\<lambda>_.
     and_then (find_pdo index selected) (\<lambda>found.
       case found of
         None \<Rightarrow> Inl UndeclaredAssignment
       | Some n \<Rightarrow> and_then (order_pdos selected (index # seen) rest) (\<lambda>ns. Inr (n # ns))))"

definition entry_limit :: "abi \<Rightarrow> bool \<Rightarrow> nat" where
  "entry_limit A rx = (if rx then MAX_PDOUTPUT_NUM A else MAX_PDINPUT_NUM A)"

definition read_entry :: "abi \<Rightarrow> xml \<Rightarrow> eni_error + pdo_entry_config" where
  "read_entry A e =
     and_then (field_value (Some e) ''Index'' 65535) (\<lambda>iv.
     let index = ucast iv :: u16 in
     and_then (child (Some e) ''SubIndex'' (index \<noteq> 0)) (\<lambda>sub.
     and_then (if sub = None then Inr 0 else number (content sub) 255) (\<lambda>sv.
     and_then (field_value (Some e) ''BitLen'' 255) (\<lambda>bv.
     let sub_index = ucast sv :: u8; bit_length = ucast bv :: u8 in
     and_then (ensure (bit_length \<noteq> 0 \<and> byte_aligned bit_length) EntryNotAligned) (\<lambda>_.
     and_then (label (Some e) ''Name''
         (if index = 0 then ''Padding''
          else ''Object_'' @ show_nat (unat index) @ ''_'' @ show_nat (unat sub_index))
         (MAX_PD_NAME_LEN A - 1)) (\<lambda>name.
     Inr \<lparr>pe_name = name, pe_index = index, pe_sub_index = sub_index, pe_bit_length = bit_length\<rparr>))))))"

text \<open>The entries of a PDO; the counter runs over all PDOs of the direction.\<close>

fun read_entries :: "abi \<Rightarrow> bool \<Rightarrow> nat \<Rightarrow> xml list \<Rightarrow> eni_error + (nat \<times> pdo_entry_config list)" where
  "read_entries A rx count [] = Inr (count, [])"
| "read_entries A rx count (e # es) =
     (if \<not> named ''Entry'' e then read_entries A rx count es
      else and_then (read_entry A e) (\<lambda>entry.
        and_then (ensure (\<not> entry_limit A rx < Suc count) TooManyEntries) (\<lambda>_.
        and_then (read_entries A rx (Suc count) es) (\<lambda>(c, entries). Inr (c, entry # entries)))))"

fun read_pdos :: "abi \<Rightarrow> bool \<Rightarrow> nat \<Rightarrow> xml list \<Rightarrow> eni_error + pdo_mapping_config list" where
  "read_pdos A rx count [] = Inr []"
| "read_pdos A rx count (n # ns) =
     and_then (field_value (Some n) ''Index'' 65535) (\<lambda>v.
     let su = attribute n ''Su'' in
     and_then (if su = [] then Inr () else and_then (number su 65535) (\<lambda>u. ensure (u = 0) UnsupportedSyncUnit)) (\<lambda>_.
     and_then (read_entries A rx count (children n)) (\<lambda>(c, entries).
     and_then (read_pdos A rx c ns) (\<lambda>ms. Inr (\<lparr>pm_index = ucast v, pm_entries = entries\<rparr> # ms)))))"

definition eni_pdos :: "abi \<Rightarrow> xml option \<Rightarrow> bool \<Rightarrow> eni_error + pdo_mapping_config list" where
  "eni_pdos A process rx =
     (case process of
        None \<Rightarrow> Inr []
      | Some p \<Rightarrow>
          and_then (child process (if rx then ''Sm2'' else ''Sm3'') False) (\<lambda>manager.
          and_then (assigned_pdos manager) (\<lambda>assigned.
          and_then (case manager of None \<Rightarrow> Inr False | Some m \<Rightarrow> manager_disabled p m rx assigned) (\<lambda>disabled.
          if disabled then Inr []
          else
            and_then (select_pdos rx assigned [] (children p)) (\<lambda>selected.
            and_then (if assigned = [] then Inr selected else order_pdos selected [] assigned) (\<lambda>selected.
              read_pdos A rx 0 selected))))))"


section \<open>Commands and clocks\<close>

text \<open>Objects of the PDO configuration, which is owned by the configuration path of the master.\<close>

definition pdo_object :: "u16 \<Rightarrow> bool" where
  "pdo_object index \<longleftrightarrow> 0x1600 \<le> index \<and> index \<le> 0x1bff \<or> index = 0x1c12 \<or> index = 0x1c13"

definition read_command :: "xml \<Rightarrow> eni_error + init_command_config option" where
  "read_command c =
     and_then (child (Some c) ''Transition'' True) (\<lambda>tr.
     and_then (if content tr \<noteq> ''PS'' then Inl UnsupportedCommand
       else and_then (field_value (Some c) ''Ccs'' 255) (\<lambda>ccs. ensure (ccs = 1) UnsupportedCommand)) (\<lambda>_.
     and_then (field_value (Some c) ''Index'' 65535) (\<lambda>iv.
     let index = ucast iv in
     if pdo_object index then Inr None
     else
       let ca = attribute c ''CompleteAccess'' in
       and_then (if ca = [] then Inr () else and_then (number ca 1) (\<lambda>v. ensure (v = 0) UnsupportedCompleteAccess)) (\<lambda>_.
       and_then (field_value (Some c) ''SubIndex'' 255) (\<lambda>sv.
       and_then (data_bytes c) (\<lambda>bs.
       and_then (ensure (length bs \<in> {1, 2, 4, 8}) DataBadSize) (\<lambda>_.
       Inr (Some \<lparr>ic_index = index, ic_sub_index = ucast sv, ic_size = of_nat (length bs),
         ic_data = bs @ replicate (8 - length bs) 0\<rparr>))))))))"

definition eni_init_commands :: "xml \<Rightarrow> eni_error + init_command_config list" where
  "eni_init_commands slave =
     and_then (child (Some slave) ''Mailbox'' False) (\<lambda>mailbox_node.
     and_then (child mailbox_node ''CoE'' False) (\<lambda>coe.
     and_then (child coe ''InitCmds'' False) (\<lambda>commands.
     and_then (traverse (\<lambda>i c. read_command c) 0 (filter (named ''InitCmd'') (children_of commands))) (\<lambda>cs.
     Inr (map the (filter (\<lambda>c. c \<noteq> None) cs))))))"

definition from_chars_s32 :: "string \<Rightarrow> (int \<times> string) option" where
  "from_chars_s32 t =
     (let neg = (t \<noteq> [] \<and> hd t = CHR ''-''); r = (if neg then tl t else t);
          ds = takeWhile is_digit r; v = (if neg then - int (decimal ds) else int (decimal ds)) in
      if ds = [] \<or> v < - (2 ^ 31) \<or> 2 ^ 31 \<le> v then None else Some (v, dropWhile is_digit r))"

text \<open>The register writes that activate the clock; all of them have to agree.\<close>

fun activation_of :: "u16 option \<Rightarrow> xml list \<Rightarrow> eni_error + u16 option" where
  "activation_of activation [] = Inr activation"
| "activation_of activation (c # cs) =
     (if \<not> named ''InitCmd'' c \<or> \<not> transition c ''PS'' then activation_of activation cs
      else and_then (field_value (Some c) ''Ado'' 65535) (\<lambda>ado.
        if ado \<noteq> 0x980 \<and> ado \<noteq> 0x981 then activation_of activation cs
        else
          and_then (field_value (Some c) ''Cmd'' 255) (\<lambda>cmd.
          and_then (ensure (\<not> (cmd \<noteq> 2 \<and> cmd \<noteq> 5)) UnsupportedActivation) (\<lambda>_.
          and_then (data_bytes c) (\<lambda>bs.
          and_then (ensure (length bs = (if ado = 0x980 then 2 else 1)) BadActivationData) (\<lambda>_.
          let assign = (if ado = 0x980 then or (ucast (bs ! 0)) (push_bit 8 (ucast (bs ! 1))) else push_bit 8 (ucast (bs ! 0))) :: u16 in
          and_then (ensure (activation = None \<or> activation = Some assign) ActivationConflict) (\<lambda>_.
            activation_of (Some assign) cs)))))))"

definition eni_clock :: "xml \<Rightarrow> eni_error + distributed_clock_config option" where
  "eni_clock slave =
     and_then (child (Some slave) ''DC'' False) (\<lambda>dc.
     if dc = None then Inr None
     else
       and_then (field_value dc ''CycleTime0'' 0xffffffff) (\<lambda>c0.
       and_then (field_value dc ''CycleTime1'' 0xffffffff) (\<lambda>c1.
       and_then (field_value dc ''ReferenceClock'' 1) (\<lambda>ref.
       and_then (child dc ''ShiftTime'' True) (\<lambda>shift_node.
       case from_chars_s32 (content shift_node) of
         Some (shift, []) \<Rightarrow>
           let sync0 = ucast c0 :: u32; sync1 = ucast c1 :: u32; reference = (ref \<noteq> 0) in
           if sync0 = 0 then and_then (ensure (\<not> (reference \<or> sync1 \<noteq> 0)) InactiveClock) (\<lambda>_. Inr None)
           else
             and_then (child (Some slave) ''InitCmds'' False) (\<lambda>commands.
             and_then (activation_of None (children_of commands)) (\<lambda>activation.
             case activation of
               None \<Rightarrow> Inl ActivationMissing
             | Some a \<Rightarrow>
                 and_then (ensure (and a 0x100 \<noteq> 0) ActivationMissing) (\<lambda>_.
                 Inr (Some \<lparr>assign_activate = a, sync0_shift_ns = word_of_int shift, sync1_cycle_ns = sync1,
                   sync1_shift_ns = 0, dc_reference = reference, dc_sync0_cycle_ns = sync0\<rparr>))))
       | _ \<Rightarrow> Inl BadShift)))))"


section \<open>Slaves and the bus\<close>

text \<open>Sync managers other than SM2 and SM3 may not carry process data.\<close>

definition other_manager_check :: "xml \<Rightarrow> eni_error + unit" where
  "other_manager_check n =
     (case n of
        XElem tag attrs cs \<Rightarrow>
          if \<not> starts_with ''Sm'' tag \<or> tag = ''Sm2'' \<or> tag = ''Sm3'' then Inr ()
          else and_then (child (Some n) ''Type'' False) (\<lambda>type.
            ensure (\<not> (content type = ''Inputs'' \<or> content type = ''Outputs'')) UnsupportedManager)
      | _ \<Rightarrow> Inr ())"

definition in_slave :: "u16 \<Rightarrow> eni_error + 'a \<Rightarrow> eni_error + 'a" where
  "in_slave position r = (case r of Inl e \<Rightarrow> Inl (InSlave position e) | Inr a \<Rightarrow> Inr a)"

definition read_eni_slave :: "abi \<Rightarrow> u16 list \<Rightarrow> xml \<Rightarrow> eni_error + (u16 \<times> slave_pdo_config)" where
  "read_eni_slave A stations s =
     and_then (child (Some s) ''Info'' True) (\<lambda>info.
     and_then (field_value info ''AutoIncAddr'' 65535) (\<lambda>addr.
     and_then (field_value info ''PhysAddr'' 65535) (\<lambda>phys.
     let sid = ucast (0 - addr) :: u16; station = ucast phys :: u16 in
     and_then (ensure (\<not> (station = 0 \<or> station \<in> set stations)) BadStation) (\<lambda>_.
     and_then (label info ''Name'' [] (MAX_SLAVE_NAME_LEN A - 1)) (\<lambda>name.
     and_then (field_value info ''VendorId'' 0xffffffff) (\<lambda>vendor.
     and_then (field_value info ''ProductCode'' 0xffffffff) (\<lambda>product.
     and_then (ensure (\<not> ((ucast vendor :: u32) = 0 \<or> (ucast product :: u32) = 0)) ZeroIdentity) (\<lambda>_.
     in_slave sid (
       and_then (child (Some s) ''ProcessData'' False) (\<lambda>process.
       and_then (traverse (\<lambda>i n. other_manager_check n) 0 (children_of process)) (\<lambda>_.
       and_then (eni_pdos A process True) (\<lambda>rx.
       and_then (eni_pdos A process False) (\<lambda>tx.
       and_then (eni_clock s) (\<lambda>dc.
       and_then (eni_init_commands s) (\<lambda>commands.
       Inr (station, \<lparr>sc_id = sid, sc_name = name, rx_pdos = rx, tx_pdos = tx, sc_dc = dc,
         sc_init_commands = commands, sc_vendor_id = ucast vendor, sc_product_code = ucast product\<rparr>))))))))))))))))"

fun read_eni_slaves :: "abi \<Rightarrow> u16 list \<Rightarrow> slave_pdo_config list \<Rightarrow> xml list \<Rightarrow> eni_error + slave_pdo_config list" where
  "read_eni_slaves A stations ss [] = Inr ss"
| "read_eni_slaves A stations ss (s # rest) =
     (if \<not> named ''Slave'' s then read_eni_slaves A stations ss rest
      else and_then (ensure (length ss \<noteq> MAX_SLAVE_NUM A) TooManyEniSlaves) (\<lambda>_.
        and_then (read_eni_slave A stations s) (\<lambda>(station, slave).
          read_eni_slaves A (station # stations) (ss @ [slave]) rest)))"

definition eni_bus :: "abi \<Rightarrow> string \<Rightarrow> xml option \<Rightarrow> eni_error + pdo_bus_config" where
  "eni_bus A path doc =
     and_then (ensure (case doc of None \<Rightarrow> False | Some r \<Rightarrow> named ''EtherCATConfig'' r) WrongRoot) (\<lambda>_.
     and_then (child doc ''Config'' True) (\<lambda>bus.
     and_then (child bus ''Cyclic'' False) (\<lambda>cyclic.
     and_then (if cyclic = None then Inr (period_us runtime_options_init)
       else and_then (field_value cyclic ''CycleTime'' 0xffffffff) (\<lambda>v. Inr (ucast v))) (\<lambda>period.
     and_then (ensure (\<not> period < 1000) ShortCycle) (\<lambda>_.
     and_then (read_eni_slaves A [] [] (children_of bus)) (\<lambda>ss.
     and_then (ensure (ss \<noteq> []) NoEniSlaves) (\<lambda>_.
     let ss = sort_key sc_id ss; dc_on = list_ex (\<lambda>s. sc_dc s \<noteq> None) ss in
     and_then (ensure (list_all (\<lambda>i. unat (sc_id (ss ! i)) = i) [0..<length ss]) NotContiguous) (\<lambda>_.
     and_then (ensure (\<not> (dc_on \<and> reference_count ss \<noteq> 1)) OneReference) (\<lambda>_.
     Inr \<lparr>bc_slaves = ss, bc_master = runtime_options_init\<lparr>period_us := period, dc_enabled := dc_on\<rparr>,
       source_yaml = [], from_eni = True, eni_path = path\<rparr>)))))))))"

text \<open>What \<open>xmlReadFile\<close> gives: nothing, or a document that may have a DTD.\<close>

record xml_doc =
  has_subset :: bool
  doc_root :: "xml option"

definition load_eni_config :: "abi \<Rightarrow> (string \<Rightarrow> xml_doc option) \<Rightarrow> string \<Rightarrow> eni_error + pdo_bus_config" where
  "load_eni_config A read_xml path =
     (case read_xml path of
        None \<Rightarrow> Inl UnreadableXml
      | Some doc \<Rightarrow> if has_subset doc then Inl HasDtd else eni_bus A path (doc_root doc))"

end
