(* ===== verification/Config_File.thy ===== *)
theory Config_File
  imports Yaml_Bus Eni_Config
begin

text \<open>
  \<open>loadPdoConfig\<close> of src/src/pdo_config.cpp: the startup file, inline or with a referenced ENI, and the
  contract \<open>usable\<close> that every configuration it returns meets. The file system, the YAML parser and the
  XML parser are the fields of the parameter \<open>config_files\<close>.
\<close>

section \<open>Reading the startup file\<close>

datatype file_problem = CannotOpen | CannotRead

record 'w config_files =
  read_source :: "string \<Rightarrow> 'w \<Rightarrow> (file_problem + string) \<times> 'w"
  yaml_load :: "string \<Rightarrow> yaml option"
  read_xml :: "string \<Rightarrow> 'w \<Rightarrow> xml_doc option \<times> 'w"

datatype load_error = InFile file_problem | XmlNotYaml | BadYaml | InDocument yaml_error | InEni eni_error

definition pdo_bus_config_init :: pdo_bus_config where
  "pdo_bus_config_init = \<lparr>bc_slaves = [], bc_master = runtime_options_init, source_yaml = [], from_eni = False,
     eni_path = []\<rparr>"

text \<open>\<open>std::filesystem::path\<close>: the parent of a path, and a path appended to it.\<close>

definition parent_path :: "string \<Rightarrow> string" where
  "parent_path p =
     (let d = rev (dropWhile (\<lambda>c. c \<noteq> CHR ''/'') (rev p)); e = rev (dropWhile (\<lambda>c. c = CHR ''/'') (rev d))
      in if e = [] \<and> d \<noteq> [] then ''/'' else e)"

definition append_path :: "string \<Rightarrow> string \<Rightarrow> string" where
  "append_path p q =
     (if starts_with ''/'' q \<or> p = [] then q else if last p = CHR ''/'' then p @ q else p @ ''/'' @ q)"

text \<open>The first character that is not blank, after a byte order mark.\<close>

definition starts_as_xml :: "string \<Rightarrow> bool" where
  "starts_as_xml source =
     (let bom = [CHR 0xEF, CHR 0xBB, CHR 0xBF];
          rest = dropWhile blank (if take 3 source = bom then drop 3 source else source)
      in rest \<noteq> [] \<and> hd rest = CHR ''<'')"

definition root_keys :: "string list" where
  "root_keys = [''version'', ''master'', ''slaves'', ''eni'', ''id'', ''cycle'', ''cpuidx'', ''dc'',
     ''preop_timeout_ms'', ''op_timeout_ms'', ''pdo_config_attempts'']"

definition check_version :: "yaml \<Rightarrow> yaml_error + unit" where
  "check_version doc =
     (if field_of doc ''version'' \<noteq> None \<or> field_of doc ''eni'' = None
      then and_then (require_node doc ''version'' [Key ''root'']) (\<lambda>n.
           and_then (parse_unsigned_node n [Key ''version''] 0xffffffffffffffff) (\<lambda>v.
             ensure (v = 1) ([Key ''version''], BadVersion)))
      else Inr ())"

definition in_document :: "yaml_error + 'a \<Rightarrow> load_error + 'a" where
  "in_document r = (case r of Inl e \<Rightarrow> Inl (InDocument e) | Inr a \<Rightarrow> Inr a)"

text \<open>The referenced ENI, whose options the startup file may override.\<close>

definition load_referenced_eni :: "abi \<Rightarrow> 'w config_files \<Rightarrow> string \<Rightarrow> yaml \<Rightarrow> yaml \<Rightarrow> 'w
    \<Rightarrow> (load_error + pdo_bus_config) \<times> 'w" where
  "load_referenced_eni A F path doc eni_node w =
     (if field_of doc ''slaves'' \<noteq> None then (Inl (InDocument ([], EniWithSlaves)), w)
      else case parse_string eni_node [Key ''eni''] 4096 of
        Inl e \<Rightarrow> (Inl (InDocument e), w)
      | Inr eni \<Rightarrow>
          let target = append_path (parent_path path) eni in
          (case read_xml F target w of
             (xml, w) \<Rightarrow>
               (case load_eni_config A (\<lambda>p. xml) target of
                  Inl e \<Rightarrow> Inl (InEni e)
                | Inr loaded \<Rightarrow>
                    in_document (and_then (parse_startup_options doc (bc_master loaded))
                      (\<lambda>options. Inr (loaded\<lparr>bc_master := options\<rparr>))), w)))"

definition load_document :: "abi \<Rightarrow> 'w config_files \<Rightarrow> string \<Rightarrow> string \<Rightarrow> yaml \<Rightarrow> 'w
    \<Rightarrow> (load_error + pdo_bus_config) \<times> 'w" where
  "load_document A F path source doc w =
     (case and_then (ensure (is_map doc) ([], NotMapping)) (\<lambda>_.
           and_then (reject_unknown_keys doc root_keys [Key ''root'']) (\<lambda>_. check_version doc)) of
        Inl e \<Rightarrow> (Inl (InDocument e), w)
      | Inr _ \<Rightarrow>
          (case field_of doc ''eni'' of
             Some eni_node \<Rightarrow> load_referenced_eni A F path doc eni_node w
           | None \<Rightarrow> (in_document (inline_config A source doc), w)))"

definition load_config :: "abi \<Rightarrow> 'w config_files \<Rightarrow> string \<Rightarrow> 'w \<Rightarrow> (load_error + pdo_bus_config) \<times> 'w" where
  "load_config A F path w =
     (case read_source F path w of
        (Inl e, w) \<Rightarrow> (Inl (InFile e), w)
      | (Inr source, w) \<Rightarrow>
          if starts_as_xml source then (Inl XmlNotYaml, w)
          else case yaml_load F source of
            None \<Rightarrow> (Inl BadYaml, w)
          | Some doc \<Rightarrow> load_document A F path source doc w)"

text \<open>The caller's configuration is emptied when the load fails.\<close>

definition load_pdo_config :: "abi \<Rightarrow> 'w config_files \<Rightarrow> string \<Rightarrow> 'w
    \<Rightarrow> pdo_bus_config \<times> load_error option \<times> 'w" where
  "load_pdo_config A F path w =
     (case load_config A F path w of
        (Inl e, w) \<Rightarrow> (pdo_bus_config_init, Some e, w)
      | (Inr c, w) \<Rightarrow> (c, None, w))"


section \<open>What the ENI reader accepts\<close>

definition usable_slave :: "abi \<Rightarrow> slave_pdo_config \<Rightarrow> bool" where
  "usable_slave A s \<longleftrightarrow> ok_text (MAX_SLAVE_NAME_LEN A - 1) (sc_name s) \<and> ok_commands (sc_init_commands s)
     \<and> (\<forall>e \<in> set (mapping_entries (rx_pdos s) @ mapping_entries (tx_pdos s)). ok_entry A e)
     \<and> length (mapping_entries (rx_pdos s)) \<le> MAX_PDOUTPUT_NUM A
     \<and> length (mapping_entries (tx_pdos s)) \<le> MAX_PDINPUT_NUM A
     \<and> (sc_vendor_id s = 0 \<longleftrightarrow> sc_product_code s = 0)"

text \<open>What every client of a loaded configuration relies on.\<close>

definition usable :: "abi \<Rightarrow> pdo_bus_config \<Rightarrow> bool" where
  "usable A c \<longleftrightarrow> bc_slaves c \<noteq> [] \<and> length (bc_slaves c) \<le> MAX_SLAVE_NUM A
     \<and> (\<forall>i < length (bc_slaves c). unat (sc_id (bc_slaves c ! i)) = i \<and> usable_slave A (bc_slaves c ! i))
     \<and> length (filter reference_slave (bc_slaves c)) \<le> 1
     \<and> 1000 \<le> period_us (bc_master c) \<and> 1 \<le> preop_timeout_ms (bc_master c) \<and> 1 \<le> op_timeout_ms (bc_master c)
     \<and> 1 \<le> pdo_config_attempts (bc_master c)"

lemma mapping_entries_simps [simp]:
  "mapping_entries [] = []" "mapping_entries (m # ms) = pm_entries m @ mapping_entries ms"
  by (simp_all add: mapping_entries_def)

lemma label_ok: "label parent name fallback limit = Inr r \<Longrightarrow> ok_text limit r"
  by (auto simp: label_def Let_def result_simps ok_text_def split: if_splits)

lemma read_entry_ok: "read_entry A e = Inr x \<Longrightarrow> ok_entry A x"
  by (auto simp: read_entry_def Let_def result_simps ok_entry_def dest!: label_ok)

lemma read_entries_ok:
  "read_entries A rx count es = Inr (c, xs) \<Longrightarrow>
     c = count + length xs \<and> (count \<le> entry_limit A rx \<longrightarrow> c \<le> entry_limit A rx) \<and> (\<forall>x \<in> set xs. ok_entry A x)"
proof (induction es arbitrary: count c xs)
  case Nil
  then show ?case by simp
next
  case (Cons e es)
  show ?case
  proof (cases "named ''Entry'' e")
    case False
    with Cons show ?thesis by simp
  next
    case True
    with Cons.prems obtain x ys where x: "read_entry A e = Inr x" "\<not> entry_limit A rx < Suc count"
      "read_entries A rx (Suc count) es = Inr (c, ys)" "xs = x # ys"
      by (auto simp: result_simps split: prod.splits)
    from Cons.IH [OF x(3)] read_entry_ok [OF x(1)] x(2,4) show ?thesis by auto
  qed
qed

lemma read_pdos_ok:
  "read_pdos A rx count ns = Inr ms \<Longrightarrow> count \<le> entry_limit A rx \<Longrightarrow>
     count + length (mapping_entries ms) \<le> entry_limit A rx \<and> (\<forall>e \<in> set (mapping_entries ms). ok_entry A e)"
proof (induction ns arbitrary: count ms)
  case Nil
  then show ?case by simp
next
  case (Cons n ns)
  from Cons.prems(1) obtain i c es ms' where r: "read_entries A rx count (children n) = Inr (c, es)"
    "read_pdos A rx c ns = Inr ms'" "ms = \<lparr>pm_index = i, pm_entries = es\<rparr> # ms'"
    by (auto simp: result_simps Let_def split: prod.splits)
  from read_entries_ok [OF r(1)] Cons.prems(2) Cons.IH [OF r(2)] r(3) show ?case by auto
qed

lemma eni_pdos_ok:
  assumes "eni_pdos A process rx = Inr ms"
  shows "length (mapping_entries ms) \<le> entry_limit A rx \<and> (\<forall>e \<in> set (mapping_entries ms). ok_entry A e)"
proof -
  from assms have "ms = [] \<or> (\<exists>ns. read_pdos A rx 0 ns = Inr ms)"
    by (auto simp: eni_pdos_def result_simps split: option.splits if_splits)
  then show ?thesis using read_pdos_ok [where count = 0] by fastforce
qed

lemma read_command_ok: "read_command c = Inr (Some x) \<Longrightarrow> ok_command x"
  by (auto simp: read_command_def result_simps Let_def ok_command_def split: if_splits)

lemma eni_init_commands_ok:
  assumes "eni_init_commands s = Inr cs" shows "ok_commands cs"
proof -
  from assms obtain ns xs where x: "traverse (\<lambda>i c. read_command c) 0 ns = Inr xs" "cs = map the (filter (\<lambda>c. c \<noteq> None) xs)"
    by (auto simp: eni_init_commands_def result_simps)
  have "\<forall>r \<in> set xs. \<forall>c. r = Some c \<longrightarrow> ok_command c"
    by (rule traverse_set [OF x(1)]) (use read_command_ok in blast)
  then show ?thesis using x(2) by (auto simp: ok_commands_def)
qed

lemma in_slave_Inr [result_simps]: "in_slave p r = Inr a \<longleftrightarrow> r = Inr a"
  by (simp add: in_slave_def split: sum.splits)

lemma read_eni_slave_ok:
  assumes "read_eni_slave A stations s = Inr (station, slave)"
  shows "usable_slave A slave"
proof -
  from assms obtain process where p: "eni_pdos A process True = Inr (rx_pdos slave)" "eni_pdos A process False = Inr (tx_pdos slave)"
    "eni_init_commands s = Inr (sc_init_commands slave)" "ok_text (MAX_SLAVE_NAME_LEN A - 1) (sc_name slave)"
    "sc_vendor_id slave \<noteq> 0" "sc_product_code slave \<noteq> 0"
    by (auto simp: read_eni_slave_def Let_def result_simps dest!: label_ok)
  then show ?thesis
    using eni_pdos_ok [OF p(1)] eni_pdos_ok [OF p(2)] eni_init_commands_ok [OF p(3)]
    by (auto simp: usable_slave_def entry_limit_def)
qed

lemma read_eni_slaves_ok:
  "read_eni_slaves A stations ss ns = Inr rs \<Longrightarrow> \<forall>s \<in> set ss. usable_slave A s \<Longrightarrow> length ss \<le> MAX_SLAVE_NUM A \<Longrightarrow>
     (\<forall>s \<in> set rs. usable_slave A s) \<and> length rs \<le> MAX_SLAVE_NUM A"
proof (induction ns arbitrary: stations ss)
  case Nil
  then show ?case by simp
next
  case (Cons n ns)
  show ?case
  proof (cases "named ''Slave'' n")
    case False
    with Cons show ?thesis by simp
  next
    case True
    with Cons.prems(1) obtain station slave where r: "length ss \<noteq> MAX_SLAVE_NUM A"
      "read_eni_slave A stations n = Inr (station, slave)" "read_eni_slaves A (station # stations) (ss @ [slave]) ns = Inr rs"
      by (auto simp: result_simps split: prod.splits)
    show ?thesis by (rule Cons.IH [OF r(3)]) (use Cons.prems(2,3) r(1) read_eni_slave_ok [OF r(2)] in auto)
  qed
qed

lemma eni_bus_usable:
  assumes "eni_bus A path doc = Inr c"
  shows "usable A c \<and> from_eni c \<and> ok_options (bc_master c)"
proof -
  from assms obtain bus ss p where r: "read_eni_slaves A [] [] (children_of bus) = Inr ss" "ss \<noteq> []"
    "list_all (\<lambda>i. unat (sc_id (sort_key sc_id ss ! i)) = i) [0..<length ss]"
    "\<not> (list_ex (\<lambda>s. sc_dc s \<noteq> None) (sort_key sc_id ss) \<and> reference_count (sort_key sc_id ss) \<noteq> 1)"
    "c = \<lparr>bc_slaves = sort_key sc_id ss, bc_master = runtime_options_init\<lparr>period_us := p,
       dc_enabled := list_ex (\<lambda>s. sc_dc s \<noteq> None) (sort_key sc_id ss)\<rparr>, source_yaml = [], from_eni = True, eni_path = path\<rparr>"
    "1000 \<le> p"
    by (auto simp: eni_bus_def result_simps Let_def not_less)
  have all: "\<forall>s \<in> set ss. usable_slave A s" "length ss \<le> MAX_SLAVE_NUM A"
    using read_eni_slaves_ok [OF r(1)] by auto
  have ref: "length (filter reference_slave (sort_key sc_id ss)) \<le> 1"
  proof (cases "list_ex (\<lambda>s. sc_dc s \<noteq> None) (sort_key sc_id ss)")
    case True
    with r(4) show ?thesis by (simp add: slaves_iff)
  next
    case False
    then have "filter reference_slave (sort_key sc_id ss) = []"
      by (auto simp: filter_empty_conv reference_slave_def list_ex_iff)
    then show ?thesis by (metis list.size(3) zero_le)
  qed
  have "\<forall>i < length ss. unat (sc_id (sort_key sc_id ss ! i)) = i" using r(3) by (auto simp: list_all_iff)
  moreover have "sort_key sc_id ss \<noteq> []" using r(2) by (metis length_0_conv length_sort)
  moreover have "\<forall>i < length ss. usable_slave A (sort_key sc_id ss ! i)"
    using all(1) by (metis length_sort nth_mem set_sort)
  ultimately show ?thesis
    using r all ref by (auto simp: usable_def runtime_options_init_def ok_options_def)
qed


section \<open>What every load gives\<close>

definition proper_names :: "pdo_bus_config \<Rightarrow> bool" where
  "proper_names c \<longleftrightarrow> (\<forall>s \<in> set (bc_slaves c). proper_name (sc_name s)
     \<and> (\<forall>e \<in> set (mapping_entries (rx_pdos s) @ mapping_entries (tx_pdos s)). proper_name (pe_name e)))"

lemma entry_count_entries: "entry_count ms = length (mapping_entries ms)"
  by (simp add: entry_count_def mapping_entries_def length_concat comp_def)

lemma ok_pdos_entries: "ok_pdos A ms \<Longrightarrow> e \<in> set (mapping_entries ms) \<Longrightarrow> ok_entry A e"
  by (auto simp: ok_pdos_def ok_pdo_def mapping_entries_def)

lemma loadable_usable: "loadable A c \<Longrightarrow> usable A c"
  unfolding loadable_def usable_def usable_slave_def ok_slave_def ok_options_def entry_count_entries
  by (auto intro: ok_pdos_entries)

lemma load_config_usable:
  assumes "load_config A F path w = (Inr c, w')"
  shows "usable A c"
proof -
  from assms obtain source doc w1 where d: "load_document A F path source doc w1 = (Inr c, w')"
    by (auto simp: load_config_def split: prod.splits sum.splits if_splits option.splits)
  then consider "inline_config A source doc = Inr c"
    | eni_node where "load_referenced_eni A F path doc eni_node w1 = (Inr c, w')"
    by (auto simp: load_document_def in_document_def split: sum.splits option.splits)
  then show ?thesis
  proof cases
    case 1
    then show ?thesis using inline_config_ok loadable_usable by blast
  next
    case 2
    then obtain xml target loaded o' where l: "load_eni_config A (\<lambda>p. xml) target = Inr loaded"
      "parse_startup_options doc (bc_master loaded) = Inr o'" "c = loaded\<lparr>bc_master := o'\<rparr>"
      by (auto simp: load_referenced_eni_def in_document_def Let_def result_simps split: if_splits sum.splits prod.splits)
    then obtain root_node where "eni_bus A target root_node = Inr loaded"
      by (auto simp: load_eni_config_def split: option.splits if_splits)
    from eni_bus_usable [OF this] parse_startup_ok [OF l(2)] l(3) show ?thesis
      by (simp add: usable_def ok_options_def)
  qed
qed

lemma usable_slave_acceptable:
  assumes "usable_slave A s"
  shows "acceptable_slave A s \<longleftrightarrow> proper_name (sc_name s)
     \<and> (\<forall>e \<in> set (mapping_entries (rx_pdos s) @ mapping_entries (tx_pdos s)). proper_name (pe_name e))"
proof -
  have "pe_bit_length e \<noteq> 0 \<and> pe_bit_length e mod 8 = 0"
    if "e \<in> set (mapping_entries (rx_pdos s) @ mapping_entries (tx_pdos s))" for e
    using that assms unfolding usable_slave_def ok_entry_def byte_aligned_def by blast
  moreover have "\<forall>c \<in> set (sc_init_commands s). ic_size c \<in> {1, 2, 4, 8}"
    using assms unfolding usable_slave_def ok_commands_def ok_command_def by blast
  ultimately show ?thesis using assms unfolding acceptable_slave_def usable_slave_def by blast
qed

lemma usable_builds: "usable A c \<Longrightarrow> snd (build_config A c self) = None \<longleftrightarrow> proper_names c"
  unfolding build_config_accepts proper_names_def using usable_slave_acceptable
  by (metis in_set_conv_nth usable_def)

text \<open>
  Claim C29. \<open>loadPdoConfig\<close> gives either an error, and then the empty configuration, or a configuration
  that meets the contract of all its clients, whether it stands in the startup file or comes from an
  ENI: at least one and at most \<open>MAX_SLAVE_NUM\<close> slaves, numbered by their position, names that fit the
  ABI, byte-aligned entries within the limits of the ABI, initialization commands of 1, 2, 4 or 8
  bytes, an identity that is given as a whole or not at all, at most one reference clock and options in
  their ranges. The table builder then accepts it exactly when no name is empty as a C string.
\<close>
theorem loaded_config_contract:
  assumes "load_pdo_config A F path w = (c, err, w')"
  shows "(err \<noteq> None \<longrightarrow> c = pdo_bus_config_init)
    \<and> (err = None \<longrightarrow> usable A c \<and> (snd (build_config A c self) = None \<longleftrightarrow> proper_names c))"
  using assms load_config_usable [of A F path w c w'] usable_builds [of A c self]
  by (auto simp: load_pdo_config_def split: prod.splits sum.splits)

definition example_files :: "unit config_files" where
  "example_files = \<lparr>read_source = (\<lambda>p w. (Inr ''text'', w)), yaml_load = (\<lambda>s. Some (render_doc example_loaded)),
     read_xml = (\<lambda>p w. (None, w))\<rparr>"

lemma parse_version_one: "parse_unsigned_node (plain ''1'') path m = (if m < 1 then Inl (path, OutOfRange) else Inr 1)"
proof -
  have "list_all is_digit ''1''" "decimal ''1'' = 1" by (simp_all add: is_digit_def decimal_def digit_value_def)
  then show ?thesis using parse_unsigned_digits [of "''1''" path m] by simp
qed

lemma load_rendered:
  assumes "loadable A c" "source_yaml c = source" "\<not> starts_as_xml source"
    "read_source F path w = (Inr source, w')" "yaml_load F source = Some (render_doc c)"
  shows "load_pdo_config A F path w = (c, None, w')"
proof -
  have "field_of (render_doc c) ''version'' = Some (plain ''1'')" "field_of (render_doc c) ''eni'' = None"
    "is_map (render_doc c)" "reject_unknown_keys (render_doc c) root_keys p = Inr ()" for p
    by (simp_all add: render_doc_def option_fields_def reject_unknown_keys_def root_keys_def)
  then show ?thesis
    using assms inline_config_render [OF assms(1)]
    by (simp add: load_pdo_config_def load_config_def load_document_def in_document_def check_version_def require_node_def
        parse_version_one)
qed

theorem loaded_config_contract_witness:
  "\<exists>c. load_pdo_config abi_example example_files ''igh.yaml'' () = (c, None, ()) \<and> usable abi_example c"
proof -
  have "load_pdo_config abi_example example_files ''igh.yaml'' () = (example_loaded, None, ())"
    by (rule load_rendered [OF example_loadable])
       (simp_all add: example_files_def example_loaded_def starts_as_xml_def blank_def)
  from loaded_config_contract [OF this] this show ?thesis by blast
qed

end
