(* ===== verification/Eni_Pdos.thy ===== *)
theory Eni_Pdos
  imports Eni_Config Yaml_Commands
begin








section \<open>A concrete assignment\<close>







end
