(* ===== verification/Config_Writeback.thy ===== *)
theory Config_Writeback
  imports Config_File
begin

text \<open>
  \<open>saveDiscoveredPdoConfig\<close> of src/src/pdo_config_file.cpp: the edits of the source text that replace
  empty \<open>entries\<close> fields, and the guarded replacement of the file. The calls of the operating system,
  the position of a key in the parsed text (its mark) and the emitter of yaml-cpp are the fields of the
  parameter \<open>writeback_api\<close>. \<open>write\<close> is repeated while it is interrupted, so the loop takes fuel and a
  run that does not return is the outcome \<open>SaveUnfinished\<close>. A thrown exception is an error value; the
  destructor of the temporary file runs on every path after its creation.
\<close>

section \<open>The operating system\<close>

record file_stat =
  fs_regular :: bool
  fs_dev :: u64
  fs_ino :: u64
  fs_uid :: u32
  fs_gid :: u32
  fs_mode :: u32

record ('f, 'w) writeback_api =
  wb_files :: "'w config_files"
  wb_canonical :: "string \<Rightarrow> 'w \<Rightarrow> string option \<times> 'w"
  wb_stat :: "string \<Rightarrow> 'w \<Rightarrow> file_stat option \<times> 'w"
  wb_mkstemp :: "string \<Rightarrow> 'w \<Rightarrow> (int + 'f \<times> string) \<times> 'w"
  wb_fstat :: "'f \<Rightarrow> 'w \<Rightarrow> file_stat option \<times> 'w"
  wb_fchown :: "'f \<Rightarrow> u32 \<Rightarrow> u32 \<Rightarrow> 'w \<Rightarrow> bool \<times> 'w"
  wb_fchmod :: "'f \<Rightarrow> u32 \<Rightarrow> 'w \<Rightarrow> bool \<times> 'w"
  wb_write :: "'f \<Rightarrow> string \<Rightarrow> 'w \<Rightarrow> (bool + nat) \<times> 'w"
  wb_fsync :: "'f \<Rightarrow> 'w \<Rightarrow> bool \<times> 'w"
  wb_rename :: "string \<Rightarrow> string \<Rightarrow> 'w \<Rightarrow> bool \<times> 'w"
  wb_close :: "'f \<Rightarrow> 'w \<Rightarrow> 'w"
  wb_unlink :: "string \<Rightarrow> 'w \<Rightarrow> 'w"
  entries_mark :: "string \<Rightarrow> nat \<Rightarrow> bool \<Rightarrow> nat \<Rightarrow> nat option"
  emit_entries :: "pdo_entry_config list \<Rightarrow> string option"

datatype save_error =
    NoCanonicalPath | NotReadable file_problem | ChangedSinceLoading | NotRegularFile | UnparsableSource
  | SlaveCountChanged | PdoCountChanged | PdoIndexChanged | NoEntriesField | NoEntriesEnd | NotPlainEmpty
  | NotSerializable | OverlappingAliases | NoTemporaryFile int | OwnershipLost | WriteFailed | FlushFailed
  | InvalidResult load_error | ChangedDuringDiscovery | NotReplaced


section \<open>The edits\<close>

record edit =
  ed_begin :: nat
  ed_end :: nat
  ed_text :: string

text \<open>\<open>std::string::find\<close> of a character from a position.\<close>

definition find_char :: "char \<Rightarrow> nat \<Rightarrow> string \<Rightarrow> nat option" where
  "find_char c pos s =
     (let n = length (takeWhile (\<lambda>x. x \<noteq> c) (drop pos s)) in
      if pos + n < length s then Some (pos + n) else None)"

definition skip_while :: "(char \<Rightarrow> bool) \<Rightarrow> nat \<Rightarrow> string \<Rightarrow> nat" where
  "skip_while P pos s = pos + length (takeWhile P (drop pos s))"

definition field_blank :: "char \<Rightarrow> bool" where
  "field_blank c \<longleftrightarrow> c = CHR '' '' \<or> c = CHR 0x09"

definition token_char :: "char \<Rightarrow> bool" where
  "token_char c \<longleftrightarrow> c \<noteq> CHR '' '' \<and> c \<noteq> CHR 0x09 \<and> c \<noteq> CHR 0x0D \<and> c \<noteq> CHR 0x0A
     \<and> c \<noteq> CHR ''#'' \<and> c \<noteq> CHR '','' \<and> c \<noteq> CHR ''}''"

definition null_tokens :: "string list" where
  "null_tokens = [''null'', ''Null'', ''NULL'', ''~'']"

text \<open>The extent of the value of an \<open>entries\<close> field whose key stands at \<open>key\<close>.\<close>

definition entries_extent :: "string \<Rightarrow> nat option \<Rightarrow> save_error + (nat \<times> nat)" where
  "entries_extent source key =
     (case (case key of None \<Rightarrow> None | Some k \<Rightarrow> find_char (CHR '':'') k source) of
        None \<Rightarrow> Inl NoEntriesField
      | Some colon \<Rightarrow>
          let b = skip_while field_blank (Suc colon) source in
          if b < length source \<and> (source ! b = CHR ''['' \<or> source ! b = CHR ''{'')
          then (case find_char (if source ! b = CHR ''['' then CHR '']'' else CHR ''}'') b source of
                  None \<Rightarrow> Inl NoEntriesEnd | Some e \<Rightarrow> Inr (b, Suc e))
          else
            let e = skip_while token_char b source; token = take (e - b) (drop b source) in
            if token \<noteq> [] \<and> token \<notin> set null_tokens \<and> hd token \<noteq> CHR ''*'' then Inl NotPlainEmpty
            else Inr (b, e))"

definition edit_text :: "string \<Rightarrow> nat \<Rightarrow> nat \<Rightarrow> string \<Rightarrow> string" where
  "edit_text source b e emitted =
     (if 0 < b \<and> source ! (b - 1) = CHR '':'' then '' '' else []) @ emitted
     @ (if b = e \<and> b < length source \<and> source ! b = CHR ''#'' then '' '' else [])"

definition pdo_edit :: "('f, 'w) writeback_api \<Rightarrow> string \<Rightarrow> nat \<Rightarrow> bool \<Rightarrow> nat
    \<Rightarrow> pdo_mapping_config \<times> pdo_mapping_config \<Rightarrow> save_error + edit option" where
  "pdo_edit I source s rx p pdos =
     (case pdos of
        (old_pdo, new_pdo) \<Rightarrow>
          if pm_entries old_pdo \<noteq> [] then Inr None
          else if pm_index old_pdo \<noteq> pm_index new_pdo then Inl PdoIndexChanged
          else and_then (entries_extent source (entries_mark I source s rx p)) (\<lambda>(b, e).
            case emit_entries I (pm_entries new_pdo) of
              None \<Rightarrow> Inl NotSerializable
            | Some emitted \<Rightarrow>
                Inr (Some \<lparr>ed_begin = b, ed_end = e, ed_text = edit_text source b e emitted\<rparr>)))"

definition direction_edits :: "('f, 'w) writeback_api \<Rightarrow> string \<Rightarrow> nat \<Rightarrow> bool
    \<Rightarrow> slave_pdo_config \<times> slave_pdo_config \<Rightarrow> save_error + edit list" where
  "direction_edits I source s rx pair =
     (let old_pdos = (if rx then rx_pdos (fst pair) else tx_pdos (fst pair));
          new_pdos = (if rx then rx_pdos (snd pair) else tx_pdos (snd pair))
      in if length old_pdos \<noteq> length new_pdos then Inl PdoCountChanged
         else and_then (traverse (pdo_edit I source s rx) 0 (zip old_pdos new_pdos)) (\<lambda>es.
           Inr (map the (filter (\<lambda>e. e \<noteq> None) es))))"

definition discovery_edits :: "('f, 'w) writeback_api \<Rightarrow> string \<Rightarrow> pdo_bus_config \<Rightarrow> pdo_bus_config
    \<Rightarrow> save_error + edit list" where
  "discovery_edits I source original resolved =
     (if length (bc_slaves original) \<noteq> length (bc_slaves resolved) then Inl SlaveCountChanged
      else and_then (traverse (\<lambda>s pair.
             and_then (direction_edits I source s True pair) (\<lambda>rx.
             and_then (direction_edits I source s False pair) (\<lambda>tx. Inr (rx @ tx))))
             0 (zip (bc_slaves original) (bc_slaves resolved))) (\<lambda>es. Inr (concat es)))"

text \<open>The edits are applied from the end of the text; \<open>limit\<close> is the begin of the previous one.\<close>

fun apply_edits :: "edit list \<Rightarrow> string \<Rightarrow> nat \<Rightarrow> save_error + string" where
  "apply_edits [] output limit = Inr output"
| "apply_edits (e # es) output limit =
     (if limit < ed_end e then Inl OverlappingAliases
      else apply_edits es (take (ed_begin e) output @ ed_text e @ drop (ed_end e) output) (ed_begin e))"

definition edited :: "edit list \<Rightarrow> string \<Rightarrow> save_error + string" where
  "edited es source = apply_edits (rev (sort_key ed_begin es)) source (length source)"

text \<open>
  \<open>std::sort\<close> leaves the order of edits with equal beginnings open; \<open>sort_key\<close> picks one. Where all the
  beginnings differ there is only one order.
\<close>

lemma edited_order_free:
  assumes "set ys = set es" "distinct (map ed_begin ys)" "distinct (map ed_begin es)" "sorted (rev (map ed_begin ys))"
  shows "apply_edits ys source (length source) = edited es source"
proof -
  have "sort_key ed_begin es = rev ys"
  proof (rule map_sorted_distinct_set_unique [where f = ed_begin])
    show "inj_on ed_begin (set (sort_key ed_begin es) \<union> set (rev ys))"
      using assms(1,2) by (simp add: distinct_map)
    show "distinct (map ed_begin (sort_key ed_begin es))"
      using assms(3) by (simp add: distinct_map)
  qed (use assms in \<open>simp_all add: rev_map [symmetric]\<close>)
  then show ?thesis by (simp add: edited_def)
qed


section \<open>The replacement of the file\<close>

datatype save_outcome = Saved pdo_bus_config | NotSaved save_error | SaveUnfinished

fun write_all :: "('f, 'w) writeback_api \<Rightarrow> nat \<Rightarrow> 'f \<Rightarrow> string \<Rightarrow> 'w \<Rightarrow> bool option \<times> 'w" where
  "write_all I 0 fd t w = (if t = [] then (Some True, w) else (None, w))"
| "write_all I (Suc n) fd t w =
     (if t = [] then (Some True, w)
      else case wb_write I fd t w of
        (Inl interrupted, w) \<Rightarrow> if interrupted then write_all I n fd t w else (Some False, w)
      | (Inr count, w) \<Rightarrow> if count = 0 then (Some False, w) else write_all I n fd (drop count t) w)"

text \<open>The path of the file is still the target, the same file, with the same text.\<close>

definition still_current :: "('f, 'w) writeback_api \<Rightarrow> string \<Rightarrow> string \<Rightarrow> file_stat \<Rightarrow> string \<Rightarrow> 'w
    \<Rightarrow> (save_error + unit) \<times> 'w" where
  "still_current I path target before source w =
     (case wb_canonical I path w of
        (None, w) \<Rightarrow> (Inl NoCanonicalPath, w)
      | (Some now_target, w) \<Rightarrow>
          if now_target \<noteq> target then (Inl ChangedDuringDiscovery, w)
          else case wb_stat I target w of
            (None, w) \<Rightarrow> (Inl ChangedDuringDiscovery, w)
          | (Some current, w) \<Rightarrow>
              if fs_dev current \<noteq> fs_dev before \<or> fs_ino current \<noteq> fs_ino before
              then (Inl ChangedDuringDiscovery, w)
              else case read_source (wb_files I) target w of
                (Inl problem, w) \<Rightarrow> (Inl (NotReadable problem), w)
              | (Inr now_source, w) \<Rightarrow>
                  (if now_source \<noteq> source then Inl ChangedDuringDiscovery else Inr (), w))"

text \<open>Owner and permissions of the new file.\<close>

definition preserve_owner :: "('f, 'w) writeback_api \<Rightarrow> 'f \<Rightarrow> file_stat \<Rightarrow> 'w \<Rightarrow> bool \<times> 'w" where
  "preserve_owner I fd before w =
     (case wb_fstat I fd w of
        (None, w) \<Rightarrow> (False, w)
      | (Some created, w) \<Rightarrow>
          (case (if fs_uid created \<noteq> fs_uid before \<or> fs_gid created \<noteq> fs_gid before
                 then wb_fchown I fd (fs_uid before) (fs_gid before) w else (True, w)) of
             (owned, w) \<Rightarrow> if \<not> owned then (False, w) else wb_fchmod I fd (and (fs_mode before) 0x1ff) w))"

text \<open>The copy is loaded once more, the source is checked once more, and the copy is renamed over it.\<close>

definition commit_file :: "abi \<Rightarrow> ('f, 'w) writeback_api \<Rightarrow> string \<Rightarrow> string \<Rightarrow> file_stat \<Rightarrow> string
    \<Rightarrow> string \<Rightarrow> 'w \<Rightarrow> (save_error + unit) \<times> 'w" where
  "commit_file A I path target before source temp w =
     (case load_pdo_config A (wb_files I) temp w of
        (_, Some e, w) \<Rightarrow> (Inl (InvalidResult e), w)
      | (_, None, w) \<Rightarrow> (case still_current I path target before source w of
          (Inl e, w) \<Rightarrow> (Inl e, w)
        | (Inr _, w) \<Rightarrow> (case wb_rename I temp target w of
            (renamed, w) \<Rightarrow> (if renamed then Inr () else Inl NotReplaced, w))))"

text \<open>From the open temporary file to the rename.\<close>

definition replace_file :: "abi \<Rightarrow> ('f, 'w) writeback_api \<Rightarrow> nat \<Rightarrow> string \<Rightarrow> string \<Rightarrow> file_stat \<Rightarrow> string \<Rightarrow> string
    \<Rightarrow> 'f \<Rightarrow> string \<Rightarrow> 'w \<Rightarrow> (save_error + unit) option \<times> 'w" where
  "replace_file A I fuel path target before source output fd temp w =
     (case preserve_owner I fd before w of
        (False, w) \<Rightarrow> (Some (Inl OwnershipLost), w)
      | (True, w) \<Rightarrow> (case write_all I fuel fd output w of
          (None, w) \<Rightarrow> (None, w)
        | (Some False, w) \<Rightarrow> (Some (Inl WriteFailed), w)
        | (Some True, w) \<Rightarrow> (case wb_fsync I fd w of
            (False, w) \<Rightarrow> (Some (Inl FlushFailed), w)
          | (True, w) \<Rightarrow> (case commit_file A I path target before source temp w of
              (r, w) \<Rightarrow> (Some r, w)))))"

definition write_back :: "abi \<Rightarrow> ('f, 'w) writeback_api \<Rightarrow> nat \<Rightarrow> string \<Rightarrow> string \<Rightarrow> file_stat \<Rightarrow> string \<Rightarrow> string
    \<Rightarrow> pdo_bus_config \<Rightarrow> 'w \<Rightarrow> save_outcome \<times> 'w" where
  "write_back A I fuel path target before source output resolved w =
     (case wb_mkstemp I (target @ ''.pdo-XXXXXX'') w of
        (Inl errno, w) \<Rightarrow> (NotSaved (NoTemporaryFile errno), w)
      | (Inr (fd, temp), w) \<Rightarrow>
          (case replace_file A I fuel path target before source output fd temp w of
             (None, w) \<Rightarrow> (SaveUnfinished, w)
           | (Some (Inl e), w) \<Rightarrow> (NotSaved e, wb_unlink I temp (wb_close I fd w))
           | (Some (Inr _), w) \<Rightarrow> (Saved (resolved\<lparr>source_yaml := output\<rparr>), wb_close I fd w)))"

definition save_discovered :: "abi \<Rightarrow> ('f, 'w) writeback_api \<Rightarrow> nat \<Rightarrow> string \<Rightarrow> pdo_bus_config \<Rightarrow> pdo_bus_config
    \<Rightarrow> 'w \<Rightarrow> save_outcome \<times> 'w" where
  "save_discovered A I fuel path original resolved w =
     (let source = source_yaml original in
      case wb_canonical I path w of
        (None, w) \<Rightarrow> (NotSaved NoCanonicalPath, w)
      | (Some target, w) \<Rightarrow>
          if source = [] then (NotSaved ChangedSinceLoading, w)
          else case read_source (wb_files I) target w of
            (Inl problem, w) \<Rightarrow> (NotSaved (NotReadable problem), w)
          | (Inr found, w) \<Rightarrow>
              if found \<noteq> source then (NotSaved ChangedSinceLoading, w)
              else case wb_stat I target w of
                (None, w) \<Rightarrow> (NotSaved NotRegularFile, w)
              | (Some before, w) \<Rightarrow>
                  if \<not> fs_regular before then (NotSaved NotRegularFile, w)
                  else if yaml_load (wb_files I) source = None then (NotSaved UnparsableSource, w)
                  else case discovery_edits I source original resolved of
                    Inl e \<Rightarrow> (NotSaved e, w)
                  | Inr [] \<Rightarrow> (Saved resolved, w)
                  | Inr es \<Rightarrow> (case edited es source of
                      Inl e \<Rightarrow> (NotSaved e, w)
                    | Inr output \<Rightarrow> write_back A I fuel path target before source output resolved w))"

end
