(* ===== verification/Writeback_Correct.thy ===== *)
theory Writeback_Correct
  imports Config_Writeback
begin

text \<open>
  The edits spliced the emitted entries into the source text at their places, and the file is replaced
  only by a rename of a complete, flushed and loadable copy whose source has not changed.
\<close>

section \<open>The text\<close>

text \<open>The reference: the text of \<open>s\<close> from \<open>pos\<close> to \<open>stop\<close>, with each edit in place of its extent.\<close>

fun spliced :: "edit list \<Rightarrow> string \<Rightarrow> nat \<Rightarrow> nat \<Rightarrow> string" where
  "spliced [] s pos stop = take (stop - pos) (drop pos s)"
| "spliced (e # es) s pos stop = take (ed_begin e - pos) (drop pos s) @ ed_text e @ spliced es s (ed_end e) stop"

fun separated :: "nat \<Rightarrow> edit list \<Rightarrow> nat \<Rightarrow> bool" where
  "separated pos [] stop \<longleftrightarrow> pos \<le> stop"
| "separated pos (e # es) stop \<longleftrightarrow> pos \<le> ed_begin e \<and> separated (ed_end e) es stop"

lemma spliced_snoc:
  "spliced (es @ [e]) s pos stop = spliced es s pos (ed_begin e) @ ed_text e @ take (stop - ed_end e) (drop (ed_end e) s)"
  by (induction es arbitrary: pos) auto

lemma separated_snoc: "separated pos (es @ [e]) stop \<longleftrightarrow> separated pos es (ed_begin e) \<and> ed_end e \<le> stop"
  by (induction es arbitrary: pos) auto

definition in_text :: "nat \<Rightarrow> edit \<Rightarrow> bool" where
  "in_text n e \<longleftrightarrow> ed_begin e \<le> ed_end e \<and> ed_end e \<le> n"

lemma apply_edits_spliced:
  "\<forall>e \<in> set es. in_text (length s) e \<Longrightarrow> stop \<le> length s \<Longrightarrow>
     apply_edits (rev es) (take stop s @ tail) stop
       = (if separated 0 es stop then Inr (spliced es s 0 stop @ tail) else Inl OverlappingAliases)"
proof (induction es arbitrary: stop tail rule: rev_induct)
  case Nil
  then show ?case by simp
next
  case (snoc e es)
  show ?case
  proof (cases "stop < ed_end e")
    case True
    then show ?thesis by (simp add: separated_snoc)
  next
    case False
    then have b: "ed_begin e \<le> ed_end e" "ed_end e \<le> stop" "ed_begin e \<le> length s"
      using snoc.prems by (auto simp: in_text_def)
    let ?tail = "ed_text e @ take (stop - ed_end e) (drop (ed_end e) s) @ tail"
    have out: "take (ed_begin e) (take stop s @ tail) @ ed_text e @ drop (ed_end e) (take stop s @ tail)
        = take (ed_begin e) s @ ?tail"
      using b snoc.prems(2) by (simp add: drop_take min_def)
    have "apply_edits (rev (es @ [e])) (take stop s @ tail) stop
        = apply_edits (rev es) (take (ed_begin e) s @ ?tail) (ed_begin e)"
      by (simp only: rev_append rev.simps append.simps apply_edits.simps False if_False out)
    also have "\<dots> = (if separated 0 es (ed_begin e) then Inr (spliced es s 0 (ed_begin e) @ ?tail) else Inl OverlappingAliases)"
      by (rule snoc.IH) (use snoc.prems(1) b(3) in auto)
    finally show ?thesis using b(2) by (simp add: separated_snoc spliced_snoc)
  qed
qed

lemma edited_spliced:
  assumes "\<forall>e \<in> set es. in_text (length s) e"
  shows "edited es s = (if separated 0 (sort_key ed_begin es) (length s)
     then Inr (spliced (sort_key ed_begin es) s 0 (length s)) else Inl OverlappingAliases)"
  using apply_edits_spliced [of "sort_key ed_begin es" s "length s" "[]"] assms by (simp add: edited_def)

text \<open>What an edit replaces: an empty flow collection, a null token, an alias, or nothing.\<close>

definition empty_value :: "string \<Rightarrow> bool" where
  "empty_value t \<longleftrightarrow> t = [] \<or> t \<in> set null_tokens \<or> hd t = CHR ''*''
     \<or> (\<exists>c d. (c, d) \<in> {(CHR ''['', CHR '']''), (CHR ''{'', CHR ''}'')} \<and> (\<exists>m. t = c # m @ [d] \<and> d \<notin> set m))"

lemma find_char_Some:
  assumes "find_char c pos s = Some q"
  shows "pos \<le> q \<and> q < length s \<and> s ! q = c \<and> c \<notin> set (take (q - pos) (drop pos s))"
proof -
  let ?n = "length (takeWhile (\<lambda>x. x \<noteq> c) (drop pos s))"
  have q: "q = pos + ?n" "q < length s" using assms by (auto simp: find_char_def Let_def split: if_splits)
  then have "?n < length (drop pos s)" by simp
  then have "drop pos s ! ?n = c" using nth_length_takeWhile by fastforce
  moreover have "take (q - pos) (drop pos s) = takeWhile (\<lambda>x. x \<noteq> c) (drop pos s)"
    using q(1) by (metis diff_add_inverse takeWhile_eq_take)
  ultimately show ?thesis using q by (auto dest: set_takeWhileD)
qed

lemma skip_while_bounds: "pos \<le> skip_while P pos s \<and> (pos \<le> length s \<longrightarrow> skip_while P pos s \<le> length s)"
  using length_takeWhile_le [of P "drop pos s"] by (auto simp: skip_while_def)

lemma entries_extent_ok:
  assumes "entries_extent s key = Inr (b, e)"
  shows "b \<le> e \<and> e \<le> length s \<and> empty_value (take (e - b) (drop b s))"
proof -
  from assms obtain colon where c: "colon < length s" and b: "b = skip_while field_blank (Suc colon) s"
    by (auto simp: entries_extent_def Let_def dest: find_char_Some split: option.splits if_splits)
  have b_len: "b \<le> length s" unfolding b using skip_while_bounds [of "Suc colon" field_blank s] c by simp
  show ?thesis
  proof (cases "b < length s \<and> (s ! b = CHR ''['' \<or> s ! b = CHR ''{'')")
    case True
    define d where "d = (if s ! b = CHR ''['' then CHR '']'' else CHR ''}'')"
    from assms True obtain q where q: "find_char d b s = Some q" "e = Suc q"
      unfolding b d_def by (auto simp: entries_extent_def Let_def split: option.splits if_splits)
    note f = find_char_Some [OF q(1)]
    have pair: "(s ! b, d) \<in> {(CHR ''['', CHR '']''), (CHR ''{'', CHR ''}'')}" "s ! b \<noteq> d"
      using True by (auto simp: d_def)
    then have "b \<noteq> q" using f by auto
    then have "b < q" using f by simp
    then obtain k where k: "q = Suc (b + k)" using less_imp_Suc_add by blast
    have "take (e - b) (drop b s) = s ! b # take k (drop (Suc b) s) @ [d]"
    proof -
      have "drop b s = s ! b # drop (Suc b) s" using True by (simp add: Cons_nth_drop_Suc)
      moreover have "take (Suc k) (drop (Suc b) s) = take k (drop (Suc b) s) @ [d]"
      proof -
        have "k < length (drop (Suc b) s)" "drop (Suc b) s ! k = d" using f k by auto
        then show ?thesis using take_Suc_conv_app_nth [of k "drop (Suc b) s"] by simp
      qed
      ultimately show ?thesis using q(2) k by simp
    qed
    moreover have "d \<notin> set (take k (drop (Suc b) s))"
    proof -
      have "set (take k (drop (Suc b) s)) \<subseteq> set (take (q - b) (drop b s))"
        using True k by (auto simp: Cons_nth_drop_Suc [symmetric])
      with f show ?thesis by blast
    qed
    ultimately show ?thesis using f q(2) pair(1) unfolding empty_value_def by (metis Suc_leI le_SucI)
  next
    case False
    with assms have e: "e = skip_while token_char b s"
      "(let t = take (e - b) (drop b s) in t = [] \<or> t \<in> set null_tokens \<or> hd t = CHR ''*'')"
      unfolding b by (auto simp: entries_extent_def Let_def split: option.splits if_splits)
    then show ?thesis using skip_while_bounds [of b token_char s] b_len by (auto simp: empty_value_def Let_def)
  qed
qed

definition good_edit :: "string \<Rightarrow> edit \<Rightarrow> bool" where
  "good_edit s e \<longleftrightarrow> in_text (length s) e \<and> empty_value (take (ed_end e - ed_begin e) (drop (ed_begin e) s))"

lemma pdo_edit_good: "pdo_edit I s i rx p pdos = Inr (Some e) \<Longrightarrow> good_edit s e"
  by (auto simp: pdo_edit_def result_simps good_edit_def in_text_def dest!: entries_extent_ok
      split: prod.splits if_splits option.splits)

lemma direction_edits_good:
  assumes "direction_edits I s i rx pair = Inr es" shows "\<forall>e \<in> set es. good_edit s e"
proof -
  from assms obtain zs xs where x: "traverse (pdo_edit I s i rx) 0 zs = Inr xs" "es = map the (filter (\<lambda>e. e \<noteq> None) xs)"
    by (auto simp: direction_edits_def Let_def result_simps split: if_splits)
  have "\<forall>r \<in> set xs. \<forall>e. r = Some e \<longrightarrow> good_edit s e"
    by (rule traverse_set [OF x(1)]) (use pdo_edit_good in blast)
  then show ?thesis using x(2) by auto
qed

lemma discovery_edits_good:
  assumes "discovery_edits I s original resolved = Inr es" shows "\<forall>e \<in> set es. good_edit s e"
proof -
  from assms obtain zs xs where x: "traverse (\<lambda>i pair. and_then (direction_edits I s i True pair) (\<lambda>rx.
        and_then (direction_edits I s i False pair) (\<lambda>tx. Inr (rx @ tx)))) 0 zs = Inr xs" "es = concat xs"
    by (auto simp: discovery_edits_def result_simps split: if_splits)
  have "\<forall>ys \<in> set xs. \<forall>e \<in> set ys. good_edit s e"
    by (rule traverse_set [OF x(1)]) (auto simp: result_simps dest!: direction_edits_good)
  then show ?thesis using x(2) by auto
qed


section \<open>The calls\<close>

datatype 'f wb_event = WbRead string "file_problem + string" | WbCreate 'f string | WbOwner | WbWrite 'f string
  | WbSync 'f bool | WbRename string string bool | WbClose 'f | WbUnlink string

definition log_files :: "'w config_files \<Rightarrow> ('w \<times> 'f wb_event list) config_files" where
  "log_files F = \<lparr>
     read_source = (\<lambda>p (w, l). case read_source F p w of (r, w) \<Rightarrow> (r, (w, l @ [WbRead p r]))),
     yaml_load = yaml_load F,
     read_xml = (\<lambda>p (w, l). case read_xml F p w of (r, w) \<Rightarrow> (r, (w, l)))\<rparr>"

definition log_writeback :: "('f, 'w) writeback_api \<Rightarrow> ('f, 'w \<times> 'f wb_event list) writeback_api" where
  "log_writeback I = \<lparr>
     wb_files = log_files (wb_files I),
     wb_canonical = (\<lambda>p (w, l). case wb_canonical I p w of (r, w) \<Rightarrow> (r, (w, l))),
     wb_stat = (\<lambda>p (w, l). case wb_stat I p w of (r, w) \<Rightarrow> (r, (w, l))),
     wb_mkstemp = (\<lambda>p (w, l). case wb_mkstemp I p w of
        (Inl e, w) \<Rightarrow> (Inl e, (w, l)) | (Inr (fd, temp), w) \<Rightarrow> (Inr (fd, temp), (w, l @ [WbCreate fd temp]))),
     wb_fstat = (\<lambda>fd (w, l). case wb_fstat I fd w of (r, w) \<Rightarrow> (r, (w, l))),
     wb_fchown = (\<lambda>fd u g (w, l). case wb_fchown I fd u g w of (r, w) \<Rightarrow> (r, (w, l @ [WbOwner]))),
     wb_fchmod = (\<lambda>fd m (w, l). case wb_fchmod I fd m w of (r, w) \<Rightarrow> (r, (w, l @ [WbOwner]))),
     wb_write = (\<lambda>fd t (w, l). case wb_write I fd t w of
        (Inl b, w) \<Rightarrow> (Inl b, (w, l @ [WbWrite fd []])) | (Inr n, w) \<Rightarrow> (Inr n, (w, l @ [WbWrite fd (take n t)]))),
     wb_fsync = (\<lambda>fd (w, l). case wb_fsync I fd w of (r, w) \<Rightarrow> (r, (w, l @ [WbSync fd r]))),
     wb_rename = (\<lambda>a b (w, l). case wb_rename I a b w of (r, w) \<Rightarrow> (r, (w, l @ [WbRename a b r]))),
     wb_close = (\<lambda>fd (w, l). (wb_close I fd w, l @ [WbClose fd])),
     wb_unlink = (\<lambda>p (w, l). (wb_unlink I p w, l @ [WbUnlink p])),
     entries_mark = entries_mark I, emit_entries = emit_entries I\<rparr>"

lemma log_writeback_simps [simp]:
  "wb_files (log_writeback I) = log_files (wb_files I)"
  "wb_canonical (log_writeback I) p (w, l) = (case wb_canonical I p w of (r, w) \<Rightarrow> (r, (w, l)))"
  "wb_stat (log_writeback I) p (w, l) = (case wb_stat I p w of (r, w) \<Rightarrow> (r, (w, l)))"
  "wb_mkstemp (log_writeback I) p (w, l) = (case wb_mkstemp I p w of
        (Inl e, w) \<Rightarrow> (Inl e, (w, l)) | (Inr (fd, temp), w) \<Rightarrow> (Inr (fd, temp), (w, l @ [WbCreate fd temp])))"
  "wb_fstat (log_writeback I) fd (w, l) = (case wb_fstat I fd w of (r, w) \<Rightarrow> (r, (w, l)))"
  "wb_fchown (log_writeback I) fd u g (w, l) = (case wb_fchown I fd u g w of (r, w) \<Rightarrow> (r, (w, l @ [WbOwner])))"
  "wb_fchmod (log_writeback I) fd m (w, l) = (case wb_fchmod I fd m w of (r, w) \<Rightarrow> (r, (w, l @ [WbOwner])))"
  "wb_write (log_writeback I) fd t (w, l) = (case wb_write I fd t w of
        (Inl b, w) \<Rightarrow> (Inl b, (w, l @ [WbWrite fd []])) | (Inr n, w) \<Rightarrow> (Inr n, (w, l @ [WbWrite fd (take n t)])))"
  "wb_fsync (log_writeback I) fd (w, l) = (case wb_fsync I fd w of (r, w) \<Rightarrow> (r, (w, l @ [WbSync fd r])))"
  "wb_rename (log_writeback I) a b (w, l) = (case wb_rename I a b w of (r, w) \<Rightarrow> (r, (w, l @ [WbRename a b r])))"
  "wb_close (log_writeback I) fd (w, l) = (wb_close I fd w, l @ [WbClose fd])"
  "wb_unlink (log_writeback I) p (w, l) = (wb_unlink I p w, l @ [WbUnlink p])"
  "entries_mark (log_writeback I) = entries_mark I" "emit_entries (log_writeback I) = emit_entries I"
  "read_source (log_files F) p (w, l) = (case read_source F p w of (r, w) \<Rightarrow> (r, (w, l @ [WbRead p r])))"
  "yaml_load (log_files F) = yaml_load F"
  "read_xml (log_files F) p (w, l) = (case read_xml F p w of (r, w) \<Rightarrow> (r, (w, l)))"
  by (simp_all add: log_writeback_def log_files_def)

fun quiet_event :: "'f wb_event \<Rightarrow> bool" where
  "quiet_event (WbRead p r) = True" | "quiet_event WbOwner = True" | "quiet_event _ = False"

fun written :: "'f \<Rightarrow> 'f wb_event list \<Rightarrow> string" where
  "written fd [] = []"
| "written fd (WbWrite f t # l) = (if f = fd then t @ written fd l else written fd l)"
| "written fd (_ # l) = written fd l"

lemma written_append [simp]: "written fd (l @ k) = written fd l @ written fd k"
  by (induction fd l rule: written.induct) auto

lemma written_quiet: "\<forall>e \<in> set l. quiet_event e \<Longrightarrow> written fd l = []"
  by (induction fd l rule: written.induct) auto

lemma pdo_edit_logged: "pdo_edit (log_writeback I) = pdo_edit I"
  by (simp add: fun_eq_iff pdo_edit_def)

lemma direction_edits_logged: "direction_edits (log_writeback I) = direction_edits I"
  by (intro ext) (simp only: direction_edits_def pdo_edit_logged)

lemma discovery_edits_logged [simp]: "discovery_edits (log_writeback I) = discovery_edits I"
  by (intro ext) (simp only: discovery_edits_def direction_edits_logged)

lemma load_config_logged:
  "load_pdo_config A (log_files F) p (w, l) = (c, e, (w', l')) \<Longrightarrow>
     \<exists>r. l' = l @ [WbRead p r] \<and> load_pdo_config A F p w = (c, e, w')"
  by (auto simp: load_pdo_config_def load_config_def load_document_def load_referenced_eni_def Let_def
      split: prod.splits sum.splits option.splits if_splits)

lemma write_all_logged:
  "write_all (log_writeback I) n fd t (w, l) = (r, (w', l')) \<Longrightarrow>
     \<exists>ev. l' = l @ ev \<and> (\<forall>e \<in> set ev. \<exists>t. e = WbWrite fd t) \<and> (r = Some True \<longrightarrow> written fd ev = t)"
proof (induction n arbitrary: t w l)
  case 0
  then show ?case by (auto split: if_splits)
next
  case (Suc n)
  show ?case
  proof (cases "t = []")
    case True
    with Suc.prems show ?thesis by auto
  next
    case t: False
    obtain x w1 where x: "wb_write I fd t w = (x, w1)" by fastforce
    consider "x = Inl True" | "x = Inl False" | "x = Inr 0" | m where "x = Inr m" "m \<noteq> 0" by (cases x) auto
    then show ?thesis
    proof cases
      case 1
      with Suc.prems t x have "write_all (log_writeback I) n fd t (w1, l @ [WbWrite fd []]) = (r, (w', l'))" by simp
      from Suc.IH [OF this] obtain ev where "l' = (l @ [WbWrite fd []]) @ ev" "\<forall>e \<in> set ev. \<exists>t. e = WbWrite fd t"
        "r = Some True \<longrightarrow> written fd ev = t" by blast
      then show ?thesis by (intro exI [of _ "WbWrite fd [] # ev"]) auto
    next
      case 2
      with Suc.prems t x show ?thesis by (intro exI [of _ "[WbWrite fd []]"]) auto
    next
      case 3
      with Suc.prems t x show ?thesis by (intro exI [of _ "[WbWrite fd (take 0 t)]"]) auto
    next
      case 4
      with Suc.prems t x have "write_all (log_writeback I) n fd (drop m t) (w1, l @ [WbWrite fd (take m t)]) = (r, (w', l'))" by simp
      from Suc.IH [OF this] obtain ev where "l' = (l @ [WbWrite fd (take m t)]) @ ev" "\<forall>e \<in> set ev. \<exists>t. e = WbWrite fd t"
        "r = Some True \<longrightarrow> written fd ev = drop m t" by blast
      then show ?thesis by (intro exI [of _ "WbWrite fd (take m t) # ev"]) auto
    qed
  qed
qed

lemma preserve_owner_logged:
  "preserve_owner (log_writeback I) fd before (w, l) = (b, (w', l')) \<Longrightarrow> \<exists>ev. l' = l @ ev \<and> (\<forall>e \<in> set ev. quiet_event e)"
  by (auto simp: preserve_owner_def split: prod.splits option.splits if_splits)

lemma still_current_logged:
  "still_current (log_writeback I) path target before source (w, l) = (r, (w', l')) \<Longrightarrow>
     \<exists>ev. l' = l @ ev \<and> (\<forall>e \<in> set ev. quiet_event e) \<and> (r = Inr () \<longrightarrow> ev = [WbRead target (Inr source)])"
  by (auto simp: still_current_def split: prod.splits option.splits if_splits sum.splits)

text \<open>What is done to the temporary file \<open>fd\<close> at \<open>temp\<close> while it is prepared.\<close>

fun staging :: "'f \<Rightarrow> string \<Rightarrow> 'f wb_event \<Rightarrow> bool" where
  "staging fd temp (WbRead p r) \<longleftrightarrow> True"
| "staging fd temp WbOwner \<longleftrightarrow> True"
| "staging fd temp (WbWrite f t) \<longleftrightarrow> f = fd"
| "staging fd temp (WbSync f ok) \<longleftrightarrow> f = fd"
| "staging fd temp (WbRename a b ok) \<longleftrightarrow> a = temp \<and> \<not> ok"
| "staging fd temp _ \<longleftrightarrow> False"

lemma quiet_staging: "quiet_event e \<Longrightarrow> staging fd temp e"
  by (cases e) auto

text \<open>A log that ends with the replacement: the whole text is written and flushed, the temporary file
  loads, the target is read once more and is unchanged, and only then renamed over.\<close>

definition replacement_log :: "abi \<Rightarrow> ('f, 'w) writeback_api \<Rightarrow> string \<Rightarrow> string \<Rightarrow> 'f \<Rightarrow> string \<Rightarrow> string
    \<Rightarrow> 'f wb_event list \<Rightarrow> bool" where
  "replacement_log A I target source fd temp output l \<longleftrightarrow>
     (\<exists>pre r. l = pre @ [WbSync fd True, WbRead temp r, WbRead target (Inr source), WbRename temp target True]
        \<and> list_all (\<lambda>e. e = WbOwner \<or> (\<exists>t. e = WbWrite fd t)) pre \<and> written fd pre = output
        \<and> (\<exists>w1 c w2. load_pdo_config A (wb_files I) temp w1 = (c, None, w2)))"

lemma preserve_owner_events:
  "preserve_owner (log_writeback I) fd before (w, l) = (b, (w', l')) \<Longrightarrow> \<exists>ev. l' = l @ ev \<and> (\<forall>e \<in> set ev. e = WbOwner)"
  by (auto simp: preserve_owner_def split: prod.splits option.splits if_splits)

lemma written_owner: "\<forall>e \<in> set l. e = WbOwner \<Longrightarrow> written fd l = []"
  by (induction l) auto

lemma commit_file_logged:
  assumes "commit_file A (log_writeback I) path target before source temp (w, l) = (r, (w', l'))"
  shows "\<exists>ev x. l' = l @ WbRead temp x # ev
     \<and> (r = Inr () \<longrightarrow> ev = [WbRead target (Inr source), WbRename temp target True]
          \<and> (\<exists>c w2. load_pdo_config A (wb_files I) temp w = (c, None, w2)))
     \<and> (r \<noteq> Inr () \<longrightarrow> list_all (staging fd temp) ev)"
proof -
  obtain c err w4 l4 where ld: "load_pdo_config A (log_files (wb_files I)) temp (w, l) = (c, err, (w4, l4))"
    by (metis prod.collapse)
  from load_config_logged [OF ld] obtain x where x: "l4 = l @ [WbRead temp x]"
    "load_pdo_config A (wb_files I) temp w = (c, err, w4)" by blast
  show ?thesis
  proof (cases err)
    case (Some e)
    then show ?thesis using assms ld x by (auto simp: commit_file_def)
  next
    case loaded: None
    obtain cur w5 l5 where sc: "still_current (log_writeback I) path target before source (w4, l4) = (cur, (w5, l5))"
      by (metis prod.collapse)
    from still_current_logged [OF sc] obtain e5 where e5: "l5 = l4 @ e5" "\<forall>e \<in> set e5. quiet_event e"
      "cur = Inr () \<longrightarrow> e5 = [WbRead target (Inr source)]" by blast
    have "list_all (staging fd temp) e5"
      unfolding list_all_iff using e5(2) quiet_staging [of _ fd temp] by blast
    then show ?thesis
      using assms ld loaded x sc e5
      by (cases cur; cases "wb_rename I temp target w5"; cases "fst (wb_rename I temp target w5)")
         (auto simp: commit_file_def)
  qed
qed

lemma replace_file_logged:
  assumes "replace_file A (log_writeback I) fuel path target before source output fd temp (w, l) = (r, (w', l'))"
  shows "\<exists>ev. l' = l @ ev \<and> (r = Some (Inr ()) \<longrightarrow> replacement_log A I target source fd temp output ev)
     \<and> (r \<noteq> Some (Inr ()) \<longrightarrow> list_all (staging fd temp) ev)"
proof -
  obtain ok w1 l1 where own: "preserve_owner (log_writeback I) fd before (w, l) = (ok, (w1, l1))"
    by (metis prod.collapse)
  obtain wrote w2 l2 where wr: "write_all (log_writeback I) fuel fd output (w1, l1) = (wrote, (w2, l2))"
    by (metis prod.collapse)
  obtain synced w3 where sy: "wb_fsync I fd w2 = (synced, w3)" by fastforce
  obtain fin w4 l4 where cm:
    "commit_file A (log_writeback I) path target before source temp (w3, l2 @ [WbSync fd True]) = (fin, (w4, l4))"
    by (metis prod.collapse)
  from preserve_owner_events [OF own] obtain e1 where e1: "l1 = l @ e1" "\<forall>e \<in> set e1. e = WbOwner" by blast
  from write_all_logged [OF wr] obtain e2 where e2: "l2 = l1 @ e2" "\<forall>e \<in> set e2. \<exists>t. e = WbWrite fd t"
    "wrote = Some True \<longrightarrow> written fd e2 = output" by blast
  from commit_file_logged [OF cm, where fd = fd] obtain e4 x where e4: "l4 = (l2 @ [WbSync fd True]) @ WbRead temp x # e4"
    "fin = Inr () \<longrightarrow> e4 = [WbRead target (Inr source), WbRename temp target True]
       \<and> (\<exists>c w2. load_pdo_config A (wb_files I) temp w3 = (c, None, w2))"
    "fin \<noteq> Inr () \<longrightarrow> list_all (staging fd temp) e4" by blast
  have st: "list_all (staging fd temp) e1" "list_all (staging fd temp) e2" using e1 e2 by (auto simp: list_all_iff)
  show ?thesis
  proof (cases "ok \<and> wrote = Some True \<and> synced \<and> fin = Inr ()")
    case True
    then have "r = Some (Inr ())" "l' = l @ (e1 @ e2) @ [WbSync fd True, WbRead temp x, WbRead target (Inr source), WbRename temp target True]"
      using assms own wr sy cm e1 e2 e4 by (auto simp: replace_file_def)
    moreover have "replacement_log A I target source fd temp output
        ((e1 @ e2) @ [WbSync fd True, WbRead temp x, WbRead target (Inr source), WbRename temp target True])"
      unfolding replacement_log_def using e1 e2 e4(2) True
      by (intro exI [of _ "e1 @ e2"] exI [of _ x]) (auto simp: list_all_iff written_owner)
    ultimately show ?thesis by blast
  next
    case False
    then show ?thesis using assms own wr sy cm e1 e2 e4 st
      by (cases fin; cases wrote) (auto simp: replace_file_def split: bool.splits)
  qed
qed

lemma write_back_logged:
  assumes "write_back A (log_writeback I) fuel path target before source output resolved (w, l) = (r, (w', l'))"
  shows "(\<exists>e. r = NotSaved e \<and> l' = l)
     \<or> (\<exists>fd temp ev. r = SaveUnfinished \<and> l' = l @ WbCreate fd temp # ev \<and> list_all (staging fd temp) ev)
     \<or> (\<exists>e fd temp ev. r = NotSaved e \<and> l' = l @ WbCreate fd temp # ev @ [WbClose fd, WbUnlink temp]
          \<and> list_all (staging fd temp) ev)
     \<or> (\<exists>fd temp ev. r = Saved (resolved\<lparr>source_yaml := output\<rparr>) \<and> l' = l @ WbCreate fd temp # ev @ [WbClose fd]
          \<and> replacement_log A I target source fd temp output ev)"
proof (cases "wb_mkstemp I (target @ ''.pdo-XXXXXX'') w")
  case (Pair made w1)
  show ?thesis
  proof (cases made)
    case (Inl errno)
    then show ?thesis using assms Pair by (auto simp: write_back_def)
  next
    case (Inr pair)
    then obtain fd temp where made: "made = Inr (fd, temp)" by (cases pair) auto
    obtain out w2 l2 where rf: "replace_file A (log_writeback I) fuel path target before source output fd temp
        (w1, l @ [WbCreate fd temp]) = (out, (w2, l2))" by (metis prod.collapse)
    from replace_file_logged [OF rf] obtain ev where ev: "l2 = (l @ [WbCreate fd temp]) @ ev"
      "out = Some (Inr ()) \<longrightarrow> replacement_log A I target source fd temp output ev"
      "out \<noteq> Some (Inr ()) \<longrightarrow> list_all (staging fd temp) ev" by blast
    show ?thesis
    proof (cases out)
      case None
      then show ?thesis using assms Pair made rf ev by (auto simp: write_back_def)
    next
      case (Some res)
      then show ?thesis using assms Pair made rf ev by (cases res) (auto simp: write_back_def)
    qed
  qed
qed

lemma save_discovered_cases:
  assumes "save_discovered A (log_writeback I) fuel path original resolved (w, []) = (r, (w', l))"
  shows "(list_all quiet_event l \<and> (r = Saved resolved \<or> (\<exists>e. r = NotSaved e)))
    \<or> (\<exists>target before es result w1 pre. discovery_edits I (source_yaml original) original resolved = Inr es
        \<and> edited es (source_yaml original) = Inr result \<and> list_all quiet_event pre
        \<and> write_back A (log_writeback I) fuel path target before (source_yaml original) result resolved (w1, pre) = (r, (w', l)))"
  using assms
  by (auto simp: save_discovered_def Let_def split: prod.splits option.splits sum.splits if_splits list.splits)

text \<open>
  Claim C33. A save that answers with a configuration either found nothing to fill in and touched no
  file, or it spliced the emitted entries into the loaded text at places which held no entries, wrote all
  of that text to a temporary file, flushed and loaded it, saw the target still unchanged and only then
  renamed; any other end of the save renames nothing and removes the temporary file it made, unless a
  write never returns.
\<close>

theorem save_discovered_atomic:
  "case save_discovered A (log_writeback I) fuel path original resolved (w, []) of (r, (w', l)) \<Rightarrow>
     (case r of
        Saved c \<Rightarrow> (c = resolved \<and> list_all quiet_event l)
          \<or> (\<exists>target es output pre fd temp ev.
               discovery_edits I (source_yaml original) original resolved = Inr es
               \<and> list_all (good_edit (source_yaml original)) es
               \<and> separated 0 (sort_key ed_begin es) (length (source_yaml original))
               \<and> output = spliced (sort_key ed_begin es) (source_yaml original) 0 (length (source_yaml original))
               \<and> c = resolved\<lparr>source_yaml := output\<rparr>
               \<and> list_all quiet_event pre \<and> l = pre @ WbCreate fd temp # ev @ [WbClose fd]
               \<and> replacement_log A I target (source_yaml original) fd temp output ev)
      | NotSaved e \<Rightarrow> list_all quiet_event l
          \<or> (\<exists>pre fd temp ev. l = pre @ WbCreate fd temp # ev @ [WbClose fd, WbUnlink temp]
               \<and> list_all quiet_event pre \<and> list_all (staging fd temp) ev)
      | SaveUnfinished \<Rightarrow> (\<exists>pre fd temp ev. l = pre @ WbCreate fd temp # ev
               \<and> list_all quiet_event pre \<and> list_all (staging fd temp) ev))"
proof -
  obtain r w' l where run: "save_discovered A (log_writeback I) fuel path original resolved (w, []) = (r, (w', l))"
    by (metis prod.collapse)
  let ?s = "source_yaml original"
  from save_discovered_cases [OF run]
  consider "list_all quiet_event l" "r = Saved resolved \<or> (\<exists>e. r = NotSaved e)"
    | target before es result w1 pre where "discovery_edits I ?s original resolved = Inr es" "edited es ?s = Inr result"
      "list_all quiet_event pre"
      "write_back A (log_writeback I) fuel path target before ?s result resolved (w1, pre) = (r, (w', l))"
    by blast
  then show ?thesis
  proof cases
    case 1
    then show ?thesis using run by auto
  next
    case 2
    have good: "list_all (good_edit ?s) es" using discovery_edits_good [OF 2(1)] by (simp add: list_all_iff)
    then have "\<forall>e \<in> set es. in_text (length ?s) e" by (auto simp: list_all_iff good_edit_def)
    from edited_spliced [OF this] 2(2)
    have out: "separated 0 (sort_key ed_begin es) (length ?s)" "result = spliced (sort_key ed_begin es) ?s 0 (length ?s)"
      by (auto split: if_splits)
    show ?thesis
      using write_back_logged [OF 2(4)] 2(1,3) good out
      by (elim disjE exE conjE; simp only: run prod.case save_outcome.case; blast)
  qed
qed

end
