(* ===== verification/Pdo_Discovery.thy ===== *)
theory Pdo_Discovery
  imports Preop_Configuration Runtime_Options Writeback_Correct
begin

text \<open>
  \<open>discoverEmptyPdoEntries\<close> of src/src/pdo_discovery.cpp: the empty mappings of the configuration are
  filled from the objects the slaves hold, read while every slave stays in PREOP and before the
  deadline, and the file is rewritten. The blocking calls and the steady clock are the fields of the
  parameter \<open>discovery_api\<close>; a thrown exception is an error value with the object it names.
\<close>

section \<open>Reading an object\<close>

record 'w discovery_api =
  dv_preop :: u8
  dv_slave :: "u16 \<Rightarrow> 'w \<Rightarrow> (int \<times> slave_info) \<times> 'w"
  dv_upload :: "u16 \<Rightarrow> u16 \<Rightarrow> u8 \<Rightarrow> 'w \<Rightarrow> (int \<times> u8 list \<times> nat \<times> u32) \<times> 'w"
  dv_now :: "'w \<Rightarrow> int \<times> 'w"

datatype discovery_problem =
    NoMaster | PastDeadline | UnhealthyPreop int u8 | ReadRefused int u32 | WrongSize nat nat
  | EntriesPastLimit | NoBits u32 | MappingChanged

datatype discovery_error =
  AtObject u16 u16 nat discovery_problem | ConfiguredPastLimit | LateForWriteback | WritebackFailed save_error

definition healthy_preop :: "'w discovery_api \<Rightarrow> slave_info \<Rightarrow> bool" where
  "healthy_preop D info \<longleftrightarrow> si_al_state info = dv_preop D \<and> si_error_flag info = 0"

definition discovery_guard :: "'w discovery_api \<Rightarrow> 'm option \<Rightarrow> int \<Rightarrow> u16 \<Rightarrow> u16 \<Rightarrow> nat \<Rightarrow> 'w
    \<Rightarrow> (discovery_error + unit) \<times> 'w" where
  "discovery_guard D m deadline position index sub w =
     (if m = None then (Inl (AtObject position index sub NoMaster), w)
      else case dv_now D w of
        (now, w) \<Rightarrow>
          if deadline \<le> now then (Inl (AtObject position index sub PastDeadline), w)
          else (case dv_slave D position w of
            ((rc, info), w) \<Rightarrow>
              (if rc \<noteq> 0 \<or> si_al_state info \<noteq> dv_preop D \<or> si_error_flag info \<noteq> 0
               then Inl (AtObject position index sub (UnhealthyPreop rc (si_al_state info))) else Inr (), w)))"

definition upload :: "'w discovery_api \<Rightarrow> 'm option \<Rightarrow> int \<Rightarrow> u16 \<Rightarrow> u16 \<Rightarrow> nat \<Rightarrow> nat \<Rightarrow> 'w
    \<Rightarrow> (discovery_error + u32) \<times> 'w" where
  "upload D m deadline position index sub expected w =
     and_do (discovery_guard D m deadline position index sub w) (\<lambda>_ w.
       case dv_upload D position index (of_nat sub) w of
         ((rc, bytes, sz, abort_code), w) \<Rightarrow>
           and_do (discovery_guard D m deadline position index sub w) (\<lambda>_ w.
             if rc \<noteq> 0 then (Inl (AtObject position index sub (ReadRefused rc abort_code)), w)
             else if sz \<noteq> expected then (Inl (AtObject position index sub (WrongSize sz expected)), w)
             else (Inr (le_decode (take sz bytes)), w)))"


section \<open>Reading a mapping\<close>

text \<open>\<open>std::setw\<close> with the fill character zero, and \<open>std::hex\<close> with \<open>std::uppercase\<close>.\<close>

definition padded :: "nat \<Rightarrow> string \<Rightarrow> string" where
  "padded n t = replicate (n - length t) (CHR ''0'') @ t"

fun hex_text :: "nat \<Rightarrow> string" where
  "hex_text n = (let c = char_of (if n mod 16 < 10 then 48 + n mod 16 else 55 + n mod 16) in
     if n < 16 then [c] else hex_text (n div 16) @ [c])"

declare hex_text.simps [simp del]

definition entry_name :: "bool \<Rightarrow> u16 \<Rightarrow> nat \<Rightarrow> string" where
  "entry_name rx index sub =
     (if rx then ''RxPDO_'' else ''TxPDO_'') @ padded 4 (hex_text (unat index)) @ ''_'' @ padded 2 (show_nat sub)"

definition mapping_entry :: "bool \<Rightarrow> u16 \<Rightarrow> nat \<Rightarrow> u32 \<Rightarrow> pdo_entry_config" where
  "mapping_entry rx index sub v =
     \<lparr>pe_name = entry_name rx index sub, pe_index = ucast (drop_bit 16 v), pe_sub_index = ucast (drop_bit 8 v),
      pe_bit_length = ucast v\<rparr>"

fun discover_entries :: "'w discovery_api \<Rightarrow> 'm option \<Rightarrow> int \<Rightarrow> bool \<Rightarrow> u16 \<Rightarrow> u16 \<Rightarrow> nat list \<Rightarrow> 'w
    \<Rightarrow> (discovery_error + pdo_entry_config list) \<times> 'w" where
  "discover_entries D m deadline rx position index [] w = (Inr [], w)"
| "discover_entries D m deadline rx position index (sub # subs) w =
     and_do (upload D m deadline position index sub 4 w) (\<lambda>v w.
       let entry = mapping_entry rx index sub v in
       if pe_bit_length entry = 0 then (Inl (AtObject position index sub (NoBits v)), w)
       else and_do (discover_entries D m deadline rx position index subs w) (\<lambda>entries w.
         (Inr (entry # entries), w)))"

definition discover_mapping :: "'w discovery_api \<Rightarrow> 'm option \<Rightarrow> int \<Rightarrow> bool \<Rightarrow> u16 \<Rightarrow> nat \<Rightarrow> nat
    \<Rightarrow> pdo_mapping_config \<Rightarrow> 'w \<Rightarrow> (discovery_error + pdo_mapping_config) \<times> 'w" where
  "discover_mapping D m deadline rx position limit taken pdo w =
     and_do (upload D m deadline position (pm_index pdo) 0 1 w) (\<lambda>count w.
       if limit - taken < unat count then (Inl (AtObject position (pm_index pdo) 0 EntriesPastLimit), w)
       else and_do (discover_entries D m deadline rx position (pm_index pdo) [1..<Suc (unat count)] w) (\<lambda>entries w.
         and_do (upload D m deadline position (pm_index pdo) 0 1 w) (\<lambda>again w.
           if again \<noteq> count then (Inl (AtObject position (pm_index pdo) 0 MappingChanged), w)
           else (Inr (pdo\<lparr>pm_entries := entries\<rparr>), w))))"

text \<open>The mappings of one direction; \<open>taken\<close> is \<open>total\<close>, the flag tells whether one was discovered.\<close>

fun discover_mappings :: "'w discovery_api \<Rightarrow> 'm option \<Rightarrow> int \<Rightarrow> bool \<Rightarrow> u16 \<Rightarrow> nat \<Rightarrow> nat
    \<Rightarrow> pdo_mapping_config list \<Rightarrow> 'w \<Rightarrow> (discovery_error + pdo_mapping_config list \<times> bool) \<times> 'w" where
  "discover_mappings D m deadline rx position limit taken [] w = (Inr ([], False), w)"
| "discover_mappings D m deadline rx position limit taken (pdo # pdos) w =
     (if pm_entries pdo \<noteq> []
      then and_do (discover_mappings D m deadline rx position limit taken pdos w) (\<lambda>(rest, found) w.
             (Inr (pdo # rest, found), w))
      else and_do (discover_mapping D m deadline rx position limit taken pdo w) (\<lambda>read w.
             and_do (discover_mappings D m deadline rx position limit (taken + length (pm_entries read)) pdos w)
               (\<lambda>(rest, found) w. (Inr (read # rest, True), w))))"

definition entries_total :: "pdo_mapping_config list \<Rightarrow> nat" where
  "entries_total pdos = sum_list (map (\<lambda>pdo. length (pm_entries pdo)) pdos)"

definition discover_direction :: "abi \<Rightarrow> 'w discovery_api \<Rightarrow> 'm option \<Rightarrow> int \<Rightarrow> bool \<Rightarrow> u16
    \<Rightarrow> pdo_mapping_config list \<Rightarrow> 'w \<Rightarrow> (discovery_error + pdo_mapping_config list \<times> bool) \<times> 'w" where
  "discover_direction A D m deadline rx position pdos w =
     (let limit = (if rx then MAX_PDOUTPUT_NUM A else MAX_PDINPUT_NUM A) in
      if limit < entries_total pdos then (Inl ConfiguredPastLimit, w)
      else discover_mappings D m deadline rx position limit (entries_total pdos) pdos w)"

fun discover_slaves :: "abi \<Rightarrow> 'w discovery_api \<Rightarrow> 'm option \<Rightarrow> int \<Rightarrow> slave_pdo_config list \<Rightarrow> 'w
    \<Rightarrow> (discovery_error + slave_pdo_config list \<times> bool) \<times> 'w" where
  "discover_slaves A D m deadline [] w = (Inr ([], False), w)"
| "discover_slaves A D m deadline (slave # rest) w =
     and_do (discover_direction A D m deadline True (sc_id slave) (rx_pdos slave) w) (\<lambda>(rx, found_rx) w.
     and_do (discover_direction A D m deadline False (sc_id slave) (tx_pdos slave) w) (\<lambda>(tx, found_tx) w.
     and_do (discover_slaves A D m deadline rest w) (\<lambda>(slaves', found) w.
       (Inr (slave\<lparr>rx_pdos := rx, tx_pdos := tx\<rparr> # slaves', found_rx \<or> found_tx \<or> found), w))))"

datatype discovery_outcome = Resolved pdo_bus_config | NotResolved discovery_error | DiscoveryUnfinished

definition discover_empty_entries :: "abi \<Rightarrow> 'w discovery_api \<Rightarrow> ('f, 'w) writeback_api \<Rightarrow> nat \<Rightarrow> string
    \<Rightarrow> 'm option \<Rightarrow> int \<Rightarrow> pdo_bus_config \<Rightarrow> 'w \<Rightarrow> discovery_outcome \<times> 'w" where
  "discover_empty_entries A D F fuel path m deadline config w =
     (case discover_slaves A D m deadline (bc_slaves config) w of
        (Inl e, w) \<Rightarrow> (NotResolved e, w)
      | (Inr (read, found), w) \<Rightarrow>
          if \<not> found then (Resolved config, w)
          else (case dv_now D w of
            (now, w) \<Rightarrow>
              if deadline \<le> now then (NotResolved LateForWriteback, w)
              else (case save_discovered A F fuel path config (config\<lparr>bc_slaves := read\<rparr>) w of
                (Saved resolved, w) \<Rightarrow> (Resolved resolved, w)
              | (NotSaved e, w) \<Rightarrow> (NotResolved (WritebackFailed e), w)
              | (SaveUnfinished, w) \<Rightarrow> (DiscoveryUnfinished, w))))"

end
