(* ===== verification/Discovery_Correct.thy ===== *)
theory Discovery_Correct
  imports Pdo_Discovery
begin

text \<open>
  What a successful discovery has read: the log of its calls is the sequence of guarded reads that the
  resolved entries are decoded from, mapping by mapping, and mappings that had entries are untouched.
\<close>

datatype discovery_event = DvNow int | DvSlave u16 int slave_info | DvRead u16 u16 u8 int "u8 list" nat

definition log_discovery :: "'w discovery_api \<Rightarrow> ('w \<times> discovery_event list) discovery_api" where
  "log_discovery D = \<lparr>
     dv_preop = dv_preop D,
     dv_slave = (\<lambda>p (w, l). case dv_slave D p w of ((rc, info), w) \<Rightarrow> ((rc, info), (w, l @ [DvSlave p rc info]))),
     dv_upload = (\<lambda>p i s (w, l). case dv_upload D p i s w of
        ((rc, bytes, n, a), w) \<Rightarrow> ((rc, bytes, n, a), (w, l @ [DvRead p i s rc bytes n]))),
     dv_now = (\<lambda>(w, l). case dv_now D w of (t, w) \<Rightarrow> (t, (w, l @ [DvNow t])))\<rparr>"

lemma log_discovery_simps [simp]:
  "dv_preop (log_discovery D) = dv_preop D"
  "dv_slave (log_discovery D) p (w, l) = (case dv_slave D p w of ((rc, info), w) \<Rightarrow> ((rc, info), (w, l @ [DvSlave p rc info])))"
  "dv_upload (log_discovery D) p i s (w, l) = (case dv_upload D p i s w of
        ((rc, bytes, n, a), w) \<Rightarrow> ((rc, bytes, n, a), (w, l @ [DvRead p i s rc bytes n])))"
  "dv_now (log_discovery D) (w, l) = (case dv_now D w of (t, w) \<Rightarrow> (t, (w, l @ [DvNow t])))"
  by (simp_all add: log_discovery_def)

text \<open>One object read between two healthy polls in time.\<close>

definition healthy_before :: "'w discovery_api \<Rightarrow> int \<Rightarrow> u16 \<Rightarrow> discovery_event list \<Rightarrow> bool" where
  "healthy_before D deadline p l \<longleftrightarrow>
     (\<exists>t info. l = [DvNow t, DvSlave p 0 info] \<and> t < deadline \<and> si_al_state info = dv_preop D \<and> si_error_flag info = 0)"

definition guarded_read :: "'w discovery_api \<Rightarrow> int \<Rightarrow> u16 \<Rightarrow> u16 \<Rightarrow> nat \<Rightarrow> nat \<Rightarrow> u32 \<Rightarrow> discovery_event list \<Rightarrow> bool" where
  "guarded_read D deadline p index n sub v l \<longleftrightarrow>
     (\<exists>g1 bytes g2. l = g1 @ DvRead p index (of_nat sub) 0 bytes n # g2
        \<and> healthy_before D deadline p g1 \<and> healthy_before D deadline p g2 \<and> v = le_decode (take n bytes))"

text \<open>The reads of one mapping: the count, every object, the same count again.\<close>

definition mapping_read :: "'w discovery_api \<Rightarrow> int \<Rightarrow> bool \<Rightarrow> u16 \<Rightarrow> pdo_mapping_config \<Rightarrow> pdo_mapping_config
    \<Rightarrow> discovery_event list \<Rightarrow> bool" where
  "mapping_read D deadline rx p pdo pdo' l \<longleftrightarrow>
     (if pm_entries pdo \<noteq> [] then pdo' = pdo \<and> l = []
      else \<exists>count vs l0 ls l1. l = l0 @ ls @ l1
        \<and> guarded_read D deadline p (pm_index pdo) 1 0 count l0
        \<and> in_sequence (guarded_read D deadline p (pm_index pdo) 4) [1..<Suc (unat count)] vs ls
        \<and> guarded_read D deadline p (pm_index pdo) 1 0 count l1
        \<and> list_all (\<lambda>v. ucast v \<noteq> (0 :: u8)) vs
        \<and> pdo' = pdo\<lparr>pm_entries := map2 (mapping_entry rx (pm_index pdo)) [1..<Suc (unat count)] vs\<rparr>)"

definition slave_read :: "abi \<Rightarrow> 'w discovery_api \<Rightarrow> int \<Rightarrow> slave_pdo_config \<Rightarrow> slave_pdo_config
    \<Rightarrow> discovery_event list \<Rightarrow> bool" where
  "slave_read A D deadline s s' l \<longleftrightarrow>
     (\<exists>rx tx l1 l2. s' = s\<lparr>rx_pdos := rx, tx_pdos := tx\<rparr> \<and> l = l1 @ l2
        \<and> in_sequence (mapping_read D deadline True (sc_id s)) (rx_pdos s) rx l1
        \<and> in_sequence (mapping_read D deadline False (sc_id s)) (tx_pdos s) tx l2
        \<and> entries_total rx \<le> MAX_PDOUTPUT_NUM A \<and> entries_total tx \<le> MAX_PDINPUT_NUM A)"

lemma discovery_guard_logged:
  "discovery_guard (log_discovery D) m deadline p i s (w, l) = (Inr u, (w', l')) \<Longrightarrow>
     \<exists>g. l' = l @ g \<and> healthy_before D deadline p g"
  by (auto simp: discovery_guard_def healthy_before_def split: if_splits prod.splits)

lemma upload_logged:
  assumes "upload (log_discovery D) m deadline p i s n (w, l) = (Inr v, (w', l'))"
  shows "\<exists>r. l' = l @ r \<and> guarded_read D deadline p i n s v r"
proof -
  obtain x w1 l1 where x: "discovery_guard (log_discovery D) m deadline p i s (w, l) = (x, (w1, l1))"
    by (metis prod.collapse)
  obtain rc bytes sz a w2 l2 where up: "dv_upload (log_discovery D) p i (of_nat s) (w1, l1) = ((rc, bytes, sz, a), (w2, l2))"
    by (metis prod.collapse)
  obtain y w3 l3 where y: "discovery_guard (log_discovery D) m deadline p i s (w2, l2) = (y, (w3, l3))"
    by (metis prod.collapse)
  have v: "x = Inr ()" "y = Inr ()" "rc = 0" "sz = n" "v = le_decode (take n bytes)" "w' = w3" "l' = l3"
    using assms x up y
    by (cases x; cases y; simp add: upload_def del: log_discovery_simps split: if_split_asm)+
  note g1 = x [unfolded v] and g2 = y [unfolded v(2)]
  from up v have "l2 = l1 @ [DvRead p i (of_nat s) 0 bytes n]" by (auto split: prod.splits)
  with discovery_guard_logged [OF g1] discovery_guard_logged [OF g2] v show ?thesis
    unfolding guarded_read_def by (metis append.assoc append_Cons append_Nil)
qed

lemma discover_entries_logged:
  "discover_entries (log_discovery D) m deadline rx p i subs (w, l) = (Inr es, (w', l')) \<Longrightarrow>
     \<exists>vs r. l' = l @ r \<and> in_sequence (guarded_read D deadline p i 4) subs vs r
       \<and> list_all (\<lambda>v. ucast v \<noteq> (0 :: u8)) vs \<and> es = map2 (mapping_entry rx i) subs vs"
proof (induction subs arbitrary: w l es)
  case Nil
  then show ?case by auto
next
  case (Cons sub subs)
  from Cons.prems obtain v w1 l1 rest where
    up: "upload (log_discovery D) m deadline p i sub 4 (w, l) = (Inr v, (w1, l1))"
    and v: "ucast v \<noteq> (0 :: u8)"
    and tl: "discover_entries (log_discovery D) m deadline rx p i subs (w1, l1) = (Inr rest, (w', l'))"
    and es: "es = mapping_entry rx i sub v # rest"
    by (auto simp: result_simps Let_def mapping_entry_def split: if_splits)
  from upload_logged [OF up] obtain r1 where "l1 = l @ r1" "guarded_read D deadline p i 4 sub v r1" by blast
  moreover from Cons.IH [OF tl] obtain vs r2 where "l' = l1 @ r2" "in_sequence (guarded_read D deadline p i 4) subs vs r2"
    "list_all (\<lambda>v. ucast v \<noteq> (0 :: u8)) vs" "rest = map2 (mapping_entry rx i) subs vs" by blast
  ultimately show ?case using v es by (intro exI [of _ "v # vs"] exI [of _ "r1 @ r2"]) auto
qed

lemma discover_mapping_logged:
  assumes "discover_mapping (log_discovery D) m deadline rx p limit taken pdo (w, l) = (Inr pdo', (w', l'))"
    and "pm_entries pdo = []"
  shows "\<exists>r. l' = l @ r \<and> mapping_read D deadline rx p pdo pdo' r \<and> length (pm_entries pdo') \<le> limit - taken"
proof -
  from assms(1) obtain count w1 l1 entries w2 l2 where
    a: "upload (log_discovery D) m deadline p (pm_index pdo) 0 1 (w, l) = (Inr count, (w1, l1))"
    and b: "discover_entries (log_discovery D) m deadline rx p (pm_index pdo) [1..<Suc (unat count)] (w1, l1) = (Inr entries, (w2, l2))"
    and c: "upload (log_discovery D) m deadline p (pm_index pdo) 0 1 (w2, l2) = (Inr count, (w', l'))"
    and le: "unat count \<le> limit - taken" and pdo': "pdo' = pdo\<lparr>pm_entries := entries\<rparr>"
    by (auto simp: discover_mapping_def result_simps simp del: upt_Suc split: if_splits)
  from upload_logged [OF a] obtain r0 where r0: "l1 = l @ r0" "guarded_read D deadline p (pm_index pdo) 1 0 count r0" by blast
  from upload_logged [OF c] obtain r2 where r2: "l' = l2 @ r2" "guarded_read D deadline p (pm_index pdo) 1 0 count r2" by blast
  from discover_entries_logged [OF b] obtain vs r1 where r1: "l2 = l1 @ r1"
    "in_sequence (guarded_read D deadline p (pm_index pdo) 4) [1..<Suc (unat count)] vs r1"
    "list_all (\<lambda>v. ucast v \<noteq> (0 :: u8)) vs" "entries = map2 (mapping_entry rx (pm_index pdo)) [1..<Suc (unat count)] vs" by blast
  have "mapping_read D deadline rx p pdo pdo' (r0 @ r1 @ r2)"
    unfolding mapping_read_def using assms(2) r0(2) r1(2-4) r2(2) pdo'
    by (simp only: if_False not_not simp_thms) blast
  moreover have "length entries \<le> limit - taken"
    using in_sequence_length [OF r1(2)] r1(4) le by simp
  ultimately show ?thesis using r0 r1 r2 pdo' by auto
qed

lemma entries_total_simps [simp]:
  "entries_total [] = 0" "entries_total (pdo # pdos) = length (pm_entries pdo) + entries_total pdos"
  by (simp_all add: entries_total_def)

definition some_empty :: "pdo_mapping_config list \<Rightarrow> bool" where
  "some_empty pdos \<longleftrightarrow> list_ex (\<lambda>pdo. pm_entries pdo = []) pdos"

lemma some_empty_simps [simp]:
  "some_empty [] = False" "some_empty (pdo # pdos) \<longleftrightarrow> pm_entries pdo = [] \<or> some_empty pdos"
  by (simp_all add: some_empty_def)

lemma discover_mappings_logged:
  "discover_mappings (log_discovery D) m deadline rx p limit taken pdos (w, l) = (Inr (pdos', found), (w', l')) \<Longrightarrow>
   taken \<le> limit \<Longrightarrow>
     \<exists>r. l' = l @ r \<and> in_sequence (mapping_read D deadline rx p) pdos pdos' r \<and> found = some_empty pdos
       \<and> taken + entries_total pdos' \<le> limit + entries_total pdos"
proof (induction pdos arbitrary: taken w l pdos' found)
  case Nil
  then show ?case by auto
next
  case (Cons pdo pdos)
  show ?case
  proof (cases "pm_entries pdo = []")
    case False
    from Cons.prems(1) False obtain rest f where
      tl: "discover_mappings (log_discovery D) m deadline rx p limit taken pdos (w, l) = (Inr (rest, f), (w', l'))"
      and "pdos' = pdo # rest" "found = f"
      by (auto simp: result_simps)
    with Cons.IH [OF tl Cons.prems(2)] False show ?thesis
      by (auto simp: mapping_read_def intro!: exI [of _ "[]"])
  next
    case True
    from Cons.prems(1) True obtain read w1 l1 rest f where
      hd: "discover_mapping (log_discovery D) m deadline rx p limit taken pdo (w, l) = (Inr read, (w1, l1))"
      and tl: "discover_mappings (log_discovery D) m deadline rx p limit (taken + length (pm_entries read)) pdos (w1, l1)
          = (Inr (rest, f), (w', l'))"
      and res: "pdos' = read # rest" "found"
      by (auto simp: result_simps)
    from discover_mapping_logged [OF hd True] obtain r1 where r1: "l1 = l @ r1" "mapping_read D deadline rx p pdo read r1"
      "length (pm_entries read) \<le> limit - taken" by blast
    have "taken + length (pm_entries read) \<le> limit" using r1(3) Cons.prems(2) by simp
    from Cons.IH [OF tl this] obtain r2 where "l' = l1 @ r2" "in_sequence (mapping_read D deadline rx p) pdos rest r2"
      "taken + length (pm_entries read) + entries_total rest \<le> limit + entries_total pdos" by blast
    then show ?thesis using r1 res True by (intro exI [of _ "r1 @ r2"]) auto
  qed
qed

lemma discover_direction_logged:
  assumes "discover_direction A (log_discovery D) m deadline rx p pdos (w, l) = (Inr (pdos', found), (w', l'))"
  shows "\<exists>r. l' = l @ r \<and> in_sequence (mapping_read D deadline rx p) pdos pdos' r \<and> found = some_empty pdos
    \<and> entries_total pdos' \<le> (if rx then MAX_PDOUTPUT_NUM A else MAX_PDINPUT_NUM A)"
  using assms discover_mappings_logged unfolding discover_direction_def Let_def
  by (fastforce simp del: log_discovery_simps split: if_split_asm)

definition needs_discovery :: "slave_pdo_config list \<Rightarrow> bool" where
  "needs_discovery ss \<longleftrightarrow> list_ex (\<lambda>s. some_empty (rx_pdos s) \<or> some_empty (tx_pdos s)) ss"

lemma discover_slaves_logged:
  "discover_slaves A (log_discovery D) m deadline ss (w, l) = (Inr (ss', found), (w', l')) \<Longrightarrow>
     \<exists>r. l' = l @ r \<and> in_sequence (slave_read A D deadline) ss ss' r \<and> found = needs_discovery ss"
proof (induction ss arbitrary: w l ss' found)
  case Nil
  then show ?case by (auto simp: needs_discovery_def)
next
  case (Cons s ss)
  from Cons.prems obtain rx f1 w1 l1 tx f2 w2 l2 rest f3 where
    a: "discover_direction A (log_discovery D) m deadline True (sc_id s) (rx_pdos s) (w, l) = (Inr (rx, f1), (w1, l1))"
    and b: "discover_direction A (log_discovery D) m deadline False (sc_id s) (tx_pdos s) (w1, l1) = (Inr (tx, f2), (w2, l2))"
    and c: "discover_slaves A (log_discovery D) m deadline ss (w2, l2) = (Inr (rest, f3), (w', l'))"
    and res: "ss' = s\<lparr>rx_pdos := rx, tx_pdos := tx\<rparr> # rest" "found = (f1 \<or> f2 \<or> f3)"
    by (auto simp: result_simps) blast+
  from discover_direction_logged [OF a] obtain r1 where r1: "l1 = l @ r1" "in_sequence (mapping_read D deadline True (sc_id s)) (rx_pdos s) rx r1"
    "f1 = some_empty (rx_pdos s)" "entries_total rx \<le> MAX_PDOUTPUT_NUM A" by auto
  from discover_direction_logged [OF b] obtain r2 where r2: "l2 = l1 @ r2" "in_sequence (mapping_read D deadline False (sc_id s)) (tx_pdos s) tx r2"
    "f2 = some_empty (tx_pdos s)" "entries_total tx \<le> MAX_PDINPUT_NUM A" by auto
  from Cons.IH [OF c] obtain r3 where r3: "l' = l2 @ r3" "in_sequence (slave_read A D deadline) ss rest r3" "f3 = needs_discovery ss" by blast
  have "slave_read A D deadline s (s\<lparr>rx_pdos := rx, tx_pdos := tx\<rparr>) (r1 @ r2)"
    unfolding slave_read_def using r1 r2 by blast
  then show ?case using r1 r2 r3 res
    by (intro exI [of _ "(r1 @ r2) @ r3"]) (auto simp: needs_discovery_def simp del: append_assoc)
qed

text \<open>Without an empty mapping nothing happens.\<close>

lemma discover_mappings_nothing:
  "\<not> some_empty pdos \<Longrightarrow> discover_mappings D m deadline rx p limit taken pdos w = (Inr (pdos, False), w)"
  by (induction pdos) auto

lemma discover_slaves_nothing:
  "\<not> needs_discovery ss \<Longrightarrow> discover_slaves A D m deadline ss w \<in> {(Inr (ss, False), w), (Inl ConfiguredPastLimit, w)}"
  by (induction ss) (auto simp: needs_discovery_def discover_direction_def discover_mappings_nothing Let_def)

text \<open>
  Claim C34. A successful discovery has read, slave by slave and mapping by mapping, exactly the objects
  its entries are decoded from: each read stands between two polls that found the slave in error-free
  PREOP before the deadline, the count of every mapping is read before and after its objects and is the
  same, no entry is zero bits long, no direction exceeds the capacity of the shared memory, and mappings
  that had entries are untouched. The answer is then what was saved, and the save started before the
  deadline. Without an empty mapping nothing is read, nothing is written and nothing changes.
\<close>

theorem discovery_reads_exact:
  "case discover_empty_entries A (log_discovery D) F fuel path m deadline config (w, []) of (r, w') \<Rightarrow>
     (case r of
        Resolved c \<Rightarrow>
          (if needs_discovery (bc_slaves config)
           then \<exists>ss l t w1. in_sequence (slave_read A D deadline) (bc_slaves config) ss l \<and> t < deadline
             \<and> save_discovered A F fuel path config (config\<lparr>bc_slaves := ss\<rparr>) (w1, l @ [DvNow t]) = (Saved c, w')
           else c = config \<and> w' = (w, []))
      | NotResolved e \<Rightarrow> needs_discovery (bc_slaves config) \<or> (e = ConfiguredPastLimit \<and> w' = (w, []))
      | DiscoveryUnfinished \<Rightarrow> needs_discovery (bc_slaves config))"
proof (cases "needs_discovery (bc_slaves config)")
  case False
  then show ?thesis
    using discover_slaves_nothing [OF False, of A "log_discovery D" m deadline "(w, [])"]
    by (auto simp: discover_empty_entries_def)
next
  case True
  obtain r w1 l where run: "discover_slaves A (log_discovery D) m deadline (bc_slaves config) (w, []) = (r, (w1, l))"
    by (metis prod.collapse)
  show ?thesis
  proof (cases r)
    case (Inl e)
    then show ?thesis using run True by (simp add: discover_empty_entries_def)
  next
    case (Inr read)
    then obtain ss found where r: "r = Inr (ss, found)" by (cases read) auto
    from discover_slaves_logged [OF run [unfolded r]] True
    have "in_sequence (slave_read A D deadline) (bc_slaves config) ss l" "found" by auto
    then show ?thesis using run r True
      by (auto simp: discover_empty_entries_def not_le split: prod.splits save_outcome.splits)
  qed
qed

end
