(* ===== verification/Pdo_Registration.thy ===== *)
theory Pdo_Registration
  imports Pdo_Verification Checked_Results
begin

text \<open>
  The registration loop of \<open>initializeImpl\<close> in src/src/ethercat_master.cpp: every PDO entry of the
  process data sync managers is registered in a domain, and its byte offset and bit position are
  written to the entry table. \<open>ecrt_slave_config_reg_pdo_entry_pos\<close> is the parameter \<open>reg\<close>.
\<close>

type_synonym ('d, 'c, 'w) registration = "'c \<Rightarrow> u8 \<Rightarrow> nat \<Rightarrow> nat \<Rightarrow> 'd option \<Rightarrow> 'w \<Rightarrow> (int \<times> u32) \<times> 'w"

datatype registration_error =
  WrongDirection u8 | EntryTableMismatch | RegistrationRefused | BitPositionExceeds

section \<open>The loops\<close>

text \<open>The entry table with its cursor \<open>entry_index\<close>; \<open>count\<close> is \<open>slave.entry_count\<close>.\<close>

fun register_entries :: "('d, 'c, 'w) registration \<Rightarrow> 'c \<Rightarrow> ec_sync_info \<Rightarrow> 'd option \<Rightarrow> nat \<Rightarrow> nat list \<Rightarrow> nat
    \<Rightarrow> pdo_entry_spec list \<Rightarrow> nat \<Rightarrow> 'w \<Rightarrow> (registration_error + pdo_entry_spec list \<times> nat) \<times> 'w" where
  "register_entries reg sc sync domain p [] count entries k w = (Inr (entries, k), w)"
| "register_entries reg sc sync domain p (e # es) count entries k w =
     (if count \<le> k then (Inl EntryTableMismatch, w)
      else case reg sc (sy_index sync) p e domain w of
        ((offset, bit_position), w) \<Rightarrow>
          if offset < 0 then (Inl RegistrationRefused, w)
          else if 7 < bit_position then (Inl BitPositionExceeds, w)
          else register_entries reg sc sync domain p es count
            (entries[k := (entries ! k)\<lparr>es_offset := word_of_int offset, es_bit_position := bit_position\<rparr>]) (Suc k) w)"

fun register_pdos :: "('d, 'c, 'w) registration \<Rightarrow> 'c \<Rightarrow> ec_sync_info \<Rightarrow> 'd option \<Rightarrow> nat \<Rightarrow> ec_pdo_info list \<Rightarrow> nat
    \<Rightarrow> pdo_entry_spec list \<Rightarrow> nat \<Rightarrow> 'w \<Rightarrow> (registration_error + pdo_entry_spec list \<times> nat) \<times> 'w" where
  "register_pdos reg sc sync domain p [] count entries k w = (Inr (entries, k), w)"
| "register_pdos reg sc sync domain p (pdo # pdos) count entries k w =
     and_do (register_entries reg sc sync domain p [0..<pi_n_entries pdo] count entries k w) (\<lambda>(entries, k) w.
       register_pdos reg sc sync domain (Suc p) pdos count entries k w)"

fun register_syncs :: "('d, 'c, 'w) registration \<Rightarrow> 'c \<Rightarrow> 'd option \<Rightarrow> 'd option \<Rightarrow> ec_sync_info list \<Rightarrow> nat
    \<Rightarrow> pdo_entry_spec list \<Rightarrow> nat \<Rightarrow> 'w \<Rightarrow> (registration_error + pdo_entry_spec list \<times> nat) \<times> 'w" where
  "register_syncs reg sc input output [] count entries k w = (Inr (entries, k), w)"
| "register_syncs reg sc input output (sync # syncs) count entries k w =
     (if sy_index sync \<noteq> 2 \<and> sy_index sync \<noteq> 3 then register_syncs reg sc input output syncs count entries k w
      else if (sy_index sync = 2) \<noteq> (sy_dir sync = EC_DIR_OUTPUT) then (Inl (WrongDirection (sy_index sync)), w)
      else and_do (register_pdos reg sc sync (if sy_dir sync = EC_DIR_INPUT then input else output) 0
             (array (sy_pdos sync) (sy_n_pdos sync)) count entries k w) (\<lambda>(entries, k) w.
        register_syncs reg sc input output syncs count entries k w))"

definition register_slave :: "('d, 'c, 'w) registration \<Rightarrow> 'c \<Rightarrow> 'd option \<Rightarrow> 'd option \<Rightarrow> slave_spec \<Rightarrow> 'w
    \<Rightarrow> (registration_error + slave_spec) \<times> 'w" where
  "register_slave reg sc input output slave w =
     and_do (register_syncs reg sc input output
          (takeWhile (\<lambda>sync. sy_index sync \<noteq> 0xff) (case sp_syncs slave of None \<Rightarrow> [] | Some syncs \<Rightarrow> syncs))
          (sp_entry_count slave) (case sp_entries slave of None \<Rightarrow> [] | Some entries \<Rightarrow> entries) 0 w)
       (\<lambda>(entries, k) w.
          if k \<noteq> sp_entry_count slave then (Inl EntryTableMismatch, w)
          else (Inr (slave\<lparr>sp_entries := map_option (\<lambda>_. entries) (sp_entries slave)\<rparr>), w))"


section \<open>What was registered\<close>

text \<open>The positions of the entries of a slave in the order of its tables.\<close>

definition pdo_positions :: "ec_sync_info \<Rightarrow> nat \<Rightarrow> ec_pdo_info list \<Rightarrow> (ec_sync_info \<times> nat \<times> nat) list" where
  "pdo_positions sync p pdos =
     concat (map (\<lambda>(p, pdo). map (\<lambda>e. (sync, p, e)) [0..<pi_n_entries pdo]) (enumerate p pdos))"

definition sync_positions :: "ec_sync_info list \<Rightarrow> (ec_sync_info \<times> nat \<times> nat) list" where
  "sync_positions syncs = concat (map (\<lambda>sync. pdo_positions sync 0 (array (sy_pdos sync) (sy_n_pdos sync))) syncs)"

datatype ('d, 'c) reg_event = Registered 'c u8 nat nat "'d option" int u32

definition log_registration :: "('d, 'c, 'w) registration \<Rightarrow> ('d, 'c, 'w \<times> ('d, 'c) reg_event list) registration" where
  "log_registration reg = (\<lambda>sc s p e d (w, l). case reg sc s p e d w of
     ((offset, bits), w) \<Rightarrow> ((offset, bits), (w, l @ [Registered sc s p e d offset bits])))"

lemma log_registration_simp [simp]:
  "log_registration reg sc s p e d (w, l) = (case reg sc s p e d w of
     ((offset, bits), w) \<Rightarrow> ((offset, bits), (w, l @ [Registered sc s p e d offset bits])))"
  by (simp add: log_registration_def)

text \<open>The answers \<open>rs\<close> for the positions \<open>ps\<close>, their log, and the entries they leave.\<close>

definition in_range :: "int \<times> u32 \<Rightarrow> bool" where
  "in_range r \<longleftrightarrow> 0 \<le> fst r \<and> snd r \<le> 7"

definition reg_log :: "'c \<Rightarrow> 'd option \<Rightarrow> 'd option \<Rightarrow> (ec_sync_info \<times> nat \<times> nat) list \<Rightarrow> (int \<times> u32) list
    \<Rightarrow> ('d, 'c) reg_event list" where
  "reg_log sc input output ps rs = map (\<lambda>((sync, p, e), (offset, bits)).
     Registered sc (sy_index sync) p e (if sy_dir sync = EC_DIR_INPUT then input else output) offset bits) (zip ps rs)"

definition placed :: "pdo_entry_spec \<Rightarrow> int \<times> u32 \<Rightarrow> pdo_entry_spec" where
  "placed entry r = entry\<lparr>es_offset := word_of_int (fst r), es_bit_position := snd r\<rparr>"

fun placed_from :: "pdo_entry_spec list \<Rightarrow> nat \<Rightarrow> (int \<times> u32) list \<Rightarrow> pdo_entry_spec list" where
  "placed_from entries k [] = entries"
| "placed_from entries k (r # rs) = placed_from (entries[k := placed (entries ! k) r]) (Suc k) rs"

lemma placed_from_append: "placed_from (placed_from entries k rs) (k + length rs) qs = placed_from entries k (rs @ qs)"
  by (induction entries k rs rule: placed_from.induct) auto

lemma length_placed_from [simp]: "length (placed_from entries k rs) = length entries"
  by (induction rs arbitrary: entries k) auto

lemma placed_from_Cons: "placed_from (x # entries) (Suc k) rs = x # placed_from entries k rs"
  by (induction rs arbitrary: entries k) auto

lemma placed_from_all: "length rs = length entries \<Longrightarrow> placed_from entries 0 rs = map2 placed entries rs"
proof (induction rs arbitrary: entries)
  case Nil
  then show ?case by simp
next
  case (Cons r rs)
  then show ?case by (cases entries) (auto simp: placed_from_Cons)
qed

text \<open>One run of a loop over the positions \<open>ps\<close>, from a table and its cursor to a table and its cursor.\<close>

definition registers :: "'c \<Rightarrow> 'd option \<Rightarrow> 'd option \<Rightarrow> (ec_sync_info \<times> nat \<times> nat) list \<Rightarrow> nat
    \<Rightarrow> pdo_entry_spec list \<times> nat \<Rightarrow> ('d, 'c) reg_event list \<Rightarrow> pdo_entry_spec list \<times> nat \<Rightarrow> ('d, 'c) reg_event list \<Rightarrow> bool" where
  "registers sc input output ps count s l s' l' \<longleftrightarrow>
     (\<exists>rs. length rs = length ps \<and> list_all in_range rs \<and> l' = l @ reg_log sc input output ps rs
        \<and> snd s' = snd s + length ps \<and> (ps \<noteq> [] \<longrightarrow> snd s' \<le> count) \<and> fst s' = placed_from (fst s) (snd s) rs)"

lemma registers_Nil: "registers sc input output [] count s l s l"
  by (simp add: registers_def reg_log_def)

lemma registers_append:
  assumes "registers sc input output ps count s l s' l'" "registers sc input output qs count s' l' s'' l''"
  shows "registers sc input output (ps @ qs) count s l s'' l''"
proof -
  from assms obtain rs ts where r: "length rs = length ps" "list_all in_range rs" "l' = l @ reg_log sc input output ps rs"
      "snd s' = snd s + length ps" "ps \<noteq> [] \<longrightarrow> snd s' \<le> count" "fst s' = placed_from (fst s) (snd s) rs"
    and t: "length ts = length qs" "list_all in_range ts" "l'' = l' @ reg_log sc input output qs ts"
      "snd s'' = snd s' + length qs" "qs \<noteq> [] \<longrightarrow> snd s'' \<le> count" "fst s'' = placed_from (fst s') (snd s') ts"
    unfolding registers_def by blast
  have "fst s'' = placed_from (fst s) (snd s) (rs @ ts)"
    using r t placed_from_append [of "fst s" "snd s" rs ts] by simp
  then show ?thesis unfolding registers_def using r t
    by (intro exI [of _ "rs @ ts"]) (auto simp: reg_log_def)
qed

lemma register_entries_logged:
  "register_entries (log_registration reg) sc sync (if sy_dir sync = EC_DIR_INPUT then input else output) p es count entries k (w, l)
     = (Inr (entries', k'), (w', l')) \<Longrightarrow>
   registers sc input output (map (\<lambda>e. (sync, p, e)) es) count (entries, k) l (entries', k') l'"
proof (induction es arbitrary: entries k w l)
  case Nil
  then show ?case by (simp add: registers_Nil)
next
  case (Cons e es)
  obtain offset bits w1 where r: "reg sc (sy_index sync) p e (if sy_dir sync = EC_DIR_INPUT then input else output) w
      = ((offset, bits), w1)" by (metis prod.collapse)
  let ?l1 = "l @ [Registered sc (sy_index sync) p e (if sy_dir sync = EC_DIR_INPUT then input else output) offset bits]"
  let ?entries = "entries[k := placed (entries ! k) (offset, bits)]"
  from Cons.prems r have ok: "k < count" "0 \<le> offset" "bits \<le> 7"
    and tl: "register_entries (log_registration reg) sc sync (if sy_dir sync = EC_DIR_INPUT then input else output) p es count
      ?entries (Suc k) (w1, ?l1) = (Inr (entries', k'), (w', l'))"
    by (auto simp: placed_def not_le not_less split: if_split_asm)
  have "registers sc input output [(sync, p, e)] count (entries, k) l (?entries, Suc k) ?l1"
    unfolding registers_def using ok by (intro exI [of _ "[(offset, bits)]"]) (auto simp: reg_log_def in_range_def)
  from registers_append [OF this Cons.IH [OF tl]] show ?case by simp
qed

lemma pdo_positions_Cons:
  "pdo_positions sync p (pdo # pdos) = map (\<lambda>e. (sync, p, e)) [0..<pi_n_entries pdo] @ pdo_positions sync (Suc p) pdos"
  by (simp add: pdo_positions_def)

lemma register_pdos_logged:
  "register_pdos (log_registration reg) sc sync (if sy_dir sync = EC_DIR_INPUT then input else output) p pdos count entries k (w, l)
     = (Inr (entries', k'), (w', l')) \<Longrightarrow>
   registers sc input output (pdo_positions sync p pdos) count (entries, k) l (entries', k') l'"
proof (induction pdos arbitrary: p entries k w l)
  case Nil
  then show ?case by (simp add: registers_Nil pdo_positions_def)
next
  case (Cons pdo pdos)
  then obtain es1 k1 w1 l1 where
    hd: "register_entries (log_registration reg) sc sync (if sy_dir sync = EC_DIR_INPUT then input else output) p
      [0..<pi_n_entries pdo] count entries k (w, l) = (Inr (es1, k1), (w1, l1))"
    and tl: "register_pdos (log_registration reg) sc sync (if sy_dir sync = EC_DIR_INPUT then input else output) (Suc p) pdos
      count es1 k1 (w1, l1) = (Inr (entries', k'), (w', l'))"
    by (auto simp: result_simps simp del: if_split)
  show ?case
    using registers_append [OF register_entries_logged [OF hd] Cons.IH [OF tl]] by (simp add: pdo_positions_Cons)
qed

definition directed :: "ec_sync_info \<Rightarrow> bool" where
  "directed sync \<longleftrightarrow> (sy_index sync = 2) = (sy_dir sync = EC_DIR_OUTPUT)"

definition process_filter :: "ec_sync_info list \<Rightarrow> ec_sync_info list" where
  "process_filter syncs = filter (\<lambda>sync. sy_index sync = 2 \<or> sy_index sync = 3) syncs"

lemma register_syncs_logged:
  "register_syncs (log_registration reg) sc input output syncs count entries k (w, l) = (Inr (entries', k'), (w', l')) \<Longrightarrow>
   registers sc input output (sync_positions (process_filter syncs)) count (entries, k) l (entries', k') l'
   \<and> list_all directed (process_filter syncs)"
proof (induction syncs arbitrary: entries k w l)
  case Nil
  then show ?case by (simp add: registers_Nil sync_positions_def process_filter_def)
next
  case (Cons sync syncs)
  show ?case
  proof (cases "sy_index sync = 2 \<or> sy_index sync = 3")
    case False
    with Cons show ?thesis by (simp add: process_filter_def)
  next
    case True
    with Cons.prems obtain es1 k1 w1 l1 where dir: "directed sync"
      and hd: "register_pdos (log_registration reg) sc sync (if sy_dir sync = EC_DIR_INPUT then input else output) 0
        (array (sy_pdos sync) (sy_n_pdos sync)) count entries k (w, l) = (Inr (es1, k1), (w1, l1))"
      and tl: "register_syncs (log_registration reg) sc input output syncs count es1 k1 (w1, l1) = (Inr (entries', k'), (w', l'))"
      by (auto simp: result_simps directed_def split: if_split_asm)
    show ?thesis
      using registers_append [OF register_pdos_logged [OF hd] Cons.IH [OF tl, THEN conjunct1]] Cons.IH [OF tl] True dir
      by (simp add: sync_positions_def process_filter_def)
  qed
qed

text \<open>
  Claim C35. A slave whose registration succeeds had every entry of its sync managers 2 and 3 registered
  once and in the order of its tables, outputs in the output domain and inputs in the input domain, with
  answers in range; the entry table has exactly as many rows, and row by row it now holds the offset and
  the bit position of its own answer and is otherwise unchanged.
\<close>

theorem registration_exact:
  assumes "register_slave (log_registration reg) sc input output slave (w, []) = (Inr slave', (w', l))"
    and "sp_entries slave = Some entries" "length entries = sp_entry_count slave"
  shows "\<exists>rs. let ps = sync_positions (process_syncs slave) in
     length ps = length entries \<and> length rs = length ps \<and> list_all in_range rs
     \<and> list_all directed (process_syncs slave) \<and> l = reg_log sc input output ps rs
     \<and> slave' = slave\<lparr>sp_entries := Some (map2 placed entries rs)\<rparr>"
proof -
  let ?syncs = "takeWhile (\<lambda>sync. sy_index sync \<noteq> 0xff) (case sp_syncs slave of None \<Rightarrow> [] | Some syncs \<Rightarrow> syncs)"
  have ps: "process_syncs slave = process_filter ?syncs"
    by (simp add: process_syncs_def process_filter_def)
  from assms obtain es k where
    run: "register_syncs (log_registration reg) sc input output ?syncs (length entries) entries 0 (w, []) = (Inr (es, k), (w', l))"
    and k: "k = length entries" and slave': "slave' = slave\<lparr>sp_entries := Some es\<rparr>"
    by (auto simp: register_slave_def result_simps split: if_split_asm)
  from register_syncs_logged [OF run] obtain rs where
    "length rs = length (sync_positions (process_syncs slave))" "list_all in_range rs"
    "l = reg_log sc input output (sync_positions (process_syncs slave)) rs" "k = length (sync_positions (process_syncs slave))"
    "es = placed_from entries 0 rs" "list_all directed (process_syncs slave)"
    unfolding registers_def ps by auto
  then show ?thesis using k slave' by (auto simp: placed_from_all intro: exI [of _ rs])
qed

definition example_wire_entry :: "pdo_direction \<Rightarrow> pdo_entry_spec" where
  "example_wire_entry d = \<lparr>es_name = Some ''word'', es_direction = d, es_index = 0x6040, es_sub_index = 0,
     es_bit_length = 16, es_offset = 0, es_bit_position = 0, es_shared_offset = - 1\<rparr>"

definition example_wire_sync :: "u8 \<Rightarrow> ec_direction \<Rightarrow> nat \<Rightarrow> ec_sync_info" where
  "example_wire_sync i d n = \<lparr>sy_index = i, sy_dir = d, sy_n_pdos = 1,
     sy_pdos = Some [\<lparr>pi_index = 0x1600, pi_n_entries = n, pi_entries = None\<rparr>], sy_watchdog = EC_WD_DEFAULT\<rparr>"

definition example_wire_slave :: slave_spec where
  "example_wire_slave = \<lparr>sp_alias = 0, sp_position = 0, sp_vendor_id = 1, sp_product_code = 1,
     sp_name = Some ''drive'', sp_syncs = Some [example_wire_sync 2 EC_DIR_OUTPUT 2, example_wire_sync 3 EC_DIR_INPUT 1, sync_end],
     sp_entries = Some [example_wire_entry Output, example_wire_entry Output, example_wire_entry Input],
     sp_entry_count = 3, sp_dc = None, sp_init_commands = None, sp_init_command_count = 0\<rparr>"

definition example_reg :: "(bool, nat, unit) registration" where
  "example_reg = (\<lambda>sc s p e d w. ((if d = Some True then 0 else 2 * int e, 0), w))"

lemma example_register:
  "\<exists>l. register_slave (log_registration example_reg) 7 (Some True) (Some False) example_wire_slave ((), [])
     = (Inr (example_wire_slave\<lparr>sp_entries := Some [example_wire_entry Output,
          (example_wire_entry Output)\<lparr>es_offset := 2\<rparr>, example_wire_entry Input]\<rparr>), ((), l)) \<and> length l = 3"
  by (simp add: register_slave_def example_wire_slave_def example_wire_sync_def sync_end_def example_reg_def
      example_wire_entry_def array_def upt_conv_Cons)

theorem registration_exact_witness:
  "\<exists>l slave'. register_slave (log_registration example_reg) 7 (Some True) (Some False) example_wire_slave ((), []) = (Inr slave', ((), l))
     \<and> length (sync_positions (process_syncs example_wire_slave)) = 3 \<and> length l = 3"
proof -
  obtain l slave' where run: "register_slave (log_registration example_reg) 7 (Some True) (Some False) example_wire_slave ((), []) = (Inr slave', ((), l))"
    "length l = 3" using example_register by blast
  have "sp_entries example_wire_slave = Some [example_wire_entry Output, example_wire_entry Output, example_wire_entry Input]"
    "length [example_wire_entry Output, example_wire_entry Output, example_wire_entry Input] = sp_entry_count example_wire_slave"
    by (simp_all add: example_wire_slave_def)
  from registration_exact [OF run(1) this] run show ?thesis by (auto simp: Let_def)
qed

end
