(* ===== verification/Master_Init.thy ===== *)
theory Master_Init
  imports Pdo_Registration Pdo_Discovery Ethercat_Master
begin

text \<open>
  \<open>EthercatMaster::initialize\<close> of src/src/ethercat_master.cpp, in the stages of the code: request, wait
  for PREOP, discovery, identities, domains, slave configuration, reference clock, verification, PREOP
  configuration, activation, domain data. The state of a stage is the master object and the world. An
  error of a stage is followed by \<open>reset\<close>; console output is a call of the world with the data printed.
\<close>

section \<open>The interface\<close>

record ec_master_info =
  mi_slave_count :: nat
  mi_link_up :: bool
  mi_scan_busy :: bool

datatype console_line =
    ScanUnavailable u32 int
  | BusScan u32 ec_master_info nat bool "(nat \<times> int \<times> slave_info) list"
  | WaitingForPreop nat u8
  | EntriesSaved string
  | DomainSizes u32 nat nat

record ('m, 'd, 'c, 'q, 'p, 'f, 'w) init_api =
  ia_request_master :: "u32 \<Rightarrow> 'w \<Rightarrow> 'm option \<times> 'w"
  ia_master_info :: "'m option \<Rightarrow> 'w \<Rightarrow> (int \<times> ec_master_info) \<times> 'w"
  ia_slave :: "'m option \<Rightarrow> u16 \<Rightarrow> 'w \<Rightarrow> (int \<times> slave_info) \<times> 'w"
  ia_create_domain :: "'m option \<Rightarrow> 'w \<Rightarrow> 'd option \<times> 'w"
  ia_slave_config :: "'m option \<Rightarrow> u16 \<Rightarrow> u16 \<Rightarrow> u32 \<Rightarrow> u32 \<Rightarrow> 'w \<Rightarrow> 'c option \<times> 'w"
  ia_config_pdos :: "'c \<Rightarrow> ec_sync_info list option \<Rightarrow> 'w \<Rightarrow> int \<times> 'w"
  ia_config_dc :: "'c \<Rightarrow> u16 \<Rightarrow> u32 \<Rightarrow> s32 \<Rightarrow> u32 \<Rightarrow> s32 \<Rightarrow> 'w \<Rightarrow> int \<times> 'w"
  ia_register :: "('d, 'c, 'w) registration"
  ia_select_reference :: "'m option \<Rightarrow> 'c option \<Rightarrow> 'w \<Rightarrow> int \<times> 'w"
  ia_domain_data :: "'d option \<Rightarrow> 'w \<Rightarrow> 'p option \<times> 'w"
  ia_domain_size :: "'d option \<Rightarrow> 'w \<Rightarrow> nat \<times> 'w"
  ia_clear :: "'p \<Rightarrow> nat \<Rightarrow> 'w \<Rightarrow> 'w"
  ia_print :: "console_line \<Rightarrow> 'w \<Rightarrow> 'w"
  ia_steady :: "'w steady_api"
  ia_preop :: "'w preop_api"
  ia_requests :: "('c, 'q, 'w) request_api"
  ia_rt :: "('m, 'd, 'c, 'p, 'w) rt_api"
  ia_discovery :: "'w discovery_api"
  ia_files :: "('f, 'w) writeback_api"

text \<open>\<open>NeverReturned\<close> is not an error of the code: a write of the discovery was interrupted forever.\<close>

datatype init_error =
    AttemptsNotPositive | PreopTimeoutNotPositive | AlreadyInitialized | NoSlaveConfiguration
  | InvalidConfiguration config_error | NoClockPlan dc_plan_error | NoMasterHandle | NotInPreop wait_error
  | NotDiscovered discovery_error | NeverReturned | IdentityUnreadable nat | IdentityZero nat
  | IdentityMismatch nat u32 u32 u32 u32 | NoInputDomain | NoOutputDomain | NoSlaveHandle | PdosRejected
  | DcRejected nat | EntryNotRegistered nat registration_error | NoReferenceClock | ReferenceRejected nat
  | VerificationNotPrepared prepare_error | LateForReadback | PreopNotConfigured preop_outcome
  | NotActivated activate_error | NoDomainData | EmptyDomain | DomainExceedsShm | LayoutRejected layout_error


section \<open>Bus scan\<close>

text \<open>\<open>printBusScan\<close> of src/src/startup_report.cpp: its queries, the data it prints, and its result.\<close>

fun scan_rows :: "('m, 'd, 'c, 'q, 'p, 'f, 'w) init_api \<Rightarrow> 'm option \<Rightarrow> nat list \<Rightarrow> 'w
    \<Rightarrow> (nat \<times> int \<times> slave_info) list \<times> 'w" where
  "scan_rows I m [] w = ([], w)"
| "scan_rows I m (i # is) w =
     (case ia_slave I m (of_nat i) w of
        ((rc, info), w) \<Rightarrow> (case scan_rows I m is w of (rows, w) \<Rightarrow> ((i, rc, info) # rows, w)))"

definition print_bus_scan :: "('m, 'd, 'c, 'q, 'p, 'f, 'w) init_api \<Rightarrow> 'm option \<Rightarrow> u32 \<Rightarrow> nat \<Rightarrow> 'w \<Rightarrow> bool \<times> 'w" where
  "print_bus_scan I m mid configured w =
     (case ia_master_info I m w of
        ((rc, info), w) \<Rightarrow>
          if rc \<noteq> 0 then (False, ia_print I (ScanUnavailable mid rc) w)
          else (case scan_rows I m [0..<min (mi_slave_count info) 65536] w of
            (rows, w) \<Rightarrow>
              (\<not> mi_scan_busy info,
               ia_print I (BusScan mid info configured
                 (mi_link_up info \<and> \<not> mi_scan_busy info \<and> mi_slave_count info = configured) rows) w)))"

fun print_states :: "('m, 'd, 'c, 'q, 'p, 'f, 'w) init_api \<Rightarrow> 'm option \<Rightarrow> nat \<Rightarrow> slave_spec list \<Rightarrow> 'w \<Rightarrow> 'w" where
  "print_states I m i [] w = w"
| "print_states I m i (slave # rest) w =
     (case ia_slave I m (sp_position slave) w of
        ((rc, info), w) \<Rightarrow> print_states I m (Suc i) rest
          (if rc = 0 \<and> si_al_state info \<noteq> al_preop (ia_preop I)
           then ia_print I (WaitingForPreop i (si_al_state info)) w else w))"


section \<open>Stages\<close>

text \<open>Request and wait; the result is the deadline of the PREOP phase.\<close>

definition reach_preop :: "('m, 'd, 'c, 'q, 'p, 'f, 'w) init_api \<Rightarrow> u32 \<Rightarrow> static_slave_config \<Rightarrow> u32
    \<Rightarrow> ('m, 'd, 'c, 'q, 'p) ethercat_master \<times> 'w
    \<Rightarrow> (init_error + int) \<times> ('m, 'd, 'c, 'q, 'p) ethercat_master \<times> 'w" where
  "reach_preop I mid config timeout_ms s =
     (case s of (em, w) \<Rightarrow>
      case ia_request_master I mid w of
        (m, w) \<Rightarrow>
          let em = em\<lparr>master := m\<rparr> in
          if m = None then (Inl NoMasterHandle, em, w)
          else (case print_bus_scan I m mid (ssc_slave_count config) w of
            (scan_complete, w) \<Rightarrow>
              let w = print_states I m 0 (config_slaves config) w in
              (case steady_ns (ia_steady I) w of
                (now, w) \<Rightarrow>
                  (case wait_for_slaves_timed (ia_steady I) config timeout_ms w of
                     (Some err, w) \<Rightarrow> (Inl (NotInPreop err), em, w)
                   | (None, w) \<Rightarrow>
                       (Inr (now + uint timeout_ms * 1000000), em,
                        if scan_complete then w
                        else snd (print_bus_scan I m mid (ssc_slave_count config) w))))))"

text \<open>
  The YAML configuration and its tables, when there is one, are the pair \<open>yaml\<close>; the result is the pair
  and the tables to configure from.
\<close>

definition resolve_entries :: "abi \<Rightarrow> ('m, 'd, 'c, 'q, 'p, 'f, 'w) init_api \<Rightarrow> nat \<Rightarrow> string \<Rightarrow> int
    \<Rightarrow> (pdo_bus_config \<times> loaded_slave_config) option \<Rightarrow> static_slave_config
    \<Rightarrow> ('m, 'd, 'c, 'q, 'p) ethercat_master \<times> 'w
    \<Rightarrow> (init_error + static_slave_config) \<times> ('m, 'd, 'c, 'q, 'p) ethercat_master \<times> 'w" where
  "resolve_entries A I fuel path deadline yaml config s =
     (case (yaml, s) of
        (None, s) \<Rightarrow> (Inr config, s)
      | (Some (source, loaded), (em, w)) \<Rightarrow>
          if from_eni source then (Inr config, em, w)
          else case discover_empty_entries A (ia_discovery I) (ia_files I) fuel path (master em) deadline source w of
            (DiscoveryUnfinished, w) \<Rightarrow> (Inl NeverReturned, em, w)
          | (NotResolved err, w) \<Rightarrow> (Inl (NotDiscovered err), em, w)
          | (Resolved resolved, w) \<Rightarrow>
              (case build_config A resolved loaded of
                 (_, Some err) \<Rightarrow> (Inl (InvalidConfiguration err), em, w)
               | (rebuilt, None) \<Rightarrow>
                   (Inr (view rebuilt), em,
                    if source_yaml resolved \<noteq> source_yaml source then ia_print I (EntriesSaved path) w else w)))"

definition identify :: "nat \<Rightarrow> slave_spec \<Rightarrow> slave_info \<Rightarrow> init_error + slave_spec" where
  "identify i slave info =
     (if sp_vendor_id slave = 0
      then (case apply_discovered_identity slave (si_vendor_id info) (si_product_code info) of
              None \<Rightarrow> Inl (IdentityZero i)
            | Some slave \<Rightarrow>
                if sp_vendor_id slave = 0 \<or> sp_product_code slave = 0 then Inl (IdentityZero i) else Inr slave)
      else if si_vendor_id info \<noteq> sp_vendor_id slave \<or> si_product_code info \<noteq> sp_product_code slave
      then Inl (IdentityMismatch i (sp_vendor_id slave) (sp_product_code slave) (si_vendor_id info) (si_product_code info))
      else Inr slave)"

fun identify_slaves :: "('m, 'd, 'c, 'q, 'p, 'f, 'w) init_api \<Rightarrow> nat \<Rightarrow> slave_spec list
    \<Rightarrow> ('m, 'd, 'c, 'q, 'p) ethercat_master \<times> 'w
    \<Rightarrow> (init_error + slave_spec list) \<times> ('m, 'd, 'c, 'q, 'p) ethercat_master \<times> 'w" where
  "identify_slaves I i [] s = (Inr [], s)"
| "identify_slaves I i (slave # rest) (em, w) =
     (case ia_slave I (master em) (sp_position slave) w of
        ((rc, info), w) \<Rightarrow>
          if rc \<noteq> 0 then (Inl (IdentityUnreadable i), em, w)
          else case identify i slave info of
            Inl err \<Rightarrow> (Inl err, em, w)
          | Inr slave \<Rightarrow>
              and_do (identify_slaves I (Suc i) rest (em\<lparr>slave_identities := slave_identities em @ [info]\<rparr>, w))
                (\<lambda>slaves' s. (Inr (slave # slaves'), s)))"

definition create_domains :: "('m, 'd, 'c, 'q, 'p, 'f, 'w) init_api
    \<Rightarrow> ('m, 'd, 'c, 'q, 'p) ethercat_master \<times> 'w
    \<Rightarrow> (init_error + unit) \<times> ('m, 'd, 'c, 'q, 'p) ethercat_master \<times> 'w" where
  "create_domains I s =
     (case s of (em, w) \<Rightarrow>
      case ia_create_domain I (master em) w of
        (input, w) \<Rightarrow>
          let em = em\<lparr>input_domain := input\<rparr> in
          if input = None then (Inl NoInputDomain, em, w)
          else (case ia_create_domain I (master em) w of
            (output, w) \<Rightarrow>
              (if output = None then Inl NoOutputDomain else Inr (), em\<lparr>output_domain := output\<rparr>, w)))"

text \<open>One slave: its handle, its PDOs, its clock, its entries. \<open>reference\<close> is \<open>reference_clock_config\<close>.\<close>

definition configure_clock :: "('m, 'd, 'c, 'q, 'p, 'f, 'w) init_api \<Rightarrow> dc_runtime_config \<Rightarrow> nat \<Rightarrow> slave_spec \<Rightarrow> 'c
    \<Rightarrow> 'c option \<Rightarrow> 'w \<Rightarrow> (init_error + 'c option) \<times> 'w" where
  "configure_clock I plan i slave sc reference w =
     (case sp_dc slave of
        Some dc \<Rightarrow>
          if rc_enabled plan
          then (case ia_config_dc I sc (assign_activate dc) (sync0_cycle_ns plan) (sync0_shift_ns dc)
                    (sync1_cycle_ns dc) (sync1_shift_ns dc) w of
                  (rc, w) \<Rightarrow> (if rc \<noteq> 0 then Inl (DcRejected i)
                     else Inr (if i = reference_slave_index plan then Some sc else reference), w))
          else (Inr reference, w)
      | None \<Rightarrow> (Inr reference, w))"

definition configure_slave :: "('m, 'd, 'c, 'q, 'p, 'f, 'w) init_api \<Rightarrow> dc_runtime_config \<Rightarrow> nat \<Rightarrow> slave_spec
    \<Rightarrow> 'c option \<Rightarrow> ('m, 'd, 'c, 'q, 'p) ethercat_master \<times> 'w
    \<Rightarrow> (init_error + slave_spec \<times> 'c option) \<times> ('m, 'd, 'c, 'q, 'p) ethercat_master \<times> 'w" where
  "configure_slave I plan i slave reference s =
     (case s of (em, w) \<Rightarrow>
      case ia_slave_config I (master em) (sp_alias slave) (sp_position slave) (sp_vendor_id slave) (sp_product_code slave) w of
        (None, w) \<Rightarrow> (Inl NoSlaveHandle, em, w)
      | (Some sc, w) \<Rightarrow>
          let em = em\<lparr>slave_configs := slave_configs em @ [sc]\<rparr> in
          (case ia_config_pdos I sc (sp_syncs slave) w of
             (rc, w) \<Rightarrow>
               if rc \<noteq> 0 then (Inl PdosRejected, em, w)
               else (case configure_clock I plan i slave sc reference w of
                 (Inl err, w) \<Rightarrow> (Inl err, em, w)
               | (Inr reference, w) \<Rightarrow>
                   (case register_slave (ia_register I) sc (input_domain em) (output_domain em) slave w of
                      (Inl err, w) \<Rightarrow> (Inl (EntryNotRegistered i err), em, w)
                    | (Inr slave, w) \<Rightarrow> (Inr (slave, reference), em, w)))))"

fun configure_all :: "('m, 'd, 'c, 'q, 'p, 'f, 'w) init_api \<Rightarrow> dc_runtime_config \<Rightarrow> nat \<Rightarrow> slave_spec list
    \<Rightarrow> 'c option \<Rightarrow> ('m, 'd, 'c, 'q, 'p) ethercat_master \<times> 'w
    \<Rightarrow> (init_error + slave_spec list \<times> 'c option) \<times> ('m, 'd, 'c, 'q, 'p) ethercat_master \<times> 'w" where
  "configure_all I plan i [] reference s = (Inr ([], reference), s)"
| "configure_all I plan i (slave # rest) reference s =
     and_do (configure_slave I plan i slave reference s) (\<lambda>(slave, reference) s.
       and_do (configure_all I plan (Suc i) rest reference s) (\<lambda>(slaves', reference) s.
         (Inr (slave # slaves', reference), s)))"

definition select_reference :: "('m, 'd, 'c, 'q, 'p, 'f, 'w) init_api \<Rightarrow> dc_runtime_config \<Rightarrow> 'c option
    \<Rightarrow> ('m, 'd, 'c, 'q, 'p) ethercat_master \<times> 'w
    \<Rightarrow> (init_error + unit) \<times> ('m, 'd, 'c, 'q, 'p) ethercat_master \<times> 'w" where
  "select_reference I plan reference s =
     (case s of (em, w) \<Rightarrow>
      if \<not> rc_enabled plan then (Inr (), em, w)
      else if reference = None then (Inl NoReferenceClock, em, w)
      else case ia_select_reference I (master em) reference w of
        (rc, w) \<Rightarrow> (if rc \<noteq> 0 then Inl (ReferenceRejected (reference_slave_index plan)) else Inr (), em, w))"

text \<open>Preparation of the readback and the PREOP configuration in the time that is left.\<close>

definition verify_preop :: "('m, 'd, 'c, 'q, 'p, 'f, 'w) init_api \<Rightarrow> int \<Rightarrow> u32 \<Rightarrow> static_slave_config
    \<Rightarrow> ('m, 'd, 'c, 'q, 'p) ethercat_master \<times> 'w
    \<Rightarrow> (init_error + unit) \<times> ('m, 'd, 'c, 'q, 'p) ethercat_master \<times> 'w" where
  "verify_preop I deadline tries config s =
     (case s of (em, w) \<Rightarrow>
      case prepare (ia_requests I) config (map Some (slave_configs em)) (verification em) w of
        (st, w, Some err) \<Rightarrow> (Inl (VerificationNotPrepared err), em\<lparr>verification := st\<rparr>, w)
      | (st, w, None) \<Rightarrow>
          (case steady_ns (ia_steady I) w of
             (now, w) \<Rightarrow>
               let remaining_ms = (deadline - now) div 1000000 in
               if remaining_ms \<le> 0 then (Inl LateForReadback, em\<lparr>verification := st\<rparr>, w)
               else (case configure_preop (ia_preop I) (master em \<noteq> None) (word_of_int remaining_ms) tries st w of
                 (outcome, st, w) \<Rightarrow>
                   (if outcome = PreopConfigured then Inr () else Inl (PreopNotConfigured outcome),
                    em\<lparr>verification := st\<rparr>, w))))"

definition activate_master :: "('m, 'd, 'c, 'q, 'p, 'f, 'w) init_api \<Rightarrow> bool
    \<Rightarrow> ('m, 'd, 'c, 'q, 'p) ethercat_master \<times> 'w
    \<Rightarrow> (init_error + unit) \<times> ('m, 'd, 'c, 'q, 'p) ethercat_master \<times> 'w" where
  "activate_master I dc s =
     (case s of (em, w) \<Rightarrow>
      case activate_with_dc_time (ia_rt I) dc em w of
        (Some err, em, w) \<Rightarrow> (Inl (NotActivated err), em, w)
      | (None, em, w) \<Rightarrow> (Inr (), em, w))"

definition acquire_domains :: "('m, 'd, 'c, 'q, 'p, 'f, 'w) init_api \<Rightarrow> u32
    \<Rightarrow> ('m, 'd, 'c, 'q, 'p) ethercat_master \<times> 'w \<Rightarrow> ('m, 'd, 'c, 'q, 'p) ethercat_master \<times> 'w" where
  "acquire_domains I mid s =
     (case s of (em, w) \<Rightarrow>
      case ia_domain_data I (input_domain em) w of
        (inp, w) \<Rightarrow> (case ia_domain_data I (output_domain em) w of
        (out, w) \<Rightarrow> (case ia_domain_size I (input_domain em) w of
        (isz, w) \<Rightarrow> (case ia_domain_size I (output_domain em) w of
        (osz, w) \<Rightarrow>
          (em\<lparr>input_data := inp, output_data := out, em_input_size := isz, em_output_size := osz\<rparr>,
           ia_print I (DomainSizes mid isz osz) w)))))"

text \<open>The result is the configuration with the shared offsets.\<close>

definition finish_layout :: "abi \<Rightarrow> ('m, 'd, 'c, 'q, 'p, 'f, 'w) init_api \<Rightarrow> bool \<Rightarrow> static_slave_config
    \<Rightarrow> ('m, 'd, 'c, 'q, 'p) ethercat_master \<times> 'w
    \<Rightarrow> (init_error + static_slave_config) \<times> ('m, 'd, 'c, 'q, 'p) ethercat_master \<times> 'w" where
  "finish_layout A I dc config s =
     (case s of (em, w) \<Rightarrow>
      case (input_data em, output_data em) of
        (Some inp, Some out) \<Rightarrow>
          if em_input_size em = 0 \<or> em_output_size em = 0 then (Inl EmptyDomain, em, w)
          else if EC_SHM_MAX_SIZE A < em_input_size em \<or> EC_SHM_MAX_SIZE A < em_output_size em
          then (Inl DomainExceedsShm, em, w)
          else (case layout_build A config (em_input_size em) (em_output_size em) (layout em) of
            (lay, _, Some err) \<Rightarrow> (Inl (LayoutRejected err), em\<lparr>layout := lay\<rparr>, w)
          | (lay, config, None) \<Rightarrow>
              (Inr config, em\<lparr>layout := lay, em_dc_enabled := dc, initialized := True\<rparr>,
               ia_clear I out (em_output_size em) w))
      | _ \<Rightarrow> (Inl NoDomainData, em, w))"


section \<open>Initialization\<close>

definition with_slaves :: "static_slave_config \<Rightarrow> slave_spec list \<Rightarrow> static_slave_config" where
  "with_slaves config slaves' =
     config\<lparr>ssc_slaves := map_option (\<lambda>xs. slaves' @ drop (ssc_slave_count config) xs) (ssc_slaves config)\<rparr>"

text \<open>From the request of the master to the end; \<open>plan\<close> is the clock plan of the configuration given.\<close>

definition bring_up :: "abi \<Rightarrow> ('m, 'd, 'c, 'q, 'p, 'f, 'w) init_api \<Rightarrow> nat \<Rightarrow> u32 \<Rightarrow> static_slave_config
    \<Rightarrow> dc_runtime_config \<Rightarrow> u32 \<Rightarrow> u32 \<Rightarrow> (pdo_bus_config \<times> loaded_slave_config) option \<Rightarrow> string
    \<Rightarrow> ('m, 'd, 'c, 'q, 'p) ethercat_master \<times> 'w
    \<Rightarrow> (init_error + static_slave_config) \<times> ('m, 'd, 'c, 'q, 'p) ethercat_master \<times> 'w" where
  "bring_up A I fuel mid config plan timeout_ms tries yaml path s =
     and_do (reach_preop I mid config timeout_ms s) (\<lambda>deadline s.
     and_do (resolve_entries A I fuel path deadline yaml config s) (\<lambda>config s.
     and_do (identify_slaves I 0 (config_slaves config) s) (\<lambda>identified s.
     and_do (create_domains I s) (\<lambda>_ s.
     and_do (configure_all I plan 0 identified None s) (\<lambda>(configured, reference) s.
     let config = with_slaves config configured in
     and_do (select_reference I plan reference s) (\<lambda>_ s.
     and_do (verify_preop I deadline tries config s) (\<lambda>_ s.
     and_do (activate_master I (rc_enabled plan) s) (\<lambda>_ s.
       finish_layout A I (rc_enabled plan) config (acquire_domains I mid s)))))))))"

definition initialize_impl :: "abi \<Rightarrow> ('m, 'd, 'c, 'q, 'p, 'f, 'w) init_api \<Rightarrow> nat \<Rightarrow> u32 \<Rightarrow> static_slave_config
    \<Rightarrow> bool \<Rightarrow> u32 \<Rightarrow> u32 \<Rightarrow> u32 \<Rightarrow> (pdo_bus_config \<times> loaded_slave_config) option \<Rightarrow> string
    \<Rightarrow> ('m, 'd, 'c, 'q, 'p) ethercat_master \<Rightarrow> 'w
    \<Rightarrow> (init_error + static_slave_config) \<times> ('m, 'd, 'c, 'q, 'p) ethercat_master \<times> 'w" where
  "initialize_impl A I fuel mid config dc period timeout_ms tries yaml path em w =
     (let em = em\<lparr>last_dc_error := dc_error_init\<rparr> in
      if tries = 0 then (Inl AttemptsNotPositive, em, w)
      else if timeout_ms = 0 then (Inl PreopTimeoutNotPositive, em, w)
      else if initialized em then (Inl AlreadyInitialized, em, w)
      else
        let r = (if ssc_slave_count config = 0 then (Inl NoSlaveConfiguration, em, w)
           else case validate_slave_config A config of
             Some err \<Rightarrow> (Inl (InvalidConfiguration err), em, w)
           | None \<Rightarrow> (case build_dc_runtime config dc period of
               (_, Some err) \<Rightarrow> (Inl (NoClockPlan err), em, w)
             | (plan, None) \<Rightarrow> bring_up A I fuel mid config plan timeout_ms tries yaml path (em, w)))
        in case r of
             (Inr config, em, w) \<Rightarrow> (Inr config, em, w)
           | (Inl NeverReturned, em, w) \<Rightarrow> (Inl NeverReturned, em, w)
           | (Inl err, em, w) \<Rightarrow> (case master_reset (ia_rt I) em w of (em, w) \<Rightarrow> (Inl err, em, w)))"

text \<open>The two public overloads; the second also gives the tables it builds.\<close>

definition initialize :: "abi \<Rightarrow> ('m, 'd, 'c, 'q, 'p, 'f, 'w) init_api \<Rightarrow> u32 \<Rightarrow> static_slave_config \<Rightarrow> bool \<Rightarrow> u32
    \<Rightarrow> u32 \<Rightarrow> u32 \<Rightarrow> ('m, 'd, 'c, 'q, 'p) ethercat_master \<Rightarrow> 'w
    \<Rightarrow> (init_error + static_slave_config) \<times> ('m, 'd, 'c, 'q, 'p) ethercat_master \<times> 'w" where
  "initialize A I mid config dc period timeout_ms tries em w =
     initialize_impl A I 0 mid config dc period timeout_ms tries None [] em w"

definition initialize_with :: "abi \<Rightarrow> ('m, 'd, 'c, 'q, 'p, 'f, 'w) init_api \<Rightarrow> nat \<Rightarrow> runtime_options
    \<Rightarrow> pdo_bus_config \<Rightarrow> loaded_slave_config \<Rightarrow> ('m, 'd, 'c, 'q, 'p) ethercat_master \<Rightarrow> 'w
    \<Rightarrow> (init_error + static_slave_config) \<times> ('m, 'd, 'c, 'q, 'p) ethercat_master \<times> 'w" where
  "initialize_with A I fuel options config loaded em w =
     (if initialized em then (Inl AlreadyInitialized, em, w)
      else case build_config A config loaded of
        (_, Some err) \<Rightarrow> (Inl (InvalidConfiguration err), em, w)
      | (loaded, None) \<Rightarrow>
          initialize_impl A I fuel (master_id options) (view loaded) (dc_enabled options) (period_us options)
            (preop_timeout_ms options) (pdo_config_attempts options) (Some (config, loaded)) (config_path options) em w)"

end
