(* ===== verification/Init_Correct.thy ===== *)
theory Init_Correct
  imports Master_Init Preop_Correct Master_Cycle
begin

text \<open>
  What an initialization leaves behind: a master that every later component can rely on, or a reset
  object whose master handle has been given back.
\<close>

section \<open>The readback keeps its checks\<close>

lemma same_job_restart [simp]: "same_job (s\<lparr>vresult := r, verror := e\<rparr>) t = same_job s t"
  by (simp add: same_job_def)

lemma same_job_guard: "guard I d c s w = (ok, s', w') \<Longrightarrow> same_job s s'"
  by (auto simp: guard_def clock_now_def Let_def split: prod.split_asm sum.split_asm if_split_asm)

lemma same_job_download: "guarded_download I d c b s w = (r, s', w') \<Longrightarrow> same_job s s'"
  by (auto simp: guarded_download_def split: prod.split_asm bool.split_asm
      dest!: same_job_guard intro: same_job_trans)

lemma same_job_upload: "guarded_upload I d c s w = (r, s', w') \<Longrightarrow> same_job s s'"
  by (auto simp: guarded_upload_def split: prod.split_asm bool.split_asm
      dest!: same_job_guard intro: same_job_trans)

lemma same_job_compare: "compare dat n s = (ok, s') \<Longrightarrow> same_job s s'"
  by (auto simp: compare_def Let_def split: option.split_asm if_split_asm)

lemma same_job_init_commands: "write_init_commands I d ws s w = (ok, s', w') \<Longrightarrow> same_job s s'"
proof (induction ws arbitrary: s w)
  case (Cons x ws)
  then show ?case
    by (auto simp: Let_def split: prod.split_asm option.split_asm if_split_asm
        dest!: same_job_download intro: same_job_trans)
qed simp

lemma same_job_match: "match_mapping I d is s w = (ok, s', w') \<Longrightarrow> same_job s s'"
proof (induction "is" arbitrary: s w)
  case (Cons i "is")
  then show ?case
    by (auto simp: Let_def split: prod.split_asm option.split_asm if_split_asm
        dest!: same_job_upload intro: same_job_trans)
qed simp

lemma same_job_match_mappings: "match_mappings I d i e keep s w = (keep', s', w') \<Longrightarrow> same_job s s'"
proof (induction I d i e keep s w arbitrary: keep' s' w' rule: match_mappings.induct)
  case (1 I d i e keep s w)
  show ?case
    using "1.prems" "1.IH"(1) "1.IH"(2)
    by (subst (asm) match_mappings.simps)
       (auto simp: Let_def split: prod.split_asm if_split_asm dest!: same_job_match intro: same_job_trans)
qed

lemma same_job_write_phase: "write_phase I d ph f keep is s w = (s', w') \<Longrightarrow> same_job s s'"
proof (induction "is" arbitrary: f s w)
  case (Cons i "is")
  from Cons.prems show ?case
    by (auto simp: Let_def split: prod.split_asm option.split_asm if_split_asm
        dest!: same_job_download Cons.IH intro: same_job_trans)
qed simp

lemma same_job_write_phases: "write_phases I d ph fs keep b e s w = (s', w') \<Longrightarrow> same_job s s'"
proof (induction fs arbitrary: ph s w)
  case (Cons f fs)
  then show ?case
    by (auto split: prod.split_asm if_split_asm dest!: same_job_write_phase intro: same_job_trans)
qed simp

lemma same_job_readback: "readback I d is s w = (s', w') \<Longrightarrow> same_job s s'"
proof (induction "is" arbitrary: s w)
  case (Cons i "is")
  from Cons.prems show ?case
    by (auto simp: Let_def split: prod.split_asm option.split_asm if_split_asm bool.split_asm
        dest!: same_job_upload same_job_compare Cons.IH) (blast intro: same_job_trans)+
qed simp

lemma same_job_attempt: "attempt I d b e keep s w = (keep', s', w') \<Longrightarrow> same_job s s'"
  by (auto simp: attempt_def split: prod.split_asm if_split_asm
      dest!: same_job_match_mappings same_job_write_phases same_job_readback) (blast intro: same_job_trans)+

lemma same_job_attempts: "attempts I d b e n keep s w = (ok, keep', s', w') \<Longrightarrow> same_job s s'"
proof (induction n arbitrary: keep s w)
  case (Suc n)
  then show ?case
    by (auto split: prod.split_asm if_split_asm dest!: same_job_attempt intro: same_job_trans)
qed simp

lemma same_job_slaves: "configure_slaves I d n e b keep s w = (ok, s', w') \<Longrightarrow> same_job s s'"
proof (induction I d n e b keep s w arbitrary: ok s' w' rule: configure_slaves.induct)
  case (1 I d n e b keep s w)
  show ?case
    using "1.prems" "1.IH"
    by (subst (asm) configure_slaves.simps)
       (auto simp: Let_def split: prod.split_asm if_split_asm dest!: same_job_attempts intro: same_job_trans)
qed

lemma configure_preop_ready:
  assumes "configure_preop I present ms tries s w = (PreopConfigured, s', w')" "verification_ready ss s"
  shows "verification_ready ss s'"
proof -
  from assms(1) have "same_job s s'" "cursor s' = 0" "vresult s' = Pending" "verror s' = error_init"
    by (auto simp: configure_preop_def clock_now_def Let_def split: prod.split_asm if_split_asm bool.split_asm sum.split_asm
        dest!: same_job_init_commands same_job_slaves intro: same_job_trans)
  with assms(2) show ?thesis by (simp add: verification_ready_def same_job_def)
qed


section \<open>The stages\<close>

lemma reach_preop_stage:
  assumes "reach_preop I mid config ms (em, w) = (r, (em', w'))"
  shows "em' = em\<lparr>master := fst (ia_request_master I mid w)\<rparr>
    \<and> (master em' = None \<longrightarrow> w' = snd (ia_request_master I mid w) \<and> (\<exists>e. r = Inl e))"
  using assms by (auto simp: reach_preop_def Let_def split: prod.split_asm if_split_asm option.split_asm)

lemma resolve_entries_stage:
  assumes "resolve_entries A I fuel path d yaml config (em, w) = (r, (em', w'))"
  shows "em' = em"
  using assms
  by (auto simp: resolve_entries_def split: prod.split_asm if_split_asm option.split_asm discovery_outcome.split_asm)

definition identity_confirmed :: "slave_spec \<Rightarrow> slave_info \<Rightarrow> bool" where
  "identity_confirmed s info \<longleftrightarrow> sp_vendor_id s = si_vendor_id info \<and> sp_product_code s = si_product_code info
     \<and> sp_vendor_id s \<noteq> 0"

definition same_tables :: "slave_spec \<Rightarrow> slave_spec \<Rightarrow> bool" where
  "same_tables s s' \<longleftrightarrow> s' = s\<lparr>sp_vendor_id := sp_vendor_id s', sp_product_code := sp_product_code s'\<rparr>"

lemma identify_slaves_stage:
  "identify_slaves I i ss (em, w) = (r, (em', w')) \<Longrightarrow> \<exists>infos. em' = em\<lparr>slave_identities := slave_identities em @ infos\<rparr>
     \<and> (\<forall>ss'. r = Inr ss' \<longrightarrow> list_all2 identity_confirmed ss' infos \<and> list_all2 same_tables ss ss')"
proof (induction ss arbitrary: i em w r em' w')
  case Nil
  then show ?case by (auto intro!: exI [of _ "[]"])
next
  case (Cons slave ss)
  obtain rc info w1 where q: "ia_slave I (master em) (sp_position slave) w = ((rc, info), w1)" by (metis prod.collapse)
  let ?em = "em\<lparr>slave_identities := slave_identities em @ [info]\<rparr>"
  show ?case
  proof (cases "rc = 0 \<and> (\<exists>slave'. identify i slave info = Inr slave')")
    case False
    with Cons.prems q show ?thesis by (auto split: sum.split_asm if_split_asm intro!: exI [of _ "[]"])
  next
    case True
    then obtain slave' where s': "rc = 0" "identify i slave info = Inr slave'" by blast
    obtain r1 em1 w2 where tl: "identify_slaves I (Suc i) ss (?em, w1) = (r1, (em1, w2))" by (metis prod.collapse)
    from Cons.IH [OF tl] obtain infos where infos: "em1 = ?em\<lparr>slave_identities := slave_identities ?em @ infos\<rparr>"
      "\<forall>ss'. r1 = Inr ss' \<longrightarrow> list_all2 identity_confirmed ss' infos \<and> list_all2 same_tables ss ss'"
      by blast
    have em': "em' = em1" "r = (case r1 of Inl e \<Rightarrow> Inl e | Inr ss' \<Rightarrow> Inr (slave' # ss'))"
      using Cons.prems q s' tl by (auto simp: and_do_def split: sum.split_asm sum.split)
    have "identity_confirmed slave' info"
      "same_tables slave slave'"
      using s'(2) by (cases slave; auto simp: identify_def apply_discovered_identity_def same_tables_def identity_confirmed_def
          split: if_split_asm option.split_asm)+
    then show ?thesis using infos em'
      by (intro exI [of _ "info # infos"]) (auto split: sum.split_asm)
  qed
qed

lemma create_domains_stage:
  assumes "create_domains I (em, w) = (r, (em', w'))"
  shows "em' = em\<lparr>input_domain := input_domain em', output_domain := output_domain em'\<rparr>
    \<and> (\<forall>u. r = Inr u \<longrightarrow> input_domain em' \<noteq> None \<and> output_domain em' \<noteq> None)"
  using assms by (cases em) (auto simp: create_domains_def Let_def split: prod.split_asm if_split_asm)

definition same_wiring :: "slave_spec \<Rightarrow> slave_spec \<Rightarrow> bool" where
  "same_wiring s s' \<longleftrightarrow> (\<exists>es. s' = s\<lparr>sp_entries := es\<rparr>)"

lemma register_slave_wiring: "register_slave reg sc i o' s w = (Inr s', w') \<Longrightarrow> same_wiring s s'"
  by (auto simp: register_slave_def same_wiring_def result_simps split: if_split_asm)

lemma configure_slave_stage:
  assumes "configure_slave I plan i s ref (em, w) = (r, (em', w'))"
  shows "\<exists>scs. em' = em\<lparr>slave_configs := slave_configs em @ scs\<rparr>
    \<and> (\<forall>s' ref'. r = Inr (s', ref') \<longrightarrow> length scs = 1 \<and> same_wiring s s')"
  using assms
  by (auto simp: configure_slave_def Let_def split: prod.split_asm if_split_asm option.split_asm sum.split_asm
      dest: register_slave_wiring intro: exI [of _ "[]"])

lemma configure_all_stage:
  "configure_all I plan i ss ref (em, w) = (r, (em', w')) \<Longrightarrow>
    \<exists>scs. em' = em\<lparr>slave_configs := slave_configs em @ scs\<rparr>
    \<and> (\<forall>ss' ref'. r = Inr (ss', ref') \<longrightarrow> length scs = length ss \<and> list_all2 same_wiring ss ss')"
proof (induction ss arbitrary: i ref em w r em' w')
  case Nil
  then show ?case by (auto intro: exI [of _ "[]"])
next
  case (Cons s ss)
  obtain r1 em1 w1 where hd: "configure_slave I plan i s ref (em, w) = (r1, (em1, w1))" by (metis prod.collapse)
  from configure_slave_stage [OF hd] obtain sc where sc: "em1 = em\<lparr>slave_configs := slave_configs em @ sc\<rparr>"
    "\<forall>s' ref'. r1 = Inr (s', ref') \<longrightarrow> length sc = 1 \<and> same_wiring s s'" by blast
  show ?case
  proof (cases r1)
    case (Inl e)
    with Cons.prems hd sc show ?thesis by auto
  next
    case (Inr a)
    then obtain s' ref1 where r1: "r1 = Inr (s', ref1)" by (cases a) auto
    obtain r2 em2 w2 where tl: "configure_all I plan (Suc i) ss ref1 (em1, w1) = (r2, (em2, w2))" by (metis prod.collapse)
    from Cons.IH [OF tl] obtain scs where scs: "em2 = em1\<lparr>slave_configs := slave_configs em1 @ scs\<rparr>"
      "\<forall>ss' ref'. r2 = Inr (ss', ref') \<longrightarrow> length scs = length ss \<and> list_all2 same_wiring ss ss'" by blast
    have "em' = em2" "\<forall>ss' ref'. r = Inr (ss', ref') \<longrightarrow> (\<exists>rest. ss' = s' # rest \<and> r2 = Inr (rest, ref'))"
      using Cons.prems hd tl r1 by (cases r2; auto)+
    then show ?thesis using sc scs r1 by (intro exI [of _ "sc @ scs"]) auto
  qed
qed

lemma select_reference_stage:
  assumes "select_reference I plan ref (em, w) = (r, (em', w'))"
  shows "em' = em"
  using assms by (auto simp: select_reference_def split: prod.split_asm if_split_asm)

lemma verify_preop_stage:
  assumes "verify_preop I d tries config (em, w) = (r, (em', w'))"
  shows "\<exists>st. em' = em\<lparr>verification := st\<rparr>
    \<and> (\<forall>u. r = Inr u \<longrightarrow> length (config_slaves config) = ssc_slave_count config \<longrightarrow> verification_ready (config_slaves config) st)"
  using assms
  by (auto simp: verify_preop_def Let_def split: prod.split_asm if_split_asm option.split_asm
      dest: configure_preop_ready prepare_ready)

lemma activate_master_stage:
  assumes "activate_master I dc (em, w) = (r, (em', w'))"
  shows "em' = em\<lparr>dc_phase_origin_ns := dc_phase_origin_ns em', last_dc_error := last_dc_error em'\<rparr>"
  using assms
  by (cases em) (auto simp: activate_master_def activate_with_dc_time_def supply_time_def record_dc_error_def Let_def
      split: prod.split_asm if_split_asm option.split_asm sum.split_asm)

lemma acquire_domains_stage:
  assumes "acquire_domains I mid (em, w) = (em', w')"
  shows "em' = em\<lparr>input_data := input_data em', output_data := output_data em', em_input_size := em_input_size em',
    em_output_size := em_output_size em'\<rparr>"
  using assms by (cases em) (auto simp: acquire_domains_def split: prod.split_asm)

lemma finish_layout_stage:
  assumes "finish_layout A I dc config (em, w) = (r, (em', w'))"
  shows "em' = em\<lparr>layout := layout em', em_dc_enabled := em_dc_enabled em', initialized := initialized em'\<rparr>
    \<and> (\<forall>c. r = Inr c \<longrightarrow> input_data em \<noteq> None \<and> output_data em \<noteq> None
        \<and> 0 < em_input_size em \<and> em_input_size em \<le> EC_SHM_MAX_SIZE A
        \<and> 0 < em_output_size em \<and> em_output_size em \<le> EC_SHM_MAX_SIZE A
        \<and> layout_build A config (em_input_size em) (em_output_size em) (layout em) = (layout em', c, None)
        \<and> initialized em' \<and> em_dc_enabled em' = dc)"
  using assms
  by (cases em) (auto simp: finish_layout_def split: prod.split_asm if_split_asm option.split_asm)


section \<open>The whole initialization\<close>

lemma verification_ready_offsets [simp]:
  "verification_ready (map set_shared_offsets ss) st = verification_ready ss st"
proof -
  have p: "process_syncs (set_shared_offsets s) = process_syncs s"
    "slave_init_writes (set_shared_offsets s) = slave_init_writes s" for s
    by (simp_all add: process_syncs_def slave_init_writes_def set_shared_offsets_def)
  have "mk_check i (set_shared_offsets s) = mk_check i s" for i s
    by (intro ext) (simp add: mk_check_def set_shared_offsets_def)
  then have c: "slave_checks i (set_shared_offsets s) = slave_checks i s" for i s
    unfolding slave_checks_def p sync_checks_def pdo_checks_def by simp
  have "all_checks (map set_shared_offsets ss) = all_checks ss"
    by (simp add: all_checks_def enumerate_map_upt enumerate_eq_zip zip_map2 c comp_def split_def)
  moreover have "checkable (set_shared_offsets s) = checkable s" for s
    by (simp add: checkable_def p) (simp add: set_shared_offsets_def)
  ultimately show ?thesis by (simp add: verification_ready_def p comp_def)
qed

lemma config_slaves_with:
  "length ss = ssc_slave_count c \<Longrightarrow> length (config_slaves c) = ssc_slave_count c \<Longrightarrow>
     config_slaves (with_slaves c ss) = ss \<and> ssc_slave_count (with_slaves c ss) = ssc_slave_count c"
  by (cases "ssc_slaves c") (auto simp: with_slaves_def)

lemma resolved_length:
  assumes "resolve_entries A I fuel path d yaml config s = (Inr c, s')" "length (config_slaves config) = ssc_slave_count config"
  shows "length (config_slaves c) = ssc_slave_count c"
  using assms
  by (auto simp: resolve_entries_def view_def data_def split: prod.split_asm if_split_asm option.split_asm discovery_outcome.split_asm)

text \<open>What the later components rely on.\<close>

definition ready_master :: "abi \<Rightarrow> static_slave_config \<Rightarrow> ('m, 'd, 'c, 'q, 'p) ethercat_master \<Rightarrow> bool" where
  "ready_master A c em \<longleftrightarrow> bus_ready em \<and> input_data em \<noteq> None \<and> output_data em \<noteq> None
     \<and> 0 < em_input_size em \<and> em_input_size em \<le> EC_SHM_MAX_SIZE A
     \<and> 0 < em_output_size em \<and> em_output_size em \<le> EC_SHM_MAX_SIZE A
     \<and> layout em = \<lparr>input_size = em_input_size em, output_size = em_output_size em\<rparr>
     \<and> length (config_slaves c) = ssc_slave_count c \<and> length (slave_configs em) = ssc_slave_count c
     \<and> list_all2 identity_confirmed (config_slaves c) (slave_identities em)
     \<and> wf_config A c \<and> list_all (\<lambda>s. list_all (\<lambda>e. es_shared_offset e = es_offset e
          \<and> in_domain (em_input_size em) (em_output_size em) e) (spec_entries s)) (config_slaves c)
     \<and> verification_ready (config_slaves c) (verification em)"

lemma and_do_keeps:
  assumes "P (snd m)" "\<And>a s. m = (Inr a, s) \<Longrightarrow> P s \<Longrightarrow> P (snd (f a s))"
  shows "P (snd (and_do m f))"
  using assms by (cases m; cases "fst m") auto

text \<open>No stage but the first changes the master handle.\<close>

definition holds :: "'m option \<Rightarrow> ('m, 'd, 'c, 'q, 'p) ethercat_master \<times> 'w \<Rightarrow> bool" where
  "holds m s \<longleftrightarrow> master (fst s) = m"

lemma holds_via:
  assumes "holds m s" "\<And>em w r em' w'. s = (em, w) \<Longrightarrow> F (em, w) = (r, (em', w')) \<Longrightarrow> master em' = master em"
  shows "holds m (snd (F s))"
proof -
  obtain em w r em' w' where "s = (em, w)" "F (em, w) = (r, (em', w'))" by (metis prod.collapse)
  with assms show ?thesis by (simp add: holds_def)
qed

lemma finish_layout_master:
  assumes "finish_layout A I dc config (acquire_domains I mid (em, w)) = (r, (em', w'))"
  shows "master em' = master em"
proof -
  obtain em1 w1 where acq: "acquire_domains I mid (em, w) = (em1, w1)" by fastforce
  show ?thesis
    using arg_cong [OF acquire_domains_stage [OF acq], of master]
      arg_cong [OF conjunct1 [OF finish_layout_stage [OF assms [unfolded acq]]], of master] by simp
qed

lemma stage_holds:
  "holds m s \<Longrightarrow> holds m (snd (resolve_entries A I fuel path d yaml config s))"
  "holds m s \<Longrightarrow> holds m (snd (identify_slaves I i ss s))"
  "holds m s \<Longrightarrow> holds m (snd (create_domains I s))"
  "holds m s \<Longrightarrow> holds m (snd (configure_all I plan i ss ref s))"
  "holds m s \<Longrightarrow> holds m (snd (select_reference I plan ref s))"
  "holds m s \<Longrightarrow> holds m (snd (verify_preop I d tries config s))"
  "holds m s \<Longrightarrow> holds m (snd (activate_master I dc s))"
  "holds m s \<Longrightarrow> holds m (snd (finish_layout A I dc config (acquire_domains I mid s)))"
         apply (erule holds_via, auto dest: resolve_entries_stage)[1]
        apply (erule holds_via, auto dest!: identify_slaves_stage)[1]
       apply (erule holds_via, drule create_domains_stage, drule conjunct1, drule arg_cong [where f = master], simp)
      apply (erule holds_via, auto dest!: configure_all_stage)[1]
     apply (erule holds_via, auto dest: select_reference_stage)[1]
    apply (erule holds_via, auto dest!: verify_preop_stage)[1]
   apply (erule holds_via, drule activate_master_stage, drule arg_cong [where f = master], simp)
  apply (erule holds_via [where F = "\<lambda>s. finish_layout A I dc config (acquire_domains I mid s)"], erule finish_layout_master)
  done

lemma bring_up_master:
  assumes "bring_up A I fuel mid config plan ms tries yaml path (em, w) = (r, (em', w'))"
  shows "master em' = fst (ia_request_master I mid w)
    \<and> (master em' = None \<longrightarrow> w' = snd (ia_request_master I mid w) \<and> (\<exists>e. r = Inl e))"
proof -
  obtain r1 em1 w1 where st: "reach_preop I mid config ms (em, w) = (r1, (em1, w1))" by (metis prod.collapse)
  let ?m = "fst (ia_request_master I mid w)"
  have m1: "em1 = em\<lparr>master := ?m\<rparr>" "?m = None \<Longrightarrow> w1 = snd (ia_request_master I mid w) \<and> (\<exists>e. r1 = Inl e)"
    using reach_preop_stage [OF st] by auto
  have "holds ?m (snd (bring_up A I fuel mid config plan ms tries yaml path (em, w)))"
    unfolding bring_up_def st Let_def
    by (intro and_do_keeps [where P = "holds ?m"])
       (auto simp: m1(1) holds_def [of _ "(em\<lparr>master := ?m\<rparr>, w1)"] intro: stage_holds split: prod.splits
        intro!: and_do_keeps [where P = "holds ?m"])
  then have m: "master em' = ?m" using assms by (simp add: holds_def)
  show ?thesis
  proof (cases ?m)
    case None
    with m1(2) obtain e where "r1 = Inl e" "w1 = snd (ia_request_master I mid w)" by blast
    then show ?thesis using assms st m by (auto simp: bring_up_def)
  next
    case (Some x)
    with m show ?thesis by simp
  qed
qed

lemma wired_identities:
  assumes "list_all2 identity_confirmed ss infos" "list_all2 same_wiring ss ss'"
  shows "list_all2 identity_confirmed (map set_shared_offsets ss') infos"
proof -
  have "length ss = length infos" "length infos = length ss'" 
    using list_all2_lengthD [OF assms(1)] list_all2_lengthD [OF assms(2)] by simp_all
  then show ?thesis using assms
  proof (induction ss infos ss' rule: list_induct3)
    case (Cons s ss i infos s' ss')
    then show ?case by (auto simp: identity_confirmed_def same_wiring_def set_shared_offsets_def)
  qed simp
qed

lemma bring_up_ready:
  assumes "bring_up A I fuel mid config plan ms tries yaml path (em, w) = (Inr c, (em', w'))"
    and "length (config_slaves config) = ssc_slave_count config" "slave_configs em = []" "slave_identities em = []"
    and "layout em = \<lparr>input_size = 0, output_size = 0\<rparr>"
  shows "ready_master A c em' \<and> initialized em' \<and> em_dc_enabled em' = rc_enabled plan"
proof -
  from assms(1) obtain d em1 w1 config2 em2 w2 ss3 em3 w3 em4 w4 ss5 ref em5 w5 em6 w6 em7 w7 em8 w8 em9 w9 where
    s1: "reach_preop I mid config ms (em, w) = (Inr d, (em1, w1))"
    and s2: "resolve_entries A I fuel path d yaml config (em1, w1) = (Inr config2, (em2, w2))"
    and s3: "identify_slaves I 0 (config_slaves config2) (em2, w2) = (Inr ss3, (em3, w3))"
    and s4: "create_domains I (em3, w3) = (Inr (), (em4, w4))"
    and s5: "configure_all I plan 0 ss3 None (em4, w4) = (Inr (ss5, ref), (em5, w5))"
    and s6: "select_reference I plan ref (em5, w5) = (Inr (), (em6, w6))"
    and s7: "verify_preop I d tries (with_slaves config2 ss5) (em6, w6) = (Inr (), (em7, w7))"
    and s8: "activate_master I (rc_enabled plan) (em7, w7) = (Inr (), (em8, w8))"
    and s9: "acquire_domains I mid (em8, w8) = (em9, w9)"
    and s10: "finish_layout A I (rc_enabled plan) (with_slaves config2 ss5) (em9, w9) = (Inr c, (em', w'))"
    by (auto simp: bring_up_def result_simps Let_def) (metis prod.collapse)
  note len2 = resolved_length [OF s2 assms(2)]
  note e1 = reach_preop_stage [OF s1] and e2 = resolve_entries_stage [OF s2] and e6 = select_reference_stage [OF s6]
  from identify_slaves_stage [OF s3] obtain infos where e3: "em3 = em2\<lparr>slave_identities := slave_identities em2 @ infos\<rparr>"
    "list_all2 identity_confirmed ss3 infos" "length ss3 = length (config_slaves config2)"
    by (auto dest: list_all2_lengthD)
  note e4 = create_domains_stage [OF s4]
  from configure_all_stage [OF s5] obtain scs where e5: "em5 = em4\<lparr>slave_configs := slave_configs em4 @ scs\<rparr>"
    "length scs = length ss3" "list_all2 same_wiring ss3 ss5" by blast
  have len5: "length ss5 = ssc_slave_count config2" using e5(3) e3(3) len2 list_all2_lengthD by fastforce
  note with5 = config_slaves_with [OF len5 len2]
  from verify_preop_stage [OF s7] with5 len5 obtain st where e7: "em7 = em6\<lparr>verification := st\<rparr>" "verification_ready ss5 st"
    by auto
  from e1 obtain m where m: "em1 = em\<lparr>master := m\<rparr>" "m \<noteq> None" by auto
  from e4 obtain inp out where E4: "em4 = em3\<lparr>input_domain := inp, output_domain := out\<rparr>" "inp \<noteq> None" "out \<noteq> None"
    by metis
  from activate_master_stage [OF s8] obtain t err where E8: "em8 = em7\<lparr>dc_phase_origin_ns := t, last_dc_error := err\<rparr>"
    by metis
  from acquire_domains_stage [OF s9] obtain a b isz osz where E9:
    "em9 = em8\<lparr>input_data := a, output_data := b, em_input_size := isz, em_output_size := osz\<rparr>" by metis
  from finish_layout_stage [OF s10] obtain L where E10: "em' = em9\<lparr>layout := L, em_dc_enabled := rc_enabled plan, initialized := True\<rparr>"
    by metis
  have sizes: "a \<noteq> None" "b \<noteq> None" "0 < isz" "isz \<le> EC_SHM_MAX_SIZE A" "0 < osz" "osz \<le> EC_SHM_MAX_SIZE A"
    and built: "layout_build A (with_slaves config2 ss5) isz osz (layout em9) = (L, c, None)"
    using finish_layout_stage [OF s10] by (simp_all add: E9 E10)
  have ok: "snd (snd (layout_build A (with_slaves config2 ss5) isz osz (layout em9))) = None" using built by simp
  have c: "config_slaves c = map set_shared_offsets ss5" "ssc_slave_count c = length ss5" "ssc_slaves c = None \<longleftrightarrow> ssc_slaves (with_slaves config2 ss5) = None"
    using layout_result [OF ok] built with5 len5 by auto
  have "layout em9 = \<lparr>input_size = 0, output_size = 0\<rparr>"
    using assms(5) by (simp add: E9 E8 e7(1) e6 e5(1) E4(1) e3(1) e2 m(1))
  then have L: "L = \<lparr>input_size = isz, output_size = osz\<rparr>" using layout_result [OF ok] built by simp
  have wf: "wf_config A c"
    using layout_ok_iff [of "with_slaves config2 ss5" A isz osz "layout em9"] ok with5 len5 c
    by (auto simp: wf_config_def)
  have placed: "list_all (\<lambda>s. list_all (\<lambda>e. es_shared_offset e = es_offset e \<and> in_domain isz osz e) (spec_entries s)) (config_slaves c)"
    using layout_placed [OF built] by (auto simp: list_all_iff)
  show ?thesis
    unfolding ready_master_def
    using m(2) wf placed sizes c L wired_identities [OF e3(2) e5(3)] e7(2) assms(3,4) e5(2) list_all2_lengthD [OF e5(3)]
    by (simp add: E10 E9 E8 e7(1) e6 e5(1) E4 e3(1) e2 m(1) bus_ready_def)
qed

lemma not_initialized [simp]: "\<not> initialized ethercat_master_init"
  by (simp add: ethercat_master_init_def)

lemma plan_enabled: "build_dc_runtime config dc period = (plan, None) \<Longrightarrow> rc_enabled plan = dc"
  by (auto simp: build_dc_runtime_def split: if_split_asm prod.split_asm sum.split_asm)

definition reset_after :: "('m, 'd, 'c, 'q, 'p, 'f, 'w) init_api \<Rightarrow> 'm option \<times> 'w \<Rightarrow> 'w
    \<Rightarrow> ('m, 'd, 'c, 'q, 'p) ethercat_master \<times> 'w \<Rightarrow> bool" where
  "reset_after I requested w s \<longleftrightarrow>
     fst s = ethercat_master_init\<lparr>last_dc_error := last_dc_error (fst s)\<rparr>
     \<and> (snd s = w \<or> (case requested of
           (None, w1) \<Rightarrow> snd s = w1 | (Some m, _) \<Rightarrow> \<exists>w2. snd s = rt_release (ia_rt I) (Some m) w2))"

lemma reset_fresh:
  "reset_after I req w (master_reset (ia_rt I) ethercat_master_init w)"
  by (simp add: reset_after_def master_reset_def layout_reset_def ethercat_master_init_def Let_def)

lemma reset_bring_up:
  assumes "bring_up A I fuel mid config plan ms tries yaml path (em, w) = (Inl e, (em', w'))"
  shows "reset_after I (ia_request_master I mid w) w (master_reset (ia_rt I) em' w')"
  using master_reset_fresh [of "ia_rt I" em' w'] bring_up_master [OF assms]
  by (auto simp: reset_after_def split: option.splits prod.splits)

lemma initialize_impl_outcome:
  assumes "initialize_impl A I fuel mid config dc period ms tries yaml path ethercat_master_init w = (r, s)"
    and "length (config_slaves config) = ssc_slave_count config"
  shows "case r of
      Inr c \<Rightarrow> ready_master A c (fst s) \<and> initialized (fst s) \<and> em_dc_enabled (fst s) = dc
        \<and> master (fst s) = fst (ia_request_master I mid w)
    | Inl e \<Rightarrow> e = NeverReturned \<or> reset_after I (ia_request_master I mid w) w s"
proof -
  have fresh: "ethercat_master_init\<lparr>last_dc_error := dc_error_init\<rparr> = ethercat_master_init" "\<not> initialized ethercat_master_init"
    "slave_configs ethercat_master_init = []" "slave_identities ethercat_master_init = []"
    "layout ethercat_master_init = \<lparr>input_size = 0, output_size = 0\<rparr>"
    by (simp_all add: ethercat_master_init_def)
  have early: "reset_after I (ia_request_master I mid w) w (ethercat_master_init, w)"
    by (simp add: reset_after_def ethercat_master_init_def)
  obtain plan err where plan: "build_dc_runtime config dc period = (plan, err)" by fastforce
  obtain r1 em1 w1 where bu: "bring_up A I fuel mid config plan ms tries yaml path (ethercat_master_init, w) = (r1, (em1, w1))"
    by (metis prod.collapse)
  show ?thesis
  proof (cases "tries = 0 \<or> ms = 0 \<or> ssc_slave_count config = 0 \<or> validate_slave_config A config \<noteq> None \<or> err \<noteq> None")
    case True
    then show ?thesis
      using assms(1) plan early reset_fresh [of I "ia_request_master I mid w" w]
      by (auto simp: initialize_impl_def fresh Let_def split: if_split_asm option.split_asm prod.split_asm)
  next
    case False
    then have r: "(case r1 of
             Inr config \<Rightarrow> (Inr config, em1, w1)
           | Inl NeverReturned \<Rightarrow> (Inl NeverReturned, em1, w1)
           | Inl err \<Rightarrow> (case master_reset (ia_rt I) em1 w1 of (em, w) \<Rightarrow> (Inl err, em, w))) = (r, s)"
      using assms(1) plan bu by (auto simp: initialize_impl_def fresh Let_def split: sum.split)
    show ?thesis
    proof (cases r1)
      case (Inl e)
      then show ?thesis using r reset_bring_up [OF bu [unfolded Inl]]
        by (cases "e = NeverReturned") (auto split: init_error.split_asm prod.split_asm)
    next
      case (Inr c)
      with r have "r = Inr c" "s = (em1, w1)" by auto
      then show ?thesis
        using bring_up_ready [OF bu [unfolded Inr] assms(2) fresh(3-5)] bring_up_master [OF bu] plan_enabled [of config dc period plan]
          plan False by auto
    qed
  qed
qed

lemma initialize_with_outcome:
  assumes "initialize_with A I fuel options config loaded ethercat_master_init w = (r, s)"
  shows "case r of
      Inr c \<Rightarrow> ready_master A c (fst s) \<and> initialized (fst s) \<and> em_dc_enabled (fst s) = dc_enabled options
        \<and> master (fst s) = fst (ia_request_master I (master_id options) w)
    | Inl e \<Rightarrow> e = NeverReturned \<or> reset_after I (ia_request_master I (master_id options) w) w s"
proof -
  obtain loaded' err where b: "build_config A config loaded = (loaded', err)" by fastforce
  show ?thesis
  proof (cases err)
    case (Some e)
    then have "r = Inl (InvalidConfiguration e)" "s = (ethercat_master_init, w)"
      using b assms by (simp_all add: initialize_with_def)
    then show ?thesis by (simp add: reset_after_def ethercat_master_init_def)
  next
    case None
    have len: "length (config_slaves (view loaded')) = ssc_slave_count (view loaded')" by (simp add: view_def data_def)
    have "initialize_impl A I fuel (master_id options) (view loaded') (dc_enabled options) (period_us options)
        (preop_timeout_ms options) (pdo_config_attempts options) (Some (config, loaded')) (config_path options)
        ethercat_master_init w = (r, s)"
      using assms b None by (simp add: initialize_with_def)
    from initialize_impl_outcome [OF this len] show ?thesis .
  qed
qed

lemma initialize_with_ready:
  "initialize_with A I fuel options config loaded ethercat_master_init w = (Inr c, (em, w')) \<Longrightarrow> ready_master A c em"
  by (drule initialize_with_outcome) simp

text \<open>
  Claim C36. A fresh master that initializes successfully holds the handle it requested and is ready for
  everything that follows: domains with data and sizes that fit the shared memory, one configuration
  handle per slave, identities that are known and agree with the bus, tables that are valid, laid out and
  inside their domains, the clock mode that was asked for and a verification prepared for exactly these
  tables. A failed one leaves the object as fresh (but for the clock error it reports) and, when a handle
  had been requested, its last act is the release of that handle.
\<close>

theorem initialize_outcome:
  "case initialize_with A I fuel options config loaded ethercat_master_init w of (r, em, w') \<Rightarrow>
     (case r of
        Inr c \<Rightarrow> ready_master A c em \<and> initialized em \<and> em_dc_enabled em = dc_enabled options
          \<and> master em = fst (ia_request_master I (master_id options) w)
      | Inl e \<Rightarrow> e = NeverReturned
          \<or> (em = ethercat_master_init\<lparr>last_dc_error := last_dc_error em\<rparr>
              \<and> (w' = w \<or> (case ia_request_master I (master_id options) w of
                    (None, w1) \<Rightarrow> w' = w1
                  | (Some m, _) \<Rightarrow> \<exists>w2. w' = rt_release (ia_rt I) (Some m) w2))))"
proof -
  obtain r em w' where run: "initialize_with A I fuel options config loaded ethercat_master_init w = (r, (em, w'))"
    by (metis prod.collapse)
  from initialize_with_outcome [OF this] show ?thesis
    unfolding run by (cases r) (auto simp: reset_after_def split: option.splits prod.splits)
qed

text \<open>
  Three refusals come before the first reset: an initialized object stays as it is, against the comment
  of the declaration, which has it reset on any failure.
\<close>

lemma initialize_refuses_initialized:
  assumes "initialized em" "tries \<noteq> 0" "timeout_ms \<noteq> 0"
  shows "initialize A I mid config dc period timeout_ms tries em w
    = (Inl AlreadyInitialized, em\<lparr>last_dc_error := dc_error_init\<rparr>, w)"
  using assms by (simp add: initialize_def initialize_impl_def Let_def)

end
