(* ===== verification/Thread_Affinity.thy ===== *)
theory Thread_Affinity
  imports Checked_Results
begin

text \<open>
  src/src/thread_affinity.cpp: binding a thread to one logical CPU and the probe on a disposable
  thread. The affinity of a thread is reached through the parameter \<open>cpu_api\<close>; the thread a call acts
  on is explicit, so that a probe is seen not to touch the caller.
\<close>

datatype thread_id = Caller | Probe

record 'w cpu_api =
  cpu_setsize :: nat
  set_affinity :: "thread_id \<Rightarrow> nat set \<Rightarrow> 'w \<Rightarrow> int option \<times> 'w"
  get_affinity :: "thread_id \<Rightarrow> 'w \<Rightarrow> (int + nat set) \<times> 'w"
  start_probe :: "'w \<Rightarrow> bool \<times> 'w"

datatype cpu_error = CpuTooLarge | AffinityRefused nat int | AffinityUnreadable int | AffinityDiffers nat | ProbeFailed

definition bind_thread_cpu :: "'w cpu_api \<Rightarrow> thread_id \<Rightarrow> nat \<Rightarrow> 'w \<Rightarrow> (cpu_error + unit) \<times> 'w" where
  "bind_thread_cpu C thread cpu w =
     (if cpu_setsize C \<le> cpu then (Inl CpuTooLarge, w)
      else case set_affinity C thread {cpu} w of
        (Some errno, w) \<Rightarrow> (Inl (AffinityRefused cpu errno), w)
      | (None, w) \<Rightarrow> (case get_affinity C thread w of
          (Inl errno, w) \<Rightarrow> (Inl (AffinityUnreadable errno), w)
        | (Inr effective, w) \<Rightarrow> (if {cpu} \<noteq> effective then Inl (AffinityDiffers cpu) else Inr (), w)))"

definition validate_thread_cpu :: "'w cpu_api \<Rightarrow> nat \<Rightarrow> 'w \<Rightarrow> (cpu_error + unit) \<times> 'w" where
  "validate_thread_cpu C cpu w =
     (if cpu_setsize C \<le> cpu then (Inl CpuTooLarge, w)
      else case start_probe C w of
        (False, w) \<Rightarrow> (Inl ProbeFailed, w)
      | (True, w) \<Rightarrow> bind_thread_cpu C Probe cpu w)"

text \<open>A bound thread runs on that CPU and no other, and a probe acts on no other thread.\<close>

lemma bound_exactly:
  assumes "bind_thread_cpu C thread cpu w = (Inr u, w')"
  shows "cpu < cpu_setsize C \<and> (\<exists>w1. set_affinity C thread {cpu} w = (None, w1) \<and> get_affinity C thread w1 = (Inr {cpu}, w'))"
  using assms by (auto simp: bind_thread_cpu_def split: prod.split_asm if_split_asm option.split_asm sum.split_asm)

lemma probe_keeps_caller:
  fixes own :: "'w \<Rightarrow> nat set"
  assumes "\<And>s w r w'. set_affinity C Probe s w = (r, w') \<Longrightarrow> own w' = own w"
    and "\<And>w r w'. get_affinity C Probe w = (r, w') \<Longrightarrow> own w' = own w"
    and "\<And>w r w'. start_probe C w = (r, w') \<Longrightarrow> own w' = own w"
    and "validate_thread_cpu C cpu w = (r, w')"
  shows "own w' = own w"
  using assms(4)
  by (auto simp: validate_thread_cpu_def bind_thread_cpu_def dest!: assms(1-3)
      split: prod.split_asm if_split_asm option.split_asm sum.split_asm bool.split_asm)

end
