(* ===== verification/Process_Main.thy ===== *)
theory Process_Main
  imports Thread_Affinity Master_Init Cyclic_Task
begin

text \<open>
  The process of src/src/main.cpp: options and configuration, the preparation of the thread and the
  signals, initialization, shared memory and its metadata, the reporter thread, the realtime setup, the
  cyclic task and the shutdown. What main sets up is the record \<open>process\<close>; the calls of the operating
  system and of the shared-memory library are the fields of \<open>service_api\<close>, for the part that runs once the
  master is initialized, and of its extension \<open>process_api\<close>; the destructors of main's
  locals run on every path, in reverse order. Console lines are calls of the world, and so are the flags
  that main shares with other threads: the ready word of the shared memory, the stop request of the
  reporter with its join, and \<open>realtime_prepared\<close>.
\<close>

section \<open>The interface\<close>

datatype process_signal = Sigint | Sigterm

datatype realtime_error = CpuNotBound cpu_error | MemoryNotLocked int | SchedulerRefused int

datatype main_error =
    BadArguments option_error | HelpShown | BadConfiguration load_error | BadCpu cpu_error | ClockUnknown int
  | SignalMaskFailed | SignalFailed process_signal | StartupFailed init_error | NoSharedMemory | NoProcessData
  | MetadataRejected publish_error | IdentityRejected | NoReporter | ReadyRefused | RealtimeFailed realtime_error
  | TaskFailed int | NotTerminated

datatype 'r process_line =
    LineError main_error | LineConfiguration pdo_bus_config runtime_options | LineResolution timespec bool
  | LineTables static_slave_config | LineActivated nat nat | LineIpc nat nat | LineStatistics "'r cycle_statistics" int

text \<open>The fields of the shared bus record that only main writes.\<close>

record ipc_info =
  ecm_version :: string
  backend_type :: u32
  supported_cmds :: u32
  state_control_supported :: u32
  dc_sync_status :: u32

record ('m, 'd, 'c, 'q, 'p, 'r, 'w) service_api =
  pr_version :: string
  pr_cmd_reset_stats :: nat
  pr_task :: "('m, 'd, 'c, 'q, 'p, 'r, 'w) task_api"
  pr_cpu :: "'w cpu_api"
  pr_print :: "'r process_line \<Rightarrow> 'w \<Rightarrow> 'w"
  pr_create_shm :: "int \<Rightarrow> 'w \<Rightarrow> bool \<times> 'w"
  pr_create_pd :: "int \<Rightarrow> int \<Rightarrow> 'w \<Rightarrow> ('p option \<times> 'p option) option \<times> 'w"
  pr_start_reporter :: "'w \<Rightarrow> bool \<times> 'w"
  pr_stop_reporter :: "'w \<Rightarrow> 'w"
  pr_publish_ready :: "'w \<Rightarrow> bool \<times> 'w"
  pr_clear_ready :: "'w \<Rightarrow> 'w"
  pr_announce_prepared :: "'w \<Rightarrow> 'w"
  pr_mlockall :: "'w \<Rightarrow> int option \<times> 'w"
  pr_touch_stack :: "nat \<Rightarrow> 'w \<Rightarrow> 'w"
  pr_setscheduler :: "nat \<Rightarrow> 'w \<Rightarrow> int option \<times> 'w"
  pr_close_ipc :: "'w \<Rightarrow> 'w"

record ('m, 'd, 'c, 'q, 'p, 'f, 'r, 'w) process_api = "('m, 'd, 'c, 'q, 'p, 'r, 'w) service_api" +
  pr_files :: "'w config_files"
  pr_init :: "('m, 'd, 'c, 'q, 'p, 'f, 'w) init_api"
  pr_getres :: "'w \<Rightarrow> (int + timespec) \<times> 'w"
  pr_sigemptyset :: "'w \<Rightarrow> bool \<times> 'w"
  pr_sigaction :: "process_signal \<Rightarrow> 'w \<Rightarrow> bool \<times> 'w"

record ('m, 'd, 'c, 'q, 'p, 'r) process =
  ps_master :: "('m, 'd, 'c, 'q, 'p) ethercat_master"
  ps_bus :: "'r ecat_bus"
  ps_info :: ipc_info
  ps_pd :: "'p option \<times> 'p option"

definition kPrefaultStackBytes :: nat where "kPrefaultStackBytes = 64 * 1024"
definition kRealtimePriority :: nat where "kRealtimePriority = 80"


section \<open>Before the master\<close>

definition install_signals :: "('m, 'd, 'c, 'q, 'p, 'f, 'r, 'w) process_api \<Rightarrow> 'w \<Rightarrow> (main_error + unit) \<times> 'w" where
  "install_signals P w =
     (case pr_sigemptyset P w of
        (False, w) \<Rightarrow> (Inl SignalMaskFailed, w)
      | (True, w) \<Rightarrow> (case pr_sigaction P Sigint w of
          (False, w) \<Rightarrow> (Inl (SignalFailed Sigint), w)
        | (True, w) \<Rightarrow> (case pr_sigaction P Sigterm w of
            (ok, w) \<Rightarrow> (if \<not> ok then Inl (SignalFailed Sigterm) else Inr (), w))))"

definition configure_realtime :: "('m, 'd, 'c, 'q, 'p, 'r, 'w, 'z) service_api_scheme \<Rightarrow> runtime_options \<Rightarrow> 'w
    \<Rightarrow> (realtime_error + unit) \<times> 'w" where
  "configure_realtime P options w =
     (case (case cpu options of None \<Rightarrow> (Inr (), w) | Some n \<Rightarrow> bind_thread_cpu (pr_cpu P) Caller (unat n) w) of
        (Inl err, w) \<Rightarrow> (Inl (CpuNotBound err), w)
      | (Inr _, w) \<Rightarrow> (case pr_mlockall P w of
          (Some errno, w) \<Rightarrow> (Inl (MemoryNotLocked errno), w)
        | (None, w) \<Rightarrow>
            let w = fold (pr_touch_stack P) (map ((*) 4096) [0..<kPrefaultStackBytes div 4096]) w in
            (case pr_setscheduler P kRealtimePriority w of
               (Some errno, w) \<Rightarrow> (Inl (SchedulerRefused errno), w)
             | (None, w) \<Rightarrow> (Inr (), w))))"

definition load_options :: "abi \<Rightarrow> ('m, 'd, 'c, 'q, 'p, 'f, 'r, 'w) process_api \<Rightarrow> string list \<Rightarrow> 'w
    \<Rightarrow> (main_error + runtime_options \<times> pdo_bus_config) \<times> 'w" where
  "load_options A P args w =
     (case parse_runtime_options args runtime_options_init of
        (_, Some err) \<Rightarrow> (Inl (BadArguments err), w)
      | (options, None) \<Rightarrow>
          if show_help options then (Inl HelpShown, w)
          else case load_pdo_config A (pr_files P) (config_path options) w of
            (_, Some err, w) \<Rightarrow> (Inl (BadConfiguration err), w)
          | (config, None, w) \<Rightarrow> (case parse_runtime_options args (bc_master config) of
              (_, Some err) \<Rightarrow> (Inl (BadArguments err), w)
            | (options, None) \<Rightarrow> (Inr (options, config), pr_print P (LineConfiguration config options) w)))"

definition prepare_thread :: "('m, 'd, 'c, 'q, 'p, 'f, 'r, 'w) process_api \<Rightarrow> runtime_options \<Rightarrow> 'w
    \<Rightarrow> (main_error + unit) \<times> 'w" where
  "prepare_thread P options w =
     (case (case cpu options of None \<Rightarrow> (Inr (), w) | Some n \<Rightarrow> validate_thread_cpu (pr_cpu P) (unat n) w) of
        (Inl err, w) \<Rightarrow> (Inl (BadCpu err), w)
      | (Inr _, w) \<Rightarrow> (case pr_getres P w of
          (Inl errno, w) \<Rightarrow> (Inl (ClockUnknown errno), w)
        | (Inr res, w) \<Rightarrow>
            install_signals P (pr_print P (LineResolution res (tv_sec res \<noteq> 0 \<or> tv_nsec res \<noteq> 1)) w)))"


section \<open>Shared memory, reporter and realtime\<close>

definition ipc_info_init :: ipc_info where
  "ipc_info_init = \<lparr>ecm_version = [], backend_type = 0, supported_cmds = 0, state_control_supported = 0, dc_sync_status = 0\<rparr>"

text \<open>Metadata is complete before anything is exposed.\<close>

definition publish_metadata :: "abi \<Rightarrow> ('m, 'd, 'c, 'q, 'p, 'r::linordered_field, 'w, 'z) service_api_scheme \<Rightarrow> runtime_options
    \<Rightarrow> static_slave_config \<Rightarrow> ('m, 'd, 'c, 'q, 'p, 'r) process \<Rightarrow> 'w
    \<Rightarrow> (main_error + unit) \<times> ('m, 'd, 'c, 'q, 'p, 'r) process \<times> 'w" where
  "publish_metadata A P options config st w =
     (case pr_create_shm P (sint (master_id options)) w of
        (False, w) \<Rightarrow> (Inl NoSharedMemory, st, w)
      | (True, w) \<Rightarrow>
          (case pr_create_pd P (int (shared_input_size (ps_master st))) (int (shared_output_size (ps_master st))) w of
             (None, w) \<Rightarrow> (Inl NoProcessData, st, w)
           | (Some pd, w) \<Rightarrow>
               (case publish_config A config of
                  (bus, Some err) \<Rightarrow> (Inl (MetadataRejected err), st\<lparr>ps_pd := pd, ps_bus := bus\<rparr>, w)
                | (bus, None) \<Rightarrow> (case publish_identity A (ps_master st) bus of
                    (False, bus) \<Rightarrow> (Inl IdentityRejected, st\<lparr>ps_pd := pd, ps_bus := bus\<rparr>, w)
                  | (True, bus) \<Rightarrow>
                      (Inr (), st\<lparr>ps_pd := pd,
                         ps_bus := bus\<lparr>dt := period_us options, current_state := 0, is_authorized := True\<rparr>,
                         ps_info := \<lparr>ecm_version = pr_version P, backend_type = 2,
                           supported_cmds = push_bit (pr_cmd_reset_stats P) 1, state_control_supported = 0,
                           dc_sync_status = (if dc_enabled options then 4 else 0)\<rparr>\<rparr>,
                       pr_print P (LineIpc (shared_input_size (ps_master st)) (shared_output_size (ps_master st))) w)))))"

text \<open>The reporter starts before the ready flag; a later failure takes both back.\<close>

definition expose :: "('m, 'd, 'c, 'q, 'p, 'r, 'w, 'z) service_api_scheme \<Rightarrow> runtime_options
    \<Rightarrow> ('m, 'd, 'c, 'q, 'p, 'r) process \<Rightarrow> 'w \<Rightarrow> (main_error + unit) \<times> ('m, 'd, 'c, 'q, 'p, 'r) process \<times> 'w" where
  "expose P options st w =
     (case pr_start_reporter P w of
        (False, w) \<Rightarrow> (Inl NoReporter, st, w)
      | (True, w) \<Rightarrow>
          (case pr_publish_ready P w of
             (False, w) \<Rightarrow> (Inl ReadyRefused, st, pr_stop_reporter P w)
           | (True, w) \<Rightarrow>
               (case configure_realtime P options w of
                  (Inl err, w) \<Rightarrow> (Inl (RealtimeFailed err), st, pr_stop_reporter P (pr_clear_ready P w))
                | (Inr _, w) \<Rightarrow> (Inr (), st, pr_announce_prepared P w))))"

definition make_task :: "runtime_options \<Rightarrow> ('m, 'd, 'c, 'q, 'p, 'r::linordered_field) process
    \<Rightarrow> ('m, 'd, 'c, 'q, 'p, 'r) cyclic_task" where
  "make_task options st = \<lparr>ct_master = ps_master st, ecat_bus = Some (ps_bus st), pd_input_ptr = fst (ps_pd st),
     pd_output_ptr = snd (ps_pd st), ct_period_us = period_us options, ct_op_timeout_ms = op_timeout_ms options,
     ct_statistics = cycle_statistics_init, statistics_reset = \<lparr>requested = 0, acknowledged = 0\<rparr>,
     reports = \<lparr>slot = runtime_report_init, ready = False\<rparr>, startup_op_mask = 0, startup_ready = False\<rparr>"

text \<open>The task and the shutdown; \<open>NotTerminated\<close> stands for a run that the fuel does not bound.\<close>

definition run_and_stop :: "abi \<Rightarrow> ('m, 'd, 'c, 'q, 'p, 'r::linordered_field, 'w, 'z) service_api_scheme \<Rightarrow> nat \<Rightarrow> nat
    \<Rightarrow> runtime_options \<Rightarrow> ('m, 'd, 'c, 'q, 'p, 'r) process \<Rightarrow> 'w
    \<Rightarrow> (main_error + unit) \<times> ('m, 'd, 'c, 'q, 'p, 'r) process \<times> 'w" where
  "run_and_stop A P fuel n options st w =
     (case run_task A (pr_task P) fuel n (make_task options st) w of
        (NoFuel, t, w) \<Rightarrow> (Inl NotTerminated, st\<lparr>ps_master := ct_master t\<rparr>, w)
      | (Exit rc, t, w) \<Rightarrow>
          (if rc \<noteq> 0 then Inl (TaskFailed rc) else Inr (),
           st\<lparr>ps_master := ct_master t\<rparr>,
           pr_print P (LineStatistics (ct_statistics t) rc) (pr_stop_reporter P (pr_clear_ready P w))))"

definition serve :: "abi \<Rightarrow> ('m, 'd, 'c, 'q, 'p, 'r::linordered_field, 'w, 'z) service_api_scheme \<Rightarrow> runtime_options
    \<Rightarrow> static_slave_config \<Rightarrow> ('m, 'd, 'c, 'q, 'p) ethercat_master \<Rightarrow> 'w
    \<Rightarrow> (main_error + unit) \<times> ('m, 'd, 'c, 'q, 'p, 'r) process \<times> 'w" where
  "serve A P options config em w =
     (let st = \<lparr>ps_master = em, ps_bus = ecat_bus_init A, ps_info = ipc_info_init, ps_pd = (None, None)\<rparr> in
      case publish_metadata A P options config st w of
        (Inl err, st, w) \<Rightarrow> (Inl err, st, w)
      | (Inr _, st, w) \<Rightarrow> expose P options st w)"

section \<open>The process\<close>

text \<open>A failure prints its line (the usage, for \<open>HelpShown\<close>) before any destructor runs.\<close>

definition reported :: "('m, 'd, 'c, 'q, 'p, 'r, 'w, 'z) service_api_scheme \<Rightarrow> (main_error + 'a) \<times> 'w \<Rightarrow> (main_error + 'a) \<times> 'w" where
  "reported P r = (case r of (Inl err, w) \<Rightarrow> (Inl err, pr_print P (LineError err) w) | (Inr a, w) \<Rightarrow> (Inr a, w))"

text \<open>
  With an initialized master: to the end of the run, then the destructors of the shared memory and of
  the master.
\<close>

definition run_service :: "abi \<Rightarrow> ('m, 'd, 'c, 'q, 'p, 'r::linordered_field, 'w, 'z) service_api_scheme \<Rightarrow> nat \<Rightarrow> nat
    \<Rightarrow> runtime_options \<Rightarrow> static_slave_config \<Rightarrow> ('m, 'd, 'c, 'q, 'p) ethercat_master \<Rightarrow> 'w
    \<Rightarrow> (main_error + unit) \<times> ('m, 'd, 'c, 'q, 'p, 'r) process \<times> 'w" where
  "run_service A P fuel n options config em w =
     (case (case serve A P options config em w of
              (Inl err, st, w) \<Rightarrow> (Inl err, st, w)
            | (Inr _, st, w) \<Rightarrow> run_and_stop A P fuel n options st w) of
        (r, st, w) \<Rightarrow>
          if r = Inl NotTerminated then (r, st, w) else
          (case master_reset (ta_rt (pr_task P)) (ps_master st) (pr_close_ipc P (snd (reported P (r, w)))) of
             (em, w) \<Rightarrow> (r, st\<lparr>ps_master := em\<rparr>, w)))"

definition main_result :: "abi \<Rightarrow> ('m, 'd, 'c, 'q, 'p, 'f, 'r::linordered_field, 'w) process_api \<Rightarrow> nat \<Rightarrow> nat
    \<Rightarrow> string list \<Rightarrow> 'w \<Rightarrow> (main_error + unit) \<times> 'w" where
  "main_result A P fuel n args w =
     and_do (reported P (load_options A P args w)) (\<lambda>(options, config) w.
     and_do (reported P (prepare_thread P options w)) (\<lambda>_ w.
       (case initialize_with A (pr_init P) fuel options config \<lparr>lc_storage = [], lc_slaves = []\<rparr> ethercat_master_init w of
          (Inl NeverReturned, em, w) \<Rightarrow> (Inl NotTerminated, w)
        | (Inl err, em, w) \<Rightarrow>
            (case master_reset (ia_rt (pr_init P)) em (pr_print P (LineError (StartupFailed err)) w) of
               (em, w) \<Rightarrow> (Inl (StartupFailed err), w))
        | (Inr tables, em, w) \<Rightarrow>
            (case run_service A P fuel n options tables em
                (pr_print P (LineActivated (em_input_size em) (em_output_size em)) (pr_print P (LineTables tables) w)) of
               (r, st, w) \<Rightarrow> (r, w)))))"

text \<open>\<open>EXIT_SUCCESS\<close> and \<open>EXIT_FAILURE\<close>; a run that does not end has no exit status.\<close>

definition process_main :: "abi \<Rightarrow> ('m, 'd, 'c, 'q, 'p, 'f, 'r::linordered_field, 'w) process_api \<Rightarrow> nat \<Rightarrow> nat
    \<Rightarrow> string list \<Rightarrow> 'w \<Rightarrow> int option \<times> 'w" where
  "process_main A P fuel n args w =
     (case main_result A P fuel n args w of
        (Inr _, w) \<Rightarrow> (Some 0, w)
      | (Inl HelpShown, w) \<Rightarrow> (Some 0, w)
      | (Inl NotTerminated, w) \<Rightarrow> (None, w)
      | (Inl err, w) \<Rightarrow> (Some 1, w))"

end
