(* ===== verification/Task_Frame.thy ===== *)
theory Task_Frame
  imports Cyclic_Task
begin

text \<open>
  What a run of the cyclic task keeps: a predicate of the world that every call the task makes preserves
  holds after the run when it held before (the clock does not run backwards, Cyclic_Termination; the log
  of the process grows by task events only, Service_Correct), and the task keeps the handle of its master.
\<close>

section \<open>The calls of the task\<close>

definition kept :: "('w \<Rightarrow> bool) \<Rightarrow> ('w \<Rightarrow> 'w) \<Rightarrow> bool" where
  "kept Q f \<longleftrightarrow> (\<forall>w. Q w \<longrightarrow> Q (f w))"

definition rt_frame :: "('w \<Rightarrow> bool) \<Rightarrow> ('m, 'd, 'c, 'p, 'w) rt_api \<Rightarrow> bool" where
  "rt_frame Q I \<longleftrightarrow>
     (\<forall>m. kept Q (rt_receive I m)) \<and> (\<forall>d. kept Q (rt_process I d)) \<and> (\<forall>d. kept Q (rt_queue I d))
     \<and> (\<forall>m. kept Q (rt_send I m)) \<and> (\<forall>p q n. kept Q (rt_copy I p q n))
     \<and> (\<forall>m t. kept Q (\<lambda>w. snd (rt_application_time I m t w)))
     \<and> (\<forall>m t. kept Q (\<lambda>w. snd (rt_sync_reference_clock_to I m t w)))
     \<and> (\<forall>m. kept Q (\<lambda>w. snd (rt_sync_slave_clocks I m w))) \<and> (\<forall>m. kept Q (\<lambda>w. snd (rt_master_state I m w)))
     \<and> (\<forall>d. kept Q (\<lambda>w. snd (rt_domain_state I d w))) \<and> (\<forall>c. kept Q (\<lambda>w. snd (rt_slave_config_state I c w)))
     \<and> kept Q (\<lambda>w. snd (rt_monotonic I w))"

definition requests_frame :: "('w \<Rightarrow> bool) \<Rightarrow> ('c, 'q, 'w) request_api \<Rightarrow> bool" where
  "requests_frame Q I \<longleftrightarrow>
     (\<forall>q i sub. kept Q (\<lambda>w. snd (sdo_request_index I q i sub w))) \<and> (\<forall>q. kept Q (\<lambda>w. snd (sdo_request_read I q w)))
     \<and> (\<forall>q. kept Q (\<lambda>w. snd (sdo_request_state I q w))) \<and> (\<forall>q. kept Q (\<lambda>w. snd (sdo_request_data_size I q w)))
     \<and> (\<forall>q. kept Q (\<lambda>w. snd (sdo_request_data I q w)))"

definition task_frame :: "('w \<Rightarrow> bool) \<Rightarrow> ('m, 'd, 'c, 'q, 'p, 'r, 'w) task_api \<Rightarrow> bool" where
  "task_frame Q I \<longleftrightarrow> rt_frame Q (ta_rt I) \<and> requests_frame Q (ta_requests I)
     \<and> kept Q (\<lambda>w. snd (ta_realtime I w)) \<and> kept Q (\<lambda>w. snd (ta_stop I w))
     \<and> (\<forall>d. kept Q (\<lambda>w. snd (ta_sleep I d w))) \<and> kept Q (ta_notify I) \<and> (\<forall>x. kept Q (\<lambda>w. snd (ta_console I x w)))"

lemma rt_calls:
  assumes "rt_frame Q I" "Q w"
  shows "Q (rt_receive I m w)" "Q (rt_process I d w)" "Q (rt_queue I d w)" "Q (rt_send I m w)" "Q (rt_copy I p q n w)"
    "Q (snd (rt_application_time I m t w))" "Q (snd (rt_sync_reference_clock_to I m t w))"
    "Q (snd (rt_sync_slave_clocks I m w))" "Q (snd (rt_master_state I m w))" "Q (snd (rt_domain_state I d w))"
    "Q (snd (rt_slave_config_state I c w))" "Q (snd (rt_monotonic I w))"
  using assms by (simp_all add: rt_frame_def kept_def)

lemma requests_calls:
  assumes "requests_frame Q I" "Q w"
  shows "Q (snd (sdo_request_index I q i sub w))" "Q (snd (sdo_request_read I q w))"
    "Q (snd (sdo_request_state I q w))" "Q (snd (sdo_request_data_size I q w))" "Q (snd (sdo_request_data I q w))"
  using assms by (simp_all add: requests_frame_def kept_def)

lemma task_calls:
  assumes "task_frame Q I" "Q w"
  shows "Q (snd (ta_realtime I w))" "Q (snd (ta_stop I w))" "Q (snd (ta_sleep I d w))" "Q (ta_notify I w)"
    "Q (snd (ta_console I x w))"
  using assms by (simp_all add: task_frame_def kept_def del: split_paired_All)

lemma task_frame_parts: "task_frame Q I \<Longrightarrow> rt_frame Q (ta_rt I)" "task_frame Q I \<Longrightarrow> requests_frame Q (ta_requests I)"
  by (simp_all add: task_frame_def)

section \<open>The operations of the master and of the verification\<close>

lemma set_application_time_frame:
  assumes "rt_frame Q I" "Q w"
  shows "Q (snd (snd (set_application_time I t em w)))"
  using assms(2) by (simp add: set_application_time_def case_prod_beta rt_calls [OF assms(1)])

lemma receive_and_process_frame:
  assumes "rt_frame Q I" "Q w"
  shows "Q (receive_and_process I em w)"
  using assms(2) by (simp add: receive_and_process_def rt_calls [OF assms(1)])

lemma exchange_frame:
  assumes "rt_frame Q I" "Q w"
  shows "Q (exchange_process_data I em si so w)"
  using assms(2) by (auto simp: exchange_process_data_def Let_def rt_calls [OF assms(1)] split: option.split)

lemma queue_and_send_frame:
  assumes "rt_frame Q I" "Q w"
  shows "Q (snd (snd (queue_and_send I em w)))"
  using assms(2)
  by (simp add: queue_and_send_def Let_def case_prod_beta rt_calls [OF assms(1)] split: sum.split)

lemma read_state_frame:
  assumes "rt_frame Q I" "Q w"
  shows "Q (snd (read_state I em w))"
  using assms(2) by (simp add: read_state_def Let_def case_prod_beta rt_calls [OF assms(1)])

lemma publish_rows_frame:
  assumes "rt_frame Q I"
  shows "Q w \<Longrightarrow> Q (snd (publish_rows I i cs bus w))"
  by (induction cs arbitrary: i bus w) (simp_all add: case_prod_beta rt_calls [OF assms])

lemma poll_loop_frame:
  assumes "rt_frame Q I"
  shows "Q w \<Longrightarrow> Q (snd (poll_loop I target i cs ok rc rs cap w))"
  by (induction cs arbitrary: i ok rc rs w) (simp_all add: case_prod_beta Let_def rt_calls [OF assms])

lemma verify_step_frame:
  assumes "requests_frame Q I" "Q w"
  shows "Q (snd (snd (verify_step I t s w)))"
  using assms(2)
  by (simp add: verify_step_def Let_def case_prod_beta if_distrib [of snd] requests_calls [OF assms(1)])

lemma sleep_loop_frame:
  assumes "task_frame Q I"
  shows "Q w \<Longrightarrow> Q (snd (sleep_loop I n d w))"
  by (induction n arbitrary: w) (simp_all add: case_prod_beta task_calls [OF assms])

lemma set_application_time_master [simp]: "master (fst (snd (set_application_time I t em w))) = master em"
  by (simp add: set_application_time_def record_dc_error_def case_prod_beta)

lemma queue_and_send_master [simp]: "master (fst (snd (queue_and_send I em w))) = master em"
  by (simp add: queue_and_send_def record_dc_error_def Let_def case_prod_beta split: sum.split)

section \<open>A cycle\<close>

text \<open>The world and the handle after a step of the task.\<close>

definition framed :: "('w \<Rightarrow> bool) \<Rightarrow> ('m, 'd, 'c, 'q, 'p, 'r) cyclic_task \<Rightarrow> ('m, 'd, 'c, 'q, 'p, 'r) cyclic_task
    \<Rightarrow> 'w \<Rightarrow> bool" where
  "framed Q t t' w \<longleftrightarrow> Q w \<and> master (ct_master t') = master (ct_master t)"

lemma framed_trans: "framed Q a b w \<Longrightarrow> framed Q b c w' \<Longrightarrow> framed Q a c w'"
  by (simp add: framed_def)

lemma begin_cycle_frame:
  assumes "task_frame Q I" "Q w" "begin_cycle I fuel d t w = (r, t', w')"
  shows "framed Q t t' w'"
proof -
  note calls = sleep_loop_frame [OF assms(1)] task_calls [OF assms(1)] rt_calls [OF task_frame_parts(1) [OF assms(1)]]
    set_application_time_frame [OF task_frame_parts(1) [OF assms(1)]]
  have "framed Q t (fst (snd (begin_cycle I fuel d t w))) (snd (snd (begin_cycle I fuel d t w)))"
    using assms(2) by (auto simp: framed_def begin_cycle_def Let_def case_prod_beta calls split: option.split sum.split)
  then show ?thesis by (simp add: assms(3))
qed

lemma startup_publish_frame:
  assumes "task_frame Q I" "Q w" "startup_publish A I state wake t w = (r, t', w')"
  shows "framed Q t t' w'"
proof -
  have "framed Q t (fst (snd (startup_publish A I state wake t w))) (snd (snd (startup_publish A I state wake t w)))"
    using assms(2)
    by (auto simp: framed_def startup_publish_def publish_slave_runtime_def Let_def case_prod_beta task_calls [OF assms(1)]
        publish_rows_frame [OF task_frame_parts(1) [OF assms(1)]] split: option.split sum.split)
  then show ?thesis by (simp add: assms(3))
qed

lemma startup_poll_frame:
  assumes "task_frame Q I" "Q w" "startup_poll A I state t w = (r, t', w')"
  shows "framed Q t t' w'"
proof -
  have "framed Q t (fst (snd (startup_poll A I state t w))) (snd (snd (startup_poll A I state t w)))"
    using assms(2)
    by (simp add: framed_def startup_poll_def poll_slaves_def abort_task_def Let_def case_prod_beta
        poll_loop_frame [OF task_frame_parts(1) [OF assms(1)]])
  then show ?thesis by (simp add: assms(3))
qed

lemma startup_verify_frame:
  assumes "task_frame Q I" "Q w" "startup_verify I healthy t s w = (r, t', s', w')"
  shows "framed Q t t' w'"
proof -
  note rt = rt_calls [OF task_frame_parts(1) [OF assms(1)]] and rq = verify_step_frame [OF task_frame_parts(2) [OF assms(1)]]
  have "framed Q t (fst (snd (startup_verify I healthy t s w))) (snd (snd (snd (startup_verify I healthy t s w))))"
    using assms(2)
    by (auto simp: framed_def startup_verify_def abort_task_def Let_def case_prod_beta rt rq split: sum.split)
  then show ?thesis by (simp add: assms(3))
qed

lemma startup_finish_frame:
  assumes "task_frame Q I" "Q w" "startup_finish I wake t s w = (r, t', s', w')"
  shows "framed Q t t' w'"
proof -
  note rt = rt_calls [OF task_frame_parts(1) [OF assms(1)]] queue_and_send_frame [OF task_frame_parts(1) [OF assms(1)]]
  have "framed Q t (fst (snd (startup_finish I wake t s w))) (snd (snd (snd (startup_finish I wake t s w))))"
    using assms(2) by (auto simp: framed_def startup_finish_def Let_def case_prod_beta rt split: sum.split)
  then show ?thesis by (simp add: assms(3))
qed

lemma read_frame:
  assumes "rt_frame Q I" "Q w" "read_state I em' (receive_and_process I em w) = (state, w')"
  shows "Q w'"
  using read_state_frame [OF assms(1) receive_and_process_frame [OF assms(1,2)]] assms(3) by (metis snd_conv)

lemma startup_cycle_frame:
  assumes "task_frame Q I" "Q w" "startup_cycle A I fuel t s w = (r, t', s', w')"
  shows "framed Q t t' w'"
proof -
  obtain rb tb wb where b: "begin_cycle I fuel (deadline s) t w = (rb, tb, wb)" by (metis prod.collapse)
  note fb = begin_cycle_frame [OF assms(1,2) b]
  show ?thesis
  proof (cases rb)
    case (Inl e)
    then show ?thesis using assms(3) b fb by (simp add: startup_cycle_def)
  next
    case (Inr x)
    obtain st wr where rs: "read_state (ta_rt I) (ct_master tb) (receive_and_process (ta_rt I) (ct_master tb) wb) = (st, wr)"
      by fastforce
    have "Q wr" using read_frame [OF task_frame_parts(1) [OF assms(1)] _ rs] fb by (simp add: framed_def)
    obtain rp tp wp where p: "startup_publish A I st x tb wr = (rp, tp, wp)" by (metis prod.collapse)
    note fp = framed_trans [OF fb startup_publish_frame [OF assms(1) \<open>Q wr\<close> p]]
    show ?thesis
    proof (cases rp)
      case (Some e)
      then show ?thesis using assms(3) b Inr rs p fp by (simp add: startup_cycle_def)
    next
      case None
      have "Q wp" using fp by (simp add: framed_def)
      obtain rq tq wq where q: "startup_poll A I st tp wp = (rq, tq, wq)" by (metis prod.collapse)
      note fq = framed_trans [OF fp startup_poll_frame [OF assms(1) \<open>Q wp\<close> q]]
      show ?thesis
      proof (cases rq)
        case (Inl e)
        then show ?thesis using assms(3) b Inr rs p None q fq by (simp add: startup_cycle_def)
      next
        case healthy: (Inr h)
        have "Q wq" using fq by (simp add: framed_def)
        obtain rv tv sv wv where v: "startup_verify I h tq s wq = (rv, tv, sv, wv)" by (metis prod.collapse)
        note fv = framed_trans [OF fq startup_verify_frame [OF assms(1) \<open>Q wq\<close> v]]
        have "Q wv" using fv by (simp add: framed_def)
        show ?thesis
          using assms(3) b Inr rs p None q healthy v fv
            framed_trans [OF fv startup_finish_frame [OF assms(1) \<open>Q wv\<close>]]
          by (cases rv) (simp_all add: startup_cycle_def)
      qed
    qed
  qed
qed

lemma running_exchange_frame:
  assumes "task_frame Q I" "Q w" "running_exchange I t w = (r, w')"
  shows "Q w'"
proof -
  note rt = rt_calls [OF task_frame_parts(1) [OF assms(1)]] receive_and_process_frame [OF task_frame_parts(1) [OF assms(1)]]
    exchange_frame [OF task_frame_parts(1) [OF assms(1)]]
  have "Q (snd (running_exchange I t w))"
    using assms(2) by (auto simp: running_exchange_def case_prod_beta rt split: sum.split)
  then show ?thesis by (simp add: assms(3))
qed

lemma running_publish_frame:
  assumes "task_frame Q I" "Q w" "running_publish A I state wake t w = (r, t', w')"
  shows "framed Q t t' w'"
proof -
  have "framed Q t (fst (snd (running_publish A I state wake t w))) (snd (snd (running_publish A I state wake t w)))"
    using assms(2)
    by (auto simp: framed_def running_publish_def publish_slave_runtime_def Let_def case_prod_beta task_calls [OF assms(1)]
        publish_rows_frame [OF task_frame_parts(1) [OF assms(1)]] split: option.split sum.split)
  then show ?thesis by (simp add: assms(3))
qed

lemma running_send_frame:
  assumes "task_frame Q I" "Q w" "running_send I t w = (r, t', w')"
  shows "framed Q t t' w'"
proof -
  note rt = rt_calls [OF task_frame_parts(1) [OF assms(1)]] queue_and_send_frame [OF task_frame_parts(1) [OF assms(1)]]
  have "framed Q t (fst (snd (running_send I t w))) (snd (snd (running_send I t w)))"
    using assms(2)
    by (auto simp: framed_def running_send_def Let_def case_prod_beta rt task_calls [OF assms(1)] split: sum.split)
  then show ?thesis by (simp add: assms(3))
qed

lemma running_finish_frame:
  assumes "task_frame Q I" "Q w" "running_finish I state cyc wake rts sts t s w = (r, t', s', w')"
  shows "framed Q t t' w'"
proof -
  note rt = rt_calls [OF task_frame_parts(1) [OF assms(1)]]
  have "framed Q t (fst (snd (running_finish I state cyc wake rts sts t s w)))
      (snd (snd (snd (running_finish I state cyc wake rts sts t s w))))"
    using assms(2)
    by (auto simp: framed_def running_finish_def report_window_def Let_def case_prod_beta rt split: sum.split)
  then show ?thesis by (simp add: assms(3))
qed

lemma running_cycle_frame:
  assumes "task_frame Q I" "Q w" "running_cycle A I fuel t s w = (r, t', s', w')"
  shows "framed Q t t' w'"
proof -
  obtain rb tb wb where b: "begin_cycle I fuel (run_deadline s) t w = (rb, tb, wb)" by (metis prod.collapse)
  note fb = begin_cycle_frame [OF assms(1,2) b]
  show ?thesis
  proof (cases rb)
    case (Inl e)
    then show ?thesis using assms(3) b fb by (simp add: running_cycle_def)
  next
    case (Inr x)
    let ?c = "elapsed_microseconds (run_last_wake s) x"
    let ?t = "tb\<lparr>ct_statistics := (ct_statistics tb)\<lparr>current_us := ?c\<rparr>\<rparr>"
    have ft: "framed Q t ?t wb" using fb by (simp add: framed_def)
    have "Q wb" using fb by (simp add: framed_def)
    obtain re we where e: "running_exchange I ?t wb = (re, we)" by fastforce
    have "Q we" by (rule running_exchange_frame [OF assms(1) \<open>Q wb\<close> e])
    show ?thesis
    proof (cases re)
      case (Inl x')
      then show ?thesis using assms(3) b Inr e ft \<open>Q we\<close> by (auto simp: running_cycle_def Let_def framed_def)
    next
      case times: (Inr times)
      obtain st wr where rs: "read_state (ta_rt I) (ct_master ?t) we = (st, wr)" by fastforce
      have "Q wr" using read_state_frame [OF task_frame_parts(1) [OF assms(1)] \<open>Q we\<close>] rs by (metis snd_conv)
      obtain rp tp wp where p: "running_publish A I st x ?t wr = (rp, tp, wp)" by (metis prod.collapse)
      note fp = framed_trans [OF ft running_publish_frame [OF assms(1) \<open>Q wr\<close> p]]
      show ?thesis
      proof (cases rp)
        case (Some err)
        then show ?thesis using assms(3) b Inr e times rs p fp by (simp add: running_cycle_def Let_def)
      next
        case None
        have "Q wp" using fp by (simp add: framed_def)
        obtain rd td wd where d: "running_send I tp wp = (rd, td, wd)" by (metis prod.collapse)
        note fd = framed_trans [OF fp running_send_frame [OF assms(1) \<open>Q wp\<close> d]]
        have "Q wd" using fd by (simp add: framed_def)
        show ?thesis
          using assms(3) b Inr e times rs p None d fd
            framed_trans [OF fd running_finish_frame [OF assms(1) \<open>Q wd\<close>]]
          by (cases rd) (simp_all add: running_cycle_def Let_def)
      qed
    qed
  qed
qed

section \<open>The run\<close>

lemma startup_loop_frame:
  assumes "task_frame Q I"
  shows "Q w \<Longrightarrow> startup_loop A I fuel n t s w = (r, t', s', w') \<Longrightarrow> framed Q t t' w'"
proof (induction n arbitrary: t s w)
  case 0
  then show ?case by (simp add: framed_def)
next
  case (Suc n)
  obtain b w1 where b: "ta_stop I w = (b, w1)" by fastforce
  have "Q w1" using task_calls(2) [OF assms Suc.prems(1)] b by simp
  obtain rc tc sc wc where c: "startup_cycle A I fuel t s w1 = (rc, tc, sc, wc)" by (metis prod.collapse)
  note fc = startup_cycle_frame [OF assms \<open>Q w1\<close> c]
  have "Q wc" using fc by (simp add: framed_def)
  then show ?case
    using Suc.prems b c fc framed_trans [OF fc Suc.IH [of wc tc sc]] \<open>Q w1\<close>
    by (cases rc) (auto simp: framed_def split: if_split_asm)
qed

lemma running_loop_frame:
  assumes "task_frame Q I"
  shows "Q w \<Longrightarrow> running_loop A I fuel n t s w = (r, t', w') \<Longrightarrow> framed Q t t' w'"
proof (induction n arbitrary: t s w)
  case 0
  then show ?case by (simp add: framed_def)
next
  case (Suc n)
  obtain b w1 where b: "ta_stop I w = (b, w1)" by fastforce
  have "Q w1" using task_calls(2) [OF assms Suc.prems(1)] b by simp
  obtain cs mb w2 where k: "ta_console I (statistics_reset t, reports t) w1 = ((cs, mb), w2)" by (metis prod.collapse)
  have "Q w2" using task_calls(5) [OF assms \<open>Q w1\<close>, of "(statistics_reset t, reports t)"] k by simp
  let ?t = "t\<lparr>statistics_reset := cs, reports := mb\<rparr>"
  obtain rc tc sc wc where c: "running_cycle A I fuel ?t s w2 = (rc, tc, sc, wc)" by (metis prod.collapse)
  have fc: "framed Q t tc wc" using running_cycle_frame [OF assms \<open>Q w2\<close> c] by (simp add: framed_def)
  have "Q wc" using fc by (simp add: framed_def)
  then show ?case
    using Suc.prems b k c fc framed_trans [OF fc Suc.IH [of wc tc sc]] \<open>Q w1\<close>
    by (cases rc) (auto simp: framed_def split: if_split_asm)
qed

lemma run_after_startup_frame:
  assumes "task_frame Q I" "Q w" "run_after_startup A I fuel n t s w = (r, t', w')"
  shows "framed Q t t' w'"
proof -
  obtain b w1 where b: "ta_stop I w = (b, w1)" by fastforce
  obtain c w2 where c: "rt_monotonic (ta_rt I) w1 = (c, w2)" by fastforce
  have q: "Q w1" "Q w2"
    using task_calls(2) [OF assms(1,2)] b rt_calls(12) [OF task_frame_parts(1) [OF assms(1)], of w1] c by simp_all
  have "framed Q u t' w' \<Longrightarrow> ct_master u = ct_master t \<Longrightarrow> framed Q t t' w'" for u by (simp add: framed_def)
  then show ?thesis
    using assms(3) b c q running_loop_frame [OF assms(1) q(2)]
    by (cases c) (fastforce simp: run_after_startup_def Let_def framed_def split: if_split_asm)+
qed

lemma run_task_frame:
  assumes "task_frame Q I" "Q w" "run_task A I fuel n t w = (r, t', w')"
  shows "framed Q t t' w'"
proof (cases rule: run_task_cases [of I t w])
  case (refused e w1)
  have "Q (snd (rt_monotonic (ta_rt I) w))" by (rule rt_calls(12) [OF task_frame_parts(1) [OF assms(1)] assms(2)])
  then show ?thesis using refused assms(2,3) by (auto simp: framed_def)
next
  case (started x w1)
  have "Q w1" using rt_calls(12) [OF task_frame_parts(1) [OF assms(1)] assms(2)] started(1) by simp
  obtain rl tl sl wl where l: "startup_loop A I fuel n t (run_start t x) w1 = (rl, tl, sl, wl)" by (metis prod.collapse)
  note fl = startup_loop_frame [OF assms(1) \<open>Q w1\<close> l]
  have "Q wl" using fl by (simp add: framed_def)
  then show ?thesis
    using run_task_start [OF started(2,1) l] fl framed_trans [OF fl run_after_startup_frame [OF assms(1) \<open>Q wl\<close>]]
    unfolding assms(3) by (cases rl) (metis option.simps(4), simp)
qed

end
