(* ===== verification/Service_Correct.thy ===== *)
theory Service_Correct
  imports Process_Main Init_Correct Task_Frame Cyclic_Startup
begin

text \<open>
  The process hands the cyclic task exactly what its guarantees rest on, brings its service up in one
  order and takes down whatever it brought up. The shutdown is a property of the log of the calls that
  bring the service up, run it and take it down.
\<close>

section \<open>What the service exposes\<close>

lemma ready_master_publishes:
  fixes bus :: "'r::linordered_field ecat_bus"
  assumes "ready_master A c em" "publish_config A c = (bus, err)"
  shows "(case err of
      Some e \<Rightarrow> MAX_SLAVE_NUM A < ssc_slave_count c \<or> INT_MAX < EC_SHM_MAX_SIZE A
    | None \<Rightarrow> published A c bus \<and> publish_identity A em bus
        = (True, bus\<lparr>slaves := update_rows identity_row (slave_identities em) (slaves bus)\<rparr>))"
proof -
  have len: "length (config_slaves c) = ssc_slave_count c" and wf: "wf_config A c"
    and inside: "\<forall>s \<in> set (config_slaves c). \<forall>e \<in> set (spec_entries s). in_domain (em_input_size em) (em_output_size em) e"
    and sizes: "em_input_size em \<le> EC_SHM_MAX_SIZE A" "em_output_size em \<le> EC_SHM_MAX_SIZE A"
    and ids: "length (slave_identities em) = ssc_slave_count c"
    using assms(1) list_all2_lengthD by (fastforce simp: ready_master_def list_all_iff)+
  note ok = publish_config_ok [where 'r = 'r, OF len, of A, unfolded assms(2)]
  show ?thesis
  proof (cases err)
    case None
    with ok have "published A c bus" "ssc_slave_count c \<le> MAX_SLAVE_NUM A" by simp_all
    then show ?thesis using None ids by (simp add: publish_identity_def published_def)
  next
    case (Some e)
    have "fits_shm A x" if "in_domain (em_input_size em) (em_output_size em) x" "EC_SHM_MAX_SIZE A \<le> INT_MAX" for x
      using that sizes by (cases "es_direction x") (auto simp: in_domain_def fits_shm_def)
    with ok Some wf inside show ?thesis by force
  qed
qed

text \<open>What a served process has filled in when it returns to main.\<close>

definition exposed :: "abi \<Rightarrow> runtime_options \<Rightarrow> static_slave_config \<Rightarrow> ('m, 'd, 'c, 'q, 'p) ethercat_master
    \<Rightarrow> ('m, 'd, 'c, 'q, 'p, 'r::linordered_field) process \<Rightarrow> bool" where
  "exposed A options c em st \<longleftrightarrow> ps_master st = em
     \<and> bus_ready em \<and> verification_ready (config_slaves c) (verification em)
     \<and> (\<exists>bus :: 'r ecat_bus. published A c bus \<and> ps_bus st = bus\<lparr>
          slaves := update_rows identity_row (slave_identities em) (slaves bus),
          dt := period_us options, current_state := 0, is_authorized := True\<rparr>)"

lemma serve_outcome:
  fixes st :: "('m, 'd, 'c, 'q, 'p, 'r::linordered_field) process"
  assumes "ready_master A c em" "serve A P options c em w = (r, (st, w'))"
  shows "case r of Inr _ \<Rightarrow> exposed A options c em st
     | Inl e \<Rightarrow> ps_master st = em \<and> e \<noteq> IdentityRejected
        \<and> (\<forall>x. e = MetadataRejected x \<longrightarrow> MAX_SLAVE_NUM A < ssc_slave_count c \<or> INT_MAX < EC_SHM_MAX_SIZE A)"
proof -
  obtain bus :: "'r ecat_bus" and err where pub: "publish_config A c = (bus, err)" by fastforce
  note p = ready_master_publishes [OF assms(1) pub]
  have "bus_ready em" "verification_ready (config_slaves c) (verification em)"
    using assms(1) by (simp_all add: ready_master_def)
  then show ?thesis
    using assms(2) p pub
    by (cases err)
       (auto simp: serve_def publish_metadata_def expose_def exposed_def Let_def
          split: prod.split_asm bool.split_asm option.split_asm sum.split_asm)
qed

section \<open>The log of the service\<close>

text \<open>
  One event for each call with an effect outside the process: creating the two shared memories, starting
  and stopping (with the join) the reporter, publishing and clearing the ready word, locking memory,
  setting the scheduler, announcing the preparation, the calls of the task and of the last reset, and
  closing the shared memory.
\<close>

datatype ('m, 'd, 'c, 'q, 'p) service_event =
    SvShm bool | SvProcessData bool | SvReporter bool | SvReady bool | SvLocked bool | SvScheduled bool
  | SvPrepared | SvTask "('m, 'd, 'c, 'q, 'p) task_event" | SvClearReady | SvStopReporter | SvClose

definition quietly :: "('w \<Rightarrow> 'x \<times> 'w) \<Rightarrow> 'w \<times> 'l \<Rightarrow> 'x \<times> 'w \<times> 'l" where
  "quietly f = (\<lambda>(w, l). case f w of (x, w) \<Rightarrow> (x, (w, l)))"

lemma quietly_simp [simp]: "quietly f (w, l) = (case f w of (x, w) \<Rightarrow> (x, (w, l)))"
  by (simp add: quietly_def)

definition log_service_task :: "('m, 'd, 'c, 'q, 'p, 'r, 'w) task_api
    \<Rightarrow> ('m, 'd, 'c, 'q, 'p, 'r, 'w \<times> ('m, 'd, 'c, 'q, 'p) service_event list) task_api" where
  "log_service_task I = \<lparr>ta_rt = log_rt (\<lambda>e. SvTask (TeRt e)) (ta_rt I),
     ta_requests = log_requests (\<lambda>e. SvTask (TeRq e)) (ta_requests I),
     ta_realtime = (\<lambda>(w, l). case ta_realtime I w of (r, w) \<Rightarrow> (r, (w, l @ [SvTask (TeRealtime r)]))),
     ta_sleep = (\<lambda>d (w, l). case ta_sleep I d w of (rc, w) \<Rightarrow> (rc, (w, l @ [SvTask (TeSleep d rc)]))),
     ta_stop = (\<lambda>(w, l). case ta_stop I w of (b, w) \<Rightarrow> (b, (w, l @ [SvTask (TeStop b)]))),
     ta_notify = (\<lambda>(w, l). (ta_notify I w, l @ [SvTask TeNotify])),
     ta_wc_code = ta_wc_code I, ta_console = (\<lambda>x. quietly (ta_console I x))\<rparr>"

definition log_service :: "('m, 'd, 'c, 'q, 'p, 'r, 'w, 'z) service_api_scheme
    \<Rightarrow> ('m, 'd, 'c, 'q, 'p, 'r, 'w \<times> ('m, 'd, 'c, 'q, 'p) service_event list) service_api" where
  "log_service P = \<lparr>pr_version = pr_version P, pr_cmd_reset_stats = pr_cmd_reset_stats P,
     pr_task = log_service_task (pr_task P),
     pr_cpu = \<lparr>cpu_setsize = cpu_setsize (pr_cpu P),
       set_affinity = (\<lambda>t s. quietly (set_affinity (pr_cpu P) t s)),
       get_affinity = (\<lambda>t. quietly (get_affinity (pr_cpu P) t)), start_probe = quietly (start_probe (pr_cpu P))\<rparr>,
     pr_print = (\<lambda>x (w, l). (pr_print P x w, l)),
     pr_create_shm = (\<lambda>i (w, l). case pr_create_shm P i w of (ok, w) \<Rightarrow> (ok, (w, l @ [SvShm ok]))),
     pr_create_pd = (\<lambda>i j (w, l). case pr_create_pd P i j w of (r, w) \<Rightarrow> (r, (w, l @ [SvProcessData (r \<noteq> None)]))),
     pr_start_reporter = (\<lambda>(w, l). case pr_start_reporter P w of (ok, w) \<Rightarrow> (ok, (w, l @ [SvReporter ok]))),
     pr_stop_reporter = (\<lambda>(w, l). (pr_stop_reporter P w, l @ [SvStopReporter])),
     pr_publish_ready = (\<lambda>(w, l). case pr_publish_ready P w of (ok, w) \<Rightarrow> (ok, (w, l @ [SvReady ok]))),
     pr_clear_ready = (\<lambda>(w, l). (pr_clear_ready P w, l @ [SvClearReady])),
     pr_announce_prepared = (\<lambda>(w, l). (pr_announce_prepared P w, l @ [SvPrepared])),
     pr_mlockall = (\<lambda>(w, l). case pr_mlockall P w of (r, w) \<Rightarrow> (r, (w, l @ [SvLocked (r = None)]))),
     pr_touch_stack = (\<lambda>i (w, l). (pr_touch_stack P i w, l)),
     pr_setscheduler = (\<lambda>i (w, l). case pr_setscheduler P i w of (r, w) \<Rightarrow> (r, (w, l @ [SvScheduled (r = None)]))),
     pr_close_ipc = (\<lambda>(w, l). (pr_close_ipc P w, l @ [SvClose]))\<rparr>"

lemma log_service_simps [simp]:
  "pr_task (log_service P) = log_service_task (pr_task P)"
  "pr_print (log_service P) x (w, l) = (pr_print P x w, l)"
  "pr_create_shm (log_service P) i (w, l) = (case pr_create_shm P i w of (ok, w) \<Rightarrow> (ok, (w, l @ [SvShm ok])))"
  "pr_create_pd (log_service P) i j (w, l) = (case pr_create_pd P i j w of (y, w) \<Rightarrow> (y, (w, l @ [SvProcessData (y \<noteq> None)])))"
  "pr_start_reporter (log_service P) (w, l) = (case pr_start_reporter P w of (ok, w) \<Rightarrow> (ok, (w, l @ [SvReporter ok])))"
  "pr_stop_reporter (log_service P) (w, l) = (pr_stop_reporter P w, l @ [SvStopReporter])"
  "pr_publish_ready (log_service P) (w, l) = (case pr_publish_ready P w of (ok, w) \<Rightarrow> (ok, (w, l @ [SvReady ok])))"
  "pr_clear_ready (log_service P) (w, l) = (pr_clear_ready P w, l @ [SvClearReady])"
  "pr_announce_prepared (log_service P) (w, l) = (pr_announce_prepared P w, l @ [SvPrepared])"
  "pr_mlockall (log_service P) (w, l) = (case pr_mlockall P w of (y, w) \<Rightarrow> (y, (w, l @ [SvLocked (y = None)])))"
  "pr_touch_stack (log_service P) n (w, l) = (pr_touch_stack P n w, l)"
  "pr_setscheduler (log_service P) n (w, l) = (case pr_setscheduler P n w of (y, w) \<Rightarrow> (y, (w, l @ [SvScheduled (y = None)])))"
  "pr_close_ipc (log_service P) (w, l) = (pr_close_ipc P w, l @ [SvClose])"
  by (simp_all add: log_service_def)

text \<open>
  The calls that bring the service up, given how the service ended: they stop at the step that failed, and
  a service that reached its task made them all.
\<close>

definition realtime_steps :: "realtime_error + unit \<Rightarrow> ('m, 'd, 'c, 'q, 'p) service_event list" where
  "realtime_steps r = (case r of
       Inl (CpuNotBound e) \<Rightarrow> []
     | Inl (MemoryNotLocked errno) \<Rightarrow> [SvLocked False]
     | Inl (SchedulerRefused errno) \<Rightarrow> [SvLocked True, SvScheduled False]
     | Inr _ \<Rightarrow> [SvLocked True, SvScheduled True])"

definition memory_steps :: "main_error + unit \<Rightarrow> ('m, 'd, 'c, 'q, 'p) service_event list" where
  "memory_steps r = (case r of
       Inl NoSharedMemory \<Rightarrow> [SvShm False]
     | Inl NoProcessData \<Rightarrow> [SvShm True, SvProcessData False]
     | _ \<Rightarrow> [SvShm True, SvProcessData True])"

definition exposure_steps :: "main_error + unit \<Rightarrow> ('m, 'd, 'c, 'q, 'p) service_event list" where
  "exposure_steps r = (case r of
       Inl NoSharedMemory \<Rightarrow> [] | Inl NoProcessData \<Rightarrow> [] | Inl (MetadataRejected e) \<Rightarrow> [] | Inl IdentityRejected \<Rightarrow> []
     | Inl NoReporter \<Rightarrow> [SvReporter False]
     | Inl ReadyRefused \<Rightarrow> [SvReporter True, SvReady False]
     | Inl (RealtimeFailed e) \<Rightarrow> [SvReporter True, SvReady True] @ realtime_steps (Inl e)
     | _ \<Rightarrow> [SvReporter True, SvReady True] @ realtime_steps (Inr ()) @ [SvPrepared])"

definition brought_up :: "main_error + unit \<Rightarrow> ('m, 'd, 'c, 'q, 'p) service_event list" where
  "brought_up r = memory_steps r @ exposure_steps r"

text \<open>What was brought up is taken down: the ready word first, then the reporter.\<close>

definition stopped_after :: "('m, 'd, 'c, 'q, 'p) service_event list \<Rightarrow> ('m, 'd, 'c, 'q, 'p) service_event list" where
  "stopped_after up = (if SvReady True \<in> set up then [SvClearReady] else [])
     @ (if SvReporter True \<in> set up then [SvStopReporter] else [])"

text \<open>The destructors: the shared memory, then the master with its handle.\<close>

definition released_at_end :: "('m, 'd, 'c, 'q, 'p) ethercat_master \<Rightarrow> ('m, 'd, 'c, 'q, 'p) service_event list" where
  "released_at_end em = [SvClose] @ (case master em of None \<Rightarrow> [] | Some m \<Rightarrow> [SvTask (TeRt (RtRelease (Some m)))])"

text \<open>A call of the run, which never releases the handle.\<close>

definition run_event :: "('m, 'd, 'c, 'q, 'p) task_event \<Rightarrow> bool" where
  "run_event e \<longleftrightarrow> (case e of TeRt (RtRelease m) \<Rightarrow> False | _ \<Rightarrow> True)"

text \<open>A service whose task was entered.\<close>

definition reached :: "main_error + unit \<Rightarrow> bool" where
  "reached r \<longleftrightarrow> (case r of Inr _ \<Rightarrow> True | Inl e \<Rightarrow> e = NotTerminated \<or> e \<in> range TaskFailed)"

lemma brought_up_all: "brought_up (Inr u) = [SvShm True, SvProcessData True, SvReporter True, SvReady True, SvLocked True,
    SvScheduled True, SvPrepared]"
  by (simp add: brought_up_def memory_steps_def exposure_steps_def realtime_steps_def)

lemma brought_up_reached:
  assumes "reached r"
  shows "brought_up r = brought_up (Inr ())" "stopped_after (brought_up r) = [SvClearReady, SvStopReporter]"
proof -
  show "brought_up r = brought_up (Inr ())"
    using assms by (auto simp: reached_def brought_up_def memory_steps_def exposure_steps_def split: sum.split_asm)
  show "stopped_after (brought_up r) = [SvClearReady, SvStopReporter]"
    using assms
    by (auto simp: reached_def brought_up_def memory_steps_def exposure_steps_def realtime_steps_def stopped_after_def
        split: sum.split_asm)
qed

section \<open>Bringing it up\<close>

lemma configure_realtime_log:
  assumes "configure_realtime (log_service P) options (w, l) = (r, (w', l'))"
  shows "l' = l @ realtime_steps r"
proof -
  have touch: "\<exists>v'. fold (pr_touch_stack (log_service P)) xs (v, k) = (v', k)" for xs v k
    by (induction xs arbitrary: v) auto
  have bind: "bind_thread_cpu (pr_cpu (log_service P)) t n (v, k) = (rb, (v', k')) \<Longrightarrow> k' = k" for t n v k rb v' k'
    by (auto simp: bind_thread_cpu_def log_service_def split: prod.split_asm option.split_asm sum.split_asm if_split_asm)
  obtain rb w1 where b: "(case cpu options of None \<Rightarrow> (Inr (), (w, l))
      | Some n \<Rightarrow> bind_thread_cpu (pr_cpu (log_service P)) Caller (unat n) (w, l)) = (rb, (w1, l))"
    using bind by (cases "cpu options") (fastforce, metis option.simps(5) prod.collapse)
  obtain lk w2 where m: "pr_mlockall P w1 = (lk, w2)" by fastforce
  let ?l2 = "l @ [SvLocked (lk = None)]"
  obtain w3 where t: "fold (pr_touch_stack (log_service P)) (map ((*) 4096) [0..<kPrefaultStackBytes div 4096]) (w2, ?l2) = (w3, ?l2)"
    using touch by blast
  obtain sc w4 where s: "pr_setscheduler P kRealtimePriority w3 = (sc, w4)" by fastforce
  show ?thesis
    using assms m t s unfolding configure_realtime_def b
    by (cases rb; cases lk; cases sc) (auto simp: realtime_steps_def)
qed

text \<open>The error a failing step returns decides the calls made so far.\<close>

lemma publish_metadata_log:
  fixes st :: "('m, 'd, 'c, 'q, 'p, 'r::linordered_field) process"
  assumes "publish_metadata A (log_service P) options c st (w, l) = (r, (st', (w', l')))"
  shows "l' = l @ memory_steps r
    \<and> (case r of Inl e \<Rightarrow> exposure_steps r = [] \<and> stopped_after (brought_up r) = [] \<and> e \<noteq> NotTerminated | Inr _ \<Rightarrow> True)"
proof -
  obtain ok w1 where shm: "pr_create_shm P (sint (master_id options)) w = (ok, w1)" by fastforce
  obtain pd w2 where pd: "pr_create_pd P (int (shared_input_size (ps_master st))) (int (shared_output_size (ps_master st))) w1
      = (pd, w2)" by fastforce
  obtain bus err where pub: "publish_config A c = (bus :: 'r ecat_bus, err)" by fastforce
  obtain ids bus2 where ident: "publish_identity A (ps_master st) bus = (ids, bus2)" by fastforce
  show ?thesis
    using assms shm pd pub ident unfolding publish_metadata_def
    by (cases ok; cases pd; cases err; cases ids)
       (auto simp: memory_steps_def exposure_steps_def brought_up_def stopped_after_def)
qed

lemma expose_log:
  assumes "expose (log_service P) options st (w, l) = (r, (st', (w', l')))"
  shows "memory_steps r = [SvShm True, SvProcessData True]
    \<and> (case r of Inr _ \<Rightarrow> l' = l @ exposure_steps r
       | Inl e \<Rightarrow> l' = l @ exposure_steps r @ stopped_after (brought_up r) \<and> e \<noteq> NotTerminated)"
proof -
  obtain rp w1 where rp: "pr_start_reporter P w = (rp, w1)" by fastforce
  obtain rd w2 where rd: "pr_publish_ready P w1 = (rd, w2)" by fastforce
  let ?l1 = "l @ [SvReporter rp]" let ?l2 = "?l1 @ [SvReady rd]"
  obtain rt w3 l3 where rt: "configure_realtime (log_service P) options (w2, ?l2) = (rt, (w3, l3))" by (metis prod.collapse)
  note l3 = configure_realtime_log [OF rt]
  have steps: "SvReady x \<notin> set (realtime_steps q)" "SvReporter x \<notin> set (realtime_steps q)" for x q
    by (auto simp: realtime_steps_def split: sum.split realtime_error.split)
  show ?thesis
    using assms l3 rp rd rt unfolding expose_def
    by (cases rp; cases rd; cases rt)
       (auto simp: steps memory_steps_def exposure_steps_def brought_up_def stopped_after_def)
qed

lemma serve_log:
  fixes st :: "('m, 'd, 'c, 'q, 'p, 'r::linordered_field) process"
  assumes "serve A (log_service P) options c em (w, l) = (r, (st, (w', l')))"
  shows "case r of Inr _ \<Rightarrow> l' = l @ brought_up (Inr ())
    | Inl e \<Rightarrow> l' = l @ brought_up r @ stopped_after (brought_up r) \<and> e \<noteq> NotTerminated"
proof -
  define st0 :: "('m, 'd, 'c, 'q, 'p, 'r) process" where "st0 = \<lparr>ps_master = em, ps_bus = ecat_bus_init A, ps_info = ipc_info_init, ps_pd = (None, None)\<rparr>"
  obtain rm sm wm lm where m: "publish_metadata A (log_service P) options c st0 (w, l) = (rm, (sm, (wm, lm)))"
    by (metis prod.collapse)
  note lm = publish_metadata_log [OF m]
  show ?thesis
  proof (cases rm)
    case (Inl e)
    then show ?thesis
      using assms m lm by (auto simp: serve_def st0_def [symmetric] brought_up_def split: sum.split_asm)
  next
    case (Inr u)
    then have x: "expose (log_service P) options sm (wm, lm) = (r, (st, (w', l')))"
      using assms m by (simp add: serve_def st0_def [symmetric])
    have "lm = l @ [SvShm True, SvProcessData True]" using lm Inr by (simp add: memory_steps_def)
    then show ?thesis
      using expose_log [OF x] by (cases r) (auto simp: brought_up_def intro: sym)
  qed
qed

section \<open>The run\<close>

text \<open>The log of the run grows by the calls of the task, none of which releases the handle.\<close>

definition grown :: "('m, 'd, 'c, 'q, 'p) service_event list \<Rightarrow> 'w \<times> ('m, 'd, 'c, 'q, 'p) service_event list \<Rightarrow> bool" where
  "grown l = (\<lambda>(w, l'). \<exists>ev. l' = l @ map SvTask ev \<and> list_all run_event ev)"

lemma grown_simps [simp]:
  "grown l (w, l)"
  "grown l (w, k) \<Longrightarrow> run_event e \<Longrightarrow> grown l (w', k @ [SvTask e])"
proof -
  show "grown l (w, l)" by (auto simp: grown_def intro: exI [of _ "[]"])
  assume "grown l (w, k)" "run_event e"
  then obtain ev where "k = l @ map SvTask ev" "list_all run_event ev" by (auto simp: grown_def)
  then show "grown l (w', k @ [SvTask e])"
    using \<open>run_event e\<close> by (auto simp: grown_def intro!: exI [of _ "ev @ [e]"])
qed

lemma grown_world: "grown l (w, k) \<Longrightarrow> grown l (w', k)"
  by (simp add: grown_def)

lemma log_service_task_frame: "task_frame (grown l) (log_service_task I)"
proof -
  have "rt_frame (grown l) (log_rt (\<lambda>e. SvTask (TeRt e)) (ta_rt I))"
    by (simp add: rt_frame_def kept_def log_rt_def grown_simps run_event_def split: prod.split)
  moreover have "requests_frame (grown l) (log_requests (\<lambda>e. SvTask (TeRq e)) (ta_requests I))"
    by (simp add: requests_frame_def kept_def log_requests_def grown_simps run_event_def split: prod.split)
  ultimately show ?thesis
    by (simp add: task_frame_def log_service_task_def kept_def run_event_def grown_world split: prod.split)
qed

lemma run_and_stop_log:
  fixes st :: "('m, 'd, 'c, 'q, 'p, 'r::linordered_field) process"
  assumes "run_and_stop A (log_service P) fuel n options st (w, l) = (r, (st', (w', l')))"
  shows "\<exists>running. list_all run_event running \<and> reached r
    \<and> l' = l @ map SvTask running @ (if r = Inl NotTerminated then [] else [SvClearReady, SvStopReporter])
    \<and> master (ps_master st') = master (ps_master st)"
proof -
  obtain rc t' w1 l1 where
    t: "run_task A (log_service_task (pr_task P)) fuel n (make_task options st) (w, l) = (rc, t', (w1, l1))"
    by (metis prod.collapse)
  have "framed (grown l) (make_task options st) t' (w1, l1)"
    by (rule run_task_frame [OF log_service_task_frame _ t]) simp
  then obtain ev where "l1 = l @ map SvTask ev" "list_all run_event ev" "master (ct_master t') = master (ps_master st)"
    by (auto simp: framed_def grown_def make_task_def)
  then show ?thesis
    using assms t by (cases rc) (auto simp: run_and_stop_def reached_def split: if_split_asm)
qed

section \<open>The service\<close>

lemma master_gone_after_reset: "master (fst (master_reset I em w)) = None"
  by (simp add: master_reset_fresh ethercat_master_init_def)

lemma service_end_log:
  assumes "master_reset (ta_rt (pr_task (log_service P))) em (pr_close_ipc (log_service P) (snd (reported (log_service P) (r, (w, l)))))
    = (em', (w', l'))"
  shows "l' = l @ released_at_end em \<and> master em' = None"
  using assms
  by (cases r; cases "master em")
     (auto simp: reported_def master_reset_def Let_def released_at_end_def log_service_task_def)

lemma run_service_log:
  fixes P :: "('m, 'd, 'c, 'q, 'p, 'r::linordered_field, 'w, 'z) service_api_scheme"
    and st :: "('m, 'd, 'c, 'q, 'p, 'r) process"
  assumes "ready_master A c em" "run_service A (log_service P) fuel n options c em (w, []) = (r, (st, (w', l)))"
  shows "\<exists>running. list_all run_event running \<and> (reached r \<or> running = [])
    \<and> l = brought_up r @ map SvTask running
        @ (if r = Inl NotTerminated then [] else stopped_after (brought_up r) @ released_at_end em)
    \<and> (r = Inl NotTerminated \<or> master (ps_master st) = None)"
proof -
  obtain rs and ss :: "('m, 'd, 'c, 'q, 'p, 'r) process" and ws ls where
    sv: "serve A (log_service P) options c em (w, []) = (rs, (ss, (ws, ls)))" by (metis prod.collapse)
  note ls = serve_log [OF sv] and out = serve_outcome [OF assms(1) sv]
  show ?thesis
  proof (cases rs)
    case (Inl e)
    then have keep: "ps_master ss = em" and end_log: "ls = brought_up rs @ stopped_after (brought_up rs)" "e \<noteq> NotTerminated"
      using ls out by simp_all
    obtain em' w2 l2 where reset: "master_reset (ta_rt (pr_task (log_service P))) em
        (pr_close_ipc (log_service P) (snd (reported (log_service P) (rs, (ws, ls))))) = (em', (w2, l2))"
      by (metis prod.collapse)
    have "r = rs" "l = l2" "ps_master st = em'"
      using assms(2) sv Inl keep reset end_log by (auto simp: run_service_def)
    then show ?thesis
      using service_end_log [OF reset] end_log Inl by (intro exI [of _ "[]"]) auto
  next
    case (Inr u)
    then have keep: "ps_master ss = em" and up: "ls = brought_up (Inr ())"
      using ls out by (simp_all add: exposed_def)
    obtain rr and sr :: "('m, 'd, 'c, 'q, 'p, 'r) process" and wr lr where
      run: "run_and_stop A (log_service P) fuel n options ss (ws, ls) = (rr, (sr, (wr, lr)))" by (metis prod.collapse)
    from run_and_stop_log [OF run] obtain ev where ev: "list_all run_event ev" "reached rr"
        "lr = ls @ map SvTask ev @ (if rr = Inl NotTerminated then [] else [SvClearReady, SvStopReporter])"
        "master (ps_master sr) = master em"
      using keep by auto
    have same: "brought_up rr = ls" "stopped_after ls = [SvClearReady, SvStopReporter]"
      by (simp_all add: up brought_up_reached(1) [OF ev(2)] brought_up_reached(2) [of "Inr ()"] reached_def)
    obtain em' w2 l2 where reset: "master_reset (ta_rt (pr_task (log_service P))) (ps_master sr)
        (pr_close_ipc (log_service P) (snd (reported (log_service P) (rr, (wr, lr))))) = (em', (w2, l2))"
      by (metis prod.collapse)
    have "released_at_end (ps_master sr) = released_at_end em" using ev(4) by (simp add: released_at_end_def)
    then have end_log: "l2 = lr @ released_at_end em" "master em' = None" using service_end_log [OF reset] by simp_all
    have "r = rr" "l = (if rr = Inl NotTerminated then lr else l2)" "ps_master st = (if rr = Inl NotTerminated then ps_master sr else em')"
      using assms(2) sv Inr run reset by (auto simp: run_service_def split: if_split_asm)
    then show ?thesis
      using end_log ev same up by (intro exI [of _ ev]) auto
  qed
qed

text \<open>
  Claim C37.
  The service comes up in one order and takes down exactly what it brought up. For a process whose master
  is initialized: the two shared memories are created, the metadata is published, the reporter starts, the
  ready word is published, the memory is locked and the scheduler set, the preparation is announced, and
  only then does the task run; the first call that fails is the last of these. Served, the metadata
  describe the configuration (every slave with its name, identity and entries), the master can run and its
  verification is prepared for these tables; the identity is never rejected and the metadata only when the
  bus does not fit the shared memory. Unless the task never ends, the calls that follow are these and no
  others: the ready word is cleared when it was published, then the reporter is stopped and joined when it
  was started, once each, then the shared memory is closed and the handle of the master, which no call
  of the run released, is released last; the master object holds none afterwards.
\<close>

theorem service_lifecycle:
  fixes P :: "('m, 'd, 'c, 'q, 'p, 'f, 'r::linordered_field, 'w) process_api"
  shows "case initialize_with A (pr_init P) fuel options config loaded ethercat_master_init w of
    (Inl e, em, w1) \<Rightarrow> True
  | (Inr c, em, w1) \<Rightarrow>
      (case serve A P options c em w1 of (r, st, w2) \<Rightarrow>
         (case r of
            Inr _ \<Rightarrow> exposed A options c em st
          | Inl e \<Rightarrow> e \<noteq> IdentityRejected
              \<and> (if e \<in> range MetadataRejected then MAX_SLAVE_NUM A < ssc_slave_count c \<or> INT_MAX < EC_SHM_MAX_SIZE A else True)))
      \<and> (case run_service A (log_service P) fuel n options c em (w1, []) of (r, st, (w2, l)) \<Rightarrow>
           \<exists>running. list_all run_event running \<and> (reached r \<or> running = [])
             \<and> l = brought_up r @ map SvTask running
                 @ (if r = Inl NotTerminated then [] else stopped_after (brought_up r) @ released_at_end em)
             \<and> (r = Inl NotTerminated \<or> master (ps_master st) = None))"
proof -
  obtain r em w1 where ini: "initialize_with A (pr_init P) fuel options config loaded ethercat_master_init w = (r, (em, w1))"
    by (metis prod.collapse)
  show ?thesis
  proof (cases r)
    case (Inl e)
    then show ?thesis using ini by simp
  next
    case (Inr c)
    have ready: "ready_master A c em" using initialize_with_ready [OF ini [unfolded Inr]] .
    obtain r1 and st1 :: "('m, 'd, 'c, 'q, 'p, 'r) process" and w2 where sv: "serve A P options c em w1 = (r1, (st1, w2))"
      by (metis prod.collapse)
    obtain r2 and st2 :: "('m, 'd, 'c, 'q, 'p, 'r) process" and w3 l where
      rs: "run_service A (log_service P) fuel n options c em (w1, []) = (r2, (st2, (w3, l)))" by (metis prod.collapse)
    show ?thesis
      unfolding ini Inr using sv serve_outcome [OF ready sv] rs run_service_log [OF ready rs]
      by (simp split: sum.split) auto
  qed
qed

end
