(* ===== verification/Cyclic_Termination.thy ===== *)
theory Cyclic_Termination
  imports Task_Frame
begin

text \<open>
  The run of the cyclic task returns. Every cycle that completes slept to its absolute deadline, every
  next deadline is at least a period later, and the clock does not run backwards; so the startup loop
  reaches the deadline of its gate after a number of cycles that the timeout and the period give, and
  both loops see a stop request within a number of cycles that the time of the request gives. The clock
  is a function \<open>now\<close> of the world: no call of the interface turns it back, a reading lies between its
  values before and after the call, and an uninterrupted absolute sleep returns at or after its deadline.
\<close>

section \<open>The clock of the world\<close>

definition keeps_time :: "('w \<Rightarrow> int) \<Rightarrow> ('w \<Rightarrow> 'w) \<Rightarrow> bool" where
  "keeps_time now f \<longleftrightarrow> (\<forall>w. now w \<le> now (f w))"

definition timed_rt :: "('w \<Rightarrow> int) \<Rightarrow> ('m, 'd, 'c, 'p, 'w) rt_api \<Rightarrow> bool" where
  "timed_rt now I \<longleftrightarrow>
     (\<forall>m. keeps_time now (rt_receive I m)) \<and> (\<forall>d. keeps_time now (rt_process I d))
     \<and> (\<forall>d. keeps_time now (rt_queue I d)) \<and> (\<forall>m. keeps_time now (rt_send I m))
     \<and> (\<forall>p q n. keeps_time now (rt_copy I p q n))
     \<and> (\<forall>m t. keeps_time now (\<lambda>w. snd (rt_application_time I m t w)))
     \<and> (\<forall>m t. keeps_time now (\<lambda>w. snd (rt_sync_reference_clock_to I m t w)))
     \<and> (\<forall>m. keeps_time now (\<lambda>w. snd (rt_sync_slave_clocks I m w)))
     \<and> (\<forall>m. keeps_time now (\<lambda>w. snd (rt_master_state I m w)))
     \<and> (\<forall>d. keeps_time now (\<lambda>w. snd (rt_domain_state I d w)))
     \<and> (\<forall>c. keeps_time now (\<lambda>w. snd (rt_slave_config_state I c w)))
     \<and> keeps_time now (\<lambda>w. snd (rt_monotonic I w))
     \<and> (\<forall>w x w'. rt_monotonic I w = (Inr x, w') \<longrightarrow> now w \<le> to_nanoseconds x \<and> to_nanoseconds x \<le> now w')"

definition timed_requests :: "('w \<Rightarrow> int) \<Rightarrow> ('c, 'q, 'w) request_api \<Rightarrow> bool" where
  "timed_requests now I \<longleftrightarrow>
     (\<forall>q i sub. keeps_time now (\<lambda>w. snd (sdo_request_index I q i sub w)))
     \<and> (\<forall>q. keeps_time now (\<lambda>w. snd (sdo_request_read I q w)))
     \<and> (\<forall>q. keeps_time now (\<lambda>w. snd (sdo_request_state I q w)))
     \<and> (\<forall>q. keeps_time now (\<lambda>w. snd (sdo_request_data_size I q w)))
     \<and> (\<forall>q. keeps_time now (\<lambda>w. snd (sdo_request_data I q w)))"

definition timed_task :: "('w \<Rightarrow> int) \<Rightarrow> ('m, 'd, 'c, 'q, 'p, 'r, 'w) task_api \<Rightarrow> bool" where
  "timed_task now I \<longleftrightarrow> timed_rt now (ta_rt I) \<and> timed_requests now (ta_requests I)
     \<and> keeps_time now (\<lambda>w. snd (ta_realtime I w)) \<and> keeps_time now (\<lambda>w. snd (ta_stop I w))
     \<and> (\<forall>d. keeps_time now (\<lambda>w. snd (ta_sleep I d w))) \<and> keeps_time now (ta_notify I)
     \<and> (\<forall>x. keeps_time now (\<lambda>w. snd (ta_console I x w)))
     \<and> (\<forall>d w w'. ta_sleep I d w = (0, w') \<longrightarrow> to_nanoseconds d \<le> now w')"

section \<open>No operation turns the clock back\<close>

text \<open>A lower bound of the clock is a frame of the task, so every operation carries it over.\<close>

lemma keeps_time_kept: "keeps_time now f \<Longrightarrow> kept (\<lambda>w. t0 \<le> now w) f"
  by (auto simp: keeps_time_def kept_def intro: order_trans)

lemma timed_rt_frame: "timed_rt now I \<Longrightarrow> rt_frame (\<lambda>w. t0 \<le> now w) I"
  by (simp add: timed_rt_def rt_frame_def keeps_time_kept)

lemma timed_requests_frame: "timed_requests now I \<Longrightarrow> requests_frame (\<lambda>w. t0 \<le> now w) I"
  by (simp add: timed_requests_def requests_frame_def keeps_time_kept)

lemma timed_task_frame: "timed_task now I \<Longrightarrow> task_frame (\<lambda>w. t0 \<le> now w) I"
  by (simp add: timed_task_def task_frame_def timed_rt_frame timed_requests_frame keeps_time_kept del: split_paired_All)

lemmas timed_rt_calls = rt_calls [OF timed_rt_frame]
  and timed_task_calls = task_calls [OF timed_task_frame]
  and set_application_time_time = set_application_time_frame [OF timed_rt_frame]
  and receive_and_process_time = receive_and_process_frame [OF timed_rt_frame]
  and read_state_time = read_state_frame [OF timed_rt_frame]
  and publish_rows_time = publish_rows_frame [OF timed_rt_frame]
  and poll_loop_time = poll_loop_frame [OF timed_rt_frame]
  and verify_step_time = verify_step_frame [OF timed_requests_frame]

lemma sleep_loop_time:
  assumes "timed_task now I"
  shows "t0 \<le> now w \<Longrightarrow> t0 \<le> now (snd (sleep_loop I n d w))"
    and "fst (sleep_loop I n d w) = Some 0 \<Longrightarrow> to_nanoseconds d \<le> now (snd (sleep_loop I n d w))"
proof -
  show "t0 \<le> now w \<Longrightarrow> t0 \<le> now (snd (sleep_loop I n d w))"
    by (rule sleep_loop_frame [OF timed_task_frame [OF assms]])
  have "to_nanoseconds d \<le> now w'" if "ta_sleep I d w = (0, w')" for w w'
    using that assms by (simp add: timed_task_def)
  then show "fst (sleep_loop I n d w) = Some 0 \<Longrightarrow> to_nanoseconds d \<le> now (snd (sleep_loop I n d w))"
    by (induction n arbitrary: w) (auto simp: EINTR_def split: prod.split_asm if_split_asm prod.split)
qed

section \<open>A cycle\<close>

definition period_ns :: "('m, 'd, 'c, 'q, 'p, 'r) cyclic_task \<Rightarrow> int" where
  "period_ns t = uint (ct_period_us t) * 1000"

text \<open>A cycle that begins has slept to its deadline and seen no stop request since.\<close>

lemma begin_cycle_time:
  assumes "timed_task now I" "begin_cycle I fuel d t w = (r, t', w')"
  shows "now w \<le> now w' \<and> ct_period_us t' = ct_period_us t"
    and "r = Inr x \<Longrightarrow> to_nanoseconds d \<le> now w' \<and> (\<exists>w1. to_nanoseconds d \<le> now w1 \<and> \<not> fst (ta_stop I w1))"
    and "fst (sleep_loop I fuel d w) \<noteq> None \<Longrightarrow> r \<noteq> Inl NoFuel"
proof -
  have rt: "timed_rt now (ta_rt I)" using assms(1) by (simp add: timed_task_def)
  note calls = sleep_loop_time(1) [OF assms(1)] timed_task_calls [OF assms(1)] timed_rt_calls [OF rt]
    set_application_time_time [OF rt]
  have "now w \<le> now (snd (snd (begin_cycle I fuel d t w)))"
    by (auto simp: begin_cycle_def Let_def case_prod_beta calls split: option.split sum.split)
  then show "now w \<le> now w' \<and> ct_period_us t' = ct_period_us t"
    using assms(2) by (auto simp: begin_cycle_def Let_def split: option.split_asm sum.split_asm prod.split_asm if_split_asm)
  show "fst (sleep_loop I fuel d w) \<noteq> None \<Longrightarrow> r \<noteq> Inl NoFuel"
    using assms(2) by (auto simp: begin_cycle_def Let_def split: option.split_asm sum.split_asm prod.split_asm if_split_asm)
  show "to_nanoseconds d \<le> now w' \<and> (\<exists>w1. to_nanoseconds d \<le> now w1 \<and> \<not> fst (ta_stop I w1))" if ok: "r = Inr x"
  proof -
    obtain w1 where s: "sleep_loop I fuel d w = (Some 0, w1)" and b: "\<not> fst (ta_stop I w1)"
      and w': "w' = snd (snd (set_application_time (ta_rt I) (word_of_int (to_nanoseconds d)) (ct_master t)
        (snd (rt_monotonic (ta_rt I) (snd (ta_stop I w1))))))"
      using assms(2) ok
      by (auto simp: begin_cycle_def Let_def split: option.split_asm sum.split_asm prod.split_asm if_split_asm)
    have "to_nanoseconds d \<le> now w1" using sleep_loop_time(2) [OF assms(1), of fuel d w] s by simp
    then show ?thesis using b unfolding w' by (auto intro!: calls)
  qed
qed

lemma startup_publish_time:
  assumes "timed_task now I" "startup_publish A I state wake t w = (r, t', w')"
  shows "now w \<le> now w' \<and> ct_period_us t' = ct_period_us t \<and> r \<noteq> Some NoFuel"
proof -
  have rt: "timed_rt now (ta_rt I)" using assms(1) by (simp add: timed_task_def)
  have "now w \<le> now (snd (snd (startup_publish A I state wake t w)))"
    by (auto simp: startup_publish_def publish_slave_runtime_def Let_def case_prod_beta timed_task_calls [OF assms(1)]
        publish_rows_time [OF rt] split: option.split sum.split)
  then show ?thesis
    using assms(2) by (auto simp: startup_publish_def Let_def split: option.split_asm sum.split_asm prod.split_asm)
qed

lemma startup_poll_time:
  assumes "timed_task now I" "startup_poll A I state t w = (r, t', w')"
  shows "now w \<le> now w' \<and> ct_period_us t' = ct_period_us t \<and> r \<noteq> Inl NoFuel"
proof -
  have rt: "timed_rt now (ta_rt I)" using assms(1) by (simp add: timed_task_def)
  have "now w \<le> now (snd (snd (startup_poll A I state t w)))"
    by (simp add: startup_poll_def poll_slaves_def Let_def case_prod_beta poll_loop_time [OF rt])
  then show ?thesis
    using assms(2) by (auto simp: startup_poll_def abort_task_def Let_def split: prod.split_asm if_split_asm)
qed

text \<open>The gate refuses a clock at its deadline, and only its counter moves.\<close>

lemma observe_open: "observe g t h = (g', r) \<Longrightarrow> deadline_ns g' = deadline_ns g \<and> (r \<noteq> TimedOut \<longrightarrow> t < deadline_ns g)"
  by (auto simp: observe_def Let_def split: if_split_asm)

lemma startup_verify_time:
  assumes "timed_task now I" "startup_verify I healthy t s w = (r, t', s', w')"
  shows "ct_period_us t' = ct_period_us t \<and> deadline s' = deadline s
      \<and> deadline_ns (startup_gate s') = deadline_ns (startup_gate s) \<and> r \<noteq> Some NoFuel"
    and "r = None \<Longrightarrow> now w \<le> now w' \<and> now w < deadline_ns (startup_gate s)"
proof -
  have rt: "timed_rt now (ta_rt I)" and rq: "timed_requests now (ta_requests I)" using assms(1) by (simp_all add: timed_task_def)
  have read: "now w \<le> to_nanoseconds x \<and> to_nanoseconds x \<le> now w1" if "rt_monotonic (ta_rt I) w = (Inr x, w1)" for x w1
    using that rt by (simp add: timed_rt_def)
  show "ct_period_us t' = ct_period_us t \<and> deadline s' = deadline s
      \<and> deadline_ns (startup_gate s') = deadline_ns (startup_gate s) \<and> r \<noteq> Some NoFuel"
    using assms(2)
    by (auto simp: startup_verify_def abort_task_def Let_def dest: observe_open
        split: prod.split_asm if_split_asm sum.split_asm)
  show "now w \<le> now w' \<and> now w < deadline_ns (startup_gate s)" if none: "r = None"
  proof -
    obtain x w1 where x: "rt_monotonic (ta_rt I) w = (Inr x, w1)" and "to_nanoseconds x < deadline_ns (startup_gate s)"
      and w': "w' = w1 \<or> (\<exists>v. w' = snd (snd (verify_step (ta_requests I) (to_nanoseconds x) v w1)))"
      using assms(2) none
      by (auto simp: startup_verify_def Let_def dest!: observe_open
          split: prod.split_asm if_split_asm sum.split_asm) (metis snd_conv)+
    then show ?thesis
      using read [OF x] verify_step_time [OF rq] by (metis le_less_trans order_trans order_refl)
  qed
qed

lemma advance_deadline_period:
  "period \<noteq> 0 \<Longrightarrow> to_nanoseconds d + uint period * 1000 \<le> to_nanoseconds (fst (advance_deadline d period x))"
  using skipped_periods_bounds(1) [of "uint period * 1000" "to_nanoseconds d" "to_nanoseconds x"] period_ns_bounds [of period]
  by (simp add: advance_deadline_ns(1) mult_right_mono [of 1 _ "uint period * 1000", simplified])

lemma startup_finish_time:
  assumes "ct_period_us t \<noteq> 0" "startup_finish I wake t s w = (r, t', s', w')"
  shows "ct_period_us t' = ct_period_us t \<and> startup_gate s' = startup_gate s \<and> r \<noteq> Some NoFuel"
    and "r = None \<Longrightarrow> to_nanoseconds (deadline s) + period_ns t \<le> to_nanoseconds (deadline s')"
proof -
  show "ct_period_us t' = ct_period_us t \<and> startup_gate s' = startup_gate s \<and> r \<noteq> Some NoFuel"
    using assms(2) by (auto simp: startup_finish_def Let_def split: prod.split_asm if_split_asm sum.split_asm)
  show "r = None \<Longrightarrow> to_nanoseconds (deadline s) + period_ns t \<le> to_nanoseconds (deadline s')"
    using assms(2) advance_deadline_period [OF assms(1), of "deadline s"]
    by (auto simp: startup_finish_def Let_def period_ns_def split: prod.split_asm if_split_asm sum.split_asm) (metis fst_conv)
qed

lemma startup_cycle_time:
  assumes "timed_task now I" "ct_period_us t \<noteq> 0" "startup_cycle A I fuel t s w = (r, t', s', w')"
  shows "r = None \<Longrightarrow> ct_period_us t' = ct_period_us t \<and> deadline_ns (startup_gate s') = deadline_ns (startup_gate s)
      \<and> to_nanoseconds (deadline s) < deadline_ns (startup_gate s)
      \<and> to_nanoseconds (deadline s) + period_ns t \<le> to_nanoseconds (deadline s')"
    and "fst (sleep_loop I fuel (deadline s) w) \<noteq> None \<Longrightarrow> r \<noteq> Some NoFuel"
proof -
  have rt: "timed_rt now (ta_rt I)" using assms(1) by (simp add: timed_task_def)
  obtain rb tb wb where b: "begin_cycle I fuel (deadline s) t w = (rb, tb, wb)" by (metis prod.collapse)
  note bt = begin_cycle_time [OF assms(1) b]
  show "fst (sleep_loop I fuel (deadline s) w) \<noteq> None \<Longrightarrow> r \<noteq> Some NoFuel"
    using assms b bt(3) bt(1)
    by (auto simp: startup_cycle_def split: sum.split_asm option.split_asm prod.split_asm
        dest!: startup_publish_time [OF assms(1)] startup_poll_time [OF assms(1)] startup_verify_time(1) [OF assms(1)]
          startup_finish_time(1) [rotated])
  assume none: "r = None"
  obtain x where rb: "rb = Inr x" using assms(3) none b by (auto simp: startup_cycle_def split: sum.split_asm)
  obtain st wr where rs: "read_state (ta_rt I) (ct_master tb) (receive_and_process (ta_rt I) (ct_master tb) wb) = (st, wr)"
    by (metis prod.collapse)
  obtain tp wp where p: "startup_publish A I st x tb wr = (None, tp, wp)"
    using assms(3) none b rb rs by (auto simp: startup_cycle_def split: sum.split_asm option.split_asm prod.split_asm)
  obtain h tq wq where q: "startup_poll A I st tp wp = (Inr h, tq, wq)"
    using assms(3) none b rb rs p by (auto simp: startup_cycle_def split: sum.split_asm option.split_asm prod.split_asm)
  obtain tv sv wv where v: "startup_verify I h tq s wq = (None, tv, sv, wv)"
    using assms(3) none b rb rs p q by (auto simp: startup_cycle_def split: sum.split_asm option.split_asm prod.split_asm)
  have f: "startup_finish I x tv sv wv = (r, t', s', w')"
    using assms(3) b rb rs p q v by (simp add: startup_cycle_def)
  have "to_nanoseconds (deadline s) \<le> now wb" using bt(2) [OF rb] by simp
  also have "\<dots> \<le> now wr"
    using read_state_time [OF rt receive_and_process_time [OF rt order_refl], of wb "ct_master tb" "ct_master tb"] rs by simp
  also have "\<dots> \<le> now wp" using startup_publish_time [OF assms(1) p] by simp
  also have "\<dots> \<le> now wq" using startup_poll_time [OF assms(1) q] by simp
  also have "\<dots> < deadline_ns (startup_gate s)" using startup_verify_time(2) [OF assms(1) v] by simp
  finally have "to_nanoseconds (deadline s) < deadline_ns (startup_gate s)" .
  moreover have per: "ct_period_us tv = ct_period_us t"
    using bt(1) startup_publish_time [OF assms(1) p] startup_poll_time [OF assms(1) q] startup_verify_time(1) [OF assms(1) v] by simp
  ultimately show "ct_period_us t' = ct_period_us t \<and> deadline_ns (startup_gate s') = deadline_ns (startup_gate s)
      \<and> to_nanoseconds (deadline s) < deadline_ns (startup_gate s)
      \<and> to_nanoseconds (deadline s) + period_ns t \<le> to_nanoseconds (deadline s')"
    using startup_verify_time(1) [OF assms(1) v] startup_finish_time [OF _ f] assms(2) none by (simp add: period_ns_def)
qed

section \<open>The loops\<close>

text \<open>An interrupted sleep is resumed: the sleeps end when no deadline is interrupted \<open>fuel\<close> times in a row.\<close>

definition sleeps_end :: "('m, 'd, 'c, 'q, 'p, 'r, 'w) task_api \<Rightarrow> nat \<Rightarrow> bool" where
  "sleeps_end I fuel \<longleftrightarrow> (\<forall>d w. fst (sleep_loop I fuel d w) \<noteq> None)"

lemma startup_loop_ends:
  assumes "timed_task now I" "sleeps_end I fuel"
  shows "ct_period_us t \<noteq> 0 \<Longrightarrow> deadline_ns (startup_gate s) \<le> to_nanoseconds (deadline s) + int n * period_ns t
    \<Longrightarrow> fst (startup_loop A I fuel (Suc n) t s w) \<noteq> Some NoFuel"
proof (induction n arbitrary: t s w)
  case 0
  obtain b w1 where b: "ta_stop I w = (b, w1)" by fastforce
  obtain r t' s' w' where c: "startup_cycle A I fuel t s w1 = (r, t', s', w')" by (metis prod.collapse)
  show ?case
    using 0 b c startup_cycle_time [OF assms(1) 0(1) c] assms(2) by (cases r) (auto simp: sleeps_end_def)
next
  case (Suc n)
  obtain b w1 where b: "ta_stop I w = (b, w1)" by fastforce
  obtain r t' s' w' where c: "startup_cycle A I fuel t s w1 = (r, t', s', w')" by (metis prod.collapse)
  show ?case
  proof (cases r)
    case None
    note e = startup_cycle_time(1) [OF assms(1) Suc.prems(1) c None]
    have "fst (startup_loop A I fuel (Suc n) t' s' w') \<noteq> Some NoFuel"
      by (rule Suc.IH) (use e Suc.prems in \<open>simp_all add: period_ns_def distrib_right\<close>)
    moreover have "startup_loop A I fuel (Suc (Suc n)) t s w
        = (if loop_ready s then (None, t, s, w) else if b then (None, t, s, w1) else startup_loop A I fuel (Suc n) t' s' w')"
      using b c None by (subst startup_loop.simps(2)) simp
    ultimately show ?thesis by simp
  next
    case (Some e)
    then show ?thesis
      using b c startup_cycle_time(2) [OF assms(1) Suc.prems(1) c] assms(2)
      by (subst startup_loop.simps(2)) (simp add: sleeps_end_def)
  qed
qed

lemma running_cycle_time:
  assumes "timed_task now I" "ct_period_us t \<noteq> 0" "running_cycle A I fuel t s w = (r, t', s', w')"
  shows "r = None \<Longrightarrow> ct_period_us t' = ct_period_us t
      \<and> (\<exists>w1. to_nanoseconds (run_deadline s) \<le> now w1 \<and> \<not> fst (ta_stop I w1))
      \<and> to_nanoseconds (run_deadline s) + period_ns t \<le> to_nanoseconds (run_deadline s')"
    and "fst (sleep_loop I fuel (run_deadline s) w) \<noteq> None \<Longrightarrow> r \<noteq> Some NoFuel"
proof -
  obtain rb tb wb where b: "begin_cycle I fuel (run_deadline s) t w = (rb, tb, wb)" by (metis prod.collapse)
  note bt = begin_cycle_time [OF assms(1) b]
  show "fst (sleep_loop I fuel (run_deadline s) w) \<noteq> None \<Longrightarrow> r \<noteq> Some NoFuel"
    using assms(3) b bt(3)
    by (auto simp: running_cycle_def running_exchange_def running_publish_def running_send_def running_finish_def Let_def
        split: sum.split_asm option.split_asm prod.split_asm if_split_asm)
  assume none: "r = None"
  obtain x where rb: "rb = Inr x" using assms(3) none b by (auto simp: running_cycle_def split: sum.split_asm)
  have per: "running_publish A I st wake u v = (None, u', v') \<Longrightarrow> ct_period_us u' = ct_period_us u"
    "running_send I u v = (Inr ts, u', v') \<Longrightarrow> ct_period_us u' = ct_period_us u" for st wake u v u' v' ts
    by (auto simp: running_publish_def running_send_def Let_def
        split: sum.split_asm option.split_asm prod.split_asm if_split_asm)
  obtain st cyc rt sd tf wf where per_tf: "ct_period_us tf = ct_period_us tb"
    and f: "running_finish I st cyc x rt sd tf s wf = (None, t', s', w')"
    using assms(3) none b rb
    by (fastforce simp: running_cycle_def Let_def dest: per split: sum.split_asm option.split_asm prod.split_asm)
  have "ct_period_us t' = ct_period_us tf \<and> (\<exists>y. run_deadline s' = fst (advance_deadline (run_deadline s) (ct_period_us tf) y))"
    using f by (auto simp: running_finish_def account_window_def report_window_def Let_def
        split: sum.split_asm prod.split_asm if_split_asm) (metis fst_conv)+
  then show "ct_period_us t' = ct_period_us t
      \<and> (\<exists>w1. to_nanoseconds (run_deadline s) \<le> now w1 \<and> \<not> fst (ta_stop I w1))
      \<and> to_nanoseconds (run_deadline s) + period_ns t \<le> to_nanoseconds (run_deadline s')"
    using bt(1) bt(2) [OF rb] per_tf advance_deadline_period [OF assms(2), of "run_deadline s"] by (auto simp: period_ns_def)
qed

lemma running_loop_ends:
  assumes "timed_task now I" "sleeps_end I fuel" and stop: "\<And>w. T \<le> now w \<Longrightarrow> fst (ta_stop I w)"
  shows "ct_period_us t \<noteq> 0 \<Longrightarrow> T \<le> to_nanoseconds (run_deadline s) + int n * period_ns t
    \<Longrightarrow> fst (running_loop A I fuel (Suc n) t s w) \<noteq> NoFuel"
proof (induction n arbitrary: t s w)
  case 0
  obtain b w1 where b: "ta_stop I w = (b, w1)" by fastforce
  obtain cs mb w2 where k: "ta_console I (statistics_reset t, reports t) w1 = ((cs, mb), w2)" by (metis prod.collapse)
  let ?t = "t\<lparr>statistics_reset := cs, reports := mb\<rparr>"
  obtain r t' s' w' where c: "running_cycle A I fuel ?t s w2 = (r, t', s', w')" by (metis prod.collapse)
  have "ct_period_us ?t \<noteq> 0" using 0 by simp
  note e = running_cycle_time [OF assms(1) this c]
  show ?case
  proof (cases r)
    case None
    then show ?thesis using e(1) 0(2) stop by fastforce
  next
    case (Some x)
    then show ?thesis using b k c e(2) assms(2) by (simp add: sleeps_end_def)
  qed
next
  case (Suc n)
  obtain b w1 where b: "ta_stop I w = (b, w1)" by fastforce
  obtain cs mb w2 where k: "ta_console I (statistics_reset t, reports t) w1 = ((cs, mb), w2)" by (metis prod.collapse)
  let ?t = "t\<lparr>statistics_reset := cs, reports := mb\<rparr>"
  obtain r t' s' w' where c: "running_cycle A I fuel ?t s w2 = (r, t', s', w')" by (metis prod.collapse)
  have per: "ct_period_us ?t \<noteq> 0" using Suc.prems(1) by simp
  note e = running_cycle_time [OF assms(1) per c]
  show ?case
  proof (cases r)
    case None
    have "fst (running_loop A I fuel (Suc n) t' s' w') \<noteq> NoFuel"
      by (rule Suc.IH) (use e(1) None Suc.prems in \<open>simp_all add: period_ns_def distrib_right\<close>)
    then show ?thesis using b k c None by (subst running_loop.simps(2)) simp
  next
    case (Some x)
    then show ?thesis using b k c e(2) assms(2) by (subst running_loop.simps(2)) (simp add: sleeps_end_def)
  qed
qed

text \<open>The first deadline is not before the clock it was computed from.\<close>

lemma first_deadline_after:
  assumes "period \<noteq> 0"
  shows "to_nanoseconds x \<le> to_nanoseconds (first_deadline period origin x)"
  using advance_deadline_ns(1) [OF assms, of "from_nanoseconds (sint origin)" x]
    skipped_periods_bounds(2) [OF period_ns_bounds(1) [OF assms], of "to_nanoseconds x" "sint origin"] period_ns_bounds(1) [OF assms]
  by (auto simp: first_deadline_def)

text \<open>The startup loop keeps the period, and its deadline does not go back.\<close>

lemma startup_loop_keeps:
  assumes "timed_task now I"
  shows "ct_period_us t \<noteq> 0 \<Longrightarrow> startup_loop A I fuel n t s w = (None, t', s', w')
    \<Longrightarrow> ct_period_us t' = ct_period_us t \<and> to_nanoseconds (deadline s) \<le> to_nanoseconds (deadline s')"
proof (induction n arbitrary: t s w)
  case 0
  then show ?case by simp
next
  case (Suc n)
  obtain b w1 where b: "ta_stop I w = (b, w1)" by fastforce
  obtain r tc sc wc where c: "startup_cycle A I fuel t s w1 = (r, tc, sc, wc)" by (metis prod.collapse)
  show ?case
  proof (cases "loop_ready s \<or> b")
    case True
    then show ?thesis using Suc.prems b by (auto split: if_split_asm)
  next
    case False
    then have r: "r = None" "startup_loop A I fuel n tc sc wc = (None, t', s', w')"
      using Suc.prems b c by (auto split: option.split_asm)
    note e = startup_cycle_time(1) [OF assms Suc.prems(1) c r(1)]
    have "0 \<le> period_ns t" by (simp add: period_ns_def)
    then show ?thesis using Suc.IH [OF _ r(2)] e Suc.prems(1) by simp
  qed
qed

lemma run_task_ends:
  assumes "timed_task now I" "sleeps_end I fuel" and stop: "\<And>w. T \<le> now w \<Longrightarrow> fst (ta_stop I w)"
    and fits: "uint (ct_op_timeout_ms t) * 1000000 \<le> int n * period_ns t" "T \<le> now w + int n * period_ns t"
  shows "fst (run_task A I fuel (Suc n) t w) \<noteq> NoFuel"
proof (cases rule: run_task_cases [of I t w])
  case (refused e w1)
  then show ?thesis by simp
next
  case (started x w1)
  then have per: "ct_period_us t \<noteq> 0" by (auto simp: kMinPeriodUs_def)
  have clock: "now w \<le> to_nanoseconds x" using assms(1) started(1) by (simp add: timed_task_def timed_rt_def)
  have first: "to_nanoseconds x \<le> to_nanoseconds (deadline (run_start t x))"
    using first_deadline_after [OF per] by (simp add: run_start_def)
  obtain r t' s' w' where l: "startup_loop A I fuel (Suc n) t (run_start t x) w1 = (r, t', s', w')" by (metis prod.collapse)
  note run = run_task_start [OF started(2,1) l]
  have ends: "r \<noteq> Some NoFuel"
    using startup_loop_ends [OF assms(1,2) per, of "run_start t x" n A w1] l first fits(1)
    by (simp add: run_start_def startup_wait_init_def del: startup_loop.simps)
  show ?thesis
  proof (cases r)
    case (Some e)
    then show ?thesis using run ends by simp
  next
    case None
    note keep = startup_loop_keeps [OF assms(1) per l [unfolded None]]
    have loop: "fst (running_loop A I fuel (Suc n) u q v) \<noteq> NoFuel"
      if "ct_period_us u = ct_period_us t" "run_deadline q = deadline s'" for u q v
      by (rule running_loop_ends [OF assms(1,2)]) (use stop that keep per first clock fits(2) in \<open>auto simp: period_ns_def\<close>)
    then show ?thesis
      using run None keep by (auto simp: run_after_startup_def Let_def simp del: running_loop.simps split: prod.split sum.split)
  qed
qed

text \<open>
  Claim C38. The cyclic task returns. On a clock that does not run backwards and sleeps that end, the
  startup loop alone ends, ready, stopped or with its error, once its cycles cover the time left to the
  deadline of the gate, whatever the slaves answer; and when a stop is requested by the time \<open>T\<close>, the
  whole run returns an exit code within as many cycles of each loop as periods fit between now and \<open>T\<close>,
  and one more.
\<close>

theorem run_task_returns:
  fixes I :: "('m, 'd, 'c, 'q, 'p, 'r::linordered_field, 'w) task_api"
  assumes "timed_task now I" "sleeps_end I fuel"
  shows "(\<forall>s t w. ct_period_us t \<noteq> 0 \<longrightarrow> deadline_ns (startup_gate s) \<le> to_nanoseconds (deadline s) + int n * period_ns t
      \<longrightarrow> fst (startup_loop A I fuel (Suc n) t s w) \<noteq> Some NoFuel)
    \<and> (\<forall>t w T. (\<forall>w. T \<le> now w \<longrightarrow> fst (ta_stop I w)) \<longrightarrow> uint (ct_op_timeout_ms t) * 1000000 \<le> int n * period_ns t
      \<longrightarrow> T \<le> now w + int n * period_ns t \<longrightarrow> (\<exists>rc. fst (run_task A I fuel (Suc n) t w) = Exit rc))"
proof (intro conjI allI impI)
  fix w and s :: startup_locals and t :: "('m, 'd, 'c, 'q, 'p, 'r) cyclic_task"
  assume "ct_period_us t \<noteq> 0" "deadline_ns (startup_gate s) \<le> to_nanoseconds (deadline s) + int n * period_ns t"
  then show "fst (startup_loop A I fuel (Suc n) t s w) \<noteq> Some NoFuel" by (rule startup_loop_ends [OF assms])
next
  fix w T and t :: "('m, 'd, 'c, 'q, 'p, 'r) cyclic_task"
  assume "\<forall>w. T \<le> now w \<longrightarrow> fst (ta_stop I w)" "uint (ct_op_timeout_ms t) * 1000000 \<le> int n * period_ns t"
    "T \<le> now w + int n * period_ns t"
  then have "fst (run_task A I fuel (Suc n) t w) \<noteq> NoFuel" by (intro run_task_ends [OF assms]) auto
  then show "\<exists>rc. fst (run_task A I fuel (Suc n) t w) = Exit rc" by (metis cycle_exit.exhaust)
qed

text \<open>A world that is its own clock, in nanoseconds: a sleep sets it, and the stop comes after 3 ms.\<close>

definition clock_rt :: "(unit, unit, unit, unit, int) rt_api" where
  "clock_rt = \<lparr>al_op = 8, rt_receive = (\<lambda>m w. w), rt_process = (\<lambda>d w. w), rt_application_time = (\<lambda>m t w. (0, w)),
     rt_queue = (\<lambda>d w. w), rt_monotonic = (\<lambda>w. (Inr (from_nanoseconds w), w)),
     rt_sync_reference_clock_to = (\<lambda>m t w. (0, w)), rt_sync_slave_clocks = (\<lambda>m w. (0, w)), rt_send = (\<lambda>m w. w),
     rt_master_state = (\<lambda>m w. ((0, \<lparr>ms_slaves_responding = 0, ms_al_states = 0, ms_link_up = 0\<rparr>), w)),
     rt_domain_state = (\<lambda>d w. ((0, \<lparr>ds_working_counter = 0, ds_wc_state = EC_WC_ZERO\<rparr>), w)),
     rt_slave_config_state = (\<lambda>c w. ((0, \<lparr>cs_online = False, cs_operational = False, cs_al_state = 1\<rparr>), w)),
     rt_copy = (\<lambda>p q n w. w), rt_activate = (\<lambda>m w. (0, w)), rt_release = (\<lambda>m w. w)\<rparr>"

definition clock_task_api :: "(unit, unit, unit, unit, unit, rat, int) task_api" where
  "clock_task_api = \<lparr>ta_rt = clock_rt,
     ta_requests = \<lparr>create_sdo_request = (\<lambda>c i sub n w. (None, w)), sdo_request_timeout = (\<lambda>q ms w. (0, w)),
       sdo_request_index = (\<lambda>q i sub w. (0, w)), sdo_request_read = (\<lambda>q w. (0, w)),
       sdo_request_state = (\<lambda>q w. (EC_REQUEST_BUSY, w)), sdo_request_data_size = (\<lambda>q w. (0, w)),
       sdo_request_data = (\<lambda>q w. (None, w))\<rparr>,
     ta_realtime = (\<lambda>w. (Inr (from_nanoseconds w), w)), ta_sleep = (\<lambda>d w. (0, max w (to_nanoseconds d))),
     ta_stop = (\<lambda>w. (3000000 \<le> w, w)), ta_notify = (\<lambda>w. w), ta_wc_code = (\<lambda>s. 2), ta_console = (\<lambda>x w. (x, w))\<rparr>"

lemma clock_task_timed: "timed_task (\<lambda>w. w) clock_task_api"
  by (simp add: timed_task_def timed_rt_def timed_requests_def keeps_time_def clock_task_api_def clock_rt_def)

lemma clock_task_sleeps: "sleeps_end clock_task_api 1"
  by (simp add: sleeps_end_def clock_task_api_def EINTR_def)

definition clock_task :: "(unit, unit, unit, unit, unit, rat) cyclic_task" where
  "clock_task = \<lparr>ct_master = ethercat_master_init, ecat_bus = None, pd_input_ptr = None, pd_output_ptr = None,
     ct_period_us = 1000, ct_op_timeout_ms = 3, ct_statistics = cycle_statistics_init,
     statistics_reset = \<lparr>requested = 0, acknowledged = 0\<rparr>, reports = \<lparr>slot = runtime_report_init, ready = False\<rparr>,
     startup_op_mask = 0, startup_ready = False\<rparr>"

theorem run_task_returns_witness:
  "\<exists>rc. fst (run_task abi_example clock_task_api 1 (Suc 3) clock_task 0) = Exit rc"
proof -
  have "(\<forall>w. 3000000 \<le> w \<longrightarrow> fst (ta_stop clock_task_api w))
      \<and> uint (ct_op_timeout_ms clock_task) * 1000000 \<le> int 3 * period_ns clock_task
      \<and> (3000000::int) \<le> 0 + int 3 * period_ns clock_task"
    by (simp add: clock_task_api_def clock_task_def period_ns_def)
  then show ?thesis
    using run_task_returns [OF clock_task_timed clock_task_sleeps, of 3 abi_example] by blast
qed

end
