(* ===== verification/Reporter.thy ===== *)
theory Reporter
  imports Statistics_Reset Report_Mailbox Slave_Config
begin

text \<open>
  The reporter thread of src/src/main.cpp, which serves the commands of the clients and prints what the
  cyclic task publishes, with \<open>StatisticsReset::execute\<close> of src/src/statistics_reset.hpp as it runs it.
  The shared atomics, the mailbox, the command queue of the shared memory library, the clock and the
  console are fields of \<open>reporter_api\<close>: the cyclic thread works between any two of its calls. A printed
  line is the data it shows. The loops take fuel.
\<close>

section \<open>The interface\<close>

datatype command_result = Unsupported | Result reset_result

record async_request =
  rq_cmd_type :: u32
  rq_deadline_mono_ns :: int

datatype 'r console_line =
    RealtimePrepared | AllReady
  | RuntimeLine "'r runtime_report" bool "string list" "string list"
  | WaitingFor "(u16 \<times> string option) list" nat nat

record ('r, 'w) reporter_api =
  rp_stop :: "'w \<Rightarrow> bool \<times> 'w"
  rp_prepared :: "'w \<Rightarrow> bool \<times> 'w"
  rp_ready :: "'w \<Rightarrow> bool \<times> 'w"
  rp_mask :: "'w \<Rightarrow> u64 \<times> 'w"
  rp_take :: "'w \<Rightarrow> 'r runtime_report option \<times> 'w"
  rp_requested :: "'w \<Rightarrow> u64 \<times> 'w"
  rp_acknowledged :: "'w \<Rightarrow> u64 \<times> 'w"
  rp_store_requested :: "u64 \<Rightarrow> 'w \<Rightarrow> 'w"
  rp_now :: "'w \<Rightarrow> int \<times> 'w"
  rp_sleep :: "int \<Rightarrow> 'w \<Rightarrow> 'w"
  rp_print :: "'r console_line \<Rightarrow> 'w \<Rightarrow> 'w"
  rp_process_command :: "(async_request \<Rightarrow> 'w \<Rightarrow> command_result option \<times> 'w) \<Rightarrow> 'w \<Rightarrow> bool \<times> 'w"
  rp_cmd_reset_stats :: u32

text \<open>The codes of the EtherCAT library that a report line names.\<close>

record report_codes =
  code_init :: u32
  code_preop :: u32
  code_safeop :: u32
  code_op :: u32
  code_wc_zero :: u32
  code_wc_incomplete :: u32
  code_wc_complete :: u32

section \<open>Serving a command\<close>

text \<open>\<open>execute\<close>: the wait for the acknowledgement takes fuel, \<open>None\<close> when it is used up.\<close>

fun await_ticket :: "('r, 'w) reporter_api \<Rightarrow> nat \<Rightarrow> u64 \<Rightarrow> int \<Rightarrow> 'w \<Rightarrow> reset_result option \<times> 'w" where
  "await_ticket R 0 ticket deadline w = (None, w)"
| "await_ticket R (Suc n) ticket deadline w =
     (case rp_acknowledged R w of (acked, w) \<Rightarrow>
        if acked = ticket then (Some RESULT_OK, w)
        else case rp_stop R w of (stopped, w) \<Rightarrow>
          if stopped then (Some OUTCOME_UNKNOWN, w)
          else case rp_now R w of (now, w) \<Rightarrow>
            if deadline \<le> now then (Some OUTCOME_UNKNOWN, w)
            else await_ticket R n ticket deadline (rp_sleep R 1000000 w))"

definition execute_reset :: "('r, 'w) reporter_api \<Rightarrow> nat \<Rightarrow> int \<Rightarrow> 'w \<Rightarrow> reset_result option \<times> 'w" where
  "execute_reset R fuel deadline w =
     (case rp_stop R w of (stopped, w) \<Rightarrow>
        if stopped then (Some STATE_MISMATCH, w)
        else case rp_now R w of (now, w) \<Rightarrow>
          if deadline \<le> now then (Some DEADLINE_EXCEEDED, w)
          else case rp_requested R w of (previous, w) \<Rightarrow> (case rp_acknowledged R w of (acked, w) \<Rightarrow>
            if acked \<noteq> previous then (Some BUSY, w)
            else await_ticket R fuel (previous + 1) deadline (rp_store_requested R (previous + 1) w)))"

definition handle_command :: "('r, 'w) reporter_api \<Rightarrow> nat \<Rightarrow> async_request \<Rightarrow> 'w \<Rightarrow> command_result option \<times> 'w" where
  "handle_command R fuel request w =
     (if rq_cmd_type request \<noteq> rp_cmd_reset_stats R then (Some Unsupported, w)
      else case rp_ready R w of (up, w) \<Rightarrow>
        if \<not> up then (Some (Result STATE_MISMATCH), w)
        else case execute_reset R fuel (rq_deadline_mono_ns request) w of (r, w) \<Rightarrow> (map_option Result r, w))"

section \<open>The lines\<close>

definition report_healthy :: "report_codes \<Rightarrow> nat \<Rightarrow> 'r runtime_report \<Rightarrow> bool" where
  "report_healthy K slave_count report \<longleftrightarrow> rr_link_up report \<and> unat (rr_responding_slaves report) = slave_count
     \<and> rr_al_states report = code_op K \<and> rr_input_wc_state report = code_wc_complete K
     \<and> rr_output_wc_state report = code_wc_complete K"

definition wc_name :: "report_codes \<Rightarrow> u32 \<Rightarrow> string" where
  "wc_name K state = (if state = code_wc_zero K then ''ZERO'' else if state = code_wc_incomplete K then ''INCOMPLETE''
     else if state = code_wc_complete K then ''COMPLETE'' else ''UNKNOWN'')"

text \<open>A mixed bus shows every state it has.\<close>

definition al_names :: "report_codes \<Rightarrow> u32 \<Rightarrow> string list" where
  "al_names K states = (if states = 0 then [''NONE''] else [])
     @ map snd (filter (\<lambda>(code, name). and states code \<noteq> 0)
         [(code_init K, ''INIT''), (code_preop K, ''PREOP''), (code_safeop K, ''SAFEOP''), (code_op K, ''OP'')])"

definition runtime_line :: "report_codes \<Rightarrow> nat \<Rightarrow> 'r runtime_report \<Rightarrow> 'r console_line" where
  "runtime_line K slave_count report = RuntimeLine report (report_healthy K slave_count report)
     (al_names K (rr_al_states report))
     [wc_name K (rr_input_wc_state report), wc_name K (rr_output_wc_state report)]"

text \<open>The slaves whose bit is set, by position and name.\<close>

definition waiting_line :: "slave_spec list \<Rightarrow> u64 \<Rightarrow> 'r console_line" where
  "waiting_line specs bits =
     (let shown = map snd (filter (\<lambda>(i, s). bit bits i) (enumerate 0 specs))
      in WaitingFor (map (\<lambda>s. (sp_position s, sp_name s)) shown) (length shown) (length specs))"

section \<open>The thread\<close>

record reporter_locals =
  next_report :: int
  ready_announced :: bool
  realtime_announced :: bool

datatype reporter_exit = Continue | Stopped | Stuck

definition announce_realtime :: "('r, 'w) reporter_api \<Rightarrow> reporter_locals \<Rightarrow> 'w \<Rightarrow> reporter_locals \<times> 'w" where
  "announce_realtime R l w =
     (if realtime_announced l then (l, w)
      else case rp_prepared R w of (prepared, w) \<Rightarrow>
        if prepared then (l\<lparr>realtime_announced := True\<rparr>, rp_print R RealtimePrepared w) else (l, w))"

definition reporter_cycle :: "('r, 'w) reporter_api \<Rightarrow> report_codes \<Rightarrow> slave_spec list \<Rightarrow> nat \<Rightarrow> reporter_locals \<Rightarrow> 'w
    \<Rightarrow> reporter_exit \<times> reporter_locals \<times> 'w" where
  "reporter_cycle R K specs fuel l w =
     (case rp_stop R w of (stopped, w) \<Rightarrow> (case announce_realtime R l w of (l, w) \<Rightarrow>
        (case (if stopped then (True, w) else rp_process_command R (handle_command R fuel) w) of
          (False, w) \<Rightarrow> (Stuck, l, w)
        | (True, w) \<Rightarrow> (case rp_ready R w of (up, w) \<Rightarrow>
            let (l, w) = (if up \<and> \<not> ready_announced l
                  then (l\<lparr>ready_announced := True\<rparr>, rp_print R AllReady w) else (l, w));
                (report, w) = rp_take R w;
                w = (case report of None \<Rightarrow> w | Some report \<Rightarrow> rp_print R (runtime_line K (length specs) report) w)
            in if stopped then (Stopped, l, w)
               else (case rp_now R w of (now, w) \<Rightarrow> (case rp_mask R w of (bits, w) \<Rightarrow>
                 let (l, w) = (if \<not> up \<and> next_report l \<le> now
                       then (l\<lparr>next_report := now + 1000000000\<rparr>, rp_print R (waiting_line specs bits) w) else (l, w))
                 in (Continue, l, rp_sleep R 10000000 w)))))))"

fun reporter_loop :: "('r, 'w) reporter_api \<Rightarrow> report_codes \<Rightarrow> slave_spec list \<Rightarrow> nat \<Rightarrow> nat \<Rightarrow> reporter_locals \<Rightarrow> 'w
    \<Rightarrow> reporter_exit \<times> reporter_locals \<times> 'w" where
  "reporter_loop R K specs fuel 0 l w = (Stuck, l, w)"
| "reporter_loop R K specs fuel (Suc n) l w =
     (case reporter_cycle R K specs fuel l w of
        (Continue, l, w) \<Rightarrow> reporter_loop R K specs fuel n l w
      | (e, l, w) \<Rightarrow> (e, l, w))"

definition run_reporter :: "('r, 'w) reporter_api \<Rightarrow> report_codes \<Rightarrow> slave_spec list \<Rightarrow> nat \<Rightarrow> nat \<Rightarrow> 'w
    \<Rightarrow> reporter_exit \<times> reporter_locals \<times> 'w" where
  "run_reporter R K specs fuel n w =
     (case rp_now R w of (now, w) \<Rightarrow>
        reporter_loop R K specs fuel n \<lparr>next_report = now, ready_announced = False, realtime_announced = False\<rparr> w)"

end
