(* ===== verification/Reporter_Correct.thy ===== *)
theory Reporter_Correct
  imports Reporter Cyclic_Task
begin

text \<open>
  What the reporter does with what it is given: every report taken from the mailbox is printed, in
  order; readiness is announced once and after it was read; and when the stop flag is set it drains the
  mailbox and returns. The calls are earlier through a history \<open>hist\<close> of the world.
\<close>

section \<open>The history of the calls\<close>

datatype 'r reporter_event =
    ReStop bool | RePrepared bool | ReReady bool | ReTake "'r runtime_report option" | RePrint "'r console_line" | ReStore u64

text \<open>The calls that matter append their event, the others none; a command is handed to the handler at most once.\<close>

definition traced :: "('w \<Rightarrow> 'r reporter_event list) \<Rightarrow> ('r, 'w) reporter_api \<Rightarrow> bool" where
  "traced hist R \<longleftrightarrow>
     (\<forall>w b w'. rp_stop R w = (b, w') \<longrightarrow> hist w' = hist w @ [ReStop b])
     \<and> (\<forall>w b w'. rp_prepared R w = (b, w') \<longrightarrow> hist w' = hist w @ [RePrepared b])
     \<and> (\<forall>w b w'. rp_ready R w = (b, w') \<longrightarrow> hist w' = hist w @ [ReReady b])
     \<and> (\<forall>w r w'. rp_take R w = (r, w') \<longrightarrow> hist w' = hist w @ [ReTake r])
     \<and> (\<forall>x w. hist (rp_print R x w) = hist w @ [RePrint x])
     \<and> (\<forall>t w. hist (rp_store_requested R t w) = hist w @ [ReStore t])
     \<and> (\<forall>w b w'. rp_mask R w = (b, w') \<longrightarrow> hist w' = hist w)
     \<and> (\<forall>w b w'. rp_requested R w = (b, w') \<longrightarrow> hist w' = hist w)
     \<and> (\<forall>w b w'. rp_acknowledged R w = (b, w') \<longrightarrow> hist w' = hist w)
     \<and> (\<forall>w b w'. rp_now R w = (b, w') \<longrightarrow> hist w' = hist w)
     \<and> (\<forall>d w. hist (rp_sleep R d w) = hist w)
     \<and> (\<forall>h w b w'. rp_process_command R h w = (b, w') \<longrightarrow> hist w' = hist w
         \<or> (\<exists>request w1 r w2. h request w1 = (r, w2) \<and> hist w1 = hist w \<and> hist w' = hist w2))"

lemma traced_calls:
  assumes "traced hist R"
  shows "rp_stop R w = (b, w') \<Longrightarrow> hist w' = hist w @ [ReStop b]"
    "rp_prepared R w = (b, w') \<Longrightarrow> hist w' = hist w @ [RePrepared b]"
    "rp_ready R w = (b, w') \<Longrightarrow> hist w' = hist w @ [ReReady b]"
    "rp_take R w = (r, w') \<Longrightarrow> hist w' = hist w @ [ReTake r]"
    "hist (rp_print R x w) = hist w @ [RePrint x]" "hist (rp_store_requested R t w) = hist w @ [ReStore t]"
    "rp_mask R w = (m, w') \<Longrightarrow> hist w' = hist w" "rp_requested R w = (m, w') \<Longrightarrow> hist w' = hist w"
    "rp_acknowledged R w = (m, w') \<Longrightarrow> hist w' = hist w" "rp_now R w = (i, w') \<Longrightarrow> hist w' = hist w"
    "hist (rp_sleep R d w) = hist w"
    "rp_process_command R h w = (b, w') \<Longrightarrow> hist w' = hist w
       \<or> (\<exists>request w1 r w2. h request w1 = (r, w2) \<and> hist w1 = hist w \<and> hist w' = hist w2)"
  using assms unfolding traced_def by simp_all

definition printed :: "'r reporter_event list \<Rightarrow> 'r console_line list" where
  "printed l = concat (map (\<lambda>e. case e of RePrint x \<Rightarrow> [x] | _ \<Rightarrow> []) l)"

definition taken :: "'r reporter_event list \<Rightarrow> 'r runtime_report list" where
  "taken l = concat (map (\<lambda>e. case e of ReTake (Some r) \<Rightarrow> [r] | _ \<Rightarrow> []) l)"

definition is_report :: "'r console_line \<Rightarrow> bool" where
  "is_report x \<longleftrightarrow> (case x of RuntimeLine _ _ _ _ \<Rightarrow> True | _ \<Rightarrow> False)"

text \<open>Each \<open>b\<close> comes after an \<open>a\<close>.\<close>

fun comes_after :: "'e \<Rightarrow> 'e \<Rightarrow> bool \<Rightarrow> 'e list \<Rightarrow> bool" where
  "comes_after a b earlier [] \<longleftrightarrow> True"
| "comes_after a b earlier (x # xs) \<longleftrightarrow> (x = b \<longrightarrow> earlier) \<and> comes_after a b (earlier \<or> a = x) xs"

lemma comes_after_append [simp]: "comes_after a b s (l @ k) \<longleftrightarrow> comes_after a b s l \<and> comes_after a b (s \<or> a \<in> set l) k"
  by (induction l arbitrary: s) auto

lemma comes_after_mono: "comes_after a b s l \<Longrightarrow> (s \<Longrightarrow> s') \<Longrightarrow> comes_after a b s' l"
  by (induction l arbitrary: s s') fastforce+

lemma event_lists [simp]:
  "printed [] = []" "printed (l @ k) = printed l @ printed k" "taken [] = []" "taken (l @ k) = taken l @ taken k"
  "printed (RePrint x # l) = x # printed l" "taken (ReTake (Some r) # l) = r # taken l" "taken (ReTake None # l) = taken l"
  "printed (ReStop b # l) = printed l" "printed (RePrepared b # l) = printed l" "printed (ReReady b # l) = printed l"
  "printed (ReTake t # l) = printed l" "printed (ReStore i # l) = printed l"
  "taken (ReStop b # l) = taken l" "taken (RePrepared b # l) = taken l" "taken (ReReady b # l) = taken l"
  "taken (RePrint x # l) = taken l" "taken (ReStore i # l) = taken l"
  by (simp_all add: printed_def taken_def)

section \<open>Serving a command prints nothing\<close>

definition served :: "'r reporter_event list \<Rightarrow> bool" where
  "served l \<longleftrightarrow> (\<forall>e \<in> set l. \<exists>b t. e = ReStop b \<or> e = ReReady b \<or> e = ReStore t)"

lemma served_simps [simp]: "served []" "served (l @ k) \<longleftrightarrow> served l \<and> served k"
  "served (ReStop b # l) \<longleftrightarrow> served l" "served (ReReady b # l) \<longleftrightarrow> served l" "served (ReStore t # l) \<longleftrightarrow> served l"
  by (auto simp: served_def)

lemma served_silent: "served l \<Longrightarrow> printed l = [] \<and> taken l = [] \<and> comes_after a (RePrint x) s l"
  by (induction l arbitrary: s) (auto simp: served_def)

lemma await_ticket_served:
  assumes "traced hist R"
  shows "await_ticket R n ticket due w = (r, w') \<Longrightarrow> \<exists>ev. hist w' = hist w @ ev \<and> served ev"
proof (induction n arbitrary: w)
  case 0
  then show ?case by simp
next
  case (Suc n)
  from Suc.prems show ?case
    by (fastforce simp: traced_calls(11) [OF assms] dest: traced_calls(1,9,10) [OF assms] Suc.IH
        split: prod.split_asm if_split_asm)
qed

lemma execute_reset_served:
  assumes "traced hist R" "execute_reset R fuel due w = (r, w')"
  shows "\<exists>ev. hist w' = hist w @ ev \<and> served ev"
  using assms(2)
  by (fastforce simp: execute_reset_def traced_calls(6) [OF assms(1)]
      dest: traced_calls(1,8,9,10) [OF assms(1)] await_ticket_served [OF assms(1)] split: prod.split_asm if_split_asm)

lemma handle_command_served:
  assumes "traced hist R" "handle_command R fuel request w = (r, w')"
  shows "\<exists>ev. hist w' = hist w @ ev \<and> served ev"
  using assms(2)
  by (fastforce simp: handle_command_def dest: traced_calls(3) [OF assms(1)] execute_reset_served [OF assms(1)]
      split: prod.split_asm if_split_asm)

lemma process_command_served:
  assumes "traced hist R" "rp_process_command R (handle_command R fuel) w = (b, w')"
  shows "\<exists>ev. hist w' = hist w @ ev \<and> served ev"
  using traced_calls(12) [OF assms] handle_command_served [OF assms(1)] by fastforce

section \<open>A cycle and the loop\<close>

text \<open>What a stretch of the history has to do with the locals before and after it.\<close>

definition reporter_events :: "report_codes \<Rightarrow> nat \<Rightarrow> reporter_locals \<Rightarrow> reporter_locals \<Rightarrow> 'r reporter_event list \<Rightarrow> bool" where
  "reporter_events K n l l' ev \<longleftrightarrow>
     filter is_report (printed ev) = map (runtime_line K n) (taken ev)
     \<and> count_list (printed ev) AllReady + (if ready_announced l then 1 else 0) = (if ready_announced l' then 1 else 0)
     \<and> count_list (printed ev) RealtimePrepared + (if realtime_announced l then 1 else 0)
         = (if realtime_announced l' then 1 else 0)
     \<and> comes_after (ReReady True) (RePrint AllReady) False ev
     \<and> comes_after (RePrepared True) (RePrint RealtimePrepared) False ev"

definition drains :: "'r reporter_event list \<Rightarrow> bool" where
  "drains ev \<longleftrightarrow> (\<exists>k. ev = ReStop True # k \<and> (\<exists>r. ReTake r \<in> set k) \<and> (\<forall>t. ReStore t \<notin> set k))"

lemma reporter_events_append:
  assumes "reporter_events K n l l1 ev" "reporter_events K n l1 l2 ev'"
  shows "reporter_events K n l l2 (ev @ ev')"
  using assms by (auto simp: reporter_events_def intro: comes_after_mono)

lemma is_report_simps [simp]: "is_report (RuntimeLine r h a b)" "\<not> is_report AllReady" "\<not> is_report RealtimePrepared"
  "\<not> is_report (WaitingFor xs i j)" "is_report (runtime_line K n r)" "runtime_line K n r \<noteq> AllReady"
  "runtime_line K n r \<noteq> RealtimePrepared" "\<not> is_report (waiting_line specs m)" "waiting_line specs m \<noteq> AllReady"
  "waiting_line specs m \<noteq> RealtimePrepared"
  by (simp_all add: is_report_def runtime_line_def waiting_line_def Let_def)

lemma announce_realtime_events:
  assumes "traced hist R" "announce_realtime R l w = (l', w')"
  shows "\<exists>ev. hist w' = hist w @ ev \<and> reporter_events K n l l' ev \<and> (\<forall>t. ReStore t \<notin> set ev)"
proof (cases "realtime_announced l")
  case True
  then show ?thesis using assms(2) by (auto simp: announce_realtime_def reporter_events_def)
next
  case False
  obtain b w1 where b: "rp_prepared R w = (b, w1)" by fastforce
  show ?thesis
    using assms(2) False b traced_calls(2) [OF assms(1) b]
    by (intro exI [of _ "RePrepared b # (if b then [RePrint RealtimePrepared] else [])"])
       (auto simp: announce_realtime_def reporter_events_def traced_calls(5) [OF assms(1)])
qed

text \<open>The part of a cycle after the command.\<close>

lemma reporter_cycle_events:
  assumes "traced hist R" "reporter_cycle R K specs fuel l w = (e, l', w')"
  shows "\<exists>ev. hist w' = hist w @ ev \<and> reporter_events K (length specs) l l' ev \<and> (e = Stopped \<longrightarrow> drains ev)"
proof -
  note calls = traced_calls [OF assms(1)]
  let ?E = "reporter_events K (length specs)"
  obtain stopped w1 where st: "rp_stop R w = (stopped, w1)" by fastforce
  obtain l2 w2 where an: "announce_realtime R l w1 = (l2, w2)" by fastforce
  obtain c w3 where cm: "(if stopped then (True, w2) else rp_process_command R (handle_command R fuel) w2) = (c, w3)"
    by fastforce
  obtain e1 where e1: "hist w2 = hist w1 @ e1" "?E l l2 e1" "\<forall>t. ReStore t \<notin> set e1"
    using announce_realtime_events [OF assms(1) an] by blast
  obtain e2 where e2: "hist w3 = hist w2 @ e2" "served e2" "stopped \<longrightarrow> e2 = []"
    using cm process_command_served [OF assms(1), of fuel w2 c w3] by (cases stopped) auto
  have s1: "?E l l [ReStop stopped]" and s2: "?E l2 l2 e2"
    using served_silent [OF e2(2)] by (simp_all add: reporter_events_def)
  have upto: "hist w3 = hist w @ [ReStop stopped] @ e1 @ e2" "?E l l2 ([ReStop stopped] @ e1 @ e2)"
    using calls(1) [OF st] e1 e2(1) reporter_events_append [OF reporter_events_append [OF s1 e1(2)] s2] by simp_all
  show ?thesis
  proof (cases c)
    case False
    then show ?thesis using assms(2) st an cm upto by (auto simp: reporter_cycle_def)
  next
    case True
    obtain up w4 where up: "rp_ready R w3 = (up, w4)" by fastforce
    define new where "new = (up \<and> \<not> ready_announced l2)"
    define l5 where "l5 = (if new then l2\<lparr>ready_announced := True\<rparr> else l2)"
    define w5 where "w5 = (if new then rp_print R AllReady w4 else w4)"
    obtain r w6 where r: "rp_take R w5 = (r, w6)" by fastforce
    define w7 where "w7 = (case r of None \<Rightarrow> w6 | Some x \<Rightarrow> rp_print R (runtime_line K (length specs) x) w6)"
    define e3 where "e3 = ReReady up # (if new then [RePrint AllReady] else []) @ ReTake r
      # (case r of None \<Rightarrow> [] | Some x \<Rightarrow> [RePrint (runtime_line K (length specs) x)])"
    have h7: "hist w7 = hist w3 @ e3"
      using calls(3) [OF up] calls(4) [OF r] by (auto simp: w7_def w5_def e3_def calls(5) split: option.split)
    have s3: "?E l2 l5 e3" "\<forall>t. ReStore t \<notin> set e3" "ReTake r \<in> set e3"
      by (auto simp: reporter_events_def e3_def l5_def new_def split: option.split)
    have cyc: "reporter_cycle R K specs fuel l w = (if stopped then (Stopped, l5, w7)
        else (case rp_now R w7 of (now, w) \<Rightarrow> (case rp_mask R w of (bits, w) \<Rightarrow>
          let (l, w) = (if \<not> up \<and> next_report l5 \<le> now
                then (l5\<lparr>next_report := now + 1000000000\<rparr>, rp_print R (waiting_line specs bits) w) else (l5, w))
          in (Continue, l, rp_sleep R 10000000 w))))"
      using st an cm True up r
      by (cases up; cases "ready_announced l2") (simp_all add: reporter_cycle_def l5_def w5_def w7_def new_def cong: if_cong)
    let ?pre = "[ReStop stopped] @ e1 @ e2 @ e3"
    have pre: "hist w7 = hist w @ ?pre" "?E l l5 ?pre"
      using h7 upto reporter_events_append [OF upto(2) s3(1)] by simp_all
    show ?thesis
    proof (cases stopped)
      case True
      have "drains ?pre" using True e2(3) e1(3) s3 by (auto simp: drains_def)
      then show ?thesis using assms(2) cyc True pre by auto
    next
      case False
      obtain now w8 where n: "rp_now R w7 = (now, w8)" by fastforce
      obtain bits w9 where m: "rp_mask R w8 = (bits, w9)" by fastforce
      let ?e4 = "if \<not> up \<and> next_report l5 \<le> now then [RePrint (waiting_line specs bits)] else []"
      have ev: "hist w' = hist w @ ?pre @ ?e4" "?E l5 l' ?e4" "e = Continue"
        using assms(2) cyc False n m pre(1) calls(10) [OF n] calls(7) [OF m]
        by (auto simp: calls(5,11) reporter_events_def split: if_split_asm)
      have "?E l l' (?pre @ ?e4)" by (rule reporter_events_append [OF pre(2) ev(2)])
      then show ?thesis using ev(1,3) by (intro exI [of _ "?pre @ ?e4"]) simp
    qed
  qed
qed

lemma reporter_loop_events:
  assumes "traced hist R"
  shows "reporter_loop R K specs fuel n l w = (e, l', w') \<Longrightarrow>
     \<exists>ev. hist w' = hist w @ ev \<and> reporter_events K (length specs) l l' ev
       \<and> (e = Stopped \<longrightarrow> (\<exists>before last. ev = before @ last \<and> drains last)) \<and> e \<noteq> Continue"
proof (induction n arbitrary: l w)
  case 0
  then show ?case by (auto simp: reporter_events_def)
next
  case (Suc n)
  obtain e1 l1 w1 where c: "reporter_cycle R K specs fuel l w = (e1, l1, w1)" by (metis prod.collapse)
  obtain ev where ev: "hist w1 = hist w @ ev" "reporter_events K (length specs) l l1 ev" "e1 = Stopped \<longrightarrow> drains ev"
    using reporter_cycle_events [OF assms c] by blast
  show ?case
  proof (cases "e1 = Continue")
    case True
    then have "reporter_loop R K specs fuel n l1 w1 = (e, l', w')" using Suc.prems c by simp
    from Suc.IH [OF this] obtain k where k: "hist w' = hist w1 @ k" "reporter_events K (length specs) l1 l' k"
      "e = Stopped \<longrightarrow> (\<exists>before last. k = before @ last \<and> drains last)" "e \<noteq> Continue" by blast
    have "hist w' = hist w @ ev @ k" using ev(1) k(1) by simp
    moreover have "e = Stopped \<longrightarrow> (\<exists>before last. ev @ k = before @ last \<and> drains last)"
      using k(3) by (metis append_assoc)
    ultimately show ?thesis using reporter_events_append [OF ev(2) k(2)] k(4) by blast
  next
    case False
    then have "e = e1" "l' = l1" "w' = w1" using Suc.prems c by (cases e1; simp)+
    then show ?thesis using ev False by (metis append_Nil)
  qed
qed

text \<open>
  Claim C40. The reporter prints every report it takes from the mailbox, in order and with its health
  judged from that report, and no other; it announces readiness and the realtime setup at most once, and
  only after it read that they were reached; and it returns only after it read the stop flag, took the
  mailbox once more and served no command in between.
\<close>

theorem reporter_faithful:
  assumes "traced hist R" "hist w = []" "run_reporter R K specs fuel n w = (e, l, w')"
  shows "filter is_report (printed (hist w')) = map (runtime_line K (length specs)) (taken (hist w'))
    \<and> count_list (printed (hist w')) AllReady \<le> 1 \<and> count_list (printed (hist w')) RealtimePrepared \<le> 1
    \<and> comes_after (ReReady True) (RePrint AllReady) False (hist w')
    \<and> comes_after (RePrepared True) (RePrint RealtimePrepared) False (hist w')
    \<and> e \<noteq> Continue \<and> (e = Stopped \<longrightarrow> (\<exists>before last. hist w' = before @ last \<and> drains last))"
proof -
  obtain now w1 where n: "rp_now R w = (now, w1)" by fastforce
  have "hist w1 = []" using traced_calls(10) [OF assms(1) n] assms(2) by simp
  moreover have loop: "reporter_loop R K specs fuel n
      \<lparr>next_report = now, ready_announced = False, realtime_announced = False\<rparr> w1 = (e, l, w')"
    using assms(3) n by (simp add: run_reporter_def)
  ultimately obtain ev where "hist w' = ev" "e = Stopped \<longrightarrow> (\<exists>before last. ev = before @ last \<and> drains last)" "e \<noteq> Continue"
    "reporter_events K (length specs) \<lparr>next_report = now, ready_announced = False, realtime_announced = False\<rparr> l ev"
    using reporter_loop_events [OF assms(1) loop] by auto
  then show ?thesis by (simp add: reporter_events_def)
qed

text \<open>A world that is a script of stop readings and its own history: the bus is ready, one report waits.\<close>

definition script_api :: "(rat, bool list \<times> nat \<times> rat reporter_event list) reporter_api" where
  "script_api = \<lparr>
     rp_stop = (\<lambda>(s, m, h). case s of [] \<Rightarrow> (True, (s, m, h @ [ReStop True])) | b # s \<Rightarrow> (b, (s, m, h @ [ReStop b]))),
     rp_prepared = (\<lambda>(s, m, h). (True, (s, m, h @ [RePrepared True]))),
     rp_ready = (\<lambda>(s, m, h). (True, (s, m, h @ [ReReady True]))), rp_mask = (\<lambda>w. (1, w)),
     rp_take = (\<lambda>(s, m, h). case m of 0 \<Rightarrow> (None, (s, 0, h @ [ReTake None]))
       | Suc k \<Rightarrow> (let r = Some runtime_report_init in (r, (s, k, h @ [ReTake r])))),
     rp_requested = (\<lambda>w. (0, w)), rp_acknowledged = (\<lambda>w. (0, w)),
     rp_store_requested = (\<lambda>t (s, m, h). (s, m, h @ [ReStore t])), rp_now = (\<lambda>w. (0, w)), rp_sleep = (\<lambda>d w. w),
     rp_print = (\<lambda>x (s, m, h). (s, m, h @ [RePrint x])), rp_process_command = (\<lambda>f w. (True, w)), rp_cmd_reset_stats = 0\<rparr>"

lemma script_traced: "traced (\<lambda>(s, m, h). h) script_api"
  by (auto simp: traced_def script_api_def Let_def split: list.split_asm nat.split_asm)

definition script_codes :: report_codes where
  "script_codes = \<lparr>code_init = 1, code_preop = 2, code_safeop = 4, code_op = 8, code_wc_zero = 0, code_wc_incomplete = 1,
     code_wc_complete = 2\<rparr>"

theorem reporter_faithful_witness:
  "case run_reporter script_api script_codes [] 0 2 ([False, True], 1, []) of
     (e, l, s, m, h) \<Rightarrow> filter is_report (printed h) = map (runtime_line script_codes 0) (taken h) \<and> drains (drop 7 h)"
proof -
  obtain e l s m h where run: "run_reporter script_api script_codes [] 0 2 ([False, True], 1, []) = (e, l, (s, m, h))"
    by (metis prod.collapse)
  have "h = [ReStop False, RePrepared True, RePrint RealtimePrepared, ReReady True, RePrint AllReady,
      ReTake (Some runtime_report_init), RePrint (runtime_line script_codes 0 runtime_report_init),
      ReStop True, ReReady True, ReTake None]"
    using run by (simp add: run_reporter_def numeral_eq_Suc reporter_cycle_def announce_realtime_def script_api_def Let_def)
  then have "drains (drop 7 h)" by (simp add: drains_def)
  moreover have "filter is_report (printed h) = map (runtime_line script_codes (length ([] :: slave_spec list))) (taken h)"
    using reporter_faithful [OF script_traced _ run, THEN conjunct1] by (simp only: prod.case)
  ultimately show ?thesis unfolding run by (simp only: prod.case list.size)
qed

end
