(* ===== verification/Console_Text.thy ===== *)
theory Console_Text
  imports Loaded_Config Pdo_Verification Master_Init Reporter Runtime_Options
begin

text \<open>
  The text of the console messages: \<open>ConsoleStyle\<close> (src/src/console_style.hpp), the startup table
  and the bus scan (src/src/startup_report.cpp), the registered mapping (src/src/slave_config.cpp), the verification error
  (src/src/pdo_verification.cpp), the runtime report and the final statistics (src/src/main.cpp) and the
  names of states and stages (src/src/ethercat_master.cpp), as the characters they write onto a stream of
  default flags. The formatting of a floating-point number and the resolution of a path by the file
  system are parameters.
\<close>

section \<open>Numbers and fields\<close>

definition newline :: string where "newline = [CHR 0x0A]"

fun lower_hex :: "nat \<Rightarrow> string" where
  "lower_hex n = (let c = char_of (if n mod 16 < 10 then 48 + n mod 16 else 87 + n mod 16) in
     if n < 16 then [c] else lower_hex (n div 16) @ [c])"

declare lower_hex.simps [simp del]

definition show_int :: "int \<Rightarrow> string" where
  "show_int i = (if i < 0 then CHR ''-'' # show_nat (nat (- i)) else show_nat (nat i))"

text \<open>\<open>setw\<close> with a fill character, right and left aligned.\<close>

definition setw_right :: "char \<Rightarrow> nat \<Rightarrow> string \<Rightarrow> string" where
  "setw_right c n t = replicate (n - length t) c @ t"

definition setw_left :: "nat \<Rightarrow> string \<Rightarrow> string" where
  "setw_left n t = t @ replicate (n - length t) CHR '' ''"

definition hex_field :: "nat \<Rightarrow> 'a::len word \<Rightarrow> string" where
  "hex_field n w = setw_right (CHR ''0'') n (lower_hex (unat w))"

definition dec_field :: "nat \<Rightarrow> nat \<Rightarrow> string" where
  "dec_field n x = setw_right CHR '' '' n (show_nat x)"

definition dec :: "'a::len word \<Rightarrow> string" where
  "dec w = show_nat (unat w)"

text \<open>\<open>0x6040:00\<close>\<close>

definition object_text :: "u16 \<Rightarrow> u8 \<Rightarrow> string" where
  "object_text index sub = ''0x'' @ hex_field 4 index @ '':'' @ hex_field 2 sub"

section \<open>Colours and names\<close>

datatype stream = Stdout | Stderr | OtherStream

definition console_color_enabled :: "bool \<Rightarrow> string option \<Rightarrow> bool \<Rightarrow> bool \<Rightarrow> stream \<Rightarrow> bool" where
  "console_color_enabled no_color term_env out_tty err_tty output_stream =
     (if no_color \<or> term_env = Some ''dumb'' then False
      else case output_stream of Stdout \<Rightarrow> out_tty | Stderr \<Rightarrow> err_tty | OtherStream \<Rightarrow> False)"

datatype style = Heading | Okay | Warning | Failure | Plain

definition style_text :: "bool \<Rightarrow> style \<Rightarrow> string" where
  "style_text enabled s = (if \<not> enabled then []
     else CHR 0x1B # (case s of Heading \<Rightarrow> ''[1;36m'' | Okay \<Rightarrow> ''[1;32m'' | Warning \<Rightarrow> ''[1;33m'' | Failure \<Rightarrow> ''[1;31m''
       | Plain \<Rightarrow> ''[0m''))"

definition al_state_name :: "report_codes \<Rightarrow> u8 \<Rightarrow> string" where
  "al_state_name K al_state =
     (let s = ucast al_state in
      if s = code_init K then ''INIT'' else if s = code_preop K then ''PREOP''
      else if s = code_safeop K then ''SAFEOP'' else if s = code_op K then ''OP'' else ''UNKNOWN'')"

fun dc_error_stage_name :: "dc_error_stage \<Rightarrow> string" where
  "dc_error_stage_name ApplicationTime = ''ecrt_master_application_time''"
| "dc_error_stage_name SyncReferenceClock = ''ecrt_master_sync_reference_clock_to''"
| "dc_error_stage_name SyncSlaveClocks = ''ecrt_master_sync_slave_clocks''"
| "dc_error_stage_name DcNone = ''none''"

section \<open>A verification error\<close>

definition field_text :: "check \<Rightarrow> string" where
  "field_text c = (case ck_field c of
     AssignmentCount \<Rightarrow> ''assignment count'' | Assignment \<Rightarrow> ''assigned PDO/order''
   | MappingCount \<Rightarrow> ''mapping entry count'' | MappingEntry \<Rightarrow> ''mapping entry/order''
   | InitCommand \<Rightarrow> ''init_commands bytes='' @ dec (ck_size c))"

definition mapping_entry_text :: "string \<Rightarrow> u32 \<Rightarrow> string" where
  "mapping_entry_text caption v = '' '' @ caption @ ''{index=0x'' @ lower_hex (unat (drop_bit 16 v)) @ '',subindex=0x''
     @ lower_hex (unat (and (drop_bit 8 v) 0xff)) @ '',bits='' @ dec (and v 0xff) @ ''}''"

definition failure_text :: "verify_error \<Rightarrow> string" where
  "failure_text e =
     (let c = ve_check e; init_command = (ck_field c = InitCommand) in
      case ve_failure e of
        Value \<Rightarrow> '' actual=0x'' @ lower_hex (unat (ve_actual e))
          @ (if ck_field c = MappingEntry
             then mapping_entry_text ''expected'' (ck_expected c) @ mapping_entry_text ''actual'' (ve_actual e) else [])
      | Size \<Rightarrow> '' size mismatch: expected_bytes='' @ dec (ck_size c) @ '' actual_bytes='' @ show_nat (ve_actual_size e)
      | SetIndex \<Rightarrow> '' set request index failed''
      | StartRead \<Rightarrow> '' schedule SDO read failed''
      | Read \<Rightarrow> '' SDO read failed (no valid value)''
      | RequestTimeout \<Rightarrow> '' SDO read timed out''
      | StartupTimeout \<Rightarrow> '' total startup timeout during verification''
      | BusUnhealthy \<Rightarrow> '' verification invalidated by OP/link/WC loss''
      | NotPrepared \<Rightarrow> '' verification requests were not prepared''
      | Write \<Rightarrow> '' SDO write failed'' @ (if \<not> init_command then '' attempted=0x'' @ lower_hex (unat (ve_actual e)) else [])
      | PreopState \<Rightarrow> '' PREOP state check failed: al_state=0x'' @ lower_hex (unat (ve_actual e))
          @ '' error_flag='' @ show_nat (ve_actual_size e)
      | PreopTimeout \<Rightarrow> '' total PREOP configuration timeout''
      | Clock \<Rightarrow> '' monotonic clock query failed''
      | NoFailure \<Rightarrow> [])"

definition print_error :: "verify_error \<Rightarrow> string" where
  "print_error e =
     (if ve_failure e = NoFailure then []
      else
        let c = ve_check e; init_command = (ck_field c = InitCommand) in
        (if init_command then ''Init command failed at slave[position='' else ''PDO verification failed at slave[position='')
        @ dec (ck_slave_position c) @ '']''
        @ (if \<not> init_command then '' SM'' @ dec (ck_sync_index c) @ (if ck_sync_index c = 2 then '' RxPDO'' else '' TxPDO'') else [])
        @ '' object='' @ object_text (ck_index c) (ck_subindex c) @ '' '' @ field_text c
        @ (if \<not> init_command then '' expected=0x'' @ lower_hex (unat (ck_expected c)) else [])
        @ failure_text e
        @ (if ve_api_error e \<noteq> 0 then '' rc='' @ show_int (ve_api_error e) else [])
        @ (if ve_abort_code e \<noteq> 0 then '' SDO abort=0x'' @ lower_hex (unat (ve_abort_code e)) else [])
        @ newline)"

section \<open>The startup table\<close>

definition cpu_name :: "runtime_options \<Rightarrow> string" where
  "cpu_name options = (case cpu options of None \<Rightarrow> ''auto (inherited)'' | Some n \<Rightarrow> dec n)"

definition on_off :: "bool \<Rightarrow> string" where
  "on_off b = (if b then ''on'' else ''off'')"

text \<open>A setting: its name, the configured and the effective value, marked when they differ.\<close>

definition setting_row :: "string \<Rightarrow> string \<Rightarrow> string \<Rightarrow> string" where
  "setting_row key configured effective =
     ''  '' @ setw_left 23 key @ setw_left 23 configured @ (if configured = effective then ''  '' else ''* '') @ effective @ newline"

definition settings :: "runtime_options \<Rightarrow> runtime_options \<Rightarrow> (string \<times> string \<times> string) list" where
  "settings base effective =
     [(''id'', dec (master_id base), dec (master_id effective)),
      (''cycle [us]'', dec (period_us base), dec (period_us effective)),
      (''cpuidx'', cpu_name base, cpu_name effective),
      (''dc'', on_off (dc_enabled base), on_off (dc_enabled effective)),
      (''preop_timeout_ms'', dec (preop_timeout_ms base), dec (preop_timeout_ms effective)),
      (''op_timeout_ms'', dec (op_timeout_ms base), dec (op_timeout_ms effective)),
      (''pdo_config_attempts'', dec (pdo_config_attempts base), dec (pdo_config_attempts effective))]"

definition configured_entry :: "pdo_entry_config \<Rightarrow> string" where
  "configured_entry e = ''    '' @ object_text (pe_index e) (pe_sub_index e) @ dec_field 7 (unat (pe_bit_length e))
     @ dec_field 7 (unat (pe_bit_length e) div 8) @ ''  '' @ pe_name e @ (if pe_index e = 0 then '' [padding]'' else []) @ newline"

definition print_pdos :: "pdo_mapping_config list \<Rightarrow> bool \<Rightarrow> bool \<Rightarrow> string" where
  "print_pdos pdos rx discover =
     (let caption = ''  '' @ (if rx then ''RxPDO'' else ''TxPDO'') in
      (if pdos = [] then caption @ '': none'' @ newline else [])
      @ concat (map (\<lambda>pdo. caption @ '' 0x'' @ hex_field 4 (pm_index pdo)
          @ (if rx then '' (SM2, master -> slave)'' else '' (SM3, slave -> master)'') @ newline
          @ (if pm_entries pdo = []
             then (if discover then ''    entries: pending SDO discovery'' else ''    entries: none'') @ newline
             else ''    Object       Bits  Bytes  Name'' @ newline @ concat (map configured_entry (pm_entries pdo)))) pdos))"

definition init_command_row :: "init_command_config \<Rightarrow> string" where
  "init_command_row cmd =
     ''    '' @ object_text (ic_index cmd) (ic_sub_index cmd) @ ''  data[LE]=''
     @ concat (map (\<lambda>i. (if i \<noteq> 0 then '' '' else []) @ hex_field 2 (ic_data cmd ! i)) [0..<unat (ic_size cmd)])
     @ '' ('' @ dec (ic_size cmd) @ '' bytes)'' @ newline"

definition clock_row :: "runtime_options \<Rightarrow> distributed_clock_config option \<Rightarrow> string" where
  "clock_row effective clock =
     (case clock of
        None \<Rightarrow> ''  DC: not configured'' @ newline
      | Some dc \<Rightarrow> ''  DC: '' @ (if dc_enabled effective then ''enabled'' else ''disabled'')
          @ ''  reference='' @ (if dc_reference dc then ''yes'' else ''no'')
          @ ''  assign_activate=0x'' @ hex_field 4 (assign_activate dc) @ ''  sync0_ns=''
          @ (if dc_sync0_cycle_ns dc \<noteq> 0 then dec (dc_sync0_cycle_ns dc)
             else show_nat (unat (period_us effective) * 1000) @ '' (runtime period)'')
          @ ''  shift0_ns='' @ show_int (sint (sync0_shift_ns dc)) @ ''  sync1_ns='' @ dec (sync1_cycle_ns dc)
          @ ''  shift1_ns='' @ show_int (sint (sync1_shift_ns dc)) @ newline)"

definition configured_slave :: "bool \<Rightarrow> bool \<Rightarrow> runtime_options \<Rightarrow> slave_pdo_config \<Rightarrow> string" where
  "configured_slave color discover effective slave =
     style_text color Heading @ ''Slave '' @ dec (sc_id slave) @ '': '' @ sc_name slave @ style_text color Plain @ newline
     @ (if sc_vendor_id slave = 0 \<and> sc_product_code slave = 0 then ''  Identity: discover from scanned SII'' @ newline
        else ''  Identity: vendor=0x'' @ hex_field 8 (sc_vendor_id slave) @ '' product=0x'' @ hex_field 8 (sc_product_code slave)
          @ '' (strict match)'' @ newline)
     @ print_pdos (rx_pdos slave) True discover @ print_pdos (tx_pdos slave) False discover
     @ clock_row effective (sc_dc slave)
     @ ''  PREOP application SDOs: '' @ show_nat (length (sc_init_commands slave)) @ newline
     @ concat (map init_command_row (sc_init_commands slave))"

text \<open>\<open>resolved\<close> is the normalised absolute path, or the path itself where there is none.\<close>

definition print_startup_configuration :: "(string \<Rightarrow> string) \<Rightarrow> string \<Rightarrow> bool \<Rightarrow> pdo_bus_config \<Rightarrow> runtime_options \<Rightarrow> string" where
  "print_startup_configuration resolved version color config effective =
     style_text color Heading @ newline @ ''=== ROCOS IgH '' @ version @ '' | Startup ==='' @ style_text color Plain @ newline
     @ ''[Configuration]'' @ newline @ ''  YAML : '' @ resolved (config_path effective) @ newline
     @ ''  Mode : '' @ (if from_eni config then ''ENI topology'' else ''inline PDO YAML'') @ newline
     @ (if from_eni config then ''  ENI  : '' @ resolved (eni_path config) @ newline else [])
     @ ''  Differences are marked with *; Config/default includes ENI and built-in defaults.'' @ newline
     @ ''  '' @ setw_left 23 ''Setting'' @ setw_left 23 ''Config/default'' @ ''  Effective'' @ newline
     @ concat (map (\<lambda>(key, configured, value). setting_row key configured value) (settings (bc_master config) effective))
     @ style_text color Heading @ newline @ ''[Configured topology] '' @ show_nat (length (bc_slaves config))
     @ '' slave(s); positions are zero-based'' @ style_text color Plain @ newline
     @ concat (map (configured_slave color (\<not> from_eni config) effective) (bc_slaves config))"

section \<open>The bus scan\<close>

text \<open>The name of a scanned slave, up to its end mark, is an argument: it is shown and not used otherwise.\<close>

definition scan_row :: "report_codes \<Rightarrow> bool \<Rightarrow> (nat \<Rightarrow> string) \<Rightarrow> nat \<times> int \<times> slave_info \<Rightarrow> string" where
  "scan_row K color name_of row =
     (case row of (i, rc, slave) \<Rightarrow>
        if rc \<noteq> 0
        then style_text color Warning @ ''  '' @ show_nat i @ ''  information unavailable (rc='' @ show_int rc @ '')''
          @ style_text color Plain @ newline
        else (if si_error_flag slave \<noteq> 0 then style_text color Failure else [])
          @ ''  '' @ dec_field 3 i @ ''  '' @ setw_left 7 (al_state_name K (si_al_state slave))
          @ dec_field 3 (unat (si_error_flag slave))
          @ concat (map (\<lambda>w. ''  0x'' @ hex_field 8 w)
              [si_vendor_id slave, si_product_code slave, si_revision_number slave, si_serial_number slave])
          @ ''  '' @ (if name_of i \<noteq> [] then name_of i else ''<unnamed>'') @ style_text color Plain @ newline)"

definition scan_unavailable_text :: "bool \<Rightarrow> u32 \<Rightarrow> int \<Rightarrow> string" where
  "scan_unavailable_text color mid rc =
     style_text color Warning @ newline @ ''[Bus scan] master='' @ dec mid @ '' snapshot unavailable (rc='' @ show_int rc
     @ ''); scanned count is unknown'' @ style_text color Plain @ newline"

definition bus_scan_text :: "report_codes \<Rightarrow> bool \<Rightarrow> (nat \<Rightarrow> string) \<Rightarrow> u32 \<Rightarrow> ec_master_info \<Rightarrow> nat \<Rightarrow> bool
    \<Rightarrow> (nat \<times> int \<times> slave_info) list \<Rightarrow> string" where
  "bus_scan_text K color name_of mid info configured healthy rows =
     style_text color (if healthy then Okay else Warning) @ newline @ ''[Bus scan] master='' @ dec mid
     @ '' scanned='' @ show_nat (mi_slave_count info) @ '' configured='' @ show_nat configured
     @ '' link='' @ (if mi_link_up info then ''UP'' else ''DOWN'')
     @ '' scan='' @ (if mi_scan_busy info then ''busy (snapshot may be incomplete)'' else ''complete'')
     @ style_text color Plain @ newline
     @ (if mi_slave_count info \<noteq> configured
        then style_text color Warning @ ''  WARNING: scanned/configured slave counts differ'' @ style_text color Plain @ newline
        else [])
     @ ''  Pos   AL     Err  Vendor      Product     Revision    Serial      Scanned name'' @ newline
     @ concat (map (scan_row K color name_of) rows)"

section \<open>The registered mapping\<close>

text \<open>A row shows the next row of the entry table, not the stored mapping it stands under.\<close>

definition registered_entry :: "pdo_entry_spec \<Rightarrow> string" where
  "registered_entry e = ''    '' @ object_text (es_index e) (es_sub_index e) @ dec_field 7 (unat (es_bit_length e))
     @ dec_field 7 (unat (es_bit_length e) div 8) @ dec_field 8 (unat (es_offset e)) @ ''  '' @ the (es_name e)
     @ (if es_index e = 0 then '' [padding]'' else [])
     @ (if es_bit_position e \<noteq> 0 \<or> es_bit_length e mod 8 \<noteq> 0
        then '' bit_position='' @ dec (es_bit_position e) @ '' shared_offset='' @ dec (es_shared_offset e)
          @ '' shared_size='' @ show_nat ((unat (es_bit_length e) + 7) div 8)
        else []) @ newline"

definition registered_header :: "string \<Rightarrow> string \<Rightarrow> pdo_storage \<Rightarrow> string" where
  "registered_header caption direction pdo = ''  '' @ caption @ '' 0x'' @ hex_field 4 (ps_index pdo) @ '' ('' @ direction @ '')'' @ newline
     @ ''    Object       Bits  Bytes  Offset  Name'' @ newline"

fun registered_pdos :: "string \<Rightarrow> string \<Rightarrow> pdo_storage list \<Rightarrow> pdo_entry_spec list \<Rightarrow> nat \<Rightarrow> string \<times> nat" where
  "registered_pdos caption direction [] entries k = ([], k)"
| "registered_pdos caption direction (pdo # pdos) entries k =
     (let n = length (ps_entries pdo);
          (rest, k') = registered_pdos caption direction pdos entries (k + n)
      in (registered_header caption direction pdo @ concat (map (\<lambda>i. registered_entry (entries ! i)) [k..<k + n]) @ rest, k'))"

definition registered_clock :: "distributed_clock_config option \<Rightarrow> string" where
  "registered_clock clock =
     (case clock of None \<Rightarrow> [] | Some dc \<Rightarrow> ''  DC config: assign_activate=0x'' @ hex_field 4 (assign_activate dc)
        @ '' sync0_cycle=--period-us sync0_shift_ns='' @ show_int (sint (sync0_shift_ns dc))
        @ '' sync1_cycle_ns='' @ dec (sync1_cycle_ns dc) @ '' sync1_shift_ns='' @ show_int (sint (sync1_shift_ns dc))
        @ '' reference='' @ (if dc_reference dc then ''yes'' else ''no'') @ newline)"

definition registered_slave :: "bool \<Rightarrow> slave_storage \<Rightarrow> slave_spec \<Rightarrow> string" where
  "registered_slave color storage slave =
     (let entries = spec_entries slave;
          (rx, k) = registered_pdos ''RxPDO'' ''SM2, master -> slave'' (rx_storage storage) entries 0;
          (tx, k') = registered_pdos ''TxPDO'' ''SM3, slave -> master'' (tx_storage storage) entries k
      in style_text color Heading @ ''Slave '' @ dec (sp_position slave) @ '': '' @ the (sp_name slave) @ style_text color Plain @ newline
         @ ''  Identity: vendor=0x'' @ hex_field 8 (sp_vendor_id slave) @ '' product=0x'' @ hex_field 8 (sp_product_code slave) @ newline
         @ rx @ tx @ registered_clock (sp_dc slave))"

definition print_loaded_slave_config :: "bool \<Rightarrow> loaded_slave_config \<Rightarrow> string" where
  "print_loaded_slave_config color config =
     style_text color Heading @ newline @ ''[Registered PDO mapping] '' @ show_nat (length (lc_slaves config)) @ '' slave(s)''
     @ style_text color Plain @ newline @ ''  Offsets are bytes within each direction's domain.'' @ newline
     @ concat (map (\<lambda>(storage, slave). registered_slave color storage slave) (zip (lc_storage config) (lc_slaves config)))"

section \<open>The running process\<close>

definition print_final_statistics :: "('r \<Rightarrow> string) \<Rightarrow> 'r cycle_statistics \<Rightarrow> int \<Rightarrow> string" where
  "print_final_statistics real_text stats run_result =
     ''final_stats cycles='' @ dec (cycles stats) @ '' missed_deadlines='' @ dec (missed_deadlines stats)
     @ '' min_us='' @ real_text (minimum_us stats) @ '' max_us='' @ real_text (maximum_us stats)
     @ '' avg_us='' @ real_text (average_us stats) @ '' current_us='' @ real_text (current_us stats)
     @ '' run_rc='' @ show_int run_result @ newline"

definition timing_row :: "('r \<Rightarrow> string) \<Rightarrow> string \<Rightarrow> 'r timing_summary \<Rightarrow> string" where
  "timing_row fixed1 caption t = ''  '' @ setw_left 22 caption @ '' (min/avg/max) [us]: '' @ fixed1 (ts_minimum_us t) @ '' / ''
     @ fixed1 (ts_average_us t) @ '' / '' @ fixed1 (ts_maximum_us t) @ newline"

definition al_text :: "report_codes \<Rightarrow> u32 \<Rightarrow> string" where
  "al_text K states = (if states = 0 then ''NONE'' else [])
     @ concat (map (\<lambda>(code, caption). if and states code \<noteq> 0 then caption @ '' '' else [])
         [(code_init K, ''INIT''), (code_preop K, ''PREOP''), (code_safeop K, ''SAFEOP''), (code_op K, ''OP'')])"

definition print_runtime_report :: "report_codes \<Rightarrow> bool \<Rightarrow> ('r \<Rightarrow> string) \<Rightarrow> u32 \<Rightarrow> nat \<Rightarrow> 'r runtime_report \<Rightarrow> string" where
  "print_runtime_report K color fixed1 mid slave_count report =
     style_text color (if report_healthy K slave_count report then Okay else Warning)
     @ ''[master '' @ dec mid @ ''] window='' @ fixed1 (window_seconds report) @ ''s cycles='' @ dec (samples (rr_cycle report))
     @ '' link='' @ (if rr_link_up report then ''UP'' else ''DOWN'')
     @ '' slaves='' @ dec (rr_responding_slaves report) @ ''/'' @ show_nat slave_count @ '' AL='' @ al_text K (rr_al_states report)
     @ ''(0x'' @ lower_hex (unat (rr_al_states report)) @ '')'' @ '' authorized='' @ (if authorized report then ''1'' else ''0'')
     @ '' input_wc='' @ dec (input_wc report) @ ''/'' @ wc_name K (rr_input_wc_state report)
     @ '' output_wc='' @ dec (output_wc report) @ ''/'' @ wc_name K (rr_output_wc_state report) @ style_text color Plain @ newline
     @ timing_row fixed1 ''Cycle Time'' (rr_cycle report) @ timing_row fixed1 ''Task Duration'' (rr_task report)
     @ timing_row fixed1 ''Receive / Process'' (rr_receive report) @ timing_row fixed1 ''PDO Copy'' (rr_pdo report)
     @ timing_row fixed1 ''Queue / Send'' (rr_send report)
     @ (if rr_missed report \<noteq> 0 \<or> wc_errors report \<noteq> 0 \<or> link_down report \<noteq> 0 then style_text color Warning else [])
     @ ''  window/total: missed_deadlines='' @ dec (rr_missed report) @ ''/'' @ dec (total_missed report)
     @ '' wc_error_cycles='' @ dec (wc_errors report) @ ''/'' @ dec (total_wc_errors report)
     @ '' link_down_cycles='' @ dec (link_down report) @ ''/'' @ dec (total_link_down report) @ style_text color Plain @ newline"

section \<open>Reading the text back\<close>

lemma show_nat_inject [simp]: "show_nat m = show_nat n \<longleftrightarrow> m = n"
  by (metis show_nat_digits)

lemma dec_inject [simp]: "dec a = dec b \<longleftrightarrow> a = b"
  by (simp add: dec_def word_unat_eq_iff)

definition hex_value :: "string \<Rightarrow> nat" where
  "hex_value t = foldl (\<lambda>n c. 16 * n + (if of_char c < (58 :: nat) then of_char c - 48 else of_char c - 87)) 0 t"

lemma hex_value_zeros [simp]: "hex_value (replicate k (CHR ''0'') @ t) = hex_value t"
  by (induction k) (simp_all add: hex_value_def)

lemma hex_value_lower_hex [simp]: "hex_value (lower_hex n) = n"
proof (induction n rule: lower_hex.induct)
  case (1 n)
  then show ?case by (auto simp: hex_value_def lower_hex.simps [of n] Let_def)
qed

lemma length_lower_hex: "n < 16 ^ Suc k \<Longrightarrow> length (lower_hex n) \<le> Suc k"
proof (induction k arbitrary: n)
  case 0
  then show ?case by (simp add: lower_hex.simps [of n] Let_def)
next
  case (Suc k)
  then have "n div 16 < 16 ^ Suc k" by (simp add: div_less_iff_less_mult)
  with Suc.IH [of "n div 16"] show ?case by (simp add: lower_hex.simps [of n] Let_def)
qed

lemma hex_field_inject [simp]: "hex_field n a = hex_field n b \<longleftrightarrow> a = b"
  by (metis hex_field_def setw_right_def hex_value_zeros hex_value_lower_hex unsigned_word_eqI)

lemma length_index_text [simp]: "length (hex_field 4 (w :: u16)) = 4"
proof -
  have "unat w < 16 ^ Suc 3" using unsigned_less [where ?'a = nat and w = w] by simp
  from length_lower_hex [OF this] show ?thesis by (simp add: hex_field_def setw_right_def)
qed

text \<open>The text of an object tells it from every other object.\<close>

lemma object_text_inject: "object_text i s = object_text i' s' \<longleftrightarrow> i = i' \<and> s = s'"
  by (auto simp: object_text_def)

lemma auto_not_number [simp]: "show_nat n \<noteq> ''auto (inherited)''"
proof
  assume "show_nat n = ''auto (inherited)''"
  with show_nat_digits [of n] have "list_all is_digit ''auto (inherited)''" by metis
  then show False by (simp add: is_digit_def)
qed

lemmas auto_not_number' [simp] = auto_not_number [symmetric]

lemma cpu_name_inject: "cpu_name a = cpu_name b \<longleftrightarrow> cpu a = cpu b"
proof (cases "cpu a"; cases "cpu b")
qed (simp_all add: cpu_name_def dec_def word_unat_eq_iff)

text \<open>A row of the startup table is unmarked exactly where the effective option is the one of the file.\<close>

lemma settings_unmarked:
  "(\<forall>(key, configured, value) \<in> set (settings base effective). configured = value) \<longleftrightarrow>
     effective = base\<lparr>config_path := config_path effective, show_help := show_help effective\<rparr>"
  by (cases base; cases effective) (auto simp: settings_def cpu_name_inject on_off_def split: if_splits)

lemma print_error_empty: "print_error e = [] \<longleftrightarrow> ve_failure e = NoFailure"
  by (simp add: print_error_def Let_def)

section \<open>The rows of the registered mapping\<close>

text \<open>
  The running index of the listing: with as many entries per mapping as the tables store, every
  mapping is followed by its own entries.
\<close>

lemma registered_pdos_rows:
  assumes "list_all2 (\<lambda>pdo es. length (ps_entries pdo) = length es) pdos chunks"
  shows "registered_pdos caption direction pdos (front @ concat chunks @ rest) (length front) =
    (concat (map2 (\<lambda>pdo es. registered_header caption direction pdo @ concat (map registered_entry es)) pdos chunks),
     length (front @ concat chunks))"
  using assms
proof (induction pdos chunks arbitrary: front rule: list_all2_induct)
  case Nil
  then show ?case by simp
next
  case (Cons pdo pdos es chunks)
  have "map (\<lambda>i. registered_entry ((front @ es @ concat chunks @ rest) ! i)) [length front..<length front + length es]
      = map registered_entry es"
    by (rule nth_equalityI) (simp_all add: nth_append)
  with Cons.IH [of "front @ es"] Cons.hyps show ?case by simp
qed

text \<open>The listing of a built configuration: every mapping with the entries it was configured with.\<close>

lemma store_pdos_chunks:
  "list_all2 (\<lambda>pdo es. length (ps_entries pdo) = length es) (store_pdos pdos) (map (\<lambda>m. append_entry_views [m] d) pdos)"
  by (simp add: store_pdos_def append_entry_views_def list_all2_conv_all_nth)

lemma append_entry_views_concat:
  "append_entry_views pdos d = concat (map (\<lambda>m. append_entry_views [m] d) pdos)"
  by (simp add: append_entry_views_def)

definition listed_mappings :: "string \<Rightarrow> string \<Rightarrow> pdo_direction \<Rightarrow> pdo_mapping_config list \<Rightarrow> string" where
  "listed_mappings caption direction d pdos =
     concat (map2 (\<lambda>pdo es. registered_header caption direction pdo @ concat (map registered_entry es))
       (store_pdos pdos) (map (\<lambda>m. append_entry_views [m] d) pdos))"

lemma registered_slave_built:
  "registered_slave color (build_storage source) (storage_spec (build_storage source)) =
     style_text color Heading @ ''Slave '' @ dec (sc_id source) @ '': '' @ the (c_str (sc_name source)) @ style_text color Plain @ newline
     @ ''  Identity: vendor=0x'' @ hex_field 8 (sc_vendor_id source) @ '' product=0x'' @ hex_field 8 (sc_product_code source) @ newline
     @ listed_mappings ''RxPDO'' ''SM2, master -> slave'' Output (rx_pdos source)
     @ listed_mappings ''TxPDO'' ''SM3, slave -> master'' Input (tx_pdos source)
     @ registered_clock (sc_dc source)"
proof -
  let ?rx = "append_entry_views (rx_pdos source) Output" and ?tx = "append_entry_views (tx_pdos source) Input"
  have "registered_pdos ''RxPDO'' ''SM2, master -> slave'' (store_pdos (rx_pdos source)) (?rx @ ?tx) 0
      = (listed_mappings ''RxPDO'' ''SM2, master -> slave'' Output (rx_pdos source), length ?rx)"
    using registered_pdos_rows [OF store_pdos_chunks, of _ _ "rx_pdos source" "[]" Output ?tx]
    by (simp add: listed_mappings_def append_entry_views_concat [symmetric])
  moreover have "registered_pdos ''TxPDO'' ''SM3, slave -> master'' (store_pdos (tx_pdos source)) (?rx @ ?tx) (length ?rx)
      = (listed_mappings ''TxPDO'' ''SM3, slave -> master'' Input (tx_pdos source), length (?rx @ ?tx))"
    using registered_pdos_rows [OF store_pdos_chunks, of _ _ "tx_pdos source" ?rx Input "[]"]
    by (simp add: listed_mappings_def append_entry_views_concat [symmetric])
  ultimately show ?thesis
    by (simp add: registered_slave_def build_storage_def Let_def) (simp add: storage_spec_def)
qed

section \<open>Examples of the tests\<close>

lemma configured_entry_example:
  "configured_entry \<lparr>pe_name = ''Control Word'', pe_index = 0x6040, pe_sub_index = 0, pe_bit_length = 16\<rparr>
     = ''    0x6040:00     16      2  Control Word'' @ newline"
  by (simp add: configured_entry_def object_text_def hex_field_def lower_hex.simps dec_field_def setw_right_def
      show_nat.simps char_of_def bit_Suc_0_iff)
    (simp add: numeral_eq_Suc)

lemma init_command_row_example:
  "init_command_row \<lparr>ic_index = 0x6060, ic_sub_index = 0, ic_size = 1, ic_data = [8]\<rparr>
     = ''    0x6060:00  data[LE]=08 (1 bytes)'' @ newline"
  by (simp add: init_command_row_def object_text_def hex_field_def lower_hex.simps setw_right_def dec_def
      show_nat.simps char_of_def bit_Suc_0_iff)

end
