(* ===== verification/Process_Ends.thy ===== *)
theory Process_Ends
  imports Service_Correct Cyclic_Termination Reporter
begin

text \<open>
  The process ends with an exit status. The loops of the program that wait for the operating system
  take fuel in the model: the interrupted sleeps and the cycles of the task, and the interrupted writes
  of the discovered configuration. Here a bound on the interruptions and a stop request by some time give
  enough fuel for all of them at once, and from there on the result does not depend on the fuel.
\<close>

section \<open>More fuel changes nothing\<close>

lemma sleep_loop_stable:
  "fst (sleep_loop I k d w) \<noteq> None \<Longrightarrow> k \<le> k' \<Longrightarrow> sleep_loop I k' d w = sleep_loop I k d w"
proof (induction k arbitrary: k' w)
  case (Suc k)
  then obtain j where j: "k' = Suc j" "k \<le> j" by (metis Suc_le_D Suc_le_mono)
  obtain rc w1 b w2 where "ta_sleep I d w = (rc, w1)" "ta_stop I w1 = (b, w2)" by (metis prod.collapse)
  with Suc.IH [of w2 j] Suc.prems(1) j show ?case by (simp split: if_split_asm)
qed simp

lemma sleeps_end_stable:
  assumes "sleeps_end I k" "k \<le> k'"
  shows "sleep_loop I k' = sleep_loop I k"
  using assms by (intro ext sleep_loop_stable) (simp_all add: sleeps_end_def)

lemma startup_loop_sleeps:
  assumes "sleep_loop I k' = sleep_loop I k"
  shows "startup_loop A I k' n t s w = startup_loop A I k n t s w"
proof -
  have "startup_cycle A I k' = startup_cycle A I k"
    by (intro ext) (simp add: startup_cycle_def begin_cycle_def assms)
  then show ?thesis by (induction n arbitrary: t s w) (simp_all split: prod.split option.split)
qed

lemma running_loop_sleeps:
  assumes "sleep_loop I k' = sleep_loop I k"
  shows "running_loop A I k' n t r w = running_loop A I k n t r w"
proof -
  have "running_cycle A I k' = running_cycle A I k"
    by (intro ext) (simp add: running_cycle_def begin_cycle_def assms)
  then show ?thesis by (induction n arbitrary: t r w) (simp_all split: prod.split option.split)
qed

lemma run_task_sleeps:
  assumes "sleep_loop I k' = sleep_loop I k"
  shows "run_task A I k' n t w = run_task A I k n t w"
  by (simp add: run_task_def run_after_startup_def Let_def startup_loop_sleeps [OF assms] running_loop_sleeps [OF assms]
      split: prod.split sum.split option.split)

lemma startup_loop_stable:
  "fst (startup_loop A I k n t s w) \<noteq> Some NoFuel \<Longrightarrow> n \<le> n' \<Longrightarrow> startup_loop A I k n' t s w = startup_loop A I k n t s w"
proof (induction n arbitrary: n' t s w)
  case (Suc n)
  then obtain j where j: "n' = Suc j" "n \<le> j" by (metis Suc_le_D Suc_le_mono)
  obtain b w1 r t1 s1 w2 where "ta_stop I w = (b, w1)" "startup_cycle A I k t s w1 = (r, t1, s1, w2)" by (metis prod.collapse)
  with Suc.IH [of t1 s1 w2 j] Suc.prems(1) j show ?case by (cases r) (simp_all split: if_split_asm)
qed simp

lemma running_loop_stable:
  "fst (running_loop A I k n t r w) \<noteq> NoFuel \<Longrightarrow> n \<le> n' \<Longrightarrow> running_loop A I k n' t r w = running_loop A I k n t r w"
proof (induction n arbitrary: n' t r w)
  case (Suc n)
  then obtain j where j: "n' = Suc j" "n \<le> j" by (metis Suc_le_D Suc_le_mono)
  obtain b w1 cs mb w2 where k: "ta_stop I w = (b, w1)" "ta_console I (statistics_reset t, reports t) w1 = ((cs, mb), w2)"
    by (metis prod.collapse)
  obtain x t1 r1 w3 where "running_cycle A I k (t\<lparr>statistics_reset := cs, reports := mb\<rparr>) r w2 = (x, t1, r1, w3)"
    by (metis prod.collapse)
  with k Suc.IH [of t1 r1 w3 j] Suc.prems(1) j show ?case by (cases x) (simp_all split: if_split_asm)
qed simp

lemma run_after_startup_stable:
  "fst (run_after_startup A I k n t s w) \<noteq> NoFuel \<Longrightarrow> n \<le> n'
    \<Longrightarrow> run_after_startup A I k n' t s w = run_after_startup A I k n t s w"
proof -
  assume a: "fst (run_after_startup A I k n t s w) \<noteq> NoFuel" "n \<le> n'"
  obtain b w1 c w2 where "ta_stop I w = (b, w1)" "rt_monotonic (ta_rt I) w1 = (c, w2)" by (metis prod.collapse)
  with a running_loop_stable [OF _ a(2)] show ?thesis by (cases b; cases c) (simp_all add: run_after_startup_def Let_def)
qed

lemma run_task_stable:
  assumes "fst (run_task A I k n t w) \<noteq> NoFuel" "n \<le> n'"
  shows "run_task A I k n' t w = run_task A I k n t w"
proof (cases rule: run_task_cases [of I t w])
  case (refused e w1)
  then show ?thesis by simp
next
  case (started x w1)
  obtain r t1 s1 w2 where l: "startup_loop A I k n t (run_start t x) w1 = (r, t1, s1, w2)" by (metis prod.collapse)
  note run = run_task_start [OF started(2,1) l]
  with assms(1) have "r \<noteq> Some NoFuel" by auto
  with l assms(2) have l': "startup_loop A I k n' t (run_start t x) w1 = (r, t1, s1, w2)"
    using startup_loop_stable by (metis fst_conv)
  show ?thesis
    using assms(1) run run_task_start [OF started(2,1) l'] run_after_startup_stable [OF _ assms(2), of A I k t1 s1 w2]
    by (cases r) simp_all
qed

text \<open>Sleeps that end and a stop request by \<open>T\<close>: one amount of fuel for every task of this clock.\<close>

lemma run_task_settled:
  assumes "timed_task now I" "sleeps_end I k" "\<And>w. 0 \<le> now w" "\<And>w. T \<le> now w \<Longrightarrow> fst (ta_stop I w)"
    and "2 ^ 32 \<le> m" "T \<le> int m * 1000000" "k \<le> k'" "m < n"
  shows "run_task A I k' n = run_task A I k (Suc m)" "fst (run_task A I k (Suc m) t w) \<noteq> NoFuel"
proof -
  have ends: "fst (run_task A I k (Suc m) t w) \<noteq> NoFuel" for t w
  proof (cases "ct_period_us t < Cyclic_Task.kMinPeriodUs")
    case True
    then show ?thesis by (simp add: run_task_def)
  next
    case False
    then have "1000000 \<le> period_ns t" by (simp add: period_ns_def Cyclic_Task.kMinPeriodUs_def word_le_def linorder_not_less)
    then have per: "int m * 1000000 \<le> int m * period_ns t" by (intro mult_left_mono) simp_all
    have "uint (ct_op_timeout_ms t) < 2 ^ 32" using unsigned_less [where ?'a = int and w = "ct_op_timeout_ms t"] by simp
    moreover have "int (2 ^ 32) \<le> int m" using assms(5) by (rule of_nat_mono)
    ultimately have "uint (ct_op_timeout_ms t) \<le> int m" by simp
    with per have "uint (ct_op_timeout_ms t) * 1000000 \<le> int m * period_ns t" by linarith
    moreover have "T \<le> now w + int m * period_ns t" using assms(3) [of w] assms(6) per by linarith
    ultimately show ?thesis using run_task_ends [OF assms(1,2)] assms(4) by blast
  qed
  then show "fst (run_task A I k (Suc m) t w) \<noteq> NoFuel" .
  show "run_task A I k' n = run_task A I k (Suc m)"
    using run_task_sleeps [OF sleeps_end_stable [OF assms(2,7)]] run_task_stable [OF ends, of n] assms(8) by (intro ext) simp
qed

section \<open>The writes of the discovered configuration\<close>

text \<open>A bounded number of writes is interrupted; \<open>budget\<close> is how many are still to come.\<close>

definition writes_end :: "('f, 'w) writeback_api \<Rightarrow> ('w \<Rightarrow> nat) \<Rightarrow> nat \<Rightarrow> bool" where
  "writes_end F budget most \<longleftrightarrow> (\<forall>w. budget w \<le> most)
     \<and> (\<forall>fd t w. case wb_write F fd t w of
          (Inl interrupted, w') \<Rightarrow> if interrupted then budget w' < budget w else True
        | (Inr count, w') \<Rightarrow> budget w' \<le> budget w)"

lemma writes_end_dest:
  assumes "writes_end F budget most"
  shows "budget w \<le> most" "wb_write F fd t w = (Inl True, w') \<Longrightarrow> budget w' < budget w"
    "wb_write F fd t w = (Inr count, w') \<Longrightarrow> budget w' \<le> budget w"
  using assms unfolding writes_end_def by (simp_all, (metis (mono_tags, lifting) case_prod_conv sum.case)+)

lemma write_all_ends:
  assumes "writes_end F budget most"
  shows "budget w + length t \<le> n \<Longrightarrow> fst (write_all F n fd t w) \<noteq> None"
proof (induction n arbitrary: t w)
  case (Suc n)
  obtain r w1 where c: "wb_write F fd t w = (r, w1)" by fastforce
  show ?case
  proof (cases r)
    case (Inl interrupted)
    with c Suc.prems Suc.IH [of w1 t] writes_end_dest(2) [OF assms, of fd t w w1] show ?thesis by auto
  next
    case (Inr count)
    have "count \<noteq> 0 \<Longrightarrow> t \<noteq> [] \<Longrightarrow> budget w1 + length (drop count t) \<le> n"
      using writes_end_dest(3) [OF assms] c Inr Suc.prems by (cases t; cases count) fastforce+
    with c Inr Suc.IH [of w1 "drop count t"] show ?thesis by auto
  qed
qed simp

lemma write_all_stable:
  "fst (write_all F n fd t w) \<noteq> None \<Longrightarrow> n \<le> n' \<Longrightarrow> write_all F n' fd t w = write_all F n fd t w"
proof (induction n arbitrary: n' t w)
  case 0
  then show ?case by (cases n') (simp_all split: if_split_asm)
next
  case (Suc n)
  then obtain j where j: "n' = Suc j" "n \<le> j" by (metis Suc_le_D Suc_le_mono)
  obtain r w1 where "wb_write F fd t w = (r, w1)" by fastforce
  with Suc.IH [of t w1 j] Suc.IH [of "drop (projr r) t" w1 j] Suc.prems(1) j show ?case
    by (cases r) (simp_all split: if_split_asm)
qed

lemma write_all_settled:
  assumes "writes_end F budget most" "most + length t \<le> n"
  shows "write_all F n fd t = write_all F (most + length t) fd t" "fst (write_all F n fd t w) \<noteq> None"
proof -
  have e: "fst (write_all F (most + length t) fd t w) \<noteq> None" for w
    by (rule write_all_ends [OF assms(1)]) (simp add: writes_end_dest(1) [OF assms(1)])
  then show "write_all F n fd t = write_all F (most + length t) fd t" using assms(2) by (intro ext write_all_stable)
  with e show "fst (write_all F n fd t w) \<noteq> None" by simp
qed

lemma write_back_settled:
  assumes "writes_end F budget most" "most + length output \<le> n"
  shows "write_back A F n path target before source output resolved w
      = write_back A F (most + length output) path target before source output resolved w"
    "fst (write_back A F n path target before source output resolved w) \<noteq> SaveUnfinished"
proof -
  have r: "replace_file A F n path target before source output fd temp v
      = replace_file A F (most + length output) path target before source output fd temp v" for fd temp v
    by (simp add: replace_file_def write_all_settled(1) [OF assms] split: prod.split bool.split)
  show "write_back A F n path target before source output resolved w
      = write_back A F (most + length output) path target before source output resolved w"
    by (simp add: write_back_def r split: prod.split sum.split)
  have "fst (replace_file A F n path target before source output fd temp v) \<noteq> None" for fd temp v
  proof -
    obtain ok v1 wrote v2 where "preserve_owner F fd before v = (ok, v1)" "write_all F n fd output v1 = (wrote, v2)"
      by (metis prod.collapse)
    with write_all_settled(2) [OF assms, of fd v1] show ?thesis
      by (cases ok; cases wrote) (simp_all add: replace_file_def case_prod_beta split: bool.split)
  qed
  then have nr: "replace_file A F n path target before source output fd temp v \<noteq> (None, v')" for fd temp v v' by (metis fst_conv)
  obtain c v where "wb_mkstemp F (target @ ''.pdo-XXXXXX'') w = (c, v)" by fastforce
  with nr show "fst (write_back A F n path target before source output resolved w) \<noteq> SaveUnfinished"
    unfolding write_back_def by (simp split: sum.split prod.split option.split)
qed

section \<open>From the save to the initialization\<close>

text \<open>From some fuel on the value is the same, and it has \<open>P\<close>.\<close>

definition settled :: "('a \<Rightarrow> bool) \<Rightarrow> (nat \<Rightarrow> 'a) \<Rightarrow> bool" where
  "settled P f \<longleftrightarrow> (\<exists>N r. P r \<and> (\<forall>n \<ge> N. f n = r))"

lemma settled_const: "P r \<Longrightarrow> settled P (\<lambda>n. r)"
  by (auto simp: settled_def)

lemma settled_app: "settled Q f \<Longrightarrow> (\<And>r. Q r \<Longrightarrow> P (h r)) \<Longrightarrow> settled P (\<lambda>n. h (f n))"
  unfolding settled_def by metis

lemma settledI: "(\<And>n. N \<le> n \<Longrightarrow> f n = f N) \<Longrightarrow> P (f N) \<Longrightarrow> settled P f"
  unfolding settled_def by (intro exI [of _ N] exI [of _ "f N"]) blast

lemma settled_if:
  "(b \<Longrightarrow> settled P f) \<Longrightarrow> (\<not> b \<Longrightarrow> settled P g) \<Longrightarrow> settled P (\<lambda>n. if b then f n else g n)"
  by (cases b) simp_all

lemma save_discovered_settled:
  assumes "writes_end F budget most"
  shows "settled (\<lambda>r. fst r \<noteq> SaveUnfinished) (\<lambda>n. save_discovered A F n path original resolved w)"
proof -
  obtain c w1 where "wb_canonical F path w = (c, w1)" by fastforce
  moreover obtain f w2 where "read_source (wb_files F) (the c) w1 = (f, w2)" by fastforce
  moreover obtain b w3 where "wb_stat F (the c) w2 = (b, w3)" by fastforce
  moreover obtain d where "discovery_edits F (source_yaml original) original resolved = d" by blast
  moreover obtain e where "edited (projr d) (source_yaml original) = e" by blast
  moreover have "settled (\<lambda>r. fst r \<noteq> SaveUnfinished)
      (\<lambda>n. write_back A F n path target before source out new v)" for target before source out new v
    by (rule settledI [where N = "most + length out"])
      (erule write_back_settled(1) [OF assms], rule write_back_settled(2) [OF assms order_refl])
  ultimately show ?thesis
    unfolding save_discovered_def Let_def
    by (cases c; cases f; cases b; cases d; cases "projr d"; cases e) (simp_all add: settled_const settled_if cong: if_cong)
qed

lemma discover_settled:
  assumes "writes_end F budget most"
  shows "settled (\<lambda>r. fst r \<noteq> DiscoveryUnfinished) (\<lambda>n. discover_empty_entries A D F n path m due config w)"
proof -
  obtain r w1 where r: "discover_slaves A D m due (bc_slaves config) w = (r, w1)" by fastforce
  obtain now w2 where d: "dv_now D w1 = (now, w2)" by fastforce
  show ?thesis
  proof (cases "\<exists>read. r = Inr (read, True) \<and> now < due")
    case True
    then obtain read where "r = Inr (read, True)" "now < due" by blast
    with r d show ?thesis
      unfolding discover_empty_entries_def
      by simp (rule settled_app [OF save_discovered_settled [OF assms]], auto split: save_outcome.split_asm)
  next
    case False
    with r d show ?thesis
      unfolding discover_empty_entries_def
      by (cases r; cases "snd (projr r)") (auto intro!: settled_const)
  qed
qed

text \<open>No stage but the discovery gives the error that stands for an unfinished write.\<close>

definition returns :: "(init_error + 'a) \<times> 's \<Rightarrow> bool" where
  "returns r \<longleftrightarrow> fst r \<noteq> Inl NeverReturned"

lemma returns_intros:
  "returns m \<Longrightarrow> (\<And>a s. returns (f a s)) \<Longrightarrow> returns (and_do m f)" "returns (Inr a, s)" "e \<noteq> NeverReturned \<Longrightarrow> returns (Inl e, s)"
  by (auto simp: returns_def and_do_def split: prod.splits sum.splits) (metis fst_conv)?

lemma resolve_entries_settled:
  assumes "writes_end (ia_files I) budget most"
  shows "settled returns (\<lambda>n. resolve_entries A I n path due yaml config (em, w))"
proof (cases yaml)
  case None
  then show ?thesis by (simp add: resolve_entries_def settled_const returns_def)
next
  case (Some y)
  obtain source loaded where y: "y = (source, loaded)" by fastforce
  show ?thesis
  proof (cases "from_eni source")
    case True
    then show ?thesis using Some y by (simp add: resolve_entries_def settled_const returns_def)
  next
    case False
    then show ?thesis
      using Some y unfolding resolve_entries_def
      by simp (rule settled_app [OF discover_settled [OF assms]], auto simp: returns_def split: discovery_outcome.split_asm prod.split_asm option.split_asm)
  qed
qed

lemma identify_slaves_returns: "returns (identify_slaves I i ss s)"
proof (induction I i ss s rule: identify_slaves.induct)
  case (2 I i slave rest em w)
  obtain rc info w1 where "ia_slave I (master em) (sp_position slave) w = ((rc, info), w1)" by (metis prod.collapse)
  moreover have "identify i slave info \<noteq> Inl NeverReturned"
    by (auto simp: identify_def split: option.split)
  ultimately show ?case using 2 by (auto split: sum.split intro!: returns_intros)
qed (simp add: returns_intros)

lemma configure_slave_returns: "returns (configure_slave I plan i slave reference s)"
proof -
  have "configure_clock I plan i slave sc reference w \<noteq> (Inl NeverReturned, w')" for sc w w'
    by (auto simp: configure_clock_def split: option.split prod.split)
  then show ?thesis
    by (auto simp: returns_def configure_slave_def Let_def split: prod.split option.split sum.split)
qed

lemma configure_all_returns: "returns (configure_all I plan i ss reference s)"
  by (induction ss arbitrary: i reference s)
    (auto intro!: returns_intros configure_slave_returns split: prod.split)

lemma stages_return:
  "returns (reach_preop I mid config timeout_ms s)"
  "returns (create_domains I s)" "returns (select_reference I plan reference s)"
  "returns (verify_preop I due tries config s)" "returns (activate_master I dc s)"
  "returns (finish_layout A I dc config s)"
  by (auto simp: returns_def reach_preop_def create_domains_def select_reference_def verify_preop_def activate_master_def
      finish_layout_def Let_def split: prod.split option.split)

lemma bring_up_settled:
  assumes "writes_end (ia_files I) budget most"
  shows "settled returns (\<lambda>n. bring_up A I n mid config plan timeout_ms tries yaml path s)"
proof -
  obtain r em w where r: "reach_preop I mid config timeout_ms s = (r, em, w)" by (metis prod.collapse)
  show ?thesis
  proof (cases r)
    case (Inl e)
    with r stages_return(1) [of I mid config timeout_ms s] show ?thesis
      by (simp add: bring_up_def settled_const returns_def)
  next
    case (Inr due)
    with r show ?thesis
      unfolding bring_up_def
      by simp (rule settled_app [OF resolve_entries_settled [OF assms]],
        auto intro!: returns_intros identify_slaves_returns configure_all_returns stages_return simp: Let_def split: prod.split)
  qed
qed

lemma initialize_impl_settled:
  assumes "writes_end (ia_files I) budget most"
  shows "settled returns (\<lambda>n. initialize_impl A I n mid config dc per timeout_ms tries yaml path em w)"
proof -
  let ?close = "\<lambda>r. case r of (Inr config, em, w) \<Rightarrow> (Inr config, em, w)
      | (Inl NeverReturned, em, w) \<Rightarrow> (Inl NeverReturned, em, w)
      | (Inl err, em, w) \<Rightarrow> (case master_reset (ia_rt I) em w of (em, w) \<Rightarrow> (Inl err, em, w))"
  have close: "returns (?close r)" if "returns r" for r
    using that by (auto simp: returns_def split: prod.split sum.split init_error.split)
  obtain plan e where plan: "build_dc_runtime config dc per = (plan, e)" by fastforce
  have start: "settled returns (\<lambda>n. if ssc_slave_count config = 0 then (Inl NoSlaveConfiguration, em, w)
           else case validate_slave_config A config of
             Some err \<Rightarrow> (Inl (InvalidConfiguration err), em, w)
           | None \<Rightarrow> (case build_dc_runtime config dc per of
               (_, Some err) \<Rightarrow> (Inl (NoClockPlan err), em, w)
             | (plan, None) \<Rightarrow> bring_up A I n mid config plan timeout_ms tries yaml path (em, w)))" for em
    using plan by (cases "validate_slave_config A config"; cases e)
      (auto intro!: settled_const settled_if returns_intros bring_up_settled [OF assms])
  have "settled returns (\<lambda>n. ?close (if ssc_slave_count config = 0 then (Inl NoSlaveConfiguration, em, w)
           else case validate_slave_config A config of
             Some err \<Rightarrow> (Inl (InvalidConfiguration err), em, w)
           | None \<Rightarrow> (case build_dc_runtime config dc per of
               (_, Some err) \<Rightarrow> (Inl (NoClockPlan err), em, w)
             | (plan, None) \<Rightarrow> bring_up A I n mid config plan timeout_ms tries yaml path (em, w))))" for em
    by (rule settled_app [OF start, where h = ?close]) (rule close)
  then show ?thesis
    unfolding initialize_impl_def Let_def by (intro settled_if settled_const) (simp_all add: returns_def)
qed

lemma initialize_with_settled:
  assumes "writes_end (ia_files I) budget most"
  shows "settled returns (\<lambda>n. initialize_with A I n options config loaded em w)"
proof -
  obtain tables e where "build_config A config loaded = (tables, e)" by fastforce
  then show ?thesis
    unfolding initialize_with_def
    by (cases e) (auto intro!: settled_const settled_if returns_intros initialize_impl_settled [OF assms])
qed

section \<open>The reporter thread\<close>

text \<open>
  Stopping the reporter waits for its thread. Every call of the thread keeps the time, a sleep takes at
  least its duration, and a command is unfinished only when its handler is.
\<close>

definition timed_reporter :: "('w \<Rightarrow> int) \<Rightarrow> ('r, 'w) reporter_api \<Rightarrow> bool" where
  "timed_reporter now R \<longleftrightarrow>
     keeps_time now (\<lambda>w. snd (rp_stop R w)) \<and> keeps_time now (\<lambda>w. snd (rp_prepared R w))
     \<and> keeps_time now (\<lambda>w. snd (rp_ready R w)) \<and> keeps_time now (\<lambda>w. snd (rp_mask R w))
     \<and> keeps_time now (\<lambda>w. snd (rp_take R w)) \<and> keeps_time now (\<lambda>w. snd (rp_acknowledged R w))
     \<and> keeps_time now (\<lambda>w. snd (rp_now R w)) \<and> (\<forall>x. keeps_time now (rp_print R x))
     \<and> (\<forall>h. keeps_time now (\<lambda>w. snd (rp_process_command R h w)))
     \<and> (\<forall>d w. now w + d \<le> now (rp_sleep R d w))
     \<and> (\<forall>h w w'. rp_process_command R h w = (False, w') \<longrightarrow> (\<exists>request v. fst (h request v) = None))"

lemma timed_reporter_calls:
  assumes "timed_reporter now R" "t0 \<le> now w"
  shows "t0 \<le> now (snd (rp_stop R w))" "t0 \<le> now (snd (rp_prepared R w))" "t0 \<le> now (snd (rp_ready R w))"
    "t0 \<le> now (snd (rp_mask R w))" "t0 \<le> now (snd (rp_take R w))" "t0 \<le> now (snd (rp_acknowledged R w))"
    "t0 \<le> now (snd (rp_now R w))" "t0 \<le> now (rp_print R x w)" "t0 \<le> now (snd (rp_process_command R h w))"
  using assms(1) unfolding timed_reporter_def keeps_time_def by (auto simp del: split_paired_All intro: order_trans [OF assms(2)])

lemma reporter_sleep:
  assumes "timed_reporter now R" "t0 \<le> now w"
  shows "t0 + d \<le> now (rp_sleep R d w)"
proof -
  have "now w + d \<le> now (rp_sleep R d w)" using assms(1) by (simp add: timed_reporter_def)
  with assms(2) show ?thesis by simp
qed

lemma await_ticket_ends:
  assumes "timed_reporter now R" and stop: "\<And>w. T \<le> now w \<Longrightarrow> fst (rp_stop R w)"
  shows "T \<le> now w + int n * 1000000 \<Longrightarrow> fst (await_ticket R (Suc n) ticket due w) \<noteq> None"
proof (induction n arbitrary: w)
  case 0
  then have "T \<le> now (snd (rp_acknowledged R w))" using timed_reporter_calls(6) [OF assms(1)] by simp
  from stop [OF this] show ?case by (simp add: case_prod_beta)
next
  case (Suc n)
  let ?v = "snd (rp_now R (snd (rp_stop R (snd (rp_acknowledged R w)))))"
  have "now w \<le> now ?v" by (intro timed_reporter_calls [OF assms(1)]) simp
  then have "now w + 1000000 \<le> now (rp_sleep R 1000000 ?v)" by (rule reporter_sleep [OF assms(1)])
  with Suc.prems have "T \<le> now (rp_sleep R 1000000 ?v) + int n * 1000000" by simp
  from Suc.IH [OF this] show ?case
    by (subst await_ticket.simps(2)) (simp add: case_prod_beta del: await_ticket.simps)
qed

lemma handle_command_ends:
  assumes "timed_reporter now R" "\<And>w. T \<le> now w \<Longrightarrow> fst (rp_stop R w)" "\<And>w. 0 \<le> now w" "T \<le> int n * 1000000"
  shows "fst (handle_command R (Suc n) request w) \<noteq> None"
proof -
  have "fst (await_ticket R (Suc n) ticket due v) \<noteq> None" for ticket due v
    by (rule await_ticket_ends [OF assms(1,2)], assumption) (use assms(3) [of v] assms(4) in linarith)
  then show ?thesis
    by (simp add: handle_command_def execute_reset_def case_prod_beta del: await_ticket.simps)
qed

lemma reporter_cycle_ends:
  assumes "timed_reporter now R" "\<And>w. T \<le> now w \<Longrightarrow> fst (rp_stop R w)" "\<And>w. 0 \<le> now w" "T \<le> int n * 1000000"
    and "reporter_cycle R K specs (Suc n) l w = (e, l', w')"
  shows "e \<noteq> Stuck" "e = Continue \<Longrightarrow> \<not> fst (rp_stop R w) \<and> now w + 10000000 \<le> now w'"
proof -
  obtain b w1 l1 w2 where stop: "rp_stop R w = (b, w1)" and ann: "announce_realtime R l w1 = (l1, w2)" by (metis prod.collapse)
  obtain ok w3 where cmd: "(if b then (True, w2) else rp_process_command R (handle_command R (Suc n)) w2) = (ok, w3)"
    by (metis prod.collapse)
  have ok: "ok"
  proof (rule ccontr)
    assume "\<not> ok"
    with cmd have "rp_process_command R (handle_command R (Suc n)) w2 = (False, w3)" by (simp split: if_split_asm)
    then show False using assms(1) handle_command_ends [OF assms(1-4)] by (metis timed_reporter_def)
  qed
  have "now w \<le> now w1" using timed_reporter_calls(1) [OF assms(1) order_refl, of w] stop by simp
  then have "now w \<le> now w2"
    using ann timed_reporter_calls(2,8) [OF assms(1)]
    by (auto simp: announce_realtime_def split: if_split_asm prod.split_asm) (metis snd_conv)+
  then have w3: "now w \<le> now w3" using cmd timed_reporter_calls(9) [OF assms(1)] by (auto split: if_split_asm) (metis snd_conv)
  note calls = timed_reporter_calls [OF assms(1)]
  show "e \<noteq> Stuck" "e = Continue \<Longrightarrow> \<not> fst (rp_stop R w) \<and> now w + 10000000 \<le> now w'"
    using assms(5) stop ann cmd ok w3 calls(3,4,5,7,8) reporter_sleep [OF assms(1)]
    by (auto simp: reporter_cycle_def Let_def case_prod_beta split: if_split_asm option.split_asm)
qed

text \<open>The thread returns, stopped, within the sleeps that fit before the time \<open>T\<close> of the stop flag.\<close>

lemma reporter_ends:
  assumes "timed_reporter now R" "\<And>w. T \<le> now w \<Longrightarrow> fst (rp_stop R w)" "\<And>w. 0 \<le> now w" "T \<le> int n * 1000000"
  shows "fst (run_reporter R K specs (Suc n) (Suc n) w) = Stopped"
proof -
  have loop: "fst (reporter_loop R K specs (Suc n) (Suc i) l w) = Stopped" if "T \<le> now w + int i * 10000000" for i l w
    using that
  proof (induction i arbitrary: l w)
    case 0
    obtain e l' w' where c: "reporter_cycle R K specs (Suc n) l w = (e, l', w')" by (metis prod.collapse)
    then show ?case using reporter_cycle_ends [OF assms c] assms(2) [of w] 0 by (cases e) simp_all
  next
    case (Suc i)
    obtain e l' w' where c: "reporter_cycle R K specs (Suc n) l w = (e, l', w')" by (metis prod.collapse)
    show ?case
    proof (cases e)
      case Continue
      with reporter_cycle_ends(2) [OF assms c] Suc.prems have "T \<le> now w' + int i * 10000000" by simp
      from Suc.IH [OF this] show ?thesis using c Continue by (subst reporter_loop.simps(2)) simp
    qed (use reporter_cycle_ends(1) [OF assms c] c in \<open>simp_all add: reporter_loop.simps(2)\<close>)
  qed
  have "T \<le> now (snd (rp_now R w)) + int n * 10000000" using assms(3) [of "snd (rp_now R w)"] assms(4) by simp
  from loop [OF this] show ?thesis by (simp add: run_reporter_def case_prod_beta del: reporter_loop.simps)
qed

section \<open>The process\<close>

lemma early_errors:
  "fst (reported P (load_options A P args w)) \<noteq> Inl NotTerminated" "fst (reported P (prepare_thread P options w)) \<noteq> Inl NotTerminated"
  by (auto simp: reported_def load_options_def prepare_thread_def install_signals_def Let_def
      split: prod.split option.split sum.split bool.split)

lemma serve_errors: "fst (serve A P options config em w) \<noteq> Inl NotTerminated"
  by (auto simp: serve_def publish_metadata_def expose_def Let_def split: prod.split option.split sum.split bool.split)

lemma run_service_settled:
  assumes "run_task A (pr_task P) fuel n = run_task A (pr_task P) k m" "\<And>t w. fst (run_task A (pr_task P) k m t w) \<noteq> NoFuel"
  shows "run_service A P fuel n options config em w = run_service A P k m options config em w"
    "fst (run_service A P k m options config em w) \<noteq> Inl NotTerminated"
proof -
  have stop: "run_and_stop A P fuel n options st v = run_and_stop A P k m options st v" for st v
    by (simp add: run_and_stop_def assms(1))
  have "fst (run_and_stop A P k m options st v) \<noteq> Inl NotTerminated" for st v
    using assms(2) [of "make_task options st" v] by (auto simp: run_and_stop_def split: prod.split cycle_exit.split)
  moreover obtain r st v where "serve A P options config em w = (r, st, v)" by (metis prod.collapse)
  moreover have "fst (serve A P options config em w) \<noteq> Inl NotTerminated" by (rule serve_errors)
  ultimately show "run_service A P fuel n options config em w = run_service A P k m options config em w"
    "fst (run_service A P k m options config em w) \<noteq> Inl NotTerminated"
    by (cases r; auto simp: run_service_def stop split: prod.split; metis fst_conv)+
qed

text \<open>The initialization and the service, once the thread is prepared.\<close>

lemma main_result_prepared:
  assumes task: "\<And>fuel n. M \<le> fuel \<Longrightarrow> M \<le> n \<Longrightarrow> run_task A (pr_task P) fuel n = run_task A (pr_task P) k m"
      "\<And>t w. fst (run_task A (pr_task P) k m t w) \<noteq> NoFuel"
    and writes: "writes_end (ia_files (pr_init P)) budget most"
    and loaded: "reported P (load_options A P args w) = (Inr (options, config), w1)"
      "reported P (prepare_thread P options w1) = (Inr u, w2)"
  shows "\<exists>N r. fst r \<noteq> Inl NotTerminated \<and> (\<forall>fuel n. N \<le> fuel \<longrightarrow> N \<le> n \<longrightarrow> main_result A P fuel n args w = r)"
proof -
  obtain N1 i where i: "returns i" "\<And>fuel. N1 \<le> fuel \<Longrightarrow> initialize_with A (pr_init P) fuel options config
      \<lparr>lc_storage = [], lc_slaves = []\<rparr> ethercat_master_init w2 = i"
    using initialize_with_settled [OF writes] unfolding settled_def by metis
  obtain t em w3 where t: "i = (t, em, w3)" by (metis prod.collapse)
  have main: "main_result A P fuel n args w = (case i of (Inl NeverReturned, em, w) \<Rightarrow> (Inl NotTerminated, w)
    | (Inl err, em, w) \<Rightarrow>
        (case master_reset (ia_rt (pr_init P)) em (pr_print P (LineError (StartupFailed err)) w) of
           (em, w) \<Rightarrow> (Inl (StartupFailed err), w))
    | (Inr tables, em, w) \<Rightarrow>
        (case run_service A P fuel n options tables em
            (pr_print P (LineActivated (em_input_size em) (em_output_size em)) (pr_print P (LineTables tables) w)) of
           (r, st, w) \<Rightarrow> (r, w)))" if "N1 \<le> fuel" for fuel n
    using loaded i(2) [OF that] by (simp add: main_result_def)
  show ?thesis
  proof (cases t)
    case (Inl e)
    obtain em' w4 where "master_reset (ia_rt (pr_init P)) em (pr_print P (LineError (StartupFailed e)) w3) = (em', w4)" by fastforce
    with i(1) t Inl have "main_result A P fuel n args w = (Inl (StartupFailed e), w4)" if "N1 \<le> fuel" for fuel n
      unfolding main [OF that] by (cases e) (simp_all add: returns_def)
    then show ?thesis by (intro exI [of _ N1] exI [of _ "(Inl (StartupFailed e), w4)"]) simp
  next
    case (Inr tables)
    obtain r st w4 where r: "run_service A P k m options tables em (pr_print P
        (LineActivated (em_input_size em) (em_output_size em)) (pr_print P (LineTables tables) w3)) = (r, st, w4)"
      by (metis prod.collapse)
    have "main_result A P fuel n args w = (r, w4)" if "max N1 M \<le> fuel" "max N1 M \<le> n" for fuel n
      using that r t Inr main [of fuel n] run_service_settled(1) [OF task(1) task(2), of fuel n] by simp
    moreover have "r \<noteq> Inl NotTerminated" using run_service_settled(2) [OF refl task(2)] r by (metis fst_conv)
    ultimately show ?thesis by (intro exI [of _ "max N1 M"] exI [of _ "(r, w4)"]) simp
  qed
qed

lemma main_result_settled:
  assumes "\<And>fuel n. M \<le> fuel \<Longrightarrow> M \<le> n \<Longrightarrow> run_task A (pr_task P) fuel n = run_task A (pr_task P) k m"
    and "\<And>t w. fst (run_task A (pr_task P) k m t w) \<noteq> NoFuel" "writes_end (ia_files (pr_init P)) budget most"
  shows "\<exists>N r. fst r \<noteq> Inl NotTerminated \<and> (\<forall>fuel n. N \<le> fuel \<longrightarrow> N \<le> n \<longrightarrow> main_result A P fuel n args w = r)"
proof -
  obtain a w1 where a: "reported P (load_options A P args w) = (a, w1)" by fastforce
  show ?thesis
  proof (cases a)
    case (Inl e)
    with a early_errors(1) [of P A args w] show ?thesis by (intro exI [of _ 0] exI [of _ "(Inl e, w1)"]) (simp add: main_result_def)
  next
    case (Inr oc)
    obtain options config where oc: "oc = (options, config)" by fastforce
    obtain b w2 where b: "reported P (prepare_thread P options w1) = (b, w2)" by fastforce
    show ?thesis
    proof (cases b)
      case (Inl e)
      with a b Inr oc early_errors(2) [of P options w1] show ?thesis
        by (intro exI [of _ 0] exI [of _ "(Inl e, w2)"]) (simp add: main_result_def)
    next
      case Ok: (Inr u)
      show ?thesis
        by (rule main_result_prepared [OF assms]) (use a b Inr oc Ok in simp_all)
    qed
  qed
qed

text \<open>
  Claim C39. The process ends with exit status 0 or 1, whatever its arguments, the configuration file,
  the slaves and the calls of the operating system answer, once a stop is requested by some time of a
  clock that does not run backwards, sleeps are interrupted a bounded number of times in a row, and
  writes a bounded number of times in all. Its status and its last state do not depend on the fuel.
\<close>

theorem process_ends:
  fixes P :: "('m, 'd, 'c, 'q, 'p, 'f, 'r::linordered_field, 'w) process_api"
  assumes "timed_task now (pr_task P)" "\<And>w. 0 \<le> now w" "\<And>w. T \<le> now w \<Longrightarrow> fst (ta_stop (pr_task P) w)"
    and "sleeps_end (pr_task P) k" "writes_end (ia_files (pr_init P)) budget most"
  shows "\<exists>N code w'. (code = 0 \<or> code = 1) \<and> (\<forall>fuel n. N \<le> fuel \<longrightarrow> N \<le> n \<longrightarrow> process_main A P fuel n args w = (Some code, w'))"
proof -
  define m where "m = max (2 ^ 32) (nat T)"
  have m: "2 ^ 32 \<le> m" "T \<le> int m * 1000000" by (auto simp: m_def intro: order_trans [of T "int (nat T)"])
  note task = run_task_settled [OF assms(1,4,2,3) m, where A = A]
  obtain N r where r: "fst r \<noteq> Inl NotTerminated"
    "\<And>fuel n. N \<le> fuel \<Longrightarrow> N \<le> n \<Longrightarrow> main_result A P fuel n args w = r"
    using main_result_settled [where M = "max k (Suc m)" and m = "Suc m" and k = k, OF _ _ assms(5)] task by (metis Suc_le_eq max.bounded_iff order_refl)
  obtain x w' where x: "r = (x, w')" by fastforce
  show ?thesis
  proof (cases "x = Inr () \<or> x = Inl HelpShown")
    case True
    then show ?thesis using r x by (intro exI [of _ N] exI [of _ 0] exI [of _ w']) (auto simp: process_main_def)
  next
    case False
    then obtain e where "x = Inl e" "e \<noteq> HelpShown" "e \<noteq> NotTerminated" using r(1) x by (cases x) auto
    then show ?thesis
      using r(2) x by (intro exI [of _ N] exI [of _ 1] exI [of _ w']) (cases e; simp add: process_main_def)
  qed
qed

text \<open>
  A process on a clock in nanoseconds that starts at 0: a sleep sets the clock, the stop comes after
  3 ms, and a write takes one character at a time.
\<close>

definition ending_rt :: "(unit, unit, unit, unit, nat) rt_api" where
  "ending_rt = \<lparr>al_op = 8, rt_receive = (\<lambda>m w. w), rt_process = (\<lambda>d w. w), rt_application_time = (\<lambda>m t w. (0, w)),
     rt_queue = (\<lambda>d w. w), rt_monotonic = (\<lambda>w. (Inr (from_nanoseconds (int w)), w)),
     rt_sync_reference_clock_to = (\<lambda>m t w. (0, w)), rt_sync_slave_clocks = (\<lambda>m w. (0, w)), rt_send = (\<lambda>m w. w),
     rt_master_state = (\<lambda>m w. ((0, \<lparr>ms_slaves_responding = 1, ms_al_states = 8, ms_link_up = 1\<rparr>), w)),
     rt_domain_state = (\<lambda>d w. ((0, \<lparr>ds_working_counter = 1, ds_wc_state = EC_WC_COMPLETE\<rparr>), w)),
     rt_slave_config_state = (\<lambda>c w. ((0, \<lparr>cs_online = True, cs_operational = True, cs_al_state = 8\<rparr>), w)),
     rt_copy = (\<lambda>p q n w. w), rt_activate = (\<lambda>m w. (0, w)), rt_release = (\<lambda>m w. w)\<rparr>"

definition ending_requests :: "(unit, unit, nat) request_api" where
  "ending_requests = \<lparr>create_sdo_request = (\<lambda>c i sub n w. (Some (), w)), sdo_request_timeout = (\<lambda>q ms w. (0, w)),
     sdo_request_index = (\<lambda>q i sub w. (0, w)), sdo_request_read = (\<lambda>q w. (0, w)),
     sdo_request_state = (\<lambda>q w. (EC_REQUEST_BUSY, w)), sdo_request_data_size = (\<lambda>q w. (0, w)),
     sdo_request_data = (\<lambda>q w. (None, w))\<rparr>"

definition ending_task :: "(unit, unit, unit, unit, unit, rat, nat) task_api" where
  "ending_task = \<lparr>ta_rt = ending_rt, ta_requests = ending_requests,
     ta_realtime = (\<lambda>w. (Inr (from_nanoseconds (int w)), w)), ta_sleep = (\<lambda>d w. (0, max w (nat (to_nanoseconds d)))),
     ta_stop = (\<lambda>w. (3000000 \<le> w, w)), ta_notify = (\<lambda>w. w), ta_wc_code = (\<lambda>s. 2), ta_console = (\<lambda>x w. (x, w))\<rparr>"

definition ending_files :: "nat config_files" where
  "ending_files = \<lparr>read_source = (\<lambda>p w. (Inr ''version: 1'', w)), yaml_load = (\<lambda>t. Some (YMap [(plain ''version'', plain ''1'')])),
     read_xml = (\<lambda>p w. (None, w))\<rparr>"

definition ending_save :: "(unit, nat) writeback_api" where
  "ending_save = \<lparr>wb_files = ending_files, wb_canonical = (\<lambda>p w. (Some p, w)), wb_stat = (\<lambda>p w. (None, w)),
     wb_mkstemp = (\<lambda>p w. (Inr ((), p), w)), wb_fstat = (\<lambda>fd w. (None, w)), wb_fchown = (\<lambda>fd u g w. (True, w)),
     wb_fchmod = (\<lambda>fd m w. (True, w)), wb_write = (\<lambda>fd t w. (Inr 1, w)), wb_fsync = (\<lambda>fd w. (True, w)),
     wb_rename = (\<lambda>a b w. (True, w)), wb_close = (\<lambda>fd w. w), wb_unlink = (\<lambda>p w. w),
     entries_mark = (\<lambda>t s rx p. None), emit_entries = (\<lambda>es. None)\<rparr>"

definition ending_slave :: slave_info where
  "ending_slave = \<lparr>si_vendor_id = 1, si_product_code = 1, si_revision_number = 1, si_serial_number = 1,
     si_al_state = 2, si_error_flag = 0\<rparr>"

definition ending_init :: "(unit, unit, unit, unit, unit, unit, nat) init_api" where
  "ending_init = \<lparr>ia_request_master = (\<lambda>i w. (Some (), w)),
     ia_master_info = (\<lambda>m w. ((0, \<lparr>mi_slave_count = 1, mi_link_up = True, mi_scan_busy = False\<rparr>), w)),
     ia_slave = (\<lambda>m p w. ((0, ending_slave), w)), ia_create_domain = (\<lambda>m w. (Some (), w)),
     ia_slave_config = (\<lambda>m a p v c w. (Some (), w)), ia_config_pdos = (\<lambda>c s w. (0, w)), ia_config_dc = (\<lambda>c a s t u v w. (0, w)),
     ia_register = (\<lambda>c s p e d w. ((0, 0), w)), ia_select_reference = (\<lambda>m c w. (0, w)), ia_domain_data = (\<lambda>d w. (Some (), w)),
     ia_domain_size = (\<lambda>d w. (8, w)), ia_clear = (\<lambda>p n w. w), ia_print = (\<lambda>x w. w),
     ia_steady = \<lparr>sa_preop = 2, sa_query = (\<lambda>p w. ((0, ending_slave), w)), steady_ns = (\<lambda>w. (int w, w)), sleep_until = (\<lambda>t w. max w (nat t))\<rparr>,
     ia_preop = \<lparr>al_preop = 2, get_slave = (\<lambda>p w. ((0, ending_slave), w)), sdo_download = (\<lambda>p i s d w. ((0, 0), w)),
       sdo_upload = (\<lambda>p i s w. ((0, [0], 1, 0), w)), monotonic_ns = (\<lambda>w. (Inr (int w), w))\<rparr>,
     ia_requests = ending_requests, ia_rt = ending_rt,
     ia_discovery = \<lparr>dv_preop = 2, dv_slave = (\<lambda>p w. ((0, ending_slave), w)), dv_upload = (\<lambda>p i s w. ((0, [0], 1, 0), w)),
       dv_now = (\<lambda>w. (int w, w))\<rparr>,
     ia_files = ending_save\<rparr>"

definition ending_process :: "(unit, unit, unit, unit, unit, unit, rat, nat) process_api" where
  "ending_process = \<lparr>pr_version = ''3'', pr_cmd_reset_stats = 1, pr_task = ending_task,
     pr_cpu = \<lparr>cpu_setsize = 64, set_affinity = (\<lambda>t s w. (None, w)), get_affinity = (\<lambda>t w. (Inr {0}, w)), start_probe = (\<lambda>w. (True, w))\<rparr>,
     pr_print = (\<lambda>x w. w), pr_create_shm = (\<lambda>i w. (True, w)), pr_create_pd = (\<lambda>i j w. (Some (Some (), Some ()), w)),
     pr_start_reporter = (\<lambda>w. (True, w)), pr_stop_reporter = (\<lambda>w. w), pr_publish_ready = (\<lambda>w. (True, w)),
     pr_clear_ready = (\<lambda>w. w), pr_announce_prepared = (\<lambda>w. w), pr_mlockall = (\<lambda>w. (None, w)), pr_touch_stack = (\<lambda>i w. w),
     pr_setscheduler = (\<lambda>p w. (None, w)), pr_close_ipc = (\<lambda>w. w),
     pr_files = ending_files, pr_init = ending_init, pr_getres = (\<lambda>w. (Inr \<lparr>tv_sec = 0, tv_nsec = 1\<rparr>, w)),
     pr_sigemptyset = (\<lambda>w. (True, w)), pr_sigaction = (\<lambda>s w. (True, w))\<rparr>"

theorem process_ends_witness:
  "\<exists>N code w'. (code = 0 \<or> code = 1) \<and> (\<forall>fuel n. N \<le> fuel \<longrightarrow> N \<le> n \<longrightarrow>
     process_main abi_example ending_process fuel n [''--config'', ''a.yaml''] 0 = (Some code, w'))"
proof (rule process_ends [where now = int and T = 3000000 and k = 1 and budget = "\<lambda>w. 0" and most = 0])
  show "timed_task int (pr_task ending_process)"
    by (simp add: timed_task_def timed_rt_def timed_requests_def keeps_time_def ending_process_def ending_task_def
        ending_rt_def ending_requests_def of_nat_max le_max_iff_disj)
  show "sleeps_end (pr_task ending_process) 1"
    by (simp add: sleeps_end_def ending_process_def ending_task_def EINTR_def)
qed (simp_all add: writes_end_def ending_process_def ending_task_def ending_init_def ending_save_def)

end
