(* ===== verification/Spec2Isabelle.thy ===== *)
theory Spec2Isabelle
  imports Cycle_Timing Cycle_Statistics Startup_Gate Report_Mailbox Shared_Bus Statistics_Reset
    Process_Data_Layout Runtime_Options Preop_Correct Preop_Wait Master_Cycle
    Cyclic_Run Config_File Eni_Pdos Discovery_Correct Init_Correct
    Service_Correct Cyclic_Termination Reporter_Correct Console_Text Process_Ends
begin

text \<open>
  A verification development for rocos-igh, a C++ EtherCAT master process: it reads a bus description,
  brings the slaves of an IgH master up, configures and reads back their PDO mappings, and then runs a
  realtime cycle that exchanges process data with client processes over shared memory.

  \<^bold>\<open>How the program works.\<close> \<open>main\<close> (src/main.cpp) parses the command line, loads the startup file (YAML,
  inline or with a referenced ENI), prepares signals and CPU, and initializes \<open>EthercatMaster\<close>:
  validation and the clock plan, request of the master, wait for PREOP, discovery of unlisted PDO entries
  (with a writeback of the file), identities, domains, slave configuration and registration, the guarded
  SDO configuration in PREOP, activation, the process data layout. Then it publishes the metadata in
  shared memory, starts the reporter thread, raises the ready flag, and calls \<open>CyclicTask::run\<close>: a
  startup loop that waits for OP, reads the mappings back and waits for five healthy cycles, and the
  running loop that exchanges data. The reporter thread serves commands and prints what the cyclic
  thread leaves in a mailbox. The threads share the mailbox flag, the reset tickets and the stop flag.

  \<^bold>\<open>The theories\<close>, in the order of their imports. Definitions have the names of the code, in lower case
  with underscores.

  \<^item> \<open>Rocos_Prelude\<close>: machine types, the little-endian codec, the locales \<open>safety\<close> (invariants of step
    relations) and \<open>consecutive_counter\<close>. \<open>Checked_Results\<close>: errors as sums, state with errors, traversal,
    the locale \<open>codec\<close> (a reader that accepts exactly what it can be given).
  \<^item> \<open>Cycle_Timing\<close>, \<open>Cycle_Statistics\<close>: the clock arithmetic and the accumulators of cyclic_task.cpp and
    runtime_report.hpp. The deadline is on its phase grid, later, and no signed operation overflows. Both
    accumulators are instances of one locale of running summaries: count, minimum and maximum are exact
    and equal. Their means are equal in exact arithmetic only; with every operation on \<open>double\<close> rounded
    by an arbitrary function (\<open>account_cycle_duration_rounded\<close>, \<open>timing_add_rounded\<close>) each is within a
    stated bound of the arithmetic mean.
  \<^item> \<open>Startup_Gate\<close>, \<open>Report_Mailbox\<close>, \<open>Statistics_Reset\<close>: startup_wait.hpp, runtime_report.hpp and
    statistics_reset.hpp. The mailbox and the reset are step relations of two threads, with invariants,
    and the mailbox refines a buffer of one place.
  \<^item> \<open>Shared_Bus\<close>: the shared record and its per-cycle update. \<open>Pdo_Config_Types\<close>: pdo_config.hpp.
  \<^item> \<open>Slave_Config\<close>, \<open>Loaded_Config\<close>: slave_config.cpp. The pointer tables of the IgH interface are
    built, validated and published; \<open>array p n\<close> is what a pointer and a count denote.
  \<^item> \<open>Process_Data_Layout\<close>: process_data_layout.cpp. \<open>Runtime_Options\<close>: runtime_options.cpp.
  \<^item> \<open>Pdo_Verification\<close>: the checks and the cyclic readback of pdo_verification.cpp.
    \<open>Preop_Configuration\<close> (definitions), \<open>Preop_Trace\<close>, \<open>Preop_Correct\<close>: \<open>configurePreop\<close>, with the log of
    the transfers it makes: exchanges of one transfer between two passed checks, up to the first check
    that is refused.
  \<^item> \<open>Ethercat_Master\<close>, \<open>Preop_Wait\<close>, \<open>Master_Cycle\<close>: the object of ethercat_master.cpp, its realtime
    operations and the wait for PREOP.
  \<^item> \<open>Cyclic_Task\<close>: \<open>CyclicTask::run\<close>. \<open>Cyclic_Startup\<close>, \<open>Cyclic_Run\<close>: what its log of calls can be, in
    particular that no data is exchanged before readiness. \<open>Task_Frame\<close>: what a run keeps of the world
    when each of its calls keeps it. \<open>Cyclic_Termination\<close>: that it returns.
  \<^item> \<open>Yaml_Config\<close>, \<open>Eni_Config\<close>, \<open>Config_File\<close>: the loaders of pdo_config.cpp and eni_config.cpp.
    \<open>Yaml_Commands\<close>, \<open>Yaml_Bus\<close>, \<open>Eni_Pdos\<close>: what they accept, as codecs.
  \<^item> \<open>Config_Writeback\<close>, \<open>Writeback_Correct\<close>: pdo_config_file.cpp. \<open>Pdo_Discovery\<close>,
    \<open>Discovery_Correct\<close>: pdo_discovery.cpp.
  \<^item> \<open>Pdo_Registration\<close>, \<open>Master_Init\<close>, \<open>Init_Correct\<close>: \<open>EthercatMaster::initialize\<close> and
    \<open>printBusScan\<close>. \<open>Thread_Affinity\<close>: thread_affinity.cpp.
  \<^item> \<open>Process_Main\<close>, \<open>Service_Correct\<close>, \<open>Process_Ends\<close>: \<open>main\<close>, what it exposes, the log of the
    calls that bring the service up and take it down, and that it ends. \<open>Reporter\<close>, \<open>Reporter_Correct\<close>: the reporter thread.
  \<^item> \<open>Console_Text\<close>: the characters of the tables and messages.

  \<^bold>\<open>How the code is represented.\<close> A class is a record, and a member function that changes it returns the
  record. What is not under src/ is a record of functions over a world \<open>'w\<close>: the IgH library (\<open>rt_api\<close>,
  \<open>request_api\<close>, \<open>preop_api\<close>, \<open>init_api\<close>), the operating system (\<open>steady_api\<close>, \<open>cpu_api\<close>,
  \<open>writeback_api\<close>, \<open>service_api\<close> and its extension \<open>process_api\<close>, the sleeps and the stop flag of \<open>task_api\<close>), the parsers
  (\<open>config_files\<close>), and the rocos-shm library (\<open>abi\<close> for its sizes, fields of \<open>service_api\<close> and
  \<open>reporter_api\<close>). Nothing is assumed of these functions unless a theorem says so. Where a theorem speaks
  of the order of calls, a wrapper (\<open>log_task\<close>, \<open>log_service\<close> and their like) runs the same definitions and also records the
  calls. Every early return and exception is a constructor of an error type; error messages and console
  lines are values with the data they show. Machine integers are words and wrap; signed nanosecond
  clocks are integers with their overflow analysed separately; sizes are natural numbers; \<open>double\<close> is any
  linearly ordered field. Its rounding is modelled for the two accumulators, where it makes a difference
  that a property states, and nowhere else. \<open>std::sort\<close> is a stable sort; \<open>edited_order_free\<close> says when
  the order is determined. Null pointers and optional values are \<open>None\<close>.

  \<^bold>\<open>Fuel.\<close> Loops over data are recursive functions. Loops that wait for the environment take fuel, and the
  result says when it was used up: the interrupted sleep and the cycles of the task (\<open>NoFuel\<close>), the
  interrupted write (\<open>SaveUnfinished\<close>, passed on as \<open>DiscoveryUnfinished\<close> and \<open>NeverReturned\<close>), the
  process (\<open>NotTerminated\<close>) and the reporter (\<open>Stuck\<close>). \<open>Cyclic_Termination\<close> gives the cycles that are
  enough from the timeout, the period and the time of the stop request; \<open>Process_Ends\<close> shows that with
  bounded interruptions some fuel is enough for the whole process and for the reporter, and that more
  fuel changes nothing. The safety theorems hold for every fuel. The wait for PREOP counts attempts to the largest
  \<open>std::size_t\<close>, as the code does, and the PREOP configuration counts attempts as the code does; they need
  no fuel.

  \<^bold>\<open>Not modelled.\<close> The rocos-shm submodule (its directory is empty; src/shared_memory_config.hpp only
  includes it), ecrt.h, yaml-cpp and libxml2 are parameters. The usage text is a constant.
  Constructors, destructors and accessors are the fields and the initial records, except where a
  destructor acts (the temporary file, the master, the shared memory), which is a step of its caller.
  The build without the master (\<open>ROCOS_IGH_BUILD_MASTER\<close> off) replaces operations by stubs and is not
  modelled. Memory orderings of the atomics are taken as sequentially consistent. Formatting of
  floating-point numbers and path resolution are parameters of \<open>Console_Text\<close>; single progress
  messages of the wait for PREOP and of the cyclic task are their data or omitted.

  The two threads of the process are modelled apart. To \<open>main\<close> the reporter is the call that starts it
  and the call \<open>pr_stop_reporter\<close> that sets its stop request and joins it, which is total; the lemma
  \<open>reporter_ends\<close> of \<open>Process_Ends\<close> says that the reporter does return after the request. The flags the
  threads share (the ready word, \<open>realtime_prepared\<close>, the stop request) are calls of the world.

  \<^bold>\<open>Where code and documents differ.\<close> README.md gives 5000 ms as the default PREOP timeout in one place,
  the code and another place 10000 ms. The comment of \<open>initialize\<close> says that every failure resets the
  object; a call with a zero timeout or zero attempts, or on a running master, returns without a reset.
  The comment of \<open>parseRuntimeOptions\<close> says that duplicate options are rejected; \<open>--help\<close> may be repeated.
\<close>

end
